(* ===== verification/CK_Prelude.thy ===== *)
theory CK_Prelude
  imports Complex_Main "HOL-Library.Word"
begin

text \<open>
  Shared types and lemmas of the development: names for the machine integers the sources use,
  C++ doubles with their non-finite values, the ways an operation can fail, and generic facts on
  lists, iteration and words that several components need. The \<open>named_theorems\<close> collections
  gather the facts the component proofs share.
\<close>

unbundle bit_operations_syntax

named_theorems std_map_simps \<open>equations of the std::map operations\<close>
named_theorems frame_simps \<open>fields an operation leaves alone\<close>

section \<open>Machine integers\<close>

type_synonym u8 = "8 word"
type_synonym u16 = "16 word"
type_synonym u32 = "32 word"
type_synonym u64 = "64 word"

declare of_nat_unat [simp del]

type_synonym bytes = "u8 list"

lemma unat_ucast_u32: "unat (ucast (x :: u32) :: u64) = unat x"
proof -
  have "unat x < 2 ^ LENGTH(32)" by (rule unsigned_less)
  then show ?thesis by (simp add: unsigned_ucast_eq take_bit_nat_eq_self)
qed

section \<open>Doubles\<close>

text \<open>
  Arithmetic on C++ doubles is idealised to \<open>real\<close> (no rounding). Where the code looks at
  non-finite values (\<open>std::isinf\<close>, \<open>std::isnan\<close>), the value is a \<open>cdouble\<close>.
\<close>

datatype cdouble = Finite real | PosInf | NegInf | NotANumber

definition isinf :: "cdouble \<Rightarrow> bool" where
  "isinf d = (case d of PosInf \<Rightarrow> True | NegInf \<Rightarrow> True | _ \<Rightarrow> False)"

definition isnan :: "cdouble \<Rightarrow> bool" where
  "isnan d = (case d of NotANumber \<Rightarrow> True | _ \<Rightarrow> False)"

lemma finite_cdouble: "(\<not> isinf d \<and> \<not> isnan d) = (\<exists>x. d = Finite x)"
  by (cases d) (auto simp: isinf_def isnan_def)

text \<open>
  Conversion of a double to \<open>uint16_t\<close>: truncation towards zero where the truncated value is
  representable, undefined behaviour (\<open>None\<close>) elsewhere.
\<close>

definition trunc_real :: "real \<Rightarrow> int" where
  "trunc_real x = (if x < 0 then \<lceil>x\<rceil> else \<lfloor>x\<rfloor>)"

definition double_to_u16 :: "cdouble \<Rightarrow> u16 option" where
  "double_to_u16 d = (case d of
     Finite x \<Rightarrow> (let n = trunc_real x in
       if 0 \<le> n \<and> n < 65536 then Some (word_of_int n) else None)
   | _ \<Rightarrow> None)"

section \<open>Failures\<close>

text \<open>What a run of the code can end in instead of a value.\<close>

datatype fault =
    NullDereference
  | UndefinedBehaviour
  | BufferOverflow
  | ThrownException string

section \<open>Iteration\<close>

lemma funpow_invariant:
  assumes "P s" and "\<And>t. P t \<Longrightarrow> P (f t)"
  shows "P ((f ^^ n) s)"
  using assms by (induction n) auto

lemma funpow_Suc_outer: "(f ^^ Suc n) s = f ((f ^^ n) s)"
  by simp

lemma fold_invariant_list:
  assumes "P s" and "\<And>x t. x \<in> set xs \<Longrightarrow> P t \<Longrightarrow> P (f x t)"
  shows "P (fold f xs s)"
  using assms by (induction xs arbitrary: s) auto

text \<open>A fold whose steps touch one key each, seen at one key.\<close>

lemma fold_pointwise:
  assumes "distinct xs"
    and "\<And>x t. x \<noteq> k \<Longrightarrow> g (f x t) = g t"
    and "\<And>t. g (f k t) = h (g t)"
  shows "g (fold f xs s) = (if k \<in> set xs then h (g s) else g s)"
  using assms(1)
proof (induction xs arbitrary: s)
  case Nil
  then show ?case by simp
next
  case (Cons x xs)
  then show ?case
    using assms(2)[of x s] assms(3)[of s] by (cases "x = k") auto
qed

section \<open>Chunks of a list\<close>

lemma take_drop_append_eq: "take n xs @ drop n xs = xs"
  by simp

end
