(* ===== verification/Std_Map.thy ===== *)
theory Std_Map
  imports CK_Prelude
begin

text \<open>
  \<open>std::map\<close>, the ordered map the managers keep their tables in, as an association list in
  strictly increasing key order: \<open>operator[]\<close>, \<open>count\<close>, \<open>insert or assign\<close>, \<open>erase\<close>,
  \<open>upper_bound\<close> and iteration in key order. The locale \<open>kv_store\<close> is the interface the
  managers rely on; it is interpreted here by the list model.
\<close>

type_synonym ('k, 'v) std_map = "('k \<times> 'v) list"

fun sm_put :: "'k::linorder \<Rightarrow> 'v \<Rightarrow> ('k, 'v) std_map \<Rightarrow> ('k, 'v) std_map" where
  "sm_put k v [] = [(k, v)]"
| "sm_put k v (e # m) =
     (if fst e < k then e # sm_put k v m
      else if fst e = k then (k, v) # m
      else (k, v) # e # m)"

definition sm_erase :: "'k \<Rightarrow> ('k, 'v) std_map \<Rightarrow> ('k, 'v) std_map" where
  "sm_erase k m = filter (\<lambda>e. fst e \<noteq> k) m"

definition sm_get :: "('k, 'v) std_map \<Rightarrow> 'k \<Rightarrow> 'v option" where
  "sm_get m k = map_of m k"

definition sm_count :: "('k, 'v) std_map \<Rightarrow> 'k \<Rightarrow> bool" where
  "sm_count m k \<longleftrightarrow> sm_get m k \<noteq> None"

definition sm_keys :: "('k, 'v) std_map \<Rightarrow> 'k list" where
  "sm_keys m = map fst m"

text \<open>\<open>m[k]\<close> read through \<open>operator[]\<close>: a missing key is inserted with the default value.\<close>

definition sm_at :: "'v \<Rightarrow> 'k::linorder \<Rightarrow> ('k, 'v) std_map \<Rightarrow> 'v \<times> ('k, 'v) std_map" where
  "sm_at dflt k m = (case sm_get m k of Some v \<Rightarrow> (v, m) | None \<Rightarrow> (dflt, sm_put k dflt m))"

definition sm_ok :: "('k::linorder, 'v) std_map \<Rightarrow> bool" where
  "sm_ok m \<longleftrightarrow> sorted_wrt (<) (map fst m)"

lemma sm_ok_Nil [simp]: "sm_ok []"
  by (simp add: sm_ok_def)

lemma sm_ok_distinct: "sm_ok m \<Longrightarrow> distinct (sm_keys m)"
  by (simp add: sm_ok_def sm_keys_def strict_sorted_iff)

lemma sm_get_Nil [simp]: "sm_get [] k = None"
  by (simp add: sm_get_def)

lemma sm_get_erase [simp, std_map_simps]: "sm_get (sm_erase k m) j = (if j = k then None else sm_get m j)"
  by (induction m) (auto simp: sm_erase_def sm_get_def)

lemma keys_sm_put: "fst ` set (sm_put k v m) = insert k (fst ` set m)"
  by (induction m) auto

lemma sm_ok_put [simp]: "sm_ok m \<Longrightarrow> sm_ok (sm_put k v m)"
proof (induction m)
  case Nil
  then show ?case by (simp add: sm_ok_def)
next
  case (Cons e m)
  then have "sm_ok (sm_put k v m)" by (simp add: sm_ok_def)
  moreover have "\<forall>x \<in> fst ` set (sm_put k v m). fst e < x" if "fst e < k"
    using Cons.prems that by (simp only: keys_sm_put) (auto simp: sm_ok_def)
  ultimately show ?case
    using Cons.prems by (force simp: sm_ok_def)
qed

lemma sm_get_put [simp, std_map_simps]: "sm_ok m \<Longrightarrow> sm_get (sm_put k v m) j = (if j = k then Some v else sm_get m j)"
proof (induction m)
  case Nil
  then show ?case by (simp add: sm_get_def)
next
  case (Cons e m)
  then have "sm_get (sm_put k v m) j = (if j = k then Some v else sm_get m j)"
    by (simp add: sm_ok_def)
  then show ?case
    using Cons.prems by (cases e) (auto simp: sm_get_def sm_ok_def)
qed

lemma sm_ok_erase [simp]: "sm_ok m \<Longrightarrow> sm_ok (sm_erase k m)"
  by (auto simp: sm_ok_def sm_erase_def sorted_wrt_map intro: sorted_wrt_filter)

lemma sm_keys_get: "(k \<in> set (sm_keys m)) = (sm_get m k \<noteq> None)"
  by (induction m) (auto simp: sm_keys_def sm_get_def)

lemma sm_count_put [simp, std_map_simps]: "sm_ok m \<Longrightarrow> sm_count (sm_put k v m) j = (j = k \<or> sm_count m j)"
  by (simp add: sm_count_def)

lemma sm_count_erase [simp, std_map_simps]: "sm_count (sm_erase k m) j = (j \<noteq> k \<and> sm_count m j)"
  by (simp add: sm_count_def)

lemma sm_count_Nil [simp]: "\<not> sm_count [] k"
  by (simp add: sm_count_def)

lemma sm_at_fst: "fst (sm_at d k m) = (case sm_get m k of Some v \<Rightarrow> v | None \<Rightarrow> d)"
  by (simp add: sm_at_def split: option.split)

lemma sm_ok_at [simp]: "sm_ok m \<Longrightarrow> sm_ok (snd (sm_at d k m))"
  by (simp add: sm_at_def split: option.split)

lemma sm_get_at: "sm_ok m \<Longrightarrow>
    sm_get (snd (sm_at d k m)) j = (if j = k then Some (fst (sm_at d k m)) else sm_get m j)"
  by (auto simp: sm_at_def split: option.split)

lemma sm_get_in_set: "sm_ok m \<Longrightarrow> (sm_get m k = Some v) = ((k, v) \<in> set m)"
  using sm_ok_distinct[of m] by (simp add: sm_get_def sm_keys_def)

lemma sm_put_same: "sm_ok m \<Longrightarrow> sm_get m k = Some v \<Longrightarrow> sm_put k v m = m"
proof (induction m)
  case (Cons e m)
  have "sm_ok m" using Cons.prems by (simp add: sm_ok_def)
  moreover have "fst e < k" if "fst e \<noteq> k"
  proof -
    have "map_of m k = Some v" using Cons.prems(2) that by (cases e) (simp add: sm_get_def)
    then have "k \<in> fst ` set m" by (rule map_of_SomeD[THEN image_eqI[rotated]]) simp
    then show ?thesis using Cons.prems(1) by (auto simp: sm_ok_def)
  qed
  ultimately show ?case
    using Cons by (cases e) (auto simp: sm_get_def)
qed (simp add: sm_get_def)

section \<open>The store interface\<close>

locale kv_store =
  fixes get :: "'m \<Rightarrow> 'k \<Rightarrow> 'v option"
    and put :: "'k \<Rightarrow> 'v \<Rightarrow> 'm \<Rightarrow> 'm"
    and erase :: "'k \<Rightarrow> 'm \<Rightarrow> 'm"
    and ok :: "'m \<Rightarrow> bool"
  assumes get_put: "ok m \<Longrightarrow> get (put k v m) j = (if j = k then Some v else get m j)"
    and get_erase: "ok m \<Longrightarrow> get (erase k m) j = (if j = k then None else get m j)"
    and ok_put: "ok m \<Longrightarrow> ok (put k v m)"
    and ok_erase: "ok m \<Longrightarrow> ok (erase k m)"
begin

definition put_all :: "('v \<Rightarrow> 'k) \<Rightarrow> 'v list \<Rightarrow> 'm \<Rightarrow> 'm" where
  "put_all key vs m = fold (\<lambda>v. put (key v) v) vs m"

lemma ok_put_all: "ok m \<Longrightarrow> ok (put_all key vs m)"
  unfolding put_all_def by (rule fold_invariant_list) (auto intro: ok_put)

text \<open>Writing a list of entries keeps, at each key, the last entry with that key.\<close>

lemma get_put_all:
  "ok m \<Longrightarrow> get (put_all key vs m) j =
     (case find (\<lambda>v. key v = j) (rev vs) of Some v \<Rightarrow> Some v | None \<Rightarrow> get m j)"
proof (induction vs rule: rev_induct)
  case Nil
  then show ?case by (simp add: put_all_def)
next
  case (snoc v vs)
  have "put_all key (vs @ [v]) m = put (key v) v (put_all key vs m)"
    by (simp add: put_all_def)
  then show ?case
    using snoc by (auto simp: get_put ok_put_all)
qed

lemma put_erase_same: "ok m \<Longrightarrow> get (put k v (erase k m)) = get (put k v m)"
  by (rule ext) (simp add: get_put get_erase ok_erase)

end

interpretation smap: kv_store sm_get sm_put sm_erase sm_ok
  by unfold_locales simp_all

end
