(* ===== verification/External_Control.thy ===== *)
theory External_Control
  imports CK_Prelude
begin

text \<open>
  \<open>ExternalControlManager\<close>: the dead-man counter that decides whether the coprocessor (ROS) or
  the on-board failover code drives the robot. A received message loads it, a heartbeat counts it
  down, and it is connected while positive.
\<close>

record external_control =
  mLastConnectionTime :: int

definition ExternalControlManager_init :: external_control where
  "ExternalControlManager_init = \<lparr>mLastConnectionTime = 0\<rparr>"

definition externalControlMsgReceived :: "external_control \<Rightarrow> external_control" where
  "externalControlMsgReceived s = s\<lparr>mLastConnectionTime := 50\<rparr>"

definition isExternalControlConnected :: "external_control \<Rightarrow> bool" where
  "isExternalControlConnected s \<longleftrightarrow> mLastConnectionTime s > 0"

definition external_processHeartbeat :: "external_control \<Rightarrow> external_control" where
  "external_processHeartbeat s =
     (if mLastConnectionTime s > 0
      then s\<lparr>mLastConnectionTime := mLastConnectionTime s - 1\<rparr> else s)"

definition external_ok :: "external_control \<Rightarrow> bool" where
  "external_ok s \<longleftrightarrow> 0 \<le> mLastConnectionTime s \<and> mLastConnectionTime s \<le> 50"

lemma external_ok_init: "external_ok ExternalControlManager_init"
  by (simp add: external_ok_def ExternalControlManager_init_def)

lemma external_ok_received: "external_ok (externalControlMsgReceived s)"
  by (simp add: external_ok_def externalControlMsgReceived_def)

lemma external_ok_heartbeat: "external_ok s \<Longrightarrow> external_ok (external_processHeartbeat s)"
  by (simp add: external_ok_def external_processHeartbeat_def)

lemma external_heartbeat_iterate:
  "0 \<le> mLastConnectionTime s \<Longrightarrow>
   mLastConnectionTime ((external_processHeartbeat ^^ n) s) = max 0 (mLastConnectionTime s - int n)"
  by (induction n) (auto simp: external_processHeartbeat_def)

text \<open>A received message keeps the external controller connected for exactly the next 49
  heartbeats, whatever the state before it; the 50th heartbeat disconnects it. At the
  20 ms period of the heartbeat task this is a one second timeout.\<close>

theorem external_connection_lifetime:
  "isExternalControlConnected ((external_processHeartbeat ^^ n) (externalControlMsgReceived s))
     \<longleftrightarrow> n < 50"
  by (auto simp: isExternalControlConnected_def external_heartbeat_iterate
      externalControlMsgReceived_def)

end
