(* ===== verification/CK_Math.thy ===== *)
theory CK_Math
  imports Std_Map
begin

text \<open>
  The numeric helpers of \<open>utils/CKMath.hpp\<close>, \<open>utils/Units.hpp\<close> and
  \<open>utils/AutoStartPositionAnglePair.hpp\<close>, over reals. Loops (\<open>normalizeYaw\<close>) are
  recursive functions with a termination proof; reading an empty interpolation table is
  undefined behaviour in the code and \<open>None\<close> here.
\<close>

section \<open>Comparison and clamping\<close>

definition ck_max :: "real \<Rightarrow> real \<Rightarrow> real" where
  "ck_max a b = (if a > b then a else b)"

definition ck_min :: "real \<Rightarrow> real \<Rightarrow> real" where
  "ck_min a b = (if a < b then a else b)"

definition signum :: "real \<Rightarrow> int" where
  "signum v = (if 0 < v then 1 else 0) - (if v < 0 then 1 else 0)"

definition inRange :: "real \<Rightarrow> real \<Rightarrow> real \<Rightarrow> bool" where
  "inRange v minVal maxVal \<longleftrightarrow> v \<ge> minVal \<and> v \<le> maxVal"

definition inRange_delta :: "real \<Rightarrow> real \<Rightarrow> bool" where
  "inRange_delta v delta \<longleftrightarrow> v \<ge> - delta \<and> v \<le> delta"

definition epsilonEquals :: "real \<Rightarrow> real \<Rightarrow> real \<Rightarrow> bool" where
  "epsilonEquals a b epsilon \<longleftrightarrow> a - epsilon \<le> b \<and> a + epsilon \<ge> b"

definition kEpsilon :: real where
  "kEpsilon = 1 / 10 ^ 12"

definition epsilonEquals_default :: "real \<Rightarrow> real \<Rightarrow> bool" where
  "epsilonEquals_default a b \<longleftrightarrow> epsilonEquals a b kEpsilon"

definition limit :: "real \<Rightarrow> real \<Rightarrow> real \<Rightarrow> real" where
  "limit v minVal maxVal = ck_min maxVal (ck_max minVal v)"

definition limit_magnitude :: "real \<Rightarrow> real \<Rightarrow> real" where
  "limit_magnitude v maxMagnitude = limit v (- maxMagnitude) maxMagnitude"

definition interpolate :: "real \<Rightarrow> real \<Rightarrow> real \<Rightarrow> real" where
  "interpolate a b x = a + (b - a) * limit x 0 1"

lemma ck_max_eq: "ck_max a b = max a b"
  by (simp add: ck_max_def)

lemma ck_min_eq: "ck_min a b = min a b"
  by (simp add: ck_min_def)

lemma limit_in_range: "lo \<le> hi \<Longrightarrow> inRange (limit v lo hi) lo hi"
  by (simp add: inRange_def limit_def ck_min_eq ck_max_eq)

lemma limit_id: "inRange v lo hi \<Longrightarrow> limit v lo hi = v"
  by (simp add: inRange_def limit_def ck_min_eq ck_max_eq)

lemma limit_magnitude_bound: "0 \<le> m \<Longrightarrow> \<bar>limit_magnitude v m\<bar> \<le> m"
  using limit_in_range[of "- m" m v] by (auto simp: limit_magnitude_def inRange_def)

section \<open>Joystick deadband\<close>

definition handleDeadband :: "real \<Rightarrow> real \<Rightarrow> real" where
  "handleDeadband v deadband = (if \<bar>v\<bar> > \<bar>deadband\<bar> then v else 0)"

definition normalizeWithDeadband :: "real \<Rightarrow> real \<Rightarrow> real" where
  "normalizeWithDeadband v0 deadband =
     (let v = handleDeadband v0 deadband
      in if v \<noteq> 0 then of_int (signum v) * ((\<bar>v\<bar> - deadband) / (1 - deadband)) else v)"

lemma normalizeWithDeadband_inside: "\<bar>v\<bar> \<le> d \<Longrightarrow> normalizeWithDeadband v d = 0"
  by (simp add: normalizeWithDeadband_def handleDeadband_def Let_def)

lemma normalizeWithDeadband_above:
  "0 \<le> d \<Longrightarrow> d < v \<Longrightarrow> normalizeWithDeadband v d = (v - d) / (1 - d)"
  by (simp add: normalizeWithDeadband_def handleDeadband_def Let_def signum_def)

lemma normalizeWithDeadband_below:
  "0 \<le> d \<Longrightarrow> v < - d \<Longrightarrow> normalizeWithDeadband v d = - ((- v - d) / (1 - d))"
  by (simp add: normalizeWithDeadband_def handleDeadband_def Let_def signum_def divide_inverse algebra_simps)

lemmas deadband_cases =
  normalizeWithDeadband_inside normalizeWithDeadband_above normalizeWithDeadband_below

lemma normalizeWithDeadband_odd:
  "normalizeWithDeadband (- v) d = - normalizeWithDeadband v d"
  by (simp add: normalizeWithDeadband_def handleDeadband_def Let_def signum_def divide_inverse algebra_simps)

lemma normalizeWithDeadband_mono_nonneg:
  assumes "0 \<le> d" "d < 1" "0 \<le> v" "v \<le> w"
  shows "normalizeWithDeadband v d \<le> normalizeWithDeadband w d"
  using assms by (cases "v \<le> d"; cases "w \<le> d") (auto simp: deadband_cases divide_right_mono)

lemma normalizeWithDeadband_sign:
  assumes "0 \<le> d" "d < 1" "0 \<le> v"
  shows "0 \<le> normalizeWithDeadband v d"
  using assms by (cases "v \<le> d") (auto simp: deadband_cases)

text \<open>For a deadband in [0,1), the normalised joystick value is monotone in the raw value,
  is exactly zero inside the deadband, and maps full deflection to exactly plus or minus one, so
  raw values in [-1,1] stay in [-1,1].\<close>

theorem deadband_profile:
  assumes "0 \<le> d" and "d < 1"
  shows "mono (\<lambda>v. normalizeWithDeadband v d)
    \<and> (\<forall>v. normalizeWithDeadband v d = 0 \<longleftrightarrow> \<bar>v\<bar> \<le> d)
    \<and> normalizeWithDeadband 1 d = 1 \<and> normalizeWithDeadband (-1) d = -1"
proof (intro conjI allI)
  show "mono (\<lambda>v. normalizeWithDeadband v d)"
  proof
    fix v w :: real
    assume vw: "v \<le> w"
    consider "0 \<le> v" | "v < 0" "0 \<le> w" | "w < 0" by linarith
    then show "normalizeWithDeadband v d \<le> normalizeWithDeadband w d"
    proof cases
      case 1
      then show ?thesis using vw assms by (intro normalizeWithDeadband_mono_nonneg) auto
    next
      case 2
      then have "0 \<le> normalizeWithDeadband (- v) d" "0 \<le> normalizeWithDeadband w d"
        using assms by (auto intro: normalizeWithDeadband_sign)
      then show ?thesis by (simp add: normalizeWithDeadband_odd)
    next
      case 3
      then have "normalizeWithDeadband (- w) d \<le> normalizeWithDeadband (- v) d"
        using vw assms by (intro normalizeWithDeadband_mono_nonneg) auto
      then show ?thesis by (simp add: normalizeWithDeadband_odd)
    qed
  qed
next
  fix v :: real
  consider "\<bar>v\<bar> \<le> d" | "v > d" | "v < - d" by linarith
  then show "normalizeWithDeadband v d = 0 \<longleftrightarrow> \<bar>v\<bar> \<le> d"
    using assms by cases (auto simp: deadband_cases)
qed (use assms in \<open>auto simp: deadband_cases\<close>)

theorem deadband_profile_witness:
  "mono (\<lambda>v. normalizeWithDeadband v (1 / 10)) \<and> normalizeWithDeadband 1 (1 / 10) = 1"
  using deadband_profile[of "1 / 10"] by simp

section \<open>Piecewise linear interpolation in a table\<close>

definition interpolate_map :: "(real, real) std_map \<Rightarrow> real \<Rightarrow> real option" where
  "interpolate_map data x =
     (case dropWhile (\<lambda>e. fst e \<le> x) data of
        [] \<Rightarrow> (case data of [] \<Rightarrow> None | _ \<Rightarrow> Some (snd (last data)))
      | i # _ \<Rightarrow>
          (case takeWhile (\<lambda>e. fst e \<le> x) data of
             [] \<Rightarrow> Some (snd i)
           | below \<Rightarrow>
               (let l = last below; delta = (x - fst l) / (fst i - fst l)
                in Some (delta * snd i + (1 - delta) * snd l))))"

lemma interpolate_map_beyond:
  "dropWhile (\<lambda>e. fst e \<le> x) data = [] \<Longrightarrow> data \<noteq> [] \<Longrightarrow> interpolate_map data x = Some (snd (last data))"
  by (simp only: interpolate_map_def list.case neq_Nil_conv) auto

lemma interpolate_map_before:
  "dropWhile (\<lambda>e. fst e \<le> x) data = i # rest \<Longrightarrow> takeWhile (\<lambda>e. fst e \<le> x) data = []
    \<Longrightarrow> interpolate_map data x = Some (snd i)"
  by (simp add: interpolate_map_def)

lemma interpolate_map_between:
  "dropWhile (\<lambda>e. fst e \<le> x) data = i # rest \<Longrightarrow> takeWhile (\<lambda>e. fst e \<le> x) data = below
    \<Longrightarrow> below \<noteq> [] \<Longrightarrow> l = last below \<Longrightarrow> t = (x - fst l) / (fst i - fst l)
    \<Longrightarrow> interpolate_map data x = Some (t * snd i + (1 - t) * snd l)"
  by (simp add: interpolate_map_def Let_def split: list.split)

lemma interpolate_map_split:
  fixes x :: real
  assumes "\<forall>e\<in>set below. fst e \<le> x" "\<forall>e\<in>set upper. x < fst e"
  shows "takeWhile (\<lambda>e. fst e \<le> x) (below @ upper) = below
    \<and> dropWhile (\<lambda>e. fst e \<le> x) (below @ upper) = upper"
proof -
  have "takeWhile (\<lambda>e. fst e \<le> x) upper = [] \<and> dropWhile (\<lambda>e. fst e \<le> x) upper = upper"
    using assms(2) by (cases upper) auto
  then show ?thesis using assms(1) by simp
qed

lemma convex_between:
  fixes a b lo hi t :: real
  assumes "0 \<le> t" "t \<le> 1" "lo \<le> a" "a \<le> hi" "lo \<le> b" "b \<le> hi"
  shows "lo \<le> t * a + (1 - t) * b \<and> t * a + (1 - t) * b \<le> hi"
proof -
  have "t * lo + (1 - t) * lo \<le> t * a + (1 - t) * b"
    using assms by (intro add_mono mult_left_mono) auto
  moreover have "t * a + (1 - t) * b \<le> t * hi + (1 - t) * hi"
    using assms by (intro add_mono mult_left_mono) auto
  ultimately show ?thesis by (simp add: algebra_simps)
qed

lemma interpolate_map_bounds:
  assumes ne: "data \<noteq> []" and range: "\<forall>e\<in>set data. lo \<le> snd e \<and> snd e \<le> hi"
  shows "\<exists>y. interpolate_map data x = Some y \<and> lo \<le> y \<and> y \<le> hi"
proof (cases "dropWhile (\<lambda>e. fst e \<le> x) data")
  case Nil
  then show ?thesis
    using ne range interpolate_map_beyond[OF _ ne] last_in_set[of data] by blast
next
  case (Cons i upper)
  define below where "below = takeWhile (\<lambda>e. fst e \<le> x) data"
  have i: "i \<in> set data" "x < fst i"
    using Cons set_dropWhileD[of i "\<lambda>e. fst e \<le> x" data] hd_dropWhile[of "\<lambda>e. fst e \<le> x" data]
    by auto
  show ?thesis
  proof (cases "below = []")
    case True
    then show ?thesis
      using interpolate_map_before[OF Cons] i range by (simp add: below_def)
  next
    case False
    let ?l = "last below"
    have l: "?l \<in> set data" "fst ?l \<le> x"
      using False set_takeWhileD[of ?l "\<lambda>e. fst e \<le> x" data] last_in_set[of below]
      by (auto simp: below_def)
    let ?t = "(x - fst ?l) / (fst i - fst ?l)"
    have t: "0 \<le> ?t" "?t \<le> 1"
      using l i by (auto simp: divide_simps)
    have "interpolate_map data x = Some (?t * snd i + (1 - ?t) * snd ?l)"
      using Cons False by (intro interpolate_map_between) (auto simp: below_def)
    then show ?thesis
      using convex_between[OF t, of lo "snd i" hi "snd ?l"] range l i by auto
  qed
qed

lemma interpolate_map_knot:
  assumes ok: "sm_ok data" and k: "sm_get data k = Some v"
  shows "interpolate_map data k = Some v"
proof -
  from k ok have "(k, v) \<in> set data" by (simp add: sm_get_in_set)
  then obtain b a where d: "data = b @ (k, v) # a"
    by (meson split_list)
  have sorted: "\<forall>e\<in>set b. fst e \<le> k" "\<forall>e\<in>set a. k < fst e"
    using ok d by (force simp: sm_ok_def sorted_wrt_append)+
  have split: "takeWhile (\<lambda>e. fst e \<le> k) data = b @ [(k, v)]" "dropWhile (\<lambda>e. fst e \<le> k) data = a"
    using interpolate_map_split[of "b @ [(k, v)]" k a] sorted d by simp_all
  show ?thesis
  proof (cases a)
    case Nil
    then show ?thesis using interpolate_map_beyond[of k data] split d by simp
  next
    case (Cons i rest)
    then show ?thesis
      using interpolate_map_between[of k data i rest "b @ [(k, v)]" "(k, v)" 0] split by simp
  qed
qed

text \<open>Table interpolation passes through every knot of the table and never leaves the range
  of the tabulated values, also outside the tabulated keys; it is undefined only for the empty
  table.\<close>

theorem interpolation_table:
  assumes "sm_ok data"
  shows "(\<forall>k v. sm_get data k = Some v \<longrightarrow> interpolate_map data k = Some v)
    \<and> (interpolate_map data x = None \<longleftrightarrow> data = [])
    \<and> (\<forall>lo hi y. (\<forall>e\<in>set data. lo \<le> snd e \<and> snd e \<le> hi) \<longrightarrow>
          interpolate_map data x = Some y \<longrightarrow> lo \<le> y \<and> y \<le> hi)"
proof (intro conjI allI impI)
  show "interpolate_map data k = Some v" if "sm_get data k = Some v" for k v
    using assms that by (rule interpolate_map_knot)
  show "interpolate_map data x = None \<longleftrightarrow> data = []"
  proof (cases "data = []")
    case True
    then show ?thesis by (simp add: interpolate_map_def)
  next
    case False
    have "\<forall>e\<in>set data. Min (snd ` set data) \<le> snd e \<and> snd e \<le> Max (snd ` set data)"
      by simp
    from interpolate_map_bounds[OF False this, of x] show ?thesis using False by force
  qed
  fix lo hi y
  assume range: "\<forall>e\<in>set data. lo \<le> snd e \<and> snd e \<le> hi" and y: "interpolate_map data x = Some y"
  then have "data \<noteq> []" by (auto simp: interpolate_map_def)
  from interpolate_map_bounds[OF this range, of x] y show "lo \<le> y" "y \<le> hi" by auto
qed

theorem interpolation_table_witness:
  "interpolate_map [(0, 10), (2, 20 :: real)] 2 = Some 20"
proof -
  have "sm_ok [(0 :: real, 10), (2, 20 :: real)]" by (simp add: sm_ok_def)
  from interpolation_table[OF this] show ?thesis by (simp add: sm_get_def)
qed

text \<open>\<open>interpolateGeometry2d\<close>: the same table of values that interpolate themselves, \<open>between a b t\<close> the
  method of \<open>a\<close>.\<close>

definition interpolateGeometry2d ::
  "('v \<Rightarrow> 'v \<Rightarrow> real \<Rightarrow> 'v) \<Rightarrow> (real, 'v) std_map \<Rightarrow> real \<Rightarrow> 'v option" where
  "interpolateGeometry2d between data x =
     (case dropWhile (\<lambda>e. fst e \<le> x) data of
        [] \<Rightarrow> (case data of [] \<Rightarrow> None | _ \<Rightarrow> Some (snd (last data)))
      | i # _ \<Rightarrow>
          (case takeWhile (\<lambda>e. fst e \<le> x) data of
             [] \<Rightarrow> Some (snd i)
           | below \<Rightarrow>
               (let l = last below; delta = (x - fst l) / (fst i - fst l)
                in Some (between (snd i) (snd l) delta))))"

text \<open>It calls the method on the upper value: a value that interpolates from itself at zero to its argument at
  one runs through the interval backwards, and jumps to the upper value at the lower key.\<close>

lemma interpolateGeometry2d_backwards:
  assumes "interpolate_map [(k, v), (k', v')] x = Some y" and "k \<le> x" and "x < k'"
  shows "interpolateGeometry2d (\<lambda>a b t. a + t * (b - a)) [(k, v), (k', v')] x = Some (v + v' - y)"
  using assms by (auto simp: interpolate_map_def interpolateGeometry2d_def Let_def algebra_simps)

section \<open>Yaw normalisation\<close>

text \<open>The two \<open>while\<close> loops of \<open>normalizeYaw\<close>. Over the reals both stop for every input.\<close>

function yaw_down :: "real \<Rightarrow> real" where
  "yaw_down a = (if a > 180 then yaw_down (a - 360) else a)"
  by pat_completeness auto
termination
proof (relation "measure (\<lambda>a. nat \<lceil>a - 180\<rceil>)")
  fix a :: real
  assume "a > 180"
  moreover have "\<lceil>a - 360 - 180\<rceil> = \<lceil>a - 180\<rceil> - 360" by linarith
  ultimately show "(a - 360, a) \<in> measure (\<lambda>a. nat \<lceil>a - 180\<rceil>)" by simp
qed simp

function yaw_up :: "real \<Rightarrow> real" where
  "yaw_up a = (if a < -180 then yaw_up (a + 360) else a)"
  by pat_completeness auto
termination
proof (relation "measure (\<lambda>a. nat \<lceil>- 180 - a\<rceil>)")
  fix a :: real
  assume "a < -180"
  moreover have "\<lceil>- 180 - (a + 360)\<rceil> = \<lceil>- 180 - a\<rceil> - 360" by linarith
  ultimately show "(a + 360, a) \<in> measure (\<lambda>a. nat \<lceil>- 180 - a\<rceil>)" by simp
qed simp

declare yaw_down.simps [simp del] yaw_up.simps [simp del]

definition normalizeYaw :: "real \<Rightarrow> real" where
  "normalizeYaw input_angle_deg = yaw_up (yaw_down input_angle_deg)"

definition yaw_equiv :: "real \<Rightarrow> real \<Rightarrow> bool" where
  "yaw_equiv a b \<longleftrightarrow> (\<exists>k::int. a = b + 360 * of_int k)"

lemma yaw_equiv_refl [simp]: "yaw_equiv a a"
  unfolding yaw_equiv_def by (rule exI[of _ 0]) simp

lemma yaw_equiv_sym: "yaw_equiv a b \<Longrightarrow> yaw_equiv b a"
  unfolding yaw_equiv_def by (metis add_uminus_conv_diff mult_minus_right of_int_minus
      add.assoc add.right_neutral right_minus)

lemma yaw_equiv_trans: "yaw_equiv a b \<Longrightarrow> yaw_equiv b c \<Longrightarrow> yaw_equiv a c"
proof -
  assume "yaw_equiv a b" "yaw_equiv b c"
  then obtain k l :: int where "a = b + 360 * of_int k" "b = c + 360 * of_int l"
    by (auto simp: yaw_equiv_def)
  then have "a = c + 360 * of_int (k + l)" by (simp add: algebra_simps)
  then show ?thesis unfolding yaw_equiv_def by blast
qed

lemma yaw_equiv_add:
  assumes "yaw_equiv a b" "yaw_equiv c d"
  shows "yaw_equiv (a + c) (b + d)" "yaw_equiv (a - c) (b - d)"
proof -
  obtain k l :: int where "a = b + 360 * of_int k" "c = d + 360 * of_int l"
    using assms by (auto simp: yaw_equiv_def)
  then have "a + c = (b + d) + 360 * of_int (k + l)" "a - c = (b - d) + 360 * of_int (k - l)"
    by (simp_all add: algebra_simps)
  then show "yaw_equiv (a + c) (b + d)" "yaw_equiv (a - c) (b - d)"
    unfolding yaw_equiv_def by blast+
qed

lemma yaw_equiv_shift: "yaw_equiv (a + 360 * of_int k) a"
  by (auto simp: yaw_equiv_def)

lemma yaw_down_spec: "yaw_down a \<le> 180 \<and> yaw_equiv (yaw_down a) a \<and> (-180 \<le> a \<longrightarrow> -180 \<le> yaw_down a)"
proof (induction a rule: yaw_down.induct)
  case (1 a)
  show ?case
  proof (cases "a > 180")
    case True
    then have "yaw_down a = yaw_down (a - 360)" by (simp add: yaw_down.simps[of a])
    moreover have "yaw_equiv (a - 360) a" using yaw_equiv_shift[of a "-1"] by simp
    ultimately show ?thesis using 1[OF True] True by (auto intro: yaw_equiv_trans)
  next
    case False
    then show ?thesis by (simp add: yaw_down.simps[of a])
  qed
qed

lemma yaw_up_spec: "-180 \<le> yaw_up a \<and> yaw_equiv (yaw_up a) a \<and> (a \<le> 180 \<longrightarrow> yaw_up a \<le> 180)"
proof (induction a rule: yaw_up.induct)
  case (1 a)
  show ?case
  proof (cases "a < -180")
    case True
    then have "yaw_up a = yaw_up (a + 360)" by (simp add: yaw_up.simps[of a])
    moreover have "yaw_equiv (a + 360) a" using yaw_equiv_shift[of a 1] by simp
    ultimately show ?thesis using 1[OF True] True by (auto intro: yaw_equiv_trans)
  next
    case False
    then show ?thesis by (simp add: yaw_up.simps[of a])
  qed
qed

lemma normalizeYaw_range: "-180 \<le> normalizeYaw a \<and> normalizeYaw a \<le> 180"
  using yaw_down_spec[of a] yaw_up_spec[of "yaw_down a"] by (simp add: normalizeYaw_def)

lemma normalizeYaw_equiv: "yaw_equiv (normalizeYaw a) a"
  using yaw_down_spec[of a] yaw_up_spec[of "yaw_down a"]
  unfolding normalizeYaw_def by (blast intro: yaw_equiv_trans)

lemma normalizeYaw_id: "-180 \<le> a \<Longrightarrow> a \<le> 180 \<Longrightarrow> normalizeYaw a = a"
  by (simp add: normalizeYaw_def yaw_down.simps[of a] yaw_up.simps[of a])

lemma yaw_unique:
  assumes "yaw_equiv a b" "\<bar>a\<bar> < 180" "\<bar>b\<bar> \<le> 180"
  shows "a = b"
proof -
  obtain k :: int where k: "a = b + 360 * of_int k" using assms(1) by (auto simp: yaw_equiv_def)
  have "a - b < 360" "b - a < 360" using assms(2,3) by linarith+
  then have "k = 0" using k by simp
  then show ?thesis using k by simp
qed

text \<open>\<open>normalizeYaw\<close> stops for every angle with a result in [-180,180] that differs from the
  input by whole turns, leaves angles already in range alone, and two angles that differ by whole
  turns normalise to the same value unless that value is plus or minus 180.\<close>

theorem normalizeYaw_canonical:
  "\<bar>normalizeYaw a\<bar> \<le> 180 \<and> yaw_equiv (normalizeYaw a) a
    \<and> (\<bar>a\<bar> \<le> 180 \<longrightarrow> normalizeYaw a = a)
    \<and> (yaw_equiv a b \<longrightarrow> \<bar>normalizeYaw a\<bar> < 180 \<longrightarrow> normalizeYaw b = normalizeYaw a)"
proof (intro conjI impI)
  show r: "\<bar>normalizeYaw c\<bar> \<le> 180" for c using normalizeYaw_range[of c] by auto
  show "yaw_equiv (normalizeYaw a) a" by (rule normalizeYaw_equiv)
  show "normalizeYaw a = a" if "\<bar>a\<bar> \<le> 180" using that by (simp add: normalizeYaw_id)
  assume e: "yaw_equiv a b" and s: "\<bar>normalizeYaw a\<bar> < 180"
  have "yaw_equiv (normalizeYaw a) (normalizeYaw b)"
    using normalizeYaw_equiv[of a] normalizeYaw_equiv[of b] e
    by (blast intro: yaw_equiv_trans yaw_equiv_sym)
  then show "normalizeYaw b = normalizeYaw a" using yaw_unique s r by metis
qed

theorem normalizeYaw_canonical_witness:
  "normalizeYaw 450 = normalizeYaw 90 \<and> normalizeYaw 90 = 90"
proof -
  have "yaw_equiv 90 450" using yaw_equiv_shift[of 450 "-1"] by simp
  then show ?thesis using normalizeYaw_canonical[of 90 450] by simp
qed

section \<open>Unit conversions\<close>

definition ck_PI :: real where
  "ck_PI = 314159265358979323846 / 10 ^ 20"

definition deg2rad :: "real \<Rightarrow> real" where
  "deg2rad deg = deg * ck_PI / 180"

text \<open>The float variants use the nearest float to pi.\<close>

definition ck_PI_F :: real where
  "ck_PI_F = 13176795 / 2 ^ 22"

definition deg2radf :: "real \<Rightarrow> real" where
  "deg2radf deg = deg * ck_PI_F / 180"

definition rad2degf :: "real \<Rightarrow> real" where
  "rad2degf rad = rad * 180 / ck_PI_F"

lemma float_degrees: "rad2degf (deg2radf x) = x" "\<bar>ck_PI_F - ck_PI\<bar> < 1 / 10 ^ 7"
  by (simp_all add: rad2degf_def deg2radf_def ck_PI_F_def ck_PI_def)

definition rad2deg :: "real \<Rightarrow> real" where
  "rad2deg rad = rad * 180 / ck_PI"

definition meters_to_inches :: "real \<Rightarrow> real" where
  "meters_to_inches meters = meters / (254 / 10000)"

definition inches_to_meters :: "real \<Rightarrow> real" where
  "inches_to_meters inches = inches * (254 / 10000)"

definition rpm_to_rads_per_sec :: "real \<Rightarrow> real" where
  "rpm_to_rads_per_sec rpm = rpm * 2 * ck_PI / 60"

definition rads_per_sec_to_rpm :: "real \<Rightarrow> real" where
  "rads_per_sec_to_rpm rads_per_sec = rads_per_sec * 60 / (2 * ck_PI)"

lemma ck_PI_pos: "0 < ck_PI"
  by (simp add: ck_PI_def)

text \<open>The unit conversions are mutually inverse: degrees and radians, metres and inches,
  revolutions per minute and radians per second.\<close>

theorem unit_conversions_inverse:
  "rad2deg (deg2rad x) = x \<and> deg2rad (rad2deg x) = x
    \<and> inches_to_meters (meters_to_inches x) = x \<and> meters_to_inches (inches_to_meters x) = x
    \<and> rads_per_sec_to_rpm (rpm_to_rads_per_sec x) = x
    \<and> rpm_to_rads_per_sec (rads_per_sec_to_rpm x) = x"
  using ck_PI_pos
  by (simp add: rad2deg_def deg2rad_def inches_to_meters_def meters_to_inches_def
      rads_per_sec_to_rpm_def rpm_to_rads_per_sec_def)

section \<open>Autonomous start angles\<close>

record auto_start_pair =
  m_red_start_angle :: real
  m_blue_start_angle :: real

definition AutoStartPositionAnglePair :: "real \<Rightarrow> auto_start_pair" where
  "AutoStartPositionAnglePair red_start_angle =
     (let blue = 180 + red_start_angle
      in \<lparr>m_red_start_angle = red_start_angle,
          m_blue_start_angle = (if blue > 180 then blue - 360 else blue)\<rparr>)"

text \<open>The blue start angle faces the opposite way (half a turn from the red one), stays in
  (-180,180] for a red angle in that range, and mirroring twice gives the red angle back.\<close>

theorem start_angle_mirror:
  assumes "-180 < a" and "a \<le> 180"
  shows "m_red_start_angle (AutoStartPositionAnglePair a) = a
    \<and> yaw_equiv (m_blue_start_angle (AutoStartPositionAnglePair a)) (a + 180)
    \<and> -180 < m_blue_start_angle (AutoStartPositionAnglePair a)
    \<and> m_blue_start_angle (AutoStartPositionAnglePair a) \<le> 180
    \<and> m_blue_start_angle (AutoStartPositionAnglePair
          (m_blue_start_angle (AutoStartPositionAnglePair a))) = a"
proof (cases "180 + a > 180")
  case True
  have "yaw_equiv (180 + a - 360) (a + 180)" using yaw_equiv_shift[of "a + 180" "-1"] by simp
  then show ?thesis using True assms by (auto simp: AutoStartPositionAnglePair_def Let_def)
next
  case False
  then show ?thesis using assms by (auto simp: AutoStartPositionAnglePair_def Let_def add.commute)
qed

theorem start_angle_mirror_witness:
  "m_blue_start_angle (AutoStartPositionAnglePair (-177/2)) = 183/2
    \<and> m_blue_start_angle (AutoStartPositionAnglePair (183/2)) = -177/2"
proof -
  have b: "m_blue_start_angle (AutoStartPositionAnglePair (-177/2)) = 183/2"
    by (simp add: AutoStartPositionAnglePair_def Let_def)
  from start_angle_mirror[of "-177/2", unfolded b] b show ?thesis by simp
qed

end
