(* ===== verification/Value_Ramper.thy ===== *)
theory Value_Ramper
  imports CK_Math
begin

text \<open>
  \<open>failover/utils/ValueRamper\<close>: limits how fast a motor output may move. The state is the
  object's fields; a call takes the FPGA timestamp it reads and the requested value. The first
  call only records the time and returns 0.
\<close>

record value_ramper =
  mAccelRampRate :: real
  mDecelRampRate :: real
  mZeroValue :: real
  mMaxValue :: real
  mPrevTime :: real
  mPrevValue :: real

definition ValueRamper_new :: "real \<Rightarrow> real \<Rightarrow> real \<Rightarrow> real \<Rightarrow> value_ramper" where
  "ValueRamper_new accelRampRate decelRampRate zeroValue maxValue =
     \<lparr>mAccelRampRate = accelRampRate, mDecelRampRate = decelRampRate,
      mZeroValue = zeroValue, mMaxValue = maxValue, mPrevTime = 0, mPrevValue = 0\<rparr>"

definition ramp_step :: "value_ramper \<Rightarrow> real \<Rightarrow> real \<Rightarrow> real" where
  "ramp_step s dt rate = (mMaxValue s - mZeroValue s) * dt / rate"

definition ramp_calculateOutput :: "real \<Rightarrow> real \<Rightarrow> value_ramper \<Rightarrow> real \<times> value_ramper" where
  "ramp_calculateOutput timeNow currValue s =
     (if mPrevTime s \<noteq> 0 then
        let dt = timeNow - mPrevTime s;
            accelStep = ramp_step s dt (mAccelRampRate s);
            decelStep = ramp_step s dt (mDecelRampRate s);
            p = mPrevValue s;
            s1 = s\<lparr>mPrevTime := timeNow\<rparr>
        in if currValue > p \<and> currValue \<ge> 0 then
             (let v = min (p + accelStep) currValue in (v, s1\<lparr>mPrevValue := v\<rparr>))
           else if currValue < p \<and> currValue \<ge> 0 then
             (let v = max (p - decelStep) currValue in (v, s1\<lparr>mPrevValue := v\<rparr>))
           else if currValue < p \<and> currValue \<le> 0 then
             (let v = max (p - accelStep) currValue in (v, s1\<lparr>mPrevValue := v\<rparr>))
           else if currValue > p \<and> currValue \<le> 0 then
             (let v = min (p + decelStep) currValue in (v, s1\<lparr>mPrevValue := v\<rparr>))
           else (currValue, s1\<lparr>mPrevValue := currValue\<rparr>)
      else (0, s\<lparr>mPrevTime := timeNow\<rparr>))"

definition ramper_ok :: "value_ramper \<Rightarrow> bool" where
  "ramper_ok s \<longleftrightarrow> 0 < mAccelRampRate s \<and> 0 < mDecelRampRate s \<and> mZeroValue s < mMaxValue s"

text \<open>A step of length \<open>dt\<close> moves at least \<open>slow_step\<close> and at most \<open>fast_step\<close>.\<close>

definition fast_step :: "value_ramper \<Rightarrow> real \<Rightarrow> real" where
  "fast_step s dt = max (ramp_step s dt (mAccelRampRate s)) (ramp_step s dt (mDecelRampRate s))"

definition slow_step :: "value_ramper \<Rightarrow> real \<Rightarrow> real" where
  "slow_step s dt = min (ramp_step s dt (mAccelRampRate s)) (ramp_step s dt (mDecelRampRate s))"

lemma ramp_step_nonneg: "ramper_ok s \<Longrightarrow> 0 \<le> dt \<Longrightarrow> 0 < r \<Longrightarrow> 0 \<le> ramp_step s dt r"
  by (simp add: ramp_step_def ramper_ok_def)

lemma ramp_step_pos: "ramper_ok s \<Longrightarrow> 0 < dt \<Longrightarrow> 0 < r \<Longrightarrow> 0 < ramp_step s dt r"
  by (simp add: ramp_step_def ramper_ok_def)

lemma slow_step_pos: "ramper_ok s \<Longrightarrow> 0 < dt \<Longrightarrow> 0 < slow_step s dt"
  by (simp add: slow_step_def ramp_step_pos ramper_ok_def)

text \<open>One call after the first: what it returns is what it stores, and it is the previous value
  moved towards the request by one of the two step sizes, without passing the request.\<close>

lemma ramp_output_cases:
  assumes "mPrevTime s \<noteq> 0" "ramper_ok s" "mPrevTime s \<le> t"
    and r: "ramp_calculateOutput t target s = (out, s')"
  obtains step where "out = mPrevValue s'" "slow_step s (t - mPrevTime s) \<le> step"
    "step \<le> fast_step s (t - mPrevTime s)" "0 \<le> step"
    "out = (if mPrevValue s \<le> target then min (mPrevValue s + step) target
            else max (mPrevValue s - step) target)"
proof -
  let ?dt = "t - mPrevTime s"
  let ?a = "ramp_step s ?dt (mAccelRampRate s)" and ?d = "ramp_step s ?dt (mDecelRampRate s)"
  have nn: "0 \<le> ?a" "0 \<le> ?d"
    using assms by (auto intro!: ramp_step_nonneg simp: ramper_ok_def)
  have bounds: "slow_step s ?dt \<le> ?a" "?a \<le> fast_step s ?dt" "slow_step s ?dt \<le> ?d" "?d \<le> fast_step s ?dt"
    by (simp_all add: slow_step_def fast_step_def)
  let ?accel = "(mPrevValue s < target \<and> 0 \<le> target) \<or> (target < mPrevValue s \<and> target < 0)"
  show thesis
  proof (rule that[of "if ?accel then ?a else ?d"])
    show "out = mPrevValue s'"
      using r assms(1) by (auto simp: ramp_calculateOutput_def Let_def split: if_splits)
    show "out = (if mPrevValue s \<le> target then min (mPrevValue s + (if ?accel then ?a else ?d)) target
            else max (mPrevValue s - (if ?accel then ?a else ?d)) target)"
      using r assms(1) nn by (auto simp: ramp_calculateOutput_def Let_def split: if_splits)
  qed (use nn bounds in auto)
qed

lemma ramp_keeps:
  "ramp_calculateOutput t target s = (out, s') \<Longrightarrow>
     mPrevTime s' = t \<and> mAccelRampRate s' = mAccelRampRate s \<and> mDecelRampRate s' = mDecelRampRate s
     \<and> mZeroValue s' = mZeroValue s \<and> mMaxValue s' = mMaxValue s"
  by (auto simp: ramp_calculateOutput_def Let_def split: if_splits)

text \<open>After the first call, an output of the ramper lies between the previous output and the
  requested value, and moves by at most the larger of the two configured steps for the elapsed
  time: the motors are never jerked and never overshoot.\<close>

theorem ramp_bounded_step:
  assumes "mPrevTime s \<noteq> 0" and "ramper_ok s" and "mPrevTime s \<le> t"
    and "ramp_calculateOutput t target s = (out, s')"
  shows "min (mPrevValue s) target \<le> out \<and> out \<le> max (mPrevValue s) target
    \<and> \<bar>out - mPrevValue s\<bar> \<le> fast_step s (t - mPrevTime s) \<and> mPrevValue s' = out"
  using assms by (elim ramp_output_cases) (auto simp: min_def max_def split: if_splits)

theorem ramp_bounded_step_witness:
  "\<bar>fst (ramp_calculateOutput 2 1 \<lparr>mAccelRampRate = 2, mDecelRampRate = 1, mZeroValue = 0,
      mMaxValue = 1, mPrevTime = 1, mPrevValue = 0\<rparr>)\<bar> \<le> 1"
proof -
  let ?s = "\<lparr>mAccelRampRate = 2, mDecelRampRate = 1, mZeroValue = 0, mMaxValue = 1,
    mPrevTime = 1, mPrevValue = 0\<rparr> :: value_ramper"
  have "ramper_ok ?s" by (simp add: ramper_ok_def)
  with ramp_bounded_step[of ?s 2 1] show ?thesis
    by (cases "ramp_calculateOutput 2 1 ?s") (auto simp: fast_step_def ramp_step_def)
qed

section \<open>Convergence\<close>

text \<open>Calls with the same request every \<open>dt\<close> seconds, as the periodic loop makes them.\<close>

fun ramp_calls :: "nat \<Rightarrow> real \<Rightarrow> real \<Rightarrow> value_ramper \<Rightarrow> value_ramper" where
  "ramp_calls 0 dt target s = s"
| "ramp_calls (Suc n) dt target s =
     ramp_calls n dt target (snd (ramp_calculateOutput (mPrevTime s + dt) target s))"

lemma ramp_distance:
  assumes "0 < mPrevTime s" "ramper_ok s" "0 < dt"
  shows "\<bar>target - mPrevValue (snd (ramp_calculateOutput (mPrevTime s + dt) target s))\<bar>
    \<le> max 0 (\<bar>target - mPrevValue s\<bar> - slow_step s dt)"
proof -
  obtain out s' where r: "ramp_calculateOutput (mPrevTime s + dt) target s = (out, s')"
    by fastforce
  show ?thesis
    by (rule ramp_output_cases[OF _ assms(2) _ r]) (use assms r in \<open>auto split: if_splits\<close>)
qed

lemma ramp_calls_distance:
  assumes "0 < mPrevTime s" "ramper_ok s" "0 < dt"
  shows "\<bar>target - mPrevValue (ramp_calls n dt target s)\<bar>
    \<le> max 0 (\<bar>target - mPrevValue s\<bar> - real n * slow_step s dt)"
  using assms
proof (induction n arbitrary: s)
  case 0
  then show ?case by simp
next
  case (Suc n)
  obtain out s' where r: "ramp_calculateOutput (mPrevTime s + dt) target s = (out, s')"
    by fastforce
  note k = ramp_keeps[OF r]
  have same: "slow_step s' dt = slow_step s dt" "ramper_ok s'" "0 < mPrevTime s'"
    using k Suc.prems by (simp_all add: slow_step_def ramp_step_def ramper_ok_def)
  define m where "m = real n * slow_step s dt"
  have "\<bar>target - mPrevValue (ramp_calls n dt target s')\<bar> \<le> max 0 (\<bar>target - mPrevValue s'\<bar> - m)"
    using Suc.IH[of s'] same Suc.prems by (simp add: m_def)
  moreover have "\<bar>target - mPrevValue s'\<bar> \<le> max 0 (\<bar>target - mPrevValue s\<bar> - slow_step s dt)"
    using ramp_distance[of s dt target] Suc.prems r by simp
  moreover have "0 < slow_step s dt" using Suc.prems by (simp add: slow_step_pos)
  then have "0 \<le> m" by (simp add: m_def)
  moreover have "real (Suc n) * slow_step s dt = m + slow_step s dt"
    by (simp add: m_def algebra_simps)
  ultimately show ?case using r by simp
qed

text \<open>A constant request is reached exactly: once enough calls have been made for the slower
  of the two steps to cover the distance, the ramper's output is the request itself.\<close>

theorem ramp_reaches_target:
  assumes "0 < mPrevTime s" and "ramper_ok s" and "0 < dt"
    and "\<bar>target - mPrevValue s\<bar> \<le> real n * slow_step s dt"
  shows "mPrevValue (ramp_calls n dt target s) = target"
  using ramp_calls_distance[OF assms(1-3), of target n] assms(4) by simp

theorem ramp_reaches_target_witness:
  "mPrevValue (ramp_calls 25 (1/50) 1
     (\<lparr>mAccelRampRate = 1/2, mDecelRampRate = 1/5, mZeroValue = 0, mMaxValue = 1,
       mPrevTime = 1, mPrevValue = 0\<rparr>)) = 1"
  by (rule ramp_reaches_target) (simp_all add: ramper_ok_def slow_step_def ramp_step_def)

end
