(* ===== verification/Drive_Helper.thy ===== *)
theory Drive_Helper
  imports CK_Math
begin

text \<open>
  \<open>failover/utils/drive_helper\<close>: turns a throttle and a steering wheel into the outputs of the two
  sides of the tank drivetrain. The object keeps the last wheel position and two accumulators;
  the sine of the code is the real sine and \<open>M_PI\<close> is \<open>pi\<close>.
\<close>

record drive_helper =
  mOldWheel :: real
  mQuickStopAccumlator :: real
  mNegInertiaAccumlator :: real

definition DriveHelper_new :: "drive_helper" where
  "DriveHelper_new = \<lparr>mOldWheel = 0, mQuickStopAccumlator = 0, mNegInertiaAccumlator = 0\<rparr>"

definition kHighWheelNonLinearity :: real where "kHighWheelNonLinearity = 65 / 100"
definition kLowWheelNonLinearity :: real where "kLowWheelNonLinearity = 1 / 2"
definition kHighNegInertiaScalar :: real where "kHighNegInertiaScalar = 4"
definition kLowNegInertiaThreshold :: real where "kLowNegInertiaThreshold = 65 / 100"
definition kLowNegInertiaTurnScalar :: real where "kLowNegInertiaTurnScalar = 7 / 2"
definition kLowNegInertiaCloseScalar :: real where "kLowNegInertiaCloseScalar = 4"
definition kLowNegInertiaFarScalar :: real where "kLowNegInertiaFarScalar = 5"
definition kHighSensitivity :: real where "kHighSensitivity = 95 / 100"
definition kLowSensitiity :: real where "kLowSensitiity = 13 / 10"
definition kQuickStopDeadband :: real where "kQuickStopDeadband = 1 / 5"
definition kQuickStopWeight :: real where "kQuickStopWeight = 1 / 10"
definition kQuickStopScalar :: real where "kQuickStopScalar = 5"

lemmas drive_constants =
  kHighWheelNonLinearity_def kLowWheelNonLinearity_def kHighNegInertiaScalar_def
  kLowNegInertiaThreshold_def kLowNegInertiaTurnScalar_def kLowNegInertiaCloseScalar_def
  kLowNegInertiaFarScalar_def kHighSensitivity_def kLowSensitiity_def kQuickStopDeadband_def
  kQuickStopWeight_def kQuickStopScalar_def

definition shape_once :: "real \<Rightarrow> real \<Rightarrow> real" where
  "shape_once nonLinearity wheel = sin (pi / 2 * nonLinearity * wheel) / sin (pi / 2 * nonLinearity)"

definition shape_wheel :: "bool \<Rightarrow> real \<Rightarrow> real" where
  "shape_wheel isHighGear wheel =
     (if isHighGear then
        shape_once kHighWheelNonLinearity (shape_once kHighWheelNonLinearity wheel)
      else
        shape_once kLowWheelNonLinearity
          (shape_once kLowWheelNonLinearity (shape_once kLowWheelNonLinearity wheel)))"

definition neg_inertia_scalar :: "bool \<Rightarrow> real \<Rightarrow> real \<Rightarrow> real" where
  "neg_inertia_scalar isHighGear wheel negInertia =
     (if isHighGear then kHighNegInertiaScalar
      else if wheel * negInertia > 0 then kLowNegInertiaTurnScalar
      else if \<bar>wheel\<bar> > kLowNegInertiaThreshold then kLowNegInertiaFarScalar
      else kLowNegInertiaCloseScalar)"

definition drain_accumulator :: "real \<Rightarrow> real" where
  "drain_accumulator a = (if a > 1 then a - 1 else if a < -1 then a + 1 else 0)"

definition mix_sides :: "real \<Rightarrow> real \<Rightarrow> real \<Rightarrow> real \<times> real" where
  "mix_sides linearPower angularPower overPower =
     (let leftPwm = linearPower + angularPower; rightPwm = linearPower - angularPower;
          (l, r) =
            (if leftPwm > 1 then (1, rightPwm - overPower * (leftPwm - 1))
             else if rightPwm > 1 then (leftPwm - overPower * (rightPwm - 1), 1)
             else if leftPwm < -1 then (-1, rightPwm + overPower * (-1 - leftPwm))
             else if rightPwm < -1 then (leftPwm + overPower * (-1 - rightPwm), -1)
             else (leftPwm, rightPwm))
      in (max (min l 1) (-1), max (min r 1) (-1)))"

definition drive_calculateOutput ::
  "real \<Rightarrow> real \<Rightarrow> bool \<Rightarrow> bool \<Rightarrow> drive_helper \<Rightarrow> (real \<times> real) \<times> drive_helper" where
  "drive_calculateOutput throttle wheel isQuickTurn isHighGear s =
     (let negInertia = wheel - mOldWheel s;
          shaped = shape_wheel isHighGear wheel;
          sensitivity = (if isHighGear then kHighSensitivity else kLowSensitiity);
          acc = mNegInertiaAccumlator s
            + negInertia * neg_inertia_scalar isHighGear shaped negInertia;
          turn = shaped + acc;
          qs = mQuickStopAccumlator s;
          s1 = s\<lparr>mOldWheel := wheel, mNegInertiaAccumlator := drain_accumulator acc\<rparr>
      in if isQuickTurn then
           let qs' = (if \<bar>throttle\<bar> < kQuickStopDeadband
                      then (1 - kQuickStopWeight) * qs
                        + kQuickStopWeight * limit_magnitude turn 1 * kQuickStopScalar
                      else qs)
           in (mix_sides throttle turn 1, s1\<lparr>mQuickStopAccumlator := qs'\<rparr>)
         else
           (mix_sides throttle (\<bar>throttle\<bar> * turn * sensitivity - qs) 0,
            s1\<lparr>mQuickStopAccumlator := drain_accumulator qs\<rparr>))"

section \<open>The mixer and the shaping curve\<close>

lemma mix_sides_bounded:
  "\<bar>fst (mix_sides t a c)\<bar> \<le> 1" "\<bar>snd (mix_sides t a c)\<bar> \<le> 1"
  by (auto simp: mix_sides_def Let_def split: prod.splits)

lemma mix_sides_straight: "\<bar>t\<bar> \<le> 1 \<Longrightarrow> mix_sides t 0 c = (t, t)"
  by (auto simp: mix_sides_def Let_def)

lemma mix_sides_mirror: "\<bar>t\<bar> \<le> 1 \<Longrightarrow> mix_sides t (- a) c = prod.swap (mix_sides t a c)"
  by (auto simp: mix_sides_def Let_def prod.swap_def)

lemma shape_once_odd: "shape_once k (- w) = - shape_once k w"
  by (simp add: shape_once_def)

lemma shape_wheel_odd: "shape_wheel g (- w) = - shape_wheel g w"
  by (simp add: shape_wheel_def shape_once_odd)

lemma shape_wheel_0 [simp]: "shape_wheel g 0 = 0"
  by (simp add: shape_wheel_def shape_once_def)

lemma drain_odd: "drain_accumulator (- a) = - drain_accumulator a"
  by (auto simp: drain_accumulator_def)

lemma drain_abs: "\<bar>drain_accumulator a\<bar> \<le> max 0 (\<bar>a\<bar> - 1)"
  by (auto simp: drain_accumulator_def)

lemma neg_inertia_scalar_mirror: "neg_inertia_scalar g (- w) (- n) = neg_inertia_scalar g w n"
  by (simp add: neg_inertia_scalar_def)

lemma limit_magnitude_odd: "limit_magnitude (- x) 1 = - limit_magnitude x 1"
  by (auto simp: limit_magnitude_def limit_def ck_max_def ck_min_def)

lemma limit_magnitude_abs: "\<bar>limit_magnitude x 1\<bar> \<le> 1"
  by (auto simp: limit_magnitude_def limit_def ck_max_def ck_min_def)

section \<open>The state\<close>

text \<open>What holds of the object when the wheel stays in [-1, 1] and the drive is in high gear, as
  \<open>DrivetrainFailover\<close> uses it: the negative-inertia accumulator stays within four times the
  distance the wheel can still travel.\<close>

definition drive_ok :: "drive_helper \<Rightarrow> bool" where
  "drive_ok s \<longleftrightarrow> \<bar>mOldWheel s\<bar> \<le> 1 \<and> \<bar>mQuickStopAccumlator s\<bar> \<le> 5
     \<and> 4 * (mOldWheel s - 1) \<le> mNegInertiaAccumlator s
     \<and> mNegInertiaAccumlator s \<le> 4 * (mOldWheel s + 1)"

lemma drive_ok_new: "drive_ok DriveHelper_new"
  by (simp add: drive_ok_def DriveHelper_new_def)

lemma quick_stop_bound:
  assumes "\<bar>q\<bar> \<le> 5"
  shows "\<bar>(1 - kQuickStopWeight) * q + kQuickStopWeight * limit_magnitude x 1 * kQuickStopScalar\<bar> \<le> 5"
  using assms limit_magnitude_abs[of x] by (simp add: drive_constants abs_le_iff)

lemma drain_range:
  "\<bar>w\<bar> \<le> 1 \<Longrightarrow> 4 * (w - 1) \<le> a \<Longrightarrow> a \<le> 4 * (w + 1) \<Longrightarrow>
     4 * (w - 1) \<le> drain_accumulator a \<and> drain_accumulator a \<le> 4 * (w + 1)"
  by (auto simp: drain_accumulator_def)

lemma drive_ok_step:
  assumes "drive_ok s" "\<bar>w\<bar> \<le> 1"
  shows "drive_ok (snd (drive_calculateOutput t w q True s))"
proof -
  have qs: "\<bar>mQuickStopAccumlator s\<bar> \<le> 5" using assms(1) by (simp add: drive_ok_def)
  have d: "\<bar>drain_accumulator (mQuickStopAccumlator s)\<bar> \<le> 5"
    using drain_abs[of "mQuickStopAccumlator s"] qs by simp
  have "4 * (w - 1) \<le> drain_accumulator (mNegInertiaAccumlator s + (w - mOldWheel s) * 4)
      \<and> drain_accumulator (mNegInertiaAccumlator s + (w - mOldWheel s) * 4) \<le> 4 * (w + 1)"
    using assms by (intro drain_range) (auto simp: drive_ok_def)
  then show ?thesis
    using assms(2) qs d quick_stop_bound[OF qs]
    by (simp add: drive_calculateOutput_def Let_def neg_inertia_scalar_def kHighNegInertiaScalar_def
        drive_ok_def)
qed

text \<open>A run of the drivetrain: one (throttle, wheel, quick turn) request per loop, high gear.\<close>

fun drive_run :: "(real \<times> real \<times> bool) list \<Rightarrow> drive_helper \<Rightarrow> (real \<times> real) list \<times> drive_helper" where
  "drive_run [] s = ([], s)"
| "drive_run ((t, w, q) # reqs) s =
     (let (out, s') = drive_calculateOutput t w q True s; (outs, s'') = drive_run reqs s'
      in (out # outs, s''))"

lemma drive_output_bounded:
  "drive_calculateOutput t w q g s = (out, s') \<Longrightarrow> \<bar>fst out\<bar> \<le> 1 \<and> \<bar>snd out\<bar> \<le> 1"
  using mix_sides_bounded by (auto simp: drive_calculateOutput_def Let_def split: if_splits)

lemma drive_run_ok:
  assumes "drive_ok s0" and "\<forall>(t, w, q) \<in> set reqs. \<bar>w\<bar> \<le> 1" and "drive_run reqs s0 = (outs, s)"
  shows "drive_ok s \<and> length outs = length reqs \<and> (\<forall>(l, r) \<in> set outs. \<bar>l\<bar> \<le> 1 \<and> \<bar>r\<bar> \<le> 1)"
  using assms
proof (induction reqs arbitrary: s0 outs)
  case Nil
  then show ?case by simp
next
  case (Cons req reqs)
  obtain t w q where req: "req = (t, w, q)" by (cases req)
  obtain out s1 where o: "drive_calculateOutput t w q True s0 = (out, s1)" by fastforce
  obtain outs' s2 where r: "drive_run reqs s1 = (outs', s2)" by fastforce
  have s2: "s2 = s" "outs = out # outs'" using Cons.prems o r req by (simp_all add: Let_def)
  have "drive_ok s1" using drive_ok_step[of s0 w t q] Cons.prems o req by simp
  with Cons.IH[of s1 outs'] r s2 Cons.prems
  show ?case using drive_output_bounded[OF o] by auto
qed

text \<open>Whatever the driver does with the wheel in [-1, 1], both sides of the tank drive get
  outputs in [-1, 1] on every loop, and the accumulators never wind up: the quick-stop one stays
  within 5 and the negative-inertia one within four times the wheel's remaining travel.\<close>

theorem drive_never_winds_up:
  assumes "\<forall>(t, w, q) \<in> set reqs. \<bar>w\<bar> \<le> 1"
    and "drive_run reqs DriveHelper_new = (outs, s)"
  shows "drive_ok s \<and> length outs = length reqs \<and> (\<forall>(l, r) \<in> set outs. \<bar>l\<bar> \<le> 1 \<and> \<bar>r\<bar> \<le> 1)"
  using drive_run_ok[OF drive_ok_new assms] .

theorem drive_never_winds_up_witness:
  "drive_ok (snd (drive_run [(1, 1, True), (0, -1, False)] DriveHelper_new))"
proof -
  obtain outs s where r: "drive_run [(1, 1, True), (0, -1, False)] DriveHelper_new = (outs, s)"
    by fastforce
  show ?thesis using drive_never_winds_up[OF _ r] r by simp
qed

section \<open>Symmetry\<close>

definition mirror :: "drive_helper \<Rightarrow> drive_helper" where
  "mirror s = \<lparr>mOldWheel = - mOldWheel s, mQuickStopAccumlator = - mQuickStopAccumlator s,
     mNegInertiaAccumlator = - mNegInertiaAccumlator s\<rparr>"

text \<open>Steering is symmetric in both gears: turning the wheel the other way from the mirrored
  state swaps the outputs of the two sides and leads to the mirrored state.\<close>

theorem drive_mirror_symmetric:
  assumes "\<bar>throttle\<bar> \<le> 1"
  shows "drive_calculateOutput throttle (- wheel) isQuickTurn isHighGear (mirror s)
    = map_prod prod.swap mirror (drive_calculateOutput throttle wheel isQuickTurn isHighGear s)"
proof -
  have scalar: "neg_inertia_scalar g (- w) (- wheel - - mOldWheel s)
      = neg_inertia_scalar g w (wheel - mOldWheel s)" for g w
    using neg_inertia_scalar_mirror[of g w "wheel - mOldWheel s"] by (simp add: algebra_simps)
  have acc: "- a + (- x - - y) * c = - (a + (x - y) * c)" for a x y c :: real
    by (simp add: algebra_simps)
  have turn: "- w + - a = - (w + a)" for w a :: real
    by simp
  have ang: "t * - x * k - - q = - (t * x * k - q)" for t x k q :: real
    by (simp add: algebra_simps)
  have weights: "u * - q + v * - x * z = - (u * q + v * x * z)" for u q v x z :: real
    by (simp add: algebra_simps)
  show ?thesis
    unfolding drive_calculateOutput_def Let_def mirror_def drive_helper.simps shape_wheel_odd
      scalar acc turn ang limit_magnitude_odd weights drain_odd mix_sides_mirror[OF assms]
    by simp
qed

theorem drive_mirror_symmetric_witness:
  "drive_calculateOutput (1/2) (- 1) False True (mirror DriveHelper_new)
    = map_prod prod.swap mirror (drive_calculateOutput (1/2) 1 False True DriveHelper_new)"
  by (rule drive_mirror_symmetric) simp

section \<open>Straight ahead\<close>

lemma drive_wheel_released:
  assumes "mOldWheel s = 0"
  shows "drive_calculateOutput t 0 False True s =
    (mix_sides t (\<bar>t\<bar> * mNegInertiaAccumlator s * kHighSensitivity - mQuickStopAccumlator s) 0,
     \<lparr>mOldWheel = 0, mQuickStopAccumlator = drain_accumulator (mQuickStopAccumlator s),
      mNegInertiaAccumlator = drain_accumulator (mNegInertiaAccumlator s)\<rparr>)"
  using assms by (cases s) (simp add: drive_calculateOutput_def Let_def)


definition released_ok :: "nat \<Rightarrow> drive_helper \<Rightarrow> bool" where
  "released_ok k s \<longleftrightarrow> mOldWheel s = 0 \<and> \<bar>mQuickStopAccumlator s\<bar> \<le> real k
     \<and> \<bar>mNegInertiaAccumlator s\<bar> \<le> real k"

lemma released_ok_step:
  "released_ok (Suc k) s \<Longrightarrow> released_ok k (snd (drive_calculateOutput t 0 False True s))"
  using drain_abs[of "mQuickStopAccumlator s"] drain_abs[of "mNegInertiaAccumlator s"]
  by (auto simp: released_ok_def drive_wheel_released)

lemma released_ok_first:
  assumes "drive_ok s"
  shows "released_ok 4 (snd (drive_calculateOutput t 0 False True s))"
proof -
  let ?q = "mQuickStopAccumlator s" and ?a = "mNegInertiaAccumlator s - mOldWheel s * 4"
  have "\<bar>?a\<bar> \<le> 4" "\<bar>?q\<bar> \<le> 5" using assms by (auto simp: drive_ok_def)
  then have "\<bar>drain_accumulator ?a\<bar> \<le> 4" "\<bar>drain_accumulator ?q\<bar> \<le> 4"
    using drain_abs[of ?a] drain_abs[of ?q] by auto
  then show ?thesis
    by (simp add: released_ok_def drive_calculateOutput_def Let_def neg_inertia_scalar_def
        kHighNegInertiaScalar_def)
qed

text \<open>Letting go of the wheel always straightens the robot: after five loops with the wheel at
  0, no quick turn and whatever throttle, the next output is the throttle on both sides.\<close>

theorem drive_straightens:
  assumes "drive_ok s" and "\<bar>t\<bar> \<le> 1"
    and "drive_run [(t1, 0, False), (t2, 0, False), (t3, 0, False), (t4, 0, False), (t5, 0, False)] s
      = (outs, s')"
  shows "fst (drive_calculateOutput t 0 False True s') = (t, t)"
proof -
  have "released_ok 0 s'"
    using assms(3) released_ok_first[OF assms(1), of t1] released_ok_step
    by (auto simp: Let_def numeral_eq_Suc split: prod.splits) (metis snd_conv)
  then show ?thesis
    using mix_sides_straight[OF assms(2)] by (simp add: released_ok_def drive_wheel_released)
qed

theorem drive_straightens_witness:
  "fst (drive_calculateOutput 1 0 False True
     (snd (drive_run (replicate 5 (1, 0, False)) (snd (drive_calculateOutput 0 1 True True DriveHelper_new)))))
   = (1, 1)"
proof -
  let ?s = "snd (drive_calculateOutput 0 1 True True DriveHelper_new)"
  have ok: "drive_ok ?s" by (rule drive_ok_step) (simp_all add: drive_ok_new)
  obtain outs s' where r: "drive_run (replicate 5 (1, 0, False)) ?s = (outs, s')" by fastforce
  with drive_straightens[OF ok, of 1 1 1 1 1 1 outs s'] show ?thesis
    by (simp add: numeral_eq_Suc)
qed

end
