(* ===== verification/Timers.thy ===== *)
theory Timers
  imports CK_Prelude
begin

text \<open>
  \<open>utils/TaskTimer\<close>, \<open>utils/RTTimer\<close>, \<open>utils/TimeoutTimer\<close>, \<open>utils/CachedValue\<close> and
  \<open>utils/ThreadRateControl\<close>. The clock is the FPGA time in microseconds, a 64-bit counter that
  every operation is given (\<open>now\<close>); differences of times wrap as in C++. The \<open>float\<close> of
  milliseconds is idealised to a real.
\<close>

section \<open>TaskTimer and RTTimer\<close>

record task_timer =
  tt_startTimeuS :: u64

definition TaskTimer_start :: "u64 \<Rightarrow> task_timer \<Rightarrow> task_timer" where
  "TaskTimer_start now t = t\<lparr>tt_startTimeuS := now\<rparr>"

definition TaskTimer_named :: "u64 \<Rightarrow> task_timer" where
  "TaskTimer_named now = TaskTimer_start now \<lparr>tt_startTimeuS = 0\<rparr>"

text \<open>The constructor without a name only builds a named temporary: its own timer is not started.\<close>

definition TaskTimer_default :: "u64 \<Rightarrow> task_timer" where
  "TaskTimer_default now = (let _ = TaskTimer_named now in \<lparr>tt_startTimeuS = 0\<rparr>)"

definition TaskTimer_hasElapsedMs :: "u64 \<Rightarrow> task_timer \<Rightarrow> real" where
  "TaskTimer_hasElapsedMs now t = real (unat (now - tt_startTimeuS t)) / 1000"

record rt_timer =
  rt_startTimeuS :: u64

definition RTTimer_start :: "u64 \<Rightarrow> rt_timer \<Rightarrow> rt_timer" where
  "RTTimer_start now t = t\<lparr>rt_startTimeuS := now\<rparr>"

definition RTTimer_new :: "u64 \<Rightarrow> rt_timer" where
  "RTTimer_new now = RTTimer_start now \<lparr>rt_startTimeuS = 0\<rparr>"

definition RTTimer_hasElapseduS :: "u64 \<Rightarrow> rt_timer \<Rightarrow> u64" where
  "RTTimer_hasElapseduS now t = now - rt_startTimeuS t"

lemma elapsed_nonneg: "0 \<le> TaskTimer_hasElapsedMs now t"
  by (simp add: TaskTimer_hasElapsedMs_def)

lemma elapsed_started [simp]: "TaskTimer_hasElapsedMs now (TaskTimer_start now t) = 0"
  by (simp add: TaskTimer_hasElapsedMs_def TaskTimer_start_def)

section \<open>TimeoutTimer\<close>

record timeout_timer =
  to_timeoutMs :: real
  to_firstRun :: bool
  to_taskTimer :: task_timer

definition TimeoutTimer_new :: "u64 \<Rightarrow> real \<Rightarrow> timeout_timer" where
  "TimeoutTimer_new now timeoutMs =
     \<lparr>to_timeoutMs = timeoutMs, to_firstRun = True, to_taskTimer = TaskTimer_default now\<rparr>"

definition TimeoutTimer_isTimedOut :: "u64 \<Rightarrow> timeout_timer \<Rightarrow> bool \<times> timeout_timer" where
  "TimeoutTimer_isTimedOut now t =
     (let t1 = (if to_firstRun t
                then t\<lparr>to_taskTimer := TaskTimer_start now (to_taskTimer t), to_firstRun := False\<rparr>
                else t)
      in (TaskTimer_hasElapsedMs now (to_taskTimer t1) > to_timeoutMs t1, t1))"

definition TimeoutTimer_reset :: "timeout_timer \<Rightarrow> timeout_timer" where
  "TimeoutTimer_reset t = t\<lparr>to_firstRun := True\<rparr>"

definition TimeoutTimer_getTimeLeft :: "u64 \<Rightarrow> timeout_timer \<Rightarrow> real" where
  "TimeoutTimer_getTimeLeft now t = max (to_timeoutMs t - TaskTimer_hasElapsedMs now (to_taskTimer t)) 0"

definition TimeoutTimer_getTimeoutPeriod :: "timeout_timer \<Rightarrow> real" where
  "TimeoutTimer_getTimeoutPeriod t = to_timeoutMs t"

section \<open>CachedValue\<close>

text \<open>The update function is what the rest of the program answers at the time it is called.\<close>

record 'a cached_value =
  cv_timer :: timeout_timer
  cv_cached :: 'a

definition CachedValue_new :: "(u64 \<Rightarrow> 'a) \<Rightarrow> u64 \<Rightarrow> real \<Rightarrow> 'a cached_value" where
  "CachedValue_new updateFunction now updateTimeoutMs =
     \<lparr>cv_timer = TimeoutTimer_new now updateTimeoutMs, cv_cached = updateFunction now\<rparr>"

definition CachedValue_getValue :: "(u64 \<Rightarrow> 'a) \<Rightarrow> u64 \<Rightarrow> 'a cached_value \<Rightarrow> 'a \<times> 'a cached_value" where
  "CachedValue_getValue updateFunction now c =
     (let (out, t) = TimeoutTimer_isTimedOut now (cv_timer c)
      in if out then
           (let v = updateFunction now
            in (v, \<lparr>cv_timer = TimeoutTimer_reset t, cv_cached = v\<rparr>))
         else (cv_cached c, c\<lparr>cv_timer := t\<rparr>))"

text \<open>Whether a read calls the update function.\<close>

definition refreshes :: "u64 \<Rightarrow> 'a cached_value \<Rightarrow> bool" where
  "refreshes now c = fst (TimeoutTimer_isTimedOut now (cv_timer c))"

text \<open>The reads at the given times, with the times at which the update function was called.\<close>

fun refresh_times :: "(u64 \<Rightarrow> 'a) \<Rightarrow> u64 list \<Rightarrow> 'a cached_value \<Rightarrow> u64 list" where
  "refresh_times f [] c = []"
| "refresh_times f (now # ts) c =
     (if refreshes now c then [now] else []) @ refresh_times f ts (snd (CachedValue_getValue f now c))"

lemma first_run_never_times_out:
  "to_firstRun t \<Longrightarrow> 0 \<le> to_timeoutMs t \<Longrightarrow> \<not> fst (TimeoutTimer_isTimedOut now t)"
  by (simp add: TimeoutTimer_isTimedOut_def TaskTimer_start_def TaskTimer_hasElapsedMs_def Let_def)

text \<open>What a cache knows: either its timer has just been reset, or it is running since a read.\<close>

definition quiet_since :: "u64 \<Rightarrow> 'a cached_value \<Rightarrow> bool" where
  "quiet_since t c \<longleftrightarrow> to_firstRun (cv_timer c) \<or> t \<le> tt_startTimeuS (to_taskTimer (cv_timer c))"

lemma getValue_timeout [simp]:
  "to_timeoutMs (cv_timer (snd (CachedValue_getValue f now c))) = to_timeoutMs (cv_timer c)"
  by (simp add: CachedValue_getValue_def TimeoutTimer_isTimedOut_def TimeoutTimer_reset_def Let_def)

lemma getValue_refresh:
  "refreshes now c \<Longrightarrow> quiet_since t (snd (CachedValue_getValue f now c))"
  by (auto simp: refreshes_def CachedValue_getValue_def TimeoutTimer_reset_def quiet_since_def Let_def
      split: prod.splits)

lemma getValue_quiet:
  assumes "quiet_since t c" "t \<le> now"
  shows "quiet_since t (snd (CachedValue_getValue f now c))"
  using assms
  by (auto simp: quiet_since_def CachedValue_getValue_def TimeoutTimer_isTimedOut_def
      TimeoutTimer_reset_def TaskTimer_start_def Let_def)

lemma refresh_after_quiet:
  assumes "refreshes now c" "quiet_since t c" "t \<le> now" "0 \<le> to_timeoutMs (cv_timer c)"
    "tt_startTimeuS (to_taskTimer (cv_timer c)) \<le> now"
  shows "to_timeoutMs (cv_timer c) * 1000 < real (unat now) - real (unat t)"
proof -
  let ?s = "tt_startTimeuS (to_taskTimer (cv_timer c))"
  have "\<not> to_firstRun (cv_timer c)"
    using assms(1,4) first_run_never_times_out by (auto simp: refreshes_def)
  then have "t \<le> ?s" "to_timeoutMs (cv_timer c) < real (unat (now - ?s)) / 1000"
    using assms by (auto simp: quiet_since_def refreshes_def TimeoutTimer_isTimedOut_def
        TaskTimer_hasElapsedMs_def Let_def)
  moreover have "unat (now - ?s) = unat now - unat ?s" "unat ?s \<le> unat now" "unat t \<le> unat ?s"
    using assms(5) \<open>t \<le> ?s\<close> by (simp_all add: unat_sub word_le_nat_alt)
  ultimately show ?thesis by (simp add: of_nat_diff field_simps)
qed

lemma getValue_start_le:
  "tt_startTimeuS (to_taskTimer (cv_timer c)) \<le> now \<Longrightarrow>
     tt_startTimeuS (to_taskTimer (cv_timer (snd (CachedValue_getValue f now c)))) \<le> now"
  by (auto simp: CachedValue_getValue_def TimeoutTimer_isTimedOut_def TimeoutTimer_reset_def
      TaskTimer_start_def Let_def)


lemma refresh_times_subset: "set (refresh_times f ts c) \<subseteq> set ts"
  by (induction ts arbitrary: c) auto

lemma refresh_times_gap:
  assumes "quiet_since t c" "sorted ts" "0 \<le> to_timeoutMs (cv_timer c)"
    "\<forall>x \<in> set ts. t \<le> x \<and> tt_startTimeuS (to_taskTimer (cv_timer c)) \<le> x"
  shows "sorted_wrt (\<lambda>a b. to_timeoutMs (cv_timer c) * 1000 < real (unat b) - real (unat a))
      (refresh_times f ts c)
    \<and> (\<forall>b \<in> set (refresh_times f ts c).
          to_timeoutMs (cv_timer c) * 1000 < real (unat b) - real (unat t))"
  using assms
proof (induction ts arbitrary: c t)
  case Nil
  then show ?case by simp
next
  case (Cons now ts)
  let ?c = "snd (CachedValue_getValue f now c)"
  have "tt_startTimeuS (to_taskTimer (cv_timer ?c)) \<le> now"
    using Cons.prems by (intro getValue_start_le) auto
  then have start: "\<forall>x \<in> set ts. tt_startTimeuS (to_taskTimer (cv_timer ?c)) \<le> x"
    using Cons.prems(2) by auto
  show ?case
  proof (cases "refreshes now c")
    case True
    have first: "to_timeoutMs (cv_timer c) * 1000 < real (unat now) - real (unat t)"
      using refresh_after_quiet[OF True Cons.prems(1)] Cons.prems by auto
    have "t \<le> now" using Cons.prems(4) by simp
    then have "real (unat t) \<le> real (unat now)" by (simp add: word_le_nat_alt)
    then show ?thesis
      using Cons.IH[of now ?c] getValue_refresh[OF True, of now f] Cons.prems start True first
      by fastforce
  next
    case False
    have "quiet_since t ?c" using getValue_quiet Cons.prems by auto
    then show ?thesis
      using Cons.IH[of t ?c] Cons.prems start False by simp
  qed
qed

text \<open>A cached value calls its update function at most once per timeout: two refreshes of a
  fresh cache, at whatever non-decreasing times it is read, are always more than the timeout
  apart, so polling it on every loop costs no more than polling it slowly.\<close>

theorem cached_value_rate_limited:
  assumes "0 \<le> updateTimeoutMs" and "sorted ts"
  shows "sorted_wrt (\<lambda>a b. updateTimeoutMs * 1000 < real (unat b) - real (unat a))
    (refresh_times f ts (CachedValue_new f t0 updateTimeoutMs))"
  using refresh_times_gap[of 0 "CachedValue_new f t0 updateTimeoutMs" ts f] assms
  by (simp add: quiet_since_def CachedValue_new_def TimeoutTimer_new_def TaskTimer_default_def)

theorem cached_value_rate_limited_witness:
  "sorted_wrt (\<lambda>a b. 1 * 1000 < real (unat b) - real (unat a))
    (refresh_times (\<lambda>t. t) [0, 2000, 4000, 6000] (CachedValue_new (\<lambda>t. t) 0 1))"
  by (rule cached_value_rate_limited) simp_all

text \<open>The age of a cached value is not bounded by its timeout: the read after a refresh only
  starts the timer, so it returns the value of the previous refresh however long ago that was.\<close>

theorem cached_value_stale_read:
  assumes "refreshes t1 c" and "0 \<le> to_timeoutMs (cv_timer c)"
  shows "fst (CachedValue_getValue f t2 (snd (CachedValue_getValue f t1 c))) = f t1"
  using assms
  by (auto simp: refreshes_def CachedValue_getValue_def TimeoutTimer_isTimedOut_def Let_def
      TimeoutTimer_reset_def TaskTimer_start_def TaskTimer_hasElapsedMs_def)

theorem cached_value_stale_read_witness:
  "fst (CachedValue_getValue (\<lambda>t. t) 9000000
     (snd (CachedValue_getValue (\<lambda>t. t) 2000
       (snd (CachedValue_getValue (\<lambda>t. t) 0 (CachedValue_new (\<lambda>t. t) 0 1)))))) = (2000 :: u64)"
  by (rule cached_value_stale_read)
    (simp_all add: refreshes_def CachedValue_new_def CachedValue_getValue_def TimeoutTimer_new_def
      TimeoutTimer_isTimedOut_def TaskTimer_default_def TaskTimer_start_def TaskTimer_hasElapsedMs_def
      Let_def)

section \<open>ThreadRateControl\<close>

record thread_rate_control =
  rc_eTimer :: task_timer
  rc_started :: bool

definition ThreadRateControl_new :: "u64 \<Rightarrow> thread_rate_control" where
  "ThreadRateControl_new now = \<lparr>rc_eTimer = TaskTimer_default now, rc_started = False\<rparr>"

definition ThreadRateControl_start :: "u64 \<Rightarrow> thread_rate_control \<Rightarrow> thread_rate_control" where
  "ThreadRateControl_start now r =
     (if \<not> rc_started r
      then r\<lparr>rc_eTimer := TaskTimer_start now (rc_eTimer r), rc_started := True\<rparr>
      else r)"

definition ThreadRateControl_restart ::
  "u64 \<Rightarrow> bool \<Rightarrow> thread_rate_control \<Rightarrow> thread_rate_control" where
  "ThreadRateControl_restart now resetStart r =
     ThreadRateControl_start now (if resetStart then r\<lparr>rc_started := False\<rparr> else r)"

text \<open>
  \<open>doRateControl\<close>: what it asks the HAL for (the two readings of the clock are one instant
  \<open>now\<close>) and the state after it, given the time at which the HAL's wait returns for an alarm. An
  alarm time that is negative or does not fit 64 bits is undefined behaviour, \<open>None\<close>.
\<close>

datatype rate_decision = NoWait | WaitUntil u64 | AlarmUndefined

definition double_to_u64 :: "real \<Rightarrow> u64 option" where
  "double_to_u64 x = (let n = trunc_real x in
     if 0 \<le> n \<and> n < 2 ^ 64 then Some (word_of_int n) else None)"

definition rate_alarm :: "u64 \<Rightarrow> int \<Rightarrow> thread_rate_control \<Rightarrow> rate_decision" where
  "rate_alarm now minLoopTimeMs r =
     (let remainingTimeMs = of_int minLoopTimeMs - TaskTimer_hasElapsedMs now (rc_eTimer r)
      in if remainingTimeMs > 0
         then (case double_to_u64 (real (unat now) + remainingTimeMs * 1000 - 150) of
                 Some a \<Rightarrow> WaitUntil a
               | None \<Rightarrow> AlarmUndefined)
         else NoWait)"

definition doRateControl ::
  "(u64 \<Rightarrow> u64) \<Rightarrow> u64 \<Rightarrow> int \<Rightarrow> thread_rate_control \<Rightarrow> (u64 \<times> thread_rate_control) option" where
  "doRateControl wait_for_alarm now minLoopTimeMs r =
     (let restart = (\<lambda>wake. (wake, r\<lparr>rc_eTimer := TaskTimer_start wake (rc_eTimer r)\<rparr>))
      in case rate_alarm now minLoopTimeMs r of
           WaitUntil a \<Rightarrow> Some (restart (wait_for_alarm a))
         | NoWait \<Rightarrow> Some (restart now)
         | AlarmUndefined \<Rightarrow> None)"

lemma trunc_real_lower: "x - 1 < of_int (trunc_real x)"
  unfolding trunc_real_def by (auto split: if_splits) linarith+

lemma double_to_u64_lower: "double_to_u64 x = Some a \<Longrightarrow> x - 1 < real (unat a)"
proof -
  assume "double_to_u64 x = Some a"
  then have r: "0 \<le> trunc_real x" "trunc_real x < 2 ^ 64" "a = word_of_int (trunc_real x)"
    by (auto simp only: double_to_u64_def Let_def option.inject split: if_splits)
  then have "uint a = trunc_real x"
    by (simp add: uint_word_of_int_eq take_bit_int_eq_self)
  then have "real (unat a) = of_int (trunc_real x)"
    using r(1) by (simp add: unat_eq_nat_uint)
  then show ?thesis using trunc_real_lower[of x] by simp
qed

text \<open>The rate control never lets a loop run early by more than the built-in code-delay offset:
  if the HAL does not return before the alarm it was given, two consecutive loop starts are at
  least the period less 151 microseconds apart, and an overrun loop restarts without waiting.\<close>

theorem rate_control_period:
  assumes "\<And>a. a \<le> wait_for_alarm a"
    and "tt_startTimeuS (rc_eTimer r) \<le> now"
    and "doRateControl wait_for_alarm now minLoopTimeMs r = Some (wake, r')"
  shows "of_int minLoopTimeMs * 1000 - 151 < real (unat wake) - real (unat (tt_startTimeuS (rc_eTimer r)))
    \<and> tt_startTimeuS (rc_eTimer r') = wake
    \<and> (of_int minLoopTimeMs \<le> TaskTimer_hasElapsedMs now (rc_eTimer r) \<longrightarrow> wake = now)"
proof -
  let ?s = "tt_startTimeuS (rc_eTimer r)"
  have el: "real (unat (now - ?s)) = real (unat now) - real (unat ?s)"
    using assms(2) by (simp add: unat_sub word_le_nat_alt of_nat_diff)
  consider (wait) a where "rate_alarm now minLoopTimeMs r = WaitUntil a" "wake = wait_for_alarm a"
    | (go) "rate_alarm now minLoopTimeMs r = NoWait" "wake = now"
    using assms(3) by (auto simp: doRateControl_def Let_def split: rate_decision.splits)
  then show ?thesis
  proof cases
    case wait
    have "unat a \<le> unat wake" using assms(1)[of a] wait by (simp add: word_le_nat_alt)
    moreover have "real (unat now) + (of_int minLoopTimeMs - real (unat (now - ?s)) / 1000) * 1000 - 150
        - 1 < real (unat a)"
      using wait(1) double_to_u64_lower[of _ a]
      by (fastforce simp: rate_alarm_def Let_def TaskTimer_hasElapsedMs_def split: if_splits option.splits)
    ultimately show ?thesis
      using wait assms(3) el
      by (auto simp: doRateControl_def rate_alarm_def Let_def TaskTimer_start_def algebra_simps
          diff_divide_distrib split: if_splits)
  next
    case go
    then show ?thesis
      using assms(3) el
      by (auto simp: doRateControl_def rate_alarm_def Let_def TaskTimer_start_def
          TaskTimer_hasElapsedMs_def split: if_splits option.splits)
  qed
qed

theorem rate_control_period_witness:
  "9849 < real (unat (fst (the (doRateControl (\<lambda>a. a) 4000 10
     \<lparr>rc_eTimer = \<lparr>tt_startTimeuS = 1000\<rparr>, rc_started = True\<rparr>)))) - 1000"
proof -
  let ?r = "\<lparr>rc_eTimer = \<lparr>tt_startTimeuS = 1000\<rparr>, rc_started = True\<rparr>"
  have "double_to_u64 10850 = Some 10850"
    by (simp add: double_to_u64_def trunc_real_def)
  then have "doRateControl (\<lambda>a. a) 4000 10 ?r
      = Some (10850, ?r\<lparr>rc_eTimer := \<lparr>tt_startTimeuS = 10850\<rparr>\<rparr>)"
    by (simp add: doRateControl_def rate_alarm_def TaskTimer_hasElapsedMs_def TaskTimer_start_def)
  from rate_control_period[OF _ _ this] this show ?thesis
    by simp
qed

end
