(* ===== verification/Task_Scheduler.thy ===== *)
theory Task_Scheduler
  imports CK_Prelude
begin

text \<open>
  \<open>utils/TaskScheduler\<close> and the scheduling fields of \<open>tasks/Task\<close>. The thread runs passes over
  the task list; a pass reads the FPGA clock once and runs every task whose next time has come.
  What a task does is abstract here: whether its \<open>run\<close> throws is a parameter, and the run is
  recorded with the argument it gets.
\<close>

record sched_task =
  st_name :: string
  mTaskRateMs :: u32
  timeNextUpdateuS :: u64
  timeLastUpdateuS :: u64

definition Task_new :: "u32 \<Rightarrow> string \<Rightarrow> sched_task" where
  "Task_new taskRateMs taskName =
     \<lparr>st_name = taskName, mTaskRateMs = taskRateMs, timeNextUpdateuS = 0, timeLastUpdateuS = 0\<rparr>"

definition scheduleTask :: "sched_task \<Rightarrow> sched_task list \<Rightarrow> sched_task list" where
  "scheduleTask t taskList = taskList @ [t]"

definition scheduleTask_rate :: "sched_task \<Rightarrow> u32 \<Rightarrow> sched_task list \<Rightarrow> sched_task list" where
  "scheduleTask_rate t taskRateMs taskList = taskList @ [t\<lparr>mTaskRateMs := taskRateMs\<rparr>]"

text \<open>The period of a task: the product is computed in 32 bits.\<close>

definition period_us :: "sched_task \<Rightarrow> u64" where
  "period_us t = ucast (mTaskRateMs t * 1000)"

definition task_due :: "u64 \<Rightarrow> sched_task \<Rightarrow> bool" where
  "task_due timeNow t \<longleftrightarrow> mTaskRateMs t \<noteq> 0 \<and> (timeNextUpdateuS t < timeNow \<or> timeNextUpdateuS t = 0)"

definition advance_task :: "sched_task \<Rightarrow> sched_task" where
  "advance_task t = t\<lparr>timeLastUpdateuS := timeNextUpdateuS t,
     timeNextUpdateuS := timeNextUpdateuS t + period_us t\<rparr>"

text \<open>A logged run: the task and its 32-bit argument, the truncated difference in microseconds.\<close>

type_synonym task_run = "string \<times> u32"

definition run_entry :: "u64 \<Rightarrow> sched_task \<Rightarrow> task_run" where
  "run_entry timeNow t = (st_name t, ucast (timeNow - timeLastUpdateuS t))"

record pass_result =
  pr_tasks :: "sched_task list"
  pr_runs :: "task_run list"
  pr_wake :: u64
  pr_aborted :: bool

text \<open>The loop over the task list, from the remaining tasks and the earliest wake time so far. A
  throwing task leaves the loop at once, with its times and all later tasks untouched.\<close>

fun scheduler_loop :: "(sched_task \<Rightarrow> bool) \<Rightarrow> u64 \<Rightarrow> u64 \<Rightarrow> sched_task list \<Rightarrow> pass_result" where
  "scheduler_loop throws timeNow nextWakeTime [] =
     \<lparr>pr_tasks = [], pr_runs = [], pr_wake = nextWakeTime, pr_aborted = False\<rparr>"
| "scheduler_loop throws timeNow nextWakeTime (t # ts) =
     (if mTaskRateMs t = 0 then
        (let r = scheduler_loop throws timeNow nextWakeTime ts
         in r\<lparr>pr_tasks := t # pr_tasks r\<rparr>)
      else if task_due timeNow t then
        (if throws t then
           \<lparr>pr_tasks = t # ts, pr_runs = [run_entry timeNow t], pr_wake = nextWakeTime,
            pr_aborted = True\<rparr>
         else
           (let t' = advance_task t;
                r = scheduler_loop throws timeNow
                      (if timeNextUpdateuS t' < nextWakeTime then timeNextUpdateuS t' else nextWakeTime) ts
            in r\<lparr>pr_tasks := t' # pr_tasks r, pr_runs := run_entry timeNow t # pr_runs r\<rparr>))
      else
        (let r = scheduler_loop throws timeNow
                   (if timeNextUpdateuS t < nextWakeTime then timeNextUpdateuS t else nextWakeTime) ts
         in r\<lparr>pr_tasks := t # pr_tasks r\<rparr>))"

text \<open>One iteration of \<open>run\<close>'s while loop: the alarm it waits for, unless the pass threw.\<close>

definition scheduler_pass ::
  "(sched_task \<Rightarrow> bool) \<Rightarrow> u64 \<Rightarrow> sched_task list \<Rightarrow> sched_task list \<times> task_run list \<times> u64 option" where
  "scheduler_pass throws timeNow taskList =
     (let r = scheduler_loop throws timeNow (- 1) taskList
      in (pr_tasks r, pr_runs r, if pr_aborted r then None else Some (pr_wake r)))"

text \<open>Passes at the given clock readings, with the runs of each.\<close>

fun scheduler_run ::
  "(sched_task \<Rightarrow> bool) \<Rightarrow> u64 list \<Rightarrow> sched_task list \<Rightarrow> sched_task list \<times> task_run list list" where
  "scheduler_run throws [] tasks = (tasks, [])"
| "scheduler_run throws (now # clocks) tasks =
     (case scheduler_pass throws now tasks of (tasks1, runs, _) \<Rightarrow>
       (case scheduler_run throws clocks tasks1 of (tasks2, history) \<Rightarrow> (tasks2, runs # history)))"

section \<open>A pass\<close>

definition after_pass :: "u64 \<Rightarrow> sched_task \<Rightarrow> sched_task" where
  "after_pass now t = (if task_due now t then advance_task t else t)"

definition wake_min :: "sched_task list \<Rightarrow> u64 \<Rightarrow> u64" where
  "wake_min ts w = foldl (\<lambda>w t. if mTaskRateMs t \<noteq> 0 then min w (timeNextUpdateuS t) else w) w ts"

lemma advance_rate [simp]: "mTaskRateMs (advance_task t) = mTaskRateMs t"
  by (simp add: advance_task_def)

lemma advance_name [simp]: "st_name (advance_task t) = st_name t"
  by (simp add: advance_task_def)

lemma after_pass_rate [simp]: "mTaskRateMs (after_pass now t) = mTaskRateMs t"
  by (simp add: after_pass_def)

lemma scheduler_loop_ok:
  assumes "\<And>t. t \<in> set ts \<Longrightarrow> task_due now t \<Longrightarrow> \<not> throws t"
  shows "scheduler_loop throws now w ts =
    \<lparr>pr_tasks = map (after_pass now) ts, pr_runs = map (run_entry now) (filter (task_due now) ts),
     pr_wake = wake_min (map (after_pass now) ts) w, pr_aborted = False\<rparr>"
  using assms
proof (induction ts arbitrary: w)
  case Nil
  then show ?case by (simp add: wake_min_def)
next
  case (Cons t ts)
  then show ?case
    by (cases "mTaskRateMs t = 0"; cases "task_due now t")
      (auto simp: wake_min_def after_pass_def task_due_def min_def Let_def)
qed

lemma wake_min_le: "wake_min ts w \<le> w \<and> (\<forall>t \<in> set ts. mTaskRateMs t \<noteq> 0 \<longrightarrow> wake_min ts w \<le> timeNextUpdateuS t)"
proof (induction ts arbitrary: w)
  case Nil
  then show ?case by (simp add: wake_min_def)
next
  case (Cons t ts)
  let ?w = "if mTaskRateMs t \<noteq> 0 then min w (timeNextUpdateuS t) else w"
  have "wake_min (t # ts) w = wake_min ts ?w" by (simp add: wake_min_def)
  with Cons.IH[of ?w] show ?case by (auto split: if_splits)
qed

lemma wake_min_attained:
  "wake_min ts w = w \<or> (\<exists>t \<in> set ts. mTaskRateMs t \<noteq> 0 \<and> wake_min ts w = timeNextUpdateuS t)"
proof (induction ts arbitrary: w)
  case Nil
  then show ?case by (simp add: wake_min_def)
next
  case (Cons t ts)
  let ?w = "if mTaskRateMs t \<noteq> 0 then min w (timeNextUpdateuS t) else w"
  have "wake_min (t # ts) w = wake_min ts ?w" by (simp add: wake_min_def)
  with Cons.IH[of ?w] show ?case by (auto simp: min_def split: if_splits)
qed

text \<open>C16. A pass in which no due task throws runs exactly the due tasks, in scheduling order, each
  once; a task that ran moves one period along its grid, every other task is left alone; and the
  thread then waits for the earliest next time of the periodic tasks (for the largest 64-bit time
  when there is none).\<close>

theorem scheduler_pass_correct:
  assumes "\<And>t. t \<in> set tasks \<Longrightarrow> task_due now t \<Longrightarrow> \<not> throws t"
    and "scheduler_pass throws now tasks = (tasks', runs, alarm)"
  shows "tasks' = map (after_pass now) tasks
    \<and> runs = map (run_entry now) (filter (task_due now) tasks)
    \<and> (\<exists>wake. alarm = Some wake
         \<and> (\<forall>t \<in> set tasks'. mTaskRateMs t \<noteq> 0 \<longrightarrow> wake \<le> timeNextUpdateuS t)
         \<and> (wake = - 1 \<or> (\<exists>t \<in> set tasks'. mTaskRateMs t \<noteq> 0 \<and> wake = timeNextUpdateuS t)))"
  using assms(2) wake_min_le[of "map (after_pass now) tasks" "- 1"]
    wake_min_attained[of "map (after_pass now) tasks" "- 1"]
  by (auto simp: scheduler_pass_def scheduler_loop_ok[OF assms(1)] Let_def)

theorem scheduler_pass_correct_witness:
  "fst (snd (scheduler_pass (\<lambda>t. False) 5 [Task_new 20 ''a'', Task_new 0 ''b'', Task_new 10 ''c'']))
   = [(''a'', 5), (''c'', 5)]"
proof -
  let ?ts = "[Task_new 20 ''a'', Task_new 0 ''b'', Task_new 10 ''c'']"
  obtain ts' runs al where p: "scheduler_pass (\<lambda>t. False) 5 ?ts = (ts', runs, al)"
    using prod_cases3 by blast
  from scheduler_pass_correct[OF _ p] have "runs = map (run_entry 5) (filter (task_due 5) ?ts)"
    by simp
  with p show ?thesis by (simp add: task_due_def Task_new_def run_entry_def)
qed

section \<open>The grid\<close>

text \<open>How often one task runs over a sequence of passes.\<close>

fun runs_of :: "u64 list \<Rightarrow> sched_task \<Rightarrow> nat" where
  "runs_of [] t = 0"
| "runs_of (now # clocks) t = (if task_due now t then 1 else 0) + runs_of clocks (after_pass now t)"

lemma scheduler_run_ok:
  "scheduler_run (\<lambda>t. False) clocks tasks = (tasks', history) \<Longrightarrow>
     tasks' = map (fold after_pass clocks) tasks \<and> length history = length clocks"
proof (induction clocks arbitrary: tasks history)
  case Nil
  then show ?case by simp
next
  case (Cons now clocks)
  then show ?case
    using Cons.IH[of "map (after_pass now) tasks"]
    by (auto simp: scheduler_pass_def scheduler_loop_ok Let_def split: prod.splits)
qed

lemma period_after [simp]: "period_us (after_pass now t) = period_us t"
  by (simp add: after_pass_def advance_task_def period_us_def)

lemma fold_after_pass_rate [simp]: "mTaskRateMs (fold after_pass clocks t) = mTaskRateMs t"
  by (induction clocks arbitrary: t) auto

definition at_grid :: "nat \<Rightarrow> sched_task \<Rightarrow> bool" where
  "at_grid k t \<longleftrightarrow> unat (timeNextUpdateuS t) = k * unat (period_us t)
     \<and> (0 < k \<longrightarrow> unat (timeLastUpdateuS t) = (k - 1) * unat (period_us t))"

lemma at_grid_step:
  assumes "at_grid k t" "mTaskRateMs t \<noteq> 0" "period_us t \<noteq> 0"
    "unat now + unat (period_us t) < 2 ^ 64"
  shows "at_grid (k + (if task_due now t then 1 else 0)) (after_pass now t)"
    and "task_due now t \<Longrightarrow> k = 0 \<or> k * unat (period_us t) < unat now"
    and "\<not> task_due now t \<Longrightarrow> 0 < k \<and> unat now \<le> k * unat (period_us t)"
proof -
  have p: "0 < unat (period_us t)" using assms(3) by (simp add: unat_gt_0)
  have due: "task_due now t \<longleftrightarrow> k * unat (period_us t) < unat now \<or> k = 0"
    using assms(1,2) p by (auto simp: task_due_def at_grid_def word_less_nat_alt unat_eq_0[symmetric])
  show "task_due now t \<Longrightarrow> k = 0 \<or> k * unat (period_us t) < unat now"
    and "\<not> task_due now t \<Longrightarrow> 0 < k \<and> unat now \<le> k * unat (period_us t)"
    using due by auto
  show "at_grid (k + (if task_due now t then 1 else 0)) (after_pass now t)"
  proof (cases "task_due now t")
    case True
    have "k * unat (period_us t) + unat (period_us t) < 2 ^ 64"
      using due True assms(4) by auto
    then have "unat (timeNextUpdateuS t + period_us t) = k * unat (period_us t) + unat (period_us t)"
      using assms(1) by (simp add: at_grid_def unat_word_ariths)
    then show ?thesis
      using True assms(1)
      by (simp add: at_grid_def after_pass_def advance_task_def period_us_def algebra_simps)
  next
    case False
    then show ?thesis using assms(1) by (simp add: after_pass_def)
  qed
qed

lemma grid_runs:
  assumes "at_grid k t" "mTaskRateMs t \<noteq> 0" "period_us t \<noteq> 0"
    "\<forall>now \<in> set clocks. T0 \<le> unat now \<and> unat now \<le> T1" "T1 + unat (period_us t) < 2 ^ 64"
  shows "at_grid (k + runs_of clocks t) (fold after_pass clocks t)
    \<and> (runs_of clocks t = 0 \<or> (k + runs_of clocks t - 1) * unat (period_us t) \<le> T1)
    \<and> (runs_of clocks t = length clocks \<or> T0 \<le> (k + runs_of clocks t) * unat (period_us t))"
  using assms
proof (induction clocks arbitrary: k t)
  case Nil
  then show ?case by simp
next
  case (Cons now clocks)
  have b: "unat now + unat (period_us t) < 2 ^ 64" "T0 \<le> unat now" "unat now \<le> T1"
    using Cons.prems by auto
  note step = at_grid_step[OF Cons.prems(1-3) b(1)]
  let ?P = "unat (period_us t)" and ?n = "runs_of clocks (after_pass now t)"
  show ?case
  proof (cases "task_due now t")
    case True
    have "k * ?P \<le> T1" using step(2)[OF True] b by auto
    then show ?thesis
      using Cons.IH[of "k + 1" "after_pass now t"] step(1) Cons.prems True
      by (cases "?n = 0") auto
  next
    case False
    have "T0 \<le> (k + ?n) * ?P"
      using step(3)[OF False] b by (meson le_add1 mult_le_mono1 order_trans)
    then show ?thesis
      using Cons.IH[of k "after_pass now t"] step(1) Cons.prems False by auto
  qed
qed

text \<open>C9. Periodic tasks do not drift. Let the scheduler make passes at any clock readings between \<open>T0\<close> and
  \<open>T1\<close>, in any order, with no task throwing, and take a task whose rate is not zero, nor is its period in
  32-bit microseconds, and \<open>T1\<close> plus one period is less than \<open>2 ^ 64\<close>. When the task was due in \<open>k\<close> of the
  passes it is next due at exactly \<open>k\<close> periods, and its last deadline was one period earlier; \<open>k - 1\<close>
  periods are at most \<open>T1\<close>, so it has not run ahead of the clock; and either it ran in every pass,
  catching up, or its next deadline is not before \<open>T0\<close>.\<close>

theorem scheduler_no_drift:
  assumes "scheduler_run (\<lambda>t. False) clocks (map (\<lambda>(rate, name). Task_new rate name) specs)
      = (tasks', history)"
    and "i < length specs" and "specs ! i = (rate, name)"
    and "rate \<noteq> 0" and "rate * 1000 \<noteq> 0"
    and "\<forall>now \<in> set clocks. T0 \<le> unat now \<and> unat now \<le> T1"
    and "T1 + unat (rate * 1000) < 2 ^ 64"
    and "k = runs_of clocks (Task_new rate name)"
  shows "at_grid k (tasks' ! i)
    \<and> (k = 0 \<or> (k - 1) * unat (rate * 1000) \<le> T1)
    \<and> (k = length clocks \<or> T0 \<le> k * unat (rate * 1000))"
proof -
  let ?t = "Task_new rate name"
  have P: "unat (period_us ?t) = unat (rate * 1000)"
    by (simp add: period_us_def Task_new_def unat_ucast_u32)
  have nz: "period_us ?t \<noteq> 0"
    using assms(5) P by (metis unat_eq_zero)
  have "at_grid 0 ?t" "mTaskRateMs ?t \<noteq> 0"
    using assms(4) by (simp_all add: at_grid_def Task_new_def)
  from grid_runs[OF this nz, of clocks T0 T1] assms(6-8)
  have "at_grid k (fold after_pass clocks ?t) \<and> (k = 0 \<or> (k - 1) * unat (rate * 1000) \<le> T1)
    \<and> (k = length clocks \<or> T0 \<le> k * unat (rate * 1000))"
    by (simp add: P)
  then show ?thesis
    using scheduler_run_ok[OF assms(1)] assms(2,3) by simp
qed

theorem scheduler_no_drift_witness:
  "unat (timeNextUpdateuS (fst (scheduler_run (\<lambda>t. False) [25000, 25100, 41000, 60001]
      (map (\<lambda>(rate, name). Task_new rate name) [(20, ''a'')])) ! 0)) = 80000"
proof -
  let ?clocks = "[25000, 25100, 41000, 60001] :: u64 list"
  obtain ts history where r: "scheduler_run (\<lambda>t. False) ?clocks
      (map (\<lambda>(rate, name). Task_new rate name) [(20, ''a'')]) = (ts, history)" by fastforce
  have k: "runs_of ?clocks (Task_new 20 ''a'') = 4"
    by (simp add: after_pass_def task_due_def advance_task_def Task_new_def period_us_def)
  have "at_grid 4 (ts ! 0)"
    by (rule scheduler_no_drift[OF r _ _ _ _ _ _ k[symmetric], of 0 25000 60001, THEN conjunct1])
      simp_all
  moreover have "mTaskRateMs (ts ! 0) = 20"
    using scheduler_run_ok[OF r] by (simp del: fold_simps add: Task_new_def)
  ultimately have "unat (timeNextUpdateuS (ts ! 0)) = 80000"
    by (simp add: at_grid_def period_us_def)
  then show ?thesis
    by (simp only: r fst_conv)
qed

section \<open>Exceptions\<close>

lemma scheduler_loop_abort:
  assumes "task_due now t" "throws t" "\<And>u. u \<in> set before \<Longrightarrow> mTaskRateMs u = 0"
  shows "scheduler_loop throws now w (before @ t # rest) =
    \<lparr>pr_tasks = before @ t # rest, pr_runs = [run_entry now t], pr_wake = w, pr_aborted = True\<rparr>"
  using assms by (induction before) (auto simp: task_due_def Let_def)

text \<open>A task that keeps throwing starves every task scheduled after it and keeps the thread
  busy: its times are never advanced, so every later pass stops at it again, runs nothing else and
  waits for no alarm.\<close>

theorem scheduler_exception_starves:
  assumes "throws t" and "mTaskRateMs t \<noteq> 0" and "timeNextUpdateuS t = 0"
  shows "scheduler_run throws clocks (t # rest) = (t # rest, map (\<lambda>now. [run_entry now t]) clocks)
    \<and> snd (snd (scheduler_pass throws now (t # rest))) = None"
proof -
  have pass: "scheduler_pass throws now (t # rest) = (t # rest, [run_entry now t], None)" for now
    using scheduler_loop_abort[of now t throws "[]" "- 1" rest] assms
    by (simp add: scheduler_pass_def task_due_def Let_def)
  then have "scheduler_run throws clocks (t # rest) = (t # rest, map (\<lambda>now. [run_entry now t]) clocks)"
    by (induction clocks) simp_all
  then show ?thesis by (simp add: pass)
qed

theorem scheduler_exception_starves_witness:
  "snd (scheduler_run (\<lambda>t. st_name t = ''bad'') [1, 2, 3] [Task_new 10 ''bad'', Task_new 10 ''good''])
   = [[(''bad'', 1)], [(''bad'', 2)], [(''bad'', 3)]]"
  using scheduler_exception_starves[of "\<lambda>t. st_name t = ''bad''" "Task_new 10 ''bad''" "[1, 2, 3]"]
  by (simp add: Task_new_def run_entry_def)

text \<open>A pass in general: the tasks before the one that throws, if any, are served, the rest is untouched.\<close>

lemma scheduler_loop_cases:
  obtains before rest where "tasks = before @ rest"
    and "\<And>t. t \<in> set before \<Longrightarrow> task_due now t \<Longrightarrow> \<not> throws t"
    and "pr_tasks (scheduler_loop throws now w tasks) = map (after_pass now) before @ rest"
    and "pr_runs (scheduler_loop throws now w tasks) = map (run_entry now) (filter (task_due now) before @ take 1 rest)"
    and "pr_aborted (scheduler_loop throws now w tasks) \<longleftrightarrow> rest \<noteq> []"
    and "rest \<noteq> [] \<Longrightarrow> task_due now (hd rest) \<and> throws (hd rest)"
proof -
  have "\<exists>before rest. tasks = before @ rest \<and> (\<forall>t \<in> set before. task_due now t \<longrightarrow> \<not> throws t)
      \<and> pr_tasks (scheduler_loop throws now w tasks) = map (after_pass now) before @ rest
      \<and> pr_runs (scheduler_loop throws now w tasks) = map (run_entry now) (filter (task_due now) before @ take 1 rest)
      \<and> (pr_aborted (scheduler_loop throws now w tasks) \<longleftrightarrow> rest \<noteq> [])
      \<and> (rest \<noteq> [] \<longrightarrow> task_due now (hd rest) \<and> throws (hd rest))"
  proof (induction tasks arbitrary: w)
    case Nil
    then show ?case by simp
  next
    case (Cons t ts)
    show ?case
    proof (cases "task_due now t \<and> throws t")
      case True
      then have "mTaskRateMs t \<noteq> 0" by (simp add: task_due_def)
      then show ?thesis using True by (intro exI[where x = "[]"] exI[where x = "t # ts"]) (simp add: Let_def)
    next
      case False
      let ?w = "if mTaskRateMs t = 0 then w else if timeNextUpdateuS (after_pass now t) < w
          then timeNextUpdateuS (after_pass now t) else w"
      obtain before rest where IH: "ts = before @ rest" "\<forall>t \<in> set before. task_due now t \<longrightarrow> \<not> throws t"
        "pr_tasks (scheduler_loop throws now ?w ts) = map (after_pass now) before @ rest"
        "pr_runs (scheduler_loop throws now ?w ts) = map (run_entry now) (filter (task_due now) before @ take 1 rest)"
        "pr_aborted (scheduler_loop throws now ?w ts) \<longleftrightarrow> rest \<noteq> []"
        "rest \<noteq> [] \<longrightarrow> task_due now (hd rest) \<and> throws (hd rest)"
        using Cons.IH[of ?w] by blast
      let ?r = "scheduler_loop throws now ?w ts"
      have "scheduler_loop throws now w (t # ts) = ?r\<lparr>pr_tasks := after_pass now t # pr_tasks ?r,
          pr_runs := map (run_entry now) (filter (task_due now) [t]) @ pr_runs ?r\<rparr>"
        using False by (cases "task_due now t") (auto simp: Let_def after_pass_def task_due_def[of now t])
      then have "t # ts = (t # before) @ rest \<and> (\<forall>u \<in> set (t # before). task_due now u \<longrightarrow> \<not> throws u)
          \<and> pr_tasks (scheduler_loop throws now w (t # ts)) = map (after_pass now) (t # before) @ rest
          \<and> pr_runs (scheduler_loop throws now w (t # ts))
              = map (run_entry now) (filter (task_due now) (t # before) @ take 1 rest)
          \<and> (pr_aborted (scheduler_loop throws now w (t # ts)) \<longleftrightarrow> rest \<noteq> [])
          \<and> (rest \<noteq> [] \<longrightarrow> task_due now (hd rest) \<and> throws (hd rest))"
        using False IH by simp
      then show ?thesis by blast
    qed
  qed
  then show thesis using that by blast
qed

end
