(* ===== verification/Iterative_Robot.thy ===== *)
theory Iterative_Robot
  imports CK_Prelude
begin

text \<open>
  \<open>utils/ckrobot/IterativeRobotBase\<close>: one iteration of the robot loop. \<open>LoopFunc\<close> reads the
  driver-station word and calls the virtual functions of the robot; the model returns the calls it
  makes, in order, and the state it leaves. The watchdog only measures and is left out. The
  functions called are interpreted by the robot program, in theory \<open>Robot\<close>.
\<close>

datatype mode = kNone | kDisabled | kAutonomous | kTeleop | kTest

record ds_control_word =
  IsDisabled :: bool
  IsAutonomous :: bool
  IsTeleop :: bool
  IsTest :: bool

datatype loop_event =
    ModeExit mode
  | ModeInit mode
  | ModePeriodic mode
  | ObserveUserProgram mode
  | SetLiveWindow bool
  | SetActuatorWidgets bool
  | CallRobotPeriodic
  | UpdateDashboards
  | SimPeriodic
  | FlushNetworkTables

record iterative_robot =
  m_lastMode :: mode
  m_lwEnabledInTest :: bool
  m_ntFlushEnabled :: bool

definition IterativeRobotBase_new :: iterative_robot where
  "IterativeRobotBase_new = \<lparr>m_lastMode = kNone, m_lwEnabledInTest = True, m_ntFlushEnabled = True\<rparr>"

definition SetNetworkTablesFlushEnabled :: "bool \<Rightarrow> iterative_robot \<Rightarrow> iterative_robot" where
  "SetNetworkTablesFlushEnabled enabled s = s\<lparr>m_ntFlushEnabled := enabled\<rparr>"

definition EnableLiveWindowInTest :: "bool \<Rightarrow> bool \<Rightarrow> iterative_robot \<Rightarrow> fault + iterative_robot" where
  "EnableLiveWindowInTest isTest testLW s =
     (if isTest then Inl (ThrownException ''Can't configure test mode while in test mode!'')
      else Inr (s\<lparr>m_lwEnabledInTest := testLW\<rparr>))"

definition IsLiveWindowEnabledInTest :: "iterative_robot \<Rightarrow> bool" where
  "IsLiveWindowEnabledInTest s = m_lwEnabledInTest s"

definition mode_of_word :: "ds_control_word \<Rightarrow> mode" where
  "mode_of_word w =
     (if IsDisabled w then kDisabled
      else if IsAutonomous w then kAutonomous
      else if IsTeleop w then kTeleop
      else if IsTest w then kTest
      else kNone)"

definition mode_exit_events :: "iterative_robot \<Rightarrow> loop_event list" where
  "mode_exit_events s =
     (case m_lastMode s of
        kNone \<Rightarrow> []
      | kTest \<Rightarrow> (if m_lwEnabledInTest s then [SetLiveWindow False, SetActuatorWidgets False] else [])
                 @ [ModeExit kTest]
      | m \<Rightarrow> [ModeExit m])"

definition mode_init_events :: "mode \<Rightarrow> iterative_robot \<Rightarrow> loop_event list" where
  "mode_init_events m s =
     (case m of
        kNone \<Rightarrow> []
      | kTest \<Rightarrow> (if m_lwEnabledInTest s then [SetLiveWindow True, SetActuatorWidgets True] else [])
                 @ [ModeInit kTest]
      | _ \<Rightarrow> [ModeInit m])"

definition mode_periodic_events :: "mode \<Rightarrow> loop_event list" where
  "mode_periodic_events m = (if m = kNone then [] else [ObserveUserProgram m, ModePeriodic m])"

definition LoopFunc :: "bool \<Rightarrow> ds_control_word \<Rightarrow> iterative_robot \<Rightarrow> loop_event list \<times> iterative_robot" where
  "LoopFunc isSimulation w s =
     (let m = mode_of_word w;
          change = (if m_lastMode s \<noteq> m then mode_exit_events s @ mode_init_events m s else []);
          s1 = s\<lparr>m_lastMode := m\<rparr>
      in (change @ mode_periodic_events m @ [CallRobotPeriodic, UpdateDashboards]
            @ (if isSimulation then [SimPeriodic] else [])
            @ (if m_ntFlushEnabled s then [FlushNetworkTables] else []), s1))"

fun robot_loops :: "bool \<Rightarrow> ds_control_word list \<Rightarrow> iterative_robot \<Rightarrow> loop_event list \<times> iterative_robot" where
  "robot_loops sim [] s = ([], s)"
| "robot_loops sim (w # ws) s =
     (let (es, s1) = LoopFunc sim w s; (es', s2) = robot_loops sim ws s1 in (es @ es', s2))"

section \<open>The protocol of mode callbacks\<close>

text \<open>The contract a robot program relies on, as an acceptor: a mode is entered only from no mode,
  left only while in it, and its periodic function is called only while in it.\<close>

fun mode_protocol :: "mode \<Rightarrow> loop_event list \<Rightarrow> mode option" where
  "mode_protocol m [] = Some m"
| "mode_protocol m (ModeInit x # es) =
     (if m = kNone \<and> x \<noteq> kNone then mode_protocol x es else None)"
| "mode_protocol m (ModeExit x # es) =
     (if m = x \<and> x \<noteq> kNone then mode_protocol kNone es else None)"
| "mode_protocol m (ModePeriodic x # es) = (if m = x \<and> x \<noteq> kNone then mode_protocol m es else None)"
| "mode_protocol m (_ # es) = mode_protocol m es"

lemma mode_protocol_append:
  "mode_protocol m (es @ es') = (case mode_protocol m es of None \<Rightarrow> None | Some m' \<Rightarrow> mode_protocol m' es')"
  by (induction m es rule: mode_protocol.induct) auto

lemma mode_exit_ok: "mode_protocol (m_lastMode s) (mode_exit_events s) = Some kNone"
  by (simp add: mode_exit_events_def split: mode.splits)

lemma mode_init_ok: "mode_protocol kNone (mode_init_events m s) = Some m"
  by (simp add: mode_init_events_def split: mode.splits)

lemma mode_periodic_ok: "mode_protocol m (mode_periodic_events m) = Some m"
  by (simp add: mode_periodic_events_def)

lemma LoopFunc_protocol:
  "LoopFunc sim w s = (es, s') \<Longrightarrow> mode_protocol (m_lastMode s) es = Some (m_lastMode s')"
  by (auto simp: LoopFunc_def Let_def mode_protocol_append mode_exit_ok mode_init_ok mode_periodic_ok)

lemma count_list_0: "x \<notin> set xs \<Longrightarrow> count_list xs x = 0"
  by (induction xs) auto

lemma LoopFunc_periodic_once:
  "LoopFunc sim w s = (es, s') \<Longrightarrow> count_list es CallRobotPeriodic = 1"
  by (auto simp: LoopFunc_def Let_def count_list_append mode_exit_events_def mode_init_events_def
      mode_periodic_events_def split: mode.splits)

text \<open>C23. The robot loop keeps the mode protocol over any sequence of driver-station words: every
  mode is entered before its periodic function runs, left exactly once before the next mode is
  entered, modes never nest, the loop ends in the mode of the last word, and the mode-independent
  periodic function runs exactly once per loop.\<close>

theorem loop_mode_protocol:
  "mode_protocol (m_lastMode s) (fst (robot_loops sim ws s))
     = Some (if ws = [] then m_lastMode s else mode_of_word (last ws))
   \<and> count_list (fst (robot_loops sim ws s)) CallRobotPeriodic = length ws"
proof (induction ws arbitrary: s)
  case Nil
  then show ?case by simp
next
  case (Cons w ws)
  obtain es s1 where l: "LoopFunc sim w s = (es, s1)" by fastforce
  obtain es' s2 where r: "robot_loops sim ws s1 = (es', s2)" by fastforce
  have "m_lastMode s1 = mode_of_word w" using l by (auto simp: LoopFunc_def Let_def)
  with Cons.IH[of s1] show ?case
    using l r LoopFunc_protocol[OF l] LoopFunc_periodic_once[OF l]
    by (simp add: mode_protocol_append count_list_append)
qed

end
