(* ===== verification/Network_Manager.thy ===== *)
theory Network_Manager
  imports Std_Map External_Control "HOL-Library.List_Lexorder" "HOL-Library.Char_ord"
begin

text \<open>
  \<open>NetworkManager\<close>: the mailbox between the coprocessor, the on-board failover code and the
  tasks. Received messages are kept by group, the last one wins, and reading one removes it. The
  ZeroMQ dish socket is a queue of what \<open>recv\<close> will return; what a radio socket answers to
  \<open>send\<close> is a parameter. The mailbox and the dead-man counter of \<open>External_Control\<close> form
  the communication state the pump works on.
\<close>

datatype dish_event = DishMessage string bytes | DishError string

record network =
  recvMsgMap :: "(string, bytes) std_map"
  joinedGroups :: "string list"
  sendSockets :: "string list"

record comms =
  net :: network
  ext :: external_control

definition NetworkManager_new :: "network" where
  "NetworkManager_new = \<lparr>recvMsgMap = [], joinedGroups = [], sendSockets = [''udp://10.1.95.5:5801'']\<rparr>"

definition connectListener :: "string \<Rightarrow> network \<Rightarrow> network" where
  "connectListener ip n = n\<lparr>sendSockets := sendSockets n @ [''udp://'' @ ip @ '':'' @ ''5801'']\<rparr>"

definition joinGroup :: "string \<Rightarrow> network \<Rightarrow> network" where
  "joinGroup grp n = n\<lparr>joinedGroups := joinedGroups n @ [grp]\<rparr>"

definition placeFailoverMessage :: "string \<Rightarrow> bytes \<Rightarrow> network \<Rightarrow> bool \<times> network" where
  "placeFailoverMessage grp payload n = (True, n\<lparr>recvMsgMap := sm_put grp payload (recvMsgMap n)\<rparr>)"

text \<open>\<open>getMessage\<close>: the flag it returns and the bytes it assigns when the flag is true.\<close>

definition getMessage :: "string \<Rightarrow> network \<Rightarrow> bytes option \<times> network" where
  "getMessage grp n =
     (if sm_count (recvMsgMap n) grp
      then (sm_get (recvMsgMap n) grp, n\<lparr>recvMsgMap := sm_erase grp (recvMsgMap n)\<rparr>)
      else (None, n))"

definition EAGAIN :: nat where
  "EAGAIN = 11"

definition store_received :: "string \<Rightarrow> bytes \<Rightarrow> comms \<Rightarrow> comms" where
  "store_received grp payload c =
     c\<lparr>net := (net c)\<lparr>recvMsgMap := sm_put grp payload (recvMsgMap (net c))\<rparr>,
       ext := externalControlMsgReceived (ext c)\<rparr>"

text \<open>The receive loop. \<open>recv\<close> returns no value when nothing is queued and otherwise the number of
  bytes, which the loop compares with the error number \<open>EAGAIN\<close>. The first component tells
  whether an exception left the loop.\<close>

fun pump_loop :: "dish_event list \<Rightarrow> comms \<Rightarrow> bool \<times> dish_event list \<times> comms" where
  "pump_loop [] c = (False, [], c)"
| "pump_loop (DishError e # queue) c = (True, queue, c)"
| "pump_loop (DishMessage grp payload # queue) c =
     (if length payload = EAGAIN then (False, queue, c)
      else pump_loop queue (store_received grp payload c))"

definition receiveMessagePump :: "dish_event list \<Rightarrow> comms \<Rightarrow> bool \<times> dish_event list \<times> comms" where
  "receiveMessagePump queue c =
     (let readSuccessful = (case queue of DishMessage g p # _ \<Rightarrow> length p \<noteq> EAGAIN | _ \<Rightarrow> False)
      in case pump_loop queue c of (thrown, queue', c') \<Rightarrow> (readSuccessful \<and> \<not> thrown, queue', c'))"

datatype send_result = SentBytes nat | SendAgain | SendError string

definition send_to_socket :: "(string \<Rightarrow> string \<Rightarrow> bytes \<Rightarrow> send_result) \<Rightarrow> string \<Rightarrow> bytes \<Rightarrow> string \<Rightarrow> bool" where
  "send_to_socket radio grp payload sock =
     (case radio sock grp payload of SentBytes n \<Rightarrow> n > 0 | SendAgain \<Rightarrow> False | SendError e \<Rightarrow> False)"

text \<open>\<open>sendMessage\<close> tries every socket, in order: the sockets tried and the result.\<close>

definition sendMessage ::
  "(string \<Rightarrow> string \<Rightarrow> bytes \<Rightarrow> send_result) \<Rightarrow> string \<Rightarrow> bytes \<Rightarrow> network \<Rightarrow> string list \<times> bool" where
  "sendMessage radio grp payload n =
     foldl (\<lambda>(tried, retVal) sock.
         let r = send_to_socket radio grp payload sock in (tried @ [sock], retVal \<and> r))
       ([], True) (sendSockets n)"

definition listStoredMessages :: "network \<Rightarrow> string list" where
  "listStoredMessages n = map (\<lambda>e. ''Group: '' @ fst e) (recvMsgMap n)"

definition network_ok :: "network \<Rightarrow> bool" where
  "network_ok n \<longleftrightarrow> sm_ok (recvMsgMap n)"

section \<open>The mailbox\<close>

definition waiting :: "network \<Rightarrow> string \<Rightarrow> bytes option" where
  "waiting n grp = sm_get (recvMsgMap n) grp"

lemma network_ok_ops [simp]:
  "network_ok NetworkManager_new"
  "network_ok n \<Longrightarrow> network_ok (snd (placeFailoverMessage g p n))"
  "network_ok n \<Longrightarrow> network_ok (snd (getMessage g n))"
  "network_ok (net c) \<Longrightarrow> network_ok (net (store_received g p c))"
  by (auto simp: network_ok_def NetworkManager_new_def placeFailoverMessage_def getMessage_def
      store_received_def)

lemma waiting_place [simp]:
  "network_ok n \<Longrightarrow> waiting (snd (placeFailoverMessage g p n)) h = (if h = g then Some p else waiting n h)"
  by (simp add: waiting_def placeFailoverMessage_def network_ok_def)

lemma waiting_stored [simp]:
  "network_ok (net c) \<Longrightarrow>
     waiting (net (store_received g p c)) h = (if h = g then Some p else waiting (net c) h)"
  by (simp add: waiting_def store_received_def network_ok_def)

lemma getMessage_result: "fst (getMessage g n) = waiting n g"
  by (auto simp: getMessage_def waiting_def sm_count_def)

lemma waiting_get [simp]: "waiting (snd (getMessage g n)) h = (if h = g then None else waiting n h)"
  by (auto simp: getMessage_def waiting_def sm_count_def)

text \<open>The messages a pump takes: those before the first error or 11-byte payload.\<close>

fun taken :: "dish_event list \<Rightarrow> (string \<times> bytes) list" where
  "taken (DishMessage g p # queue) = (if length p = EAGAIN then [] else (g, p) # taken queue)"
| "taken _ = []"

abbreviation pumped :: "dish_event list \<Rightarrow> comms \<Rightarrow> comms" where
  "pumped queue c \<equiv> snd (snd (pump_loop queue c))"

lemma pump_loop_network_ok: "network_ok (net c) \<Longrightarrow> network_ok (net (pumped queue c))"
  by (induction queue c rule: pump_loop.induct) auto

lemma pump_loop_waiting:
  "network_ok (net c) \<Longrightarrow> waiting (net (pumped queue c)) g
     = (case map_of (rev (taken queue)) g of Some p \<Rightarrow> Some p | None \<Rightarrow> waiting (net c) g)"
  by (induction queue c rule: pump_loop.induct) (auto simp: map_add_def split: option.splits)

lemma externalControlMsgReceived_twice [simp]:
  "externalControlMsgReceived (externalControlMsgReceived s) = externalControlMsgReceived s"
  by (simp add: externalControlMsgReceived_def)

lemma store_received_ext [simp]: "ext (store_received g p c) = externalControlMsgReceived (ext c)"
  by (simp add: store_received_def)

lemma pump_loop_ext:
  "ext (pumped queue c) = (if taken queue = [] then ext c else externalControlMsgReceived (ext c))"
  by (induction queue c rule: pump_loop.induct) auto

text \<open>What the loop takes off the socket: the messages in \<open>taken\<close>, none of 11 bytes, and then the
  error or the 11-byte message that stops it.\<close>

lemma pump_loop_queue:
  "\<exists>rest. queue = map (\<lambda>(g, p). DishMessage g p) (taken queue) @ rest
     \<and> (rest = [] \<and> fst (snd (pump_loop queue c)) = []
        \<or> (\<exists>e. rest = DishError e # fst (snd (pump_loop queue c)))
        \<or> (\<exists>g p. length p = 11 \<and> rest = DishMessage g p # fst (snd (pump_loop queue c))))"
  by (induction queue c rule: pump_loop.induct) (auto simp: EAGAIN_def)

lemma taken_length: "(g, p) \<in> set (taken queue) \<Longrightarrow> length p \<noteq> 11"
  by (induction queue rule: taken.induct) (auto simp: EAGAIN_def split: if_splits)

text \<open>C21. The mailbox keeps the newest message that was taken, and gives it out once. A pump takes the
  messages off the socket in order up to the first error or the first message of 11 bytes, which it
  mistakes for the error EAGAIN and drops; what is behind stays on the socket. Reading a group then
  returns the last payload taken for it, or what was waiting before when none was taken; a second
  read finds nothing, and the other groups are left alone.\<close>

theorem network_latest_once:
  assumes "network_ok (net c)"
    and "receiveMessagePump queue c = (ok, queue', c')"
    and "getMessage grp (net c') = (answer, n)"
  shows "\<exists>received rest. queue = map (\<lambda>(g, p). DishMessage g p) received @ rest
    \<and> (\<forall>(g, p) \<in> set received. length p \<noteq> 11)
    \<and> (rest = [] \<and> queue' = [] \<or> (\<exists>e. rest = DishError e # queue')
       \<or> (\<exists>g p. length p = 11 \<and> rest = DishMessage g p # queue'))
    \<and> answer = (case map_of (rev received) grp of Some p \<Rightarrow> Some p | None \<Rightarrow> waiting (net c) grp)
    \<and> fst (getMessage grp n) = None
    \<and> (\<forall>other. other \<noteq> grp \<longrightarrow> waiting n other = waiting (net c') other)"
proof -
  obtain thrown where l: "pump_loop queue c = (thrown, queue', c')"
    using assms(2) by (auto simp: receiveMessagePump_def Let_def split: prod.splits)
  have n: "n = snd (getMessage grp (net c'))" and a: "answer = fst (getMessage grp (net c'))"
    using assms(3) by simp_all
  have "answer = (case map_of (rev (taken queue)) grp of Some p \<Rightarrow> Some p | None \<Rightarrow> waiting (net c) grp)
    \<and> fst (getMessage grp n) = None \<and> (\<forall>other. other \<noteq> grp \<longrightarrow> waiting n other = waiting (net c') other)"
    using pump_loop_waiting[OF assms(1), of queue grp] l by (simp add: n a getMessage_result)
  moreover obtain rest where "queue = map (\<lambda>(g, p). DishMessage g p) (taken queue) @ rest"
    "rest = [] \<and> queue' = [] \<or> (\<exists>e. rest = DishError e # queue')
       \<or> (\<exists>g p. length p = 11 \<and> rest = DishMessage g p # queue')"
    using pump_loop_queue[of queue c] l by auto
  moreover have "\<forall>(g, p) \<in> set (taken queue). length p \<noteq> 11" using taken_length by fastforce
  ultimately show ?thesis by blast
qed

theorem network_latest_once_witness:
  "\<exists>ok c'. receiveMessagePump [DishMessage ''g'' [1], DishMessage ''h'' [2], DishMessage ''g'' [3, 4]]
       \<lparr>net = NetworkManager_new, ext = ExternalControlManager_init\<rparr> = (ok, [], c')
     \<and> fst (getMessage ''g'' (net c')) = Some [3, 4]"
proof -
  let ?ms = "[(''g'', [1]), (''h'', [2]), (''g'', [3, 4])]"
  let ?q = "[DishMessage ''g'' [1], DishMessage ''h'' [2], DishMessage ''g'' [3, 4]]"
  let ?c = "\<lparr>net = NetworkManager_new, ext = ExternalControlManager_init\<rparr>"
  obtain ok q' c' where r: "receiveMessagePump ?q ?c = (ok, q', c')" using prod_cases3 by blast
  obtain a n where g: "getMessage ''g'' (net c') = (a, n)" by fastforce
  obtain received rest where u: "?q = map (\<lambda>(g, p). DishMessage g p) received @ rest"
    "rest = [] \<and> q' = [] \<or> (\<exists>e. rest = DishError e # q') \<or> (\<exists>g p. length p = 11 \<and> rest = DishMessage g p # q')"
    "a = (case map_of (rev received) ''g'' of Some p \<Rightarrow> Some p | None \<Rightarrow> waiting (net ?c) ''g'')"
    using network_latest_once[OF _ r g] by auto
  have "set rest \<subseteq> set ?q" unfolding u(1) by simp
  with u(2) have "rest = [] \<and> q' = []" by auto
  moreover from this u(1) have "map (\<lambda>(g, p). DishMessage g p) received = map (\<lambda>(g, p). DishMessage g p) ?ms" by simp
  then have "received = ?ms" by (rule map_injective) (auto intro!: injI)
  ultimately show ?thesis using r g u(3) by simp
qed

text \<open>The pump and the dead-man counter agree: when the pump reports a successful read the
  coprocessor counts as connected, and when nothing was taken from the socket the counter is
  untouched, so an idle socket never keeps external control alive.\<close>

theorem network_pump_external:
  assumes "receiveMessagePump queue c = (ok, queue', c')"
  shows "(ok \<longrightarrow> isExternalControlConnected (ext c')) \<and> (taken queue = [] \<longrightarrow> \<not> ok \<and> ext c' = ext c)"
proof -
  obtain thrown where l: "pump_loop queue c = (thrown, queue', c')"
    and ok: "ok = ((case queue of DishMessage g p # _ \<Rightarrow> length p \<noteq> EAGAIN | _ \<Rightarrow> False) \<and> \<not> thrown)"
    using assms by (auto simp: receiveMessagePump_def Let_def split: prod.splits)
  have "ok \<Longrightarrow> taken queue \<noteq> []"
    using ok by (cases queue; cases "hd queue") auto
  then show ?thesis
    using pump_loop_ext[of queue c] l
    by (auto simp: isExternalControlConnected_def externalControlMsgReceived_def)
qed

theorem network_pump_external_witness:
  "isExternalControlConnected (ext (snd (snd (receiveMessagePump [DishMessage ''g'' [1]]
      \<lparr>net = NetworkManager_new, ext = ExternalControlManager_init\<rparr>))))"
proof -
  let ?c = "\<lparr>net = NetworkManager_new, ext = ExternalControlManager_init\<rparr>"
  obtain ok q' c' where r: "receiveMessagePump [DishMessage ''g'' [1]] ?c = (ok, q', c')"
    using prod_cases3 by blast
  then have ok by (auto simp: receiveMessagePump_def EAGAIN_def)
  then show ?thesis using network_pump_external[OF r] r by simp
qed

text \<open>A message of exactly 11 bytes is taken for the error \<open>EAGAIN\<close>: it is removed from the
  socket and lost, the messages behind it stay queued, the pump reports failure, and the
  coprocessor is not counted as alive.\<close>

theorem network_eleven_bytes_dropped:
  assumes "length payload = 11"
  shows "receiveMessagePump (DishMessage grp payload # queue) c = (False, queue, c)"
  using assms by (simp add: receiveMessagePump_def EAGAIN_def)

theorem network_eleven_bytes_dropped_witness:
  "receiveMessagePump [DishMessage ''motorcontrol'' (replicate 11 0), DishMessage ''g'' [1]]
      \<lparr>net = NetworkManager_new, ext = ExternalControlManager_init\<rparr>
   = (False, [DishMessage ''g'' [1]], \<lparr>net = NetworkManager_new, ext = ExternalControlManager_init\<rparr>)"
  by (rule network_eleven_bytes_dropped) simp

text \<open>Sending tries every connected socket once, in connection order, whatever the earlier ones
  answered, and reports success only when every socket took at least one byte.\<close>

theorem network_send_all:
  "sendMessage radio grp payload n
     = (sendSockets n, list_all (send_to_socket radio grp payload) (sendSockets n))"
proof -
  have "foldl (\<lambda>(tried, retVal) sock.
         let r = send_to_socket radio grp payload sock in (tried @ [sock], retVal \<and> r)) (t, b) socks
      = (t @ socks, b \<and> list_all (send_to_socket radio grp payload) socks)" for t b socks
    by (induction socks arbitrary: t b) (auto simp: Let_def)
  then show ?thesis by (simp add: sendMessage_def)
qed

end
