(* ===== verification/Phoenix_Helper.thy ===== *)
theory Phoenix_Helper
  imports CK_Prelude
begin

text \<open>
  \<open>utils/PhoenixHelper\<close>: running a call of the motor-controller library with retries. The library
  is not part of the repository: a call is recorded in a log, and what the n-th call of the log
  answers is a parameter \<open>resp\<close>.
\<close>

datatype error_code = OK | ErrorCode int

datatype can_interface = RIO_INTERNAL_CAN | RIO_CANIVORE | COPROCESSOR_CAN

definition kPhoenixRetryCount :: nat where
  "kPhoenixRetryCount = 3"

definition phoenix_call :: "(nat \<Rightarrow> error_code) \<Rightarrow> 'c \<Rightarrow> 'c list \<Rightarrow> error_code \<times> 'c list" where
  "phoenix_call resp c calls = (resp (length calls), calls @ [c])"

text \<open>The do-while loop, with the counter as \<open>retryCounter++\<close> leaves it.\<close>

function retry_loop :: "('s \<Rightarrow> error_code \<times> 's) \<Rightarrow> nat \<Rightarrow> 's \<Rightarrow> error_code \<times> nat \<times> 's" where
  "retry_loop func retryCounter s =
     (let (eCode, s') = func s
      in if eCode = OK then (eCode, retryCounter, s')
         else if retryCounter < kPhoenixRetryCount then retry_loop func (retryCounter + 1) s'
         else (eCode, retryCounter + 1, s'))"
  by pat_completeness auto
termination
  by (relation "measure (\<lambda>(_, n, _). kPhoenixRetryCount - n)") auto

declare retry_loop.simps [simp del]

text \<open>The result, whether the failure is reported on the console, and the state.\<close>

definition runPhoenixFunctionWithRetry ::
  "('s \<Rightarrow> error_code \<times> 's) \<Rightarrow> int \<Rightarrow> 's \<Rightarrow> bool \<times> bool \<times> 's" where
  "runPhoenixFunctionWithRetry func devId s =
     (let (eCode, retryCounter, s') = retry_loop func 0 s
      in if retryCounter \<ge> kPhoenixRetryCount \<or> eCode \<noteq> OK then (False, devId \<ge> 0, s')
         else (True, False, s'))"

definition getCANInterfaceName :: "can_interface \<Rightarrow> string" where
  "getCANInterfaceName canInterface =
     (case canInterface of
        RIO_INTERNAL_CAN \<Rightarrow> ''rio''
      | RIO_CANIVORE \<Rightarrow> ''canivore1''
      | COPROCESSOR_CAN \<Rightarrow> ''rio'')"

text \<open>The number of attempts that a run starting at answer \<open>n\<close> makes, at most \<open>k\<close>.\<close>

fun attempts :: "(nat \<Rightarrow> error_code) \<Rightarrow> nat \<Rightarrow> nat \<Rightarrow> nat" where
  "attempts resp n 0 = 0"
| "attempts resp n (Suc k) = (if resp n = OK then 1 else Suc (attempts resp (Suc n) k))"

lemma attempts_le: "attempts resp n k \<le> k"
  by (induction k arbitrary: n) auto

lemma retry_loop_calls:
  assumes "retryCounter \<le> 3"
  shows "retry_loop (phoenix_call resp c) retryCounter calls =
    (let k = attempts resp (length calls) (4 - retryCounter)
     in (resp (length calls + k - 1), (if resp (length calls + k - 1) = OK then retryCounter + k - 1 else 4),
         calls @ replicate k c))"
  using assms
proof (induction "3 - retryCounter" arbitrary: retryCounter calls)
  case 0
  then have "retryCounter = 3" by simp
  then show ?case
    by (simp add: retry_loop.simps phoenix_call_def kPhoenixRetryCount_def)
next
  case (Suc d)
  then have lt: "retryCounter < 3" by simp
  then have four: "4 - retryCounter = Suc (4 - Suc retryCounter)" by simp
  show ?case
  proof (cases "resp (length calls) = OK")
    case True
    then show ?thesis using four by (simp add: retry_loop.simps phoenix_call_def)
  next
    case False
    have "attempts resp (Suc (length calls)) (4 - Suc retryCounter) \<noteq> 0"
      using lt by (cases "4 - Suc retryCounter") auto
    then show ?thesis
      using False Suc.hyps(1)[of "Suc retryCounter" "calls @ [c]"] Suc.hyps(2) lt four
      by (simp add: retry_loop.simps[of _ retryCounter] phoenix_call_def kPhoenixRetryCount_def
          Let_def replicate_append_same[symmetric])
  qed
qed

text \<open>A retried library call is made at least once and at most four times, no more often than
  it takes to succeed; it reports success exactly when one of the first three attempts answered
  OK. An OK on the fourth attempt, though the setting was applied, is reported as a failure.\<close>

theorem phoenix_retry_outcome:
  "runPhoenixFunctionWithRetry (phoenix_call resp c) devId calls =
     (let k = attempts resp (length calls) 4;
          success = (\<exists>i < 3. resp (length calls + i) = OK)
      in (success, \<not> success \<and> devId \<ge> 0, calls @ replicate k c))"
proof -
  have nums: "(4::nat) = Suc (Suc (Suc (Suc 0)))" "(\<exists>i<3. P i) = (P 0 \<or> P 1 \<or> P (2::nat))" for P
    by (auto simp: numeral_eq_Suc less_Suc_eq)
  show ?thesis
    unfolding runPhoenixFunctionWithRetry_def retry_loop_calls[of 0, simplified] nums
    by (auto simp: Let_def kPhoenixRetryCount_def numeral_eq_Suc)
qed

end
