(* ===== verification/Device_Registry.thy ===== *)
theory Device_Registry
  imports Std_Map
begin

text \<open>
  What \<open>MotorManager\<close>, \<open>CANdleManager\<close>, \<open>SolenoidManager\<close>, \<open>CKIMUManager\<close> and
  \<open>CKEncoderManager\<close> have in common: a device is registered by every control message that names
  it, each registration reloads a heartbeat counter, and a periodic heartbeat counts it down and
  deletes the device at 0. The heartbeat loop is shared here; the contract is the locale
  \<open>device_registry\<close>, which each manager's theory interprets on its own model.
\<close>

definition kMaxHeartbeatTicks :: int where
  "kMaxHeartbeatTicks = 250"

text \<open>One turn of the loop of \<open>processHeartbeat\<close> at the entry with key \<open>k\<close>: the heartbeat table
  is read and written through \<open>getHb\<close> and \<open>setHb\<close>, \<open>del\<close> deletes the device.\<close>

definition heartbeat_visit ::
  "('s \<Rightarrow> ('k::linorder, int) std_map) \<Rightarrow> (('k, int) std_map \<Rightarrow> 's \<Rightarrow> 's) \<Rightarrow> ('k \<Rightarrow> 's \<Rightarrow> 's)
     \<Rightarrow> 'k \<Rightarrow> 's \<Rightarrow> 's" where
  "heartbeat_visit getHb setHb del k s =
     (let n = fst (sm_at 0 k (getHb s)) - 1;
          s1 = setHb (sm_put k n (getHb s)) s
      in if n \<le> 0 then (let s2 = del k s1 in setHb (sm_erase k (getHb s2)) s2) else s1)"

definition heartbeat_loop ::
  "('s \<Rightarrow> ('k::linorder, int) std_map) \<Rightarrow> (('k, int) std_map \<Rightarrow> 's \<Rightarrow> 's) \<Rightarrow> ('k \<Rightarrow> 's \<Rightarrow> 's) \<Rightarrow> 's \<Rightarrow> 's" where
  "heartbeat_loop getHb setHb del s = fold (heartbeat_visit getHb setHb del) (sm_keys (getHb s)) s"

section \<open>The contract\<close>

datatype 'r registry_op = Register 'r | Heartbeat

text \<open>Any interleaving of registrations and heartbeats, in which a key can stay silent.\<close>

definition registry_step :: "('r \<Rightarrow> 's \<Rightarrow> 's) \<Rightarrow> ('s \<Rightarrow> 's) \<Rightarrow> 'r registry_op \<Rightarrow> 's \<Rightarrow> 's" where
  "registry_step register beat op s = (case op of Register r \<Rightarrow> register r s | Heartbeat \<Rightarrow> beat s)"

definition registry_run :: "('r \<Rightarrow> 's \<Rightarrow> 's) \<Rightarrow> ('s \<Rightarrow> 's) \<Rightarrow> 'r registry_op list \<Rightarrow> 's \<Rightarrow> 's" where
  "registry_run register beat ops s = fold (registry_step register beat) ops s"

definition silent :: "('r \<Rightarrow> 'k) \<Rightarrow> 'k \<Rightarrow> 'r registry_op list \<Rightarrow> bool" where
  "silent key k ops \<longleftrightarrow>
     list_all (\<lambda>op. case op of Register r \<Rightarrow> key r \<noteq> k | Heartbeat \<Rightarrow> True) ops"

definition beats :: "'r registry_op list \<Rightarrow> int" where
  "beats ops = int (length (filter (\<lambda>op. case op of Register r \<Rightarrow> False | Heartbeat \<Rightarrow> True) ops))"

lemma registry_run_simps [simp]:
  "registry_run register beat [] s = s"
  "registry_run register beat (op # ops) s = registry_run register beat ops (registry_step register beat op s)"
  by (simp_all add: registry_run_def)

text \<open>
  \<open>live\<close>: the device exists; \<open>ticks\<close>: its heartbeat counter; \<open>register\<close> and \<open>beat\<close>: the operations;
  \<open>accepts\<close>: the registration reloads the counter of its \<open>key\<close>; \<open>creates\<close>: it makes a device for it.
\<close>

locale device_registry =
  fixes live :: "'s \<Rightarrow> 'k \<Rightarrow> bool"
    and ticks :: "'s \<Rightarrow> 'k \<Rightarrow> int option"
    and register :: "'r \<Rightarrow> 's \<Rightarrow> 's"
    and key :: "'r \<Rightarrow> 'k"
    and accepts :: "'r \<Rightarrow> 's \<Rightarrow> bool"
    and creates :: "'r \<Rightarrow> 's \<Rightarrow> bool"
    and beat :: "'s \<Rightarrow> 's"
    and inv :: "'s \<Rightarrow> bool"
  assumes inv_register: "inv s \<Longrightarrow> inv (register r s)"
    and inv_beat: "inv s \<Longrightarrow> inv (beat s)"
    and ticks_register: "inv s \<Longrightarrow> ticks (register r s) k =
          (if k = key r \<and> accepts r s then Some kMaxHeartbeatTicks else ticks s k)"
    and live_register: "inv s \<Longrightarrow> live (register r s) k = (live s k \<or> k = key r \<and> creates r s)"
    and ticks_beat: "inv s \<Longrightarrow> ticks (beat s) k =
          (case ticks s k of None \<Rightarrow> None | Some n \<Rightarrow> if n \<le> 1 then None else Some (n - 1))"
    and live_beat: "inv s \<Longrightarrow> live (beat s) k =
          (live s k \<and> (case ticks s k of None \<Rightarrow> True | Some n \<Rightarrow> 1 < n))"
    and live_ticks: "inv s \<Longrightarrow> live s k \<Longrightarrow> \<exists>n. ticks s k = Some n \<and> 1 \<le> n \<and> n \<le> kMaxHeartbeatTicks"
    and creates_accepts: "inv s \<Longrightarrow> creates r s \<Longrightarrow> accepts r s"
begin

abbreviation step :: "'r registry_op \<Rightarrow> 's \<Rightarrow> 's" where
  "step \<equiv> registry_step register beat"

abbreviation run :: "'r registry_op list \<Rightarrow> 's \<Rightarrow> 's" where
  "run \<equiv> registry_run register beat"

lemma inv_step: "inv s \<Longrightarrow> inv (step op s)"
  by (simp add: registry_step_def inv_register inv_beat split: registry_op.split)

lemma inv_run: "inv s \<Longrightarrow> inv (run ops s)"
  by (induction ops arbitrary: s) (simp_all add: inv_step)

lemma silent_lifetime:
  assumes "inv s" "live s k" "ticks s k = Some n" "1 \<le> n" "silent key k ops"
  shows "live (run ops s) k \<longleftrightarrow> beats ops < n"
proof -
  have "(live (run ops s) k \<longleftrightarrow> live s k \<and> (\<exists>n. ticks s k = Some n \<and> beats ops < n))"
    if "inv s" "live s k \<longrightarrow> (\<exists>n. ticks s k = Some n \<and> 1 \<le> n)" "silent key k ops" for s
    using that
  proof (induction ops arbitrary: s)
    case Nil
    then show ?case by (auto simp: beats_def)
  next
    case (Cons op ops)
    have "silent key k ops" using Cons.prems(3) by (simp add: silent_def)
    show ?case
    proof (cases op)
      case (Register r)
      then have "key r \<noteq> k" using Cons.prems(3) by (simp add: silent_def)
      then show ?thesis
        using Cons.IH[OF inv_step[OF Cons.prems(1), of op] _ \<open>silent key k ops\<close>] Cons.prems Register
        by (simp add: registry_step_def ticks_register live_register beats_def)
    next
      case Heartbeat
      then show ?thesis
        using Cons.IH[OF inv_step[OF Cons.prems(1), of op] _ \<open>silent key k ops\<close>] Cons.prems
        by (auto simp: registry_step_def ticks_beat live_beat beats_def split: option.splits if_splits)
    qed
  qed
  from this[OF assms(1) _ assms(5)] assms show ?thesis by simp
qed

text \<open>A registered device that is not named again lives through exactly 249 further heartbeats.\<close>

lemma lifetime:
  assumes "inv s" and "accepts r s" and "live s (key r) \<or> creates r s" and "silent key (key r) ops"
  shows "live (run ops (register r s)) (key r) \<longleftrightarrow> beats ops < kMaxHeartbeatTicks"
  using assms
  by (intro silent_lifetime) (auto simp: inv_register live_register ticks_register kMaxHeartbeatTicks_def)

text \<open>A device nobody registers does not appear.\<close>

lemma stays_dead:
  assumes "inv s" and "\<not> live s k" and "silent key k ops"
  shows "\<not> live (run ops s) k"
  using assms
proof (induction ops arbitrary: s)
  case (Cons op ops)
  have "\<not> live (step op s) k"
    using Cons.prems by (auto simp: registry_step_def live_register live_beat silent_def split: registry_op.split)
  then show ?case using Cons.IH[of "step op s"] Cons.prems by (simp add: inv_step silent_def)
qed simp

end

section \<open>The shared heartbeat loop\<close>

text \<open>A manager whose heartbeat table is one field of its state, untouched by deletion.\<close>

locale heartbeat_table =
  fixes getHb :: "'s \<Rightarrow> ('k::linorder, int) std_map"
    and setHb :: "('k, int) std_map \<Rightarrow> 's \<Rightarrow> 's"
    and del :: "'k \<Rightarrow> 's \<Rightarrow> 's"
  assumes get_set: "getHb (setHb m s) = m"
    and get_del: "getHb (del k s) = getHb s"
begin

lemma visit_get:
  "getHb (heartbeat_visit getHb setHb del k s) =
     (let n = fst (sm_at 0 k (getHb s)) - 1; m = sm_put k n (getHb s)
      in if n \<le> 0 then sm_erase k m else m)"
  by (simp add: heartbeat_visit_def Let_def get_set get_del)

lemma visit_ok: "sm_ok (getHb s) \<Longrightarrow> sm_ok (getHb (heartbeat_visit getHb setHb del k s))"
  by (simp add: visit_get Let_def)

lemma visit_ticks:
  "sm_ok (getHb s) \<Longrightarrow> sm_get (getHb (heartbeat_visit getHb setHb del k s)) j =
     (if j = k then (let n = fst (sm_at 0 k (getHb s)) - 1 in if n \<le> 0 then None else Some n)
      else sm_get (getHb s) j)"
  by (simp add: visit_get Let_def)

lemma fold_visit_ok:
  "sm_ok (getHb s) \<Longrightarrow> sm_ok (getHb (fold (heartbeat_visit getHb setHb del) ks s))"
  by (rule fold_invariant_list) (auto intro: visit_ok)

lemma fold_visit_ticks:
  assumes "sm_ok (getHb s)" "distinct ks" "\<And>k. k \<in> set ks \<Longrightarrow> sm_get (getHb s) k \<noteq> None"
  shows "sm_get (getHb (fold (heartbeat_visit getHb setHb del) ks s)) j =
    (if j \<in> set ks then (case sm_get (getHb s) j of None \<Rightarrow> None | Some n \<Rightarrow> if n \<le> 1 then None else Some (n - 1))
     else sm_get (getHb s) j)"
  using assms
proof (induction ks arbitrary: s)
  case (Cons k ks)
  let ?s = "heartbeat_visit getHb setHb del k s"
  have "\<And>i. i \<in> set ks \<Longrightarrow> sm_get (getHb ?s) i = sm_get (getHb s) i"
    using Cons.prems by (auto simp: visit_ticks)
  then show ?case
    using Cons.IH[of ?s] Cons.prems
    by (auto simp: visit_ok visit_ticks sm_at_fst Let_def split: option.splits)
qed simp

lemma loop_ok: "sm_ok (getHb s) \<Longrightarrow> sm_ok (getHb (heartbeat_loop getHb setHb del s))"
  by (simp add: heartbeat_loop_def fold_visit_ok)

lemma loop_ticks:
  "sm_ok (getHb s) \<Longrightarrow> sm_get (getHb (heartbeat_loop getHb setHb del s)) j =
     (case sm_get (getHb s) j of None \<Rightarrow> None | Some n \<Rightarrow> if n \<le> 1 then None else Some (n - 1))"
  using fold_visit_ticks[of s "sm_keys (getHb s)" j] sm_ok_distinct[of "getHb s"] sm_keys_get
  by (auto simp: heartbeat_loop_def sm_keys_get split: option.splits)

text \<open>A table indexed by the same keys that deletion clears and the counters do not touch.\<close>

lemma loop_table:
  assumes set_frame: "\<And>m s. tab (setHb m s) = tab s"
    and del_tab: "\<And>k s. ok (tab s) \<Longrightarrow> ok (tab (del k s)) \<and> (\<forall>j. look (tab (del k s)) j = (if j = k then None else look (tab s) j))"
    and "ok (tab s)" "sm_ok (getHb s)"
  shows "ok (tab (heartbeat_loop getHb setHb del s))"
    and "look (tab (heartbeat_loop getHb setHb del s)) j =
      (case sm_get (getHb s) j of Some n \<Rightarrow> if n \<le> 1 then None else look (tab s) j
       | None \<Rightarrow> look (tab s) j)"
proof -
  let ?v = "heartbeat_visit getHb setHb del"
  have visit: "ok (tab (?v k s)) \<and> look (tab (?v k s)) j =
      (if j = k \<and> fst (sm_at 0 k (getHb s)) \<le> 1 then None else look (tab s) j)"
    if "ok (tab s)" for k s j
    using that set_frame[of _ s] del_tab[of "setHb (sm_put k (fst (sm_at 0 k (getHb s)) - 1) (getHb s)) s" k]
    by (auto simp: heartbeat_visit_def Let_def set_frame)
  have all: "ok (tab (fold ?v ks s)) \<and> look (tab (fold ?v ks s)) j =
      (if j \<in> set ks \<and> fst (sm_at 0 j (getHb s)) \<le> 1 then None else look (tab s) j)"
    if "ok (tab s)" "sm_ok (getHb s)" "distinct ks" for ks s
    using that
  proof (induction ks arbitrary: s)
    case (Cons k ks)
    have same: "i \<noteq> k \<Longrightarrow> fst (sm_at 0 i (getHb (?v k s))) = fst (sm_at 0 i (getHb s))" for i
      using Cons.prems by (simp add: sm_at_fst visit_ticks)
    show ?case
      using Cons.IH[of "?v k s"] Cons.prems visit[of s k j] visit_ok[of s k] same[of j]
      by (cases "j = k") auto
  qed simp
  have "distinct (sm_keys (getHb s))" using assms(4) by (rule sm_ok_distinct)
  from all[OF assms(3,4) this]
  show "ok (tab (heartbeat_loop getHb setHb del s))"
    and "look (tab (heartbeat_loop getHb setHb del s)) j =
      (case sm_get (getHb s) j of Some n \<Rightarrow> if n \<le> 1 then None else look (tab s) j
       | None \<Rightarrow> look (tab s) j)"
    by (auto simp: heartbeat_loop_def sm_keys_get sm_at_fst split: option.splits)
qed

end

end
