(* ===== verification/Motor_Manager.thy ===== *)
theory Motor_Manager
  imports Device_Registry Phoenix_Helper
begin

text \<open>
  \<open>MotorManager\<close> and \<open>MotorConfigManager\<close>: the talons that exist, their types and heartbeats,
  and the configuration messages kept for them (the last received and the last applied). The type
  of a configuration message is a parameter \<open>'m\<close>. Constructing a talon is recorded as the value
  of its table entry.
\<close>

datatype motor_type = TALON_FX | TALON_SRX | OtherMotorType int

datatype talon = TalonFX u16 string | TalonSRX u16

record 'm motor_configs =
  mMotorMsgs :: "(u16, 'm) std_map"
  mPrevMotorMsgs :: "(u16, 'm) std_map"

record 'm motor_manager =
  mRegisteredMotorList :: "(u16, talon) std_map"
  mRegisteredMotorTypeList :: "(u16, motor_type) std_map"
  mRegisteredMotorHeartbeatList :: "(u16, int) std_map"
  motorConfigs :: "'m motor_configs"

definition MotorManager_new :: "'m motor_manager" where
  "MotorManager_new = \<lparr>mRegisteredMotorList = [], mRegisteredMotorTypeList = [],
     mRegisteredMotorHeartbeatList = [], motorConfigs = \<lparr>mMotorMsgs = [], mPrevMotorMsgs = []\<rparr>\<rparr>"

section \<open>MotorConfigManager\<close>

definition setPrevMotorConfigMsg :: "u16 \<Rightarrow> 'm \<Rightarrow> 'm motor_configs \<Rightarrow> 'm motor_configs" where
  "setPrevMotorConfigMsg i m c = c\<lparr>mPrevMotorMsgs := sm_put i m (mPrevMotorMsgs c)\<rparr>"

definition setMotorsConfigMsg :: "('m \<Rightarrow> u16) \<Rightarrow> 'm list \<Rightarrow> 'm motor_configs \<Rightarrow> 'm motor_configs" where
  "setMotorsConfigMsg msgId motors c =
     c\<lparr>mMotorMsgs := fold (\<lambda>m. sm_put (msgId m) m) motors (mMotorMsgs c)\<rparr>"

definition getControllerMode :: "('m \<Rightarrow> 'e) \<Rightarrow> 'e \<Rightarrow> u16 \<Rightarrow> 'm motor_configs \<Rightarrow> 'e" where
  "getControllerMode controller_mode invalid i c =
     (if sm_count (mPrevMotorMsgs c) i then controller_mode (the (sm_get (mPrevMotorMsgs c) i))
      else invalid)"

definition configs_deleteMotor :: "u16 \<Rightarrow> 'm motor_configs \<Rightarrow> 'm motor_configs" where
  "configs_deleteMotor i c =
     (let c1 = (if sm_count (mMotorMsgs c) i then c\<lparr>mMotorMsgs := sm_erase i (mMotorMsgs c)\<rparr> else c)
      in if sm_count (mPrevMotorMsgs c1) i then c1\<lparr>mPrevMotorMsgs := sm_erase i (mPrevMotorMsgs c1)\<rparr>
         else c1)"

section \<open>MotorManager\<close>

definition registerMotor ::
  "u16 \<Rightarrow> motor_type \<Rightarrow> can_interface \<Rightarrow> 'm motor_manager \<Rightarrow> 'm motor_manager" where
  "registerMotor i motorType canInterface s =
     (let beat = (\<lambda>s. s\<lparr>mRegisteredMotorHeartbeatList :=
                        sm_put i kMaxHeartbeatTicks (mRegisteredMotorHeartbeatList s)\<rparr>);
          create = (\<lambda>dev. beat (s\<lparr>mRegisteredMotorList := sm_put i dev (mRegisteredMotorList s),
                                mRegisteredMotorTypeList := sm_put i motorType (mRegisteredMotorTypeList s)\<rparr>))
      in if i < 64 then
           (if \<not> sm_count (mRegisteredMotorList s) i then
              (case motorType of
                 TALON_FX \<Rightarrow> create (TalonFX i (getCANInterfaceName canInterface))
               | TALON_SRX \<Rightarrow> create (TalonSRX i)
               | OtherMotorType _ \<Rightarrow> s)
            else beat s)
         else s)"

definition deleteMotor :: "u16 \<Rightarrow> 'm motor_manager \<Rightarrow> 'm motor_manager" where
  "deleteMotor i s =
     (let s1 = (if sm_count (mRegisteredMotorList s) i
                then s\<lparr>mRegisteredMotorList := sm_erase i (mRegisteredMotorList s)\<rparr> else s);
          s2 = (if sm_count (mRegisteredMotorTypeList s1) i
                then s1\<lparr>mRegisteredMotorTypeList := sm_erase i (mRegisteredMotorTypeList s1)\<rparr> else s1)
      in s2\<lparr>motorConfigs := configs_deleteMotor i (motorConfigs s2)\<rparr>)"

definition set_motor_heartbeats :: "(u16, int) std_map \<Rightarrow> 'm motor_manager \<Rightarrow> 'm motor_manager" where
  "set_motor_heartbeats m s = s\<lparr>mRegisteredMotorHeartbeatList := m\<rparr>"

definition motor_processHeartbeat :: "'m motor_manager \<Rightarrow> 'm motor_manager" where
  "motor_processHeartbeat =
     heartbeat_loop mRegisteredMotorHeartbeatList set_motor_heartbeats deleteMotor"

definition motorExists :: "u16 \<Rightarrow> 'm motor_manager \<Rightarrow> bool" where
  "motorExists i s = sm_count (mRegisteredMotorList s) i"

definition getMotor :: "u16 \<Rightarrow> 'm motor_manager \<Rightarrow> talon option" where
  "getMotor i s = (if sm_count (mRegisteredMotorList s) i then sm_get (mRegisteredMotorList s) i else None)"

text \<open>\<open>onMotor\<close> and \<open>forEach\<close> hand a device and its type to a function of the caller's state.\<close>

definition onMotor :: "u16 \<Rightarrow> 'm motor_manager \<Rightarrow> (u16 \<Rightarrow> talon \<Rightarrow> motor_type \<Rightarrow> 'w \<Rightarrow> 'w) \<Rightarrow> 'w \<Rightarrow> 'w" where
  "onMotor i s func w =
     (case sm_get (mRegisteredMotorList s) i of
        None \<Rightarrow> w
      | Some dev \<Rightarrow> func i dev (fst (sm_at TALON_FX i (mRegisteredMotorTypeList s))) w)"

definition motor_forEach :: "'m motor_manager \<Rightarrow> (u16 \<Rightarrow> talon \<Rightarrow> motor_type \<Rightarrow> 'w \<Rightarrow> 'w) \<Rightarrow> 'w \<Rightarrow> 'w" where
  "motor_forEach s func w =
     fold (\<lambda>(i, dev). func i dev (fst (sm_at TALON_FX i (mRegisteredMotorTypeList s))))
       (mRegisteredMotorList s) w"

section \<open>Invariant\<close>

text \<open>The type a talon is built for; the invariant keeps the type table in step with the talons.\<close>

fun type_of_talon :: "talon \<Rightarrow> motor_type" where
  "type_of_talon (TalonFX i bus) = TALON_FX"
| "type_of_talon (TalonSRX i) = TALON_SRX"

lemma type_of_talon_supported: "type_of_talon dev \<in> {TALON_FX, TALON_SRX}"
  by (cases dev) simp_all

definition motor_ok :: "'m motor_manager \<Rightarrow> bool" where
  "motor_ok s \<longleftrightarrow> sm_ok (mRegisteredMotorList s) \<and> sm_ok (mRegisteredMotorTypeList s)
     \<and> sm_ok (mRegisteredMotorHeartbeatList s)
     \<and> sm_ok (mMotorMsgs (motorConfigs s)) \<and> sm_ok (mPrevMotorMsgs (motorConfigs s))
     \<and> (\<forall>i. case sm_get (mRegisteredMotorHeartbeatList s) i of
           None \<Rightarrow> sm_get (mRegisteredMotorList s) i = None \<and> sm_get (mRegisteredMotorTypeList s) i = None
         | Some n \<Rightarrow> 1 \<le> n \<and> n \<le> kMaxHeartbeatTicks \<and> i < 64
             \<and> (\<exists>dev. sm_get (mRegisteredMotorList s) i = Some dev
                  \<and> sm_get (mRegisteredMotorTypeList s) i = Some (type_of_talon dev)))"

lemma motor_ok_new: "motor_ok MotorManager_new"
  by (simp add: motor_ok_def MotorManager_new_def)

interpretation motor_table: heartbeat_table mRegisteredMotorHeartbeatList set_motor_heartbeats deleteMotor
  by unfold_locales (simp_all add: set_motor_heartbeats_def deleteMotor_def Let_def)

lemma deleteMotor_tables:
  "sm_get (mRegisteredMotorList (deleteMotor i s)) j = (if j = i then None else sm_get (mRegisteredMotorList s) j)"
  "sm_get (mRegisteredMotorTypeList (deleteMotor i s)) j = (if j = i then None else sm_get (mRegisteredMotorTypeList s) j)"
  "sm_get (mMotorMsgs (motorConfigs (deleteMotor i s))) j = (if j = i then None else sm_get (mMotorMsgs (motorConfigs s)) j)"
  "sm_get (mPrevMotorMsgs (motorConfigs (deleteMotor i s))) j = (if j = i then None else sm_get (mPrevMotorMsgs (motorConfigs s)) j)"
  by (auto simp: deleteMotor_def configs_deleteMotor_def Let_def sm_count_def)

lemma deleteMotor_ok:
  "sm_ok (mRegisteredMotorList s) \<Longrightarrow> sm_ok (mRegisteredMotorList (deleteMotor i s))"
  "sm_ok (mRegisteredMotorTypeList s) \<Longrightarrow> sm_ok (mRegisteredMotorTypeList (deleteMotor i s))"
  "sm_ok (mMotorMsgs (motorConfigs s)) \<Longrightarrow> sm_ok (mMotorMsgs (motorConfigs (deleteMotor i s)))"
  "sm_ok (mPrevMotorMsgs (motorConfigs s)) \<Longrightarrow> sm_ok (mPrevMotorMsgs (motorConfigs (deleteMotor i s)))"
  by (auto simp: deleteMotor_def configs_deleteMotor_def Let_def)

lemma motor_ok_maps:
  "motor_ok s \<Longrightarrow> sm_ok (mRegisteredMotorList s) \<and> sm_ok (mRegisteredMotorTypeList s)
     \<and> sm_ok (mRegisteredMotorHeartbeatList s)
     \<and> sm_ok (mMotorMsgs (motorConfigs s)) \<and> sm_ok (mPrevMotorMsgs (motorConfigs s))"
  by (simp add: motor_ok_def)

lemma motor_ok_entry:
  "motor_ok s \<Longrightarrow> case sm_get (mRegisteredMotorHeartbeatList s) i of
       None \<Rightarrow> sm_get (mRegisteredMotorList s) i = None \<and> sm_get (mRegisteredMotorTypeList s) i = None
     | Some n \<Rightarrow> 1 \<le> n \<and> n \<le> kMaxHeartbeatTicks \<and> i < 64
         \<and> (\<exists>dev. sm_get (mRegisteredMotorList s) i = Some dev
              \<and> sm_get (mRegisteredMotorTypeList s) i = Some (type_of_talon dev))"
  by (simp add: motor_ok_def)

lemma motor_ok_type:
  "motor_ok s \<Longrightarrow> sm_get (mRegisteredMotorList s) i = Some dev \<Longrightarrow>
     sm_get (mRegisteredMotorTypeList s) i = Some (type_of_talon dev)"
  using motor_ok_entry[of s i] by (auto split: option.splits)

text \<open>Each table after a heartbeat.\<close>

lemmas motor_loop_table = motor_table.loop_table[where look = sm_get and ok = sm_ok]

lemma motor_beat_list:
  assumes "motor_ok s"
  shows "sm_ok (mRegisteredMotorList (motor_processHeartbeat s))
    \<and> sm_get (mRegisteredMotorList (motor_processHeartbeat s)) j =
      (case sm_get (mRegisteredMotorHeartbeatList s) j of
         Some n \<Rightarrow> if n \<le> 1 then None else sm_get (mRegisteredMotorList s) j
       | None \<Rightarrow> sm_get (mRegisteredMotorList s) j)"
  unfolding motor_processHeartbeat_def
  by (rule conjI; rule motor_loop_table[where tab = "mRegisteredMotorList"])
    (use motor_ok_maps[OF assms] in \<open>simp_all add: set_motor_heartbeats_def deleteMotor_tables deleteMotor_ok\<close>)

lemma motor_beat_types:
  assumes "motor_ok s"
  shows "sm_ok (mRegisteredMotorTypeList (motor_processHeartbeat s))
    \<and> sm_get (mRegisteredMotorTypeList (motor_processHeartbeat s)) j =
      (case sm_get (mRegisteredMotorHeartbeatList s) j of
         Some n \<Rightarrow> if n \<le> 1 then None else sm_get (mRegisteredMotorTypeList s) j
       | None \<Rightarrow> sm_get (mRegisteredMotorTypeList s) j)"
  unfolding motor_processHeartbeat_def
  by (rule conjI; rule motor_loop_table[where tab = "mRegisteredMotorTypeList"])
    (use motor_ok_maps[OF assms] in \<open>simp_all add: set_motor_heartbeats_def deleteMotor_tables deleteMotor_ok\<close>)

lemma motor_beat_msgs:
  assumes "motor_ok s"
  shows "sm_ok (mMotorMsgs (motorConfigs (motor_processHeartbeat s)))
    \<and> sm_get (mMotorMsgs (motorConfigs (motor_processHeartbeat s))) j =
      (case sm_get (mRegisteredMotorHeartbeatList s) j of
         Some n \<Rightarrow> if n \<le> 1 then None else sm_get (mMotorMsgs (motorConfigs s)) j
       | None \<Rightarrow> sm_get (mMotorMsgs (motorConfigs s)) j)"
  unfolding motor_processHeartbeat_def
  by (rule conjI; rule motor_loop_table[where tab = "\<lambda>s. mMotorMsgs (motorConfigs s)"])
    (use motor_ok_maps[OF assms] in \<open>simp_all add: set_motor_heartbeats_def deleteMotor_tables deleteMotor_ok\<close>)

lemma motor_beat_prev:
  assumes "motor_ok s"
  shows "sm_ok (mPrevMotorMsgs (motorConfigs (motor_processHeartbeat s)))
    \<and> sm_get (mPrevMotorMsgs (motorConfigs (motor_processHeartbeat s))) j =
      (case sm_get (mRegisteredMotorHeartbeatList s) j of
         Some n \<Rightarrow> if n \<le> 1 then None else sm_get (mPrevMotorMsgs (motorConfigs s)) j
       | None \<Rightarrow> sm_get (mPrevMotorMsgs (motorConfigs s)) j)"
  unfolding motor_processHeartbeat_def
  by (rule conjI; rule motor_loop_table[where tab = "\<lambda>s. mPrevMotorMsgs (motorConfigs s)"])
    (use motor_ok_maps[OF assms] in \<open>simp_all add: set_motor_heartbeats_def deleteMotor_tables deleteMotor_ok\<close>)

lemma motor_beat_ticks:
  assumes "motor_ok s"
  shows "sm_ok (mRegisteredMotorHeartbeatList (motor_processHeartbeat s))
    \<and> sm_get (mRegisteredMotorHeartbeatList (motor_processHeartbeat s)) j =
      (case sm_get (mRegisteredMotorHeartbeatList s) j of
         None \<Rightarrow> None | Some n \<Rightarrow> if n \<le> 1 then None else Some (n - 1))"
  using assms by (simp add: motor_processHeartbeat_def motor_ok_def motor_table.loop_ok motor_table.loop_ticks)

lemma motor_ok_beat:
  assumes "motor_ok s"
  shows "motor_ok (motor_processHeartbeat s)"
proof -
  let ?s = "motor_processHeartbeat s"
  have "case sm_get (mRegisteredMotorHeartbeatList ?s) i of
           None \<Rightarrow> sm_get (mRegisteredMotorList ?s) i = None \<and> sm_get (mRegisteredMotorTypeList ?s) i = None
         | Some n \<Rightarrow> 1 \<le> n \<and> n \<le> kMaxHeartbeatTicks \<and> i < 64
             \<and> (\<exists>dev. sm_get (mRegisteredMotorList ?s) i = Some dev
                  \<and> sm_get (mRegisteredMotorTypeList ?s) i = Some (type_of_talon dev))" for i
    using motor_ok_entry[OF assms, of i] motor_beat_list[OF assms, of i]
      motor_beat_types[OF assms, of i] motor_beat_ticks[OF assms, of i]
    by (auto simp: sm_count_def split: option.splits if_splits)
  then show ?thesis
    unfolding motor_ok_def[of ?s]
    using motor_beat_list[OF assms] motor_beat_types[OF assms] motor_beat_msgs[OF assms]
      motor_beat_prev[OF assms] motor_beat_ticks[OF assms]
    by blast
qed

lemma motor_ok_register:
  assumes "motor_ok s"
  shows "motor_ok (registerMotor i t c s)"
proof -
  have "case sm_get (mRegisteredMotorHeartbeatList (registerMotor i t c s)) j of
           None \<Rightarrow> sm_get (mRegisteredMotorList (registerMotor i t c s)) j = None
             \<and> sm_get (mRegisteredMotorTypeList (registerMotor i t c s)) j = None
         | Some n \<Rightarrow> 1 \<le> n \<and> n \<le> kMaxHeartbeatTicks \<and> j < 64
             \<and> (\<exists>dev. sm_get (mRegisteredMotorList (registerMotor i t c s)) j = Some dev
                  \<and> sm_get (mRegisteredMotorTypeList (registerMotor i t c s)) j = Some (type_of_talon dev))" for j
    using motor_ok_entry[OF assms, of j] motor_ok_maps[OF assms]
    by (auto simp: registerMotor_def Let_def sm_count_def kMaxHeartbeatTicks_def
        split: option.splits if_splits motor_type.splits)
  moreover have "motorConfigs (registerMotor i t c s) = motorConfigs s"
    "sm_ok (mRegisteredMotorList (registerMotor i t c s))"
    "sm_ok (mRegisteredMotorTypeList (registerMotor i t c s))"
    "sm_ok (mRegisteredMotorHeartbeatList (registerMotor i t c s))"
    using motor_ok_maps[OF assms] by (auto simp: registerMotor_def Let_def split: motor_type.split)
  ultimately show ?thesis
    unfolding motor_ok_def[of "registerMotor i t c s"] using motor_ok_maps[OF assms] by simp
qed

section \<open>The registry contract\<close>

type_synonym motor_request = "u16 \<times> motor_type \<times> can_interface"

definition motor_request_id :: "motor_request \<Rightarrow> u16" where
  "motor_request_id r = fst r"

definition motor_register :: "motor_request \<Rightarrow> 'm motor_manager \<Rightarrow> 'm motor_manager" where
  "motor_register r = (case r of (i, t, c) \<Rightarrow> registerMotor i t c)"

definition motor_creates :: "motor_request \<Rightarrow> 'm motor_manager \<Rightarrow> bool" where
  "motor_creates r s \<longleftrightarrow> (case r of (i, t, c) \<Rightarrow> i < 64 \<and> t \<in> {TALON_FX, TALON_SRX} \<and> \<not> motorExists i s)"

definition motor_accepts :: "motor_request \<Rightarrow> 'm motor_manager \<Rightarrow> bool" where
  "motor_accepts r s \<longleftrightarrow> (case r of (i, t, c) \<Rightarrow> i < 64 \<and> (motorExists i s \<or> t \<in> {TALON_FX, TALON_SRX}))"

interpretation motors: device_registry
  "\<lambda>s i. motorExists i s" "\<lambda>s i. sm_get (mRegisteredMotorHeartbeatList s) i"
  motor_register motor_request_id motor_accepts motor_creates motor_processHeartbeat motor_ok
proof unfold_locales
  fix s :: "'m motor_manager" and r :: motor_request and k
  assume ok: "motor_ok s"
  obtain i t c where r: "r = (i, t, c)" by (cases r)
  note maps = motor_ok_maps[OF ok] and entry = motor_ok_entry[OF ok]
  show "motor_ok (motor_register r s)" using ok by (simp add: r motor_register_def motor_ok_register)
  show "motor_ok (motor_processHeartbeat s)" using ok by (rule motor_ok_beat)
  show "sm_get (mRegisteredMotorHeartbeatList (motor_register r s)) k =
      (if k = motor_request_id r \<and> motor_accepts r s then Some kMaxHeartbeatTicks
       else sm_get (mRegisteredMotorHeartbeatList s) k)"
    using maps by (auto simp: r motor_register_def registerMotor_def motor_request_id_def
        motor_accepts_def motorExists_def Let_def split: motor_type.split)
  show "motorExists k (motor_register r s) = (motorExists k s \<or> k = motor_request_id r \<and> motor_creates r s)"
    using maps by (auto simp: r motor_register_def registerMotor_def motor_request_id_def
        motor_creates_def motorExists_def Let_def split: motor_type.split)
  show "sm_get (mRegisteredMotorHeartbeatList (motor_processHeartbeat s)) k =
      (case sm_get (mRegisteredMotorHeartbeatList s) k of None \<Rightarrow> None
       | Some n \<Rightarrow> if n \<le> 1 then None else Some (n - 1))"
    using motor_beat_ticks[OF ok] by simp
  show "motorExists k (motor_processHeartbeat s) = (motorExists k s \<and>
      (case sm_get (mRegisteredMotorHeartbeatList s) k of None \<Rightarrow> True | Some n \<Rightarrow> 1 < n))"
    using motor_beat_list[OF ok, of k] by (auto simp: motorExists_def sm_count_def split: option.splits)
  show "motorExists k s \<Longrightarrow> \<exists>n. sm_get (mRegisteredMotorHeartbeatList s) k = Some n \<and> 1 \<le> n \<and> n \<le> kMaxHeartbeatTicks"
    using entry[of k] by (auto simp: motorExists_def sm_count_def split: option.splits)
  show "motor_creates r s \<Longrightarrow> motor_accepts r s"
    by (auto simp: motor_creates_def motor_accepts_def)
qed


section \<open>Properties\<close>

text \<open>Whatever sequence of registrations (any id, any type number, any bus) and heartbeats the
  manager goes through, its tables stay consistent: a talon, a supported type and a heartbeat
  counter between 1 and 250 exist for the same ids, all below 64.\<close>

theorem motor_registry_invariant:
  "motor_ok (registry_run motor_register motor_processHeartbeat ops MotorManager_new)"
  by (rule motors.inv_run[OF motor_ok_new])

text \<open>C13. A motor named by a registration that is valid (id below 64, and a supported type unless the
  motor exists) stays registered through exactly the next 249 heartbeats in which it is not named
  again, whatever else happens to other motors in between: five seconds at the 20 ms heartbeat.\<close>

theorem motor_lifetime:
  assumes "motor_ok s" and "motor_accepts (i, t, c) s"
    and "silent motor_request_id i ops"
  shows "motorExists i (registry_run motor_register motor_processHeartbeat ops (registerMotor i t c s))
    \<longleftrightarrow> beats ops < 250"
proof -
  have "motorExists i s \<or> motor_creates (i, t, c) s"
    using assms(2) by (auto simp: motor_accepts_def motor_creates_def)
  with motors.lifetime[OF assms(1,2), of ops] assms(3) show ?thesis
    by (simp add: motor_register_def motor_request_id_def kMaxHeartbeatTicks_def)
qed

theorem motor_lifetime_witness:
  "motorExists 5 (registry_run motor_register motor_processHeartbeat
      [Heartbeat, Register (6, TALON_SRX, RIO_CANIVORE), Heartbeat]
      (registerMotor 5 TALON_FX RIO_CANIVORE (MotorManager_new :: nat motor_manager))) \<longleftrightarrow> (2::int) < 250"
  using motor_lifetime[of "MotorManager_new :: nat motor_manager" 5 TALON_FX RIO_CANIVORE
      "[Heartbeat, Register (6, TALON_SRX, RIO_CANIVORE), Heartbeat]"]
  by (simp add: motor_ok_new motor_accepts_def silent_def motor_request_id_def beats_def)

text \<open>A motor that times out loses both of its configuration messages in the same heartbeat, so
  a later registration configures it from scratch, and the heartbeat leaves the talon and both
  messages of every motor that stays registered as they were.\<close>

theorem motor_timeout_forgets:
  assumes "motor_ok s" and "motorExists i s" and "\<not> motorExists i (motor_processHeartbeat s)"
    and "motorExists j (motor_processHeartbeat s)"
  shows "sm_get (mMotorMsgs (motorConfigs (motor_processHeartbeat s))) i = None
    \<and> sm_get (mPrevMotorMsgs (motorConfigs (motor_processHeartbeat s))) i = None
    \<and> getMotor j (motor_processHeartbeat s) = getMotor j s
    \<and> sm_get (mMotorMsgs (motorConfigs (motor_processHeartbeat s))) j = sm_get (mMotorMsgs (motorConfigs s)) j
    \<and> sm_get (mPrevMotorMsgs (motorConfigs (motor_processHeartbeat s))) j = sm_get (mPrevMotorMsgs (motorConfigs s)) j"
  using assms(2-4) motor_beat_list[OF assms(1), of i] motor_beat_list[OF assms(1), of j]
    motor_beat_msgs[OF assms(1), of i] motor_beat_msgs[OF assms(1), of j]
    motor_beat_prev[OF assms(1), of i] motor_beat_prev[OF assms(1), of j]
  by (auto simp: motorExists_def getMotor_def sm_count_def split: option.splits if_splits)

theorem motor_timeout_forgets_witness:
  "let s = \<lparr>mRegisteredMotorList = [(1, TalonSRX 1), (2, TalonSRX 2)],
            mRegisteredMotorTypeList = [(1, TALON_SRX), (2, TALON_SRX)],
            mRegisteredMotorHeartbeatList = [(1, 1), (2, 7)],
            motorConfigs = \<lparr>mMotorMsgs = [(1, 10), (2, 20)], mPrevMotorMsgs = [(1, 11), (2, 21 :: nat)]\<rparr>\<rparr>
   in sm_get (mPrevMotorMsgs (motorConfigs (motor_processHeartbeat s))) 1 = None
      \<and> sm_get (mPrevMotorMsgs (motorConfigs (motor_processHeartbeat s))) 2 = Some 21"
proof -
  let ?s = "\<lparr>mRegisteredMotorList = [(1, TalonSRX 1), (2, TalonSRX 2)],
            mRegisteredMotorTypeList = [(1, TALON_SRX), (2, TALON_SRX)],
            mRegisteredMotorHeartbeatList = [(1, 1), (2, 7)],
            motorConfigs = \<lparr>mMotorMsgs = [(1, 10), (2, 20)], mPrevMotorMsgs = [(1, 11), (2, 21 :: nat)]\<rparr>\<rparr>"
  have ok: "motor_ok ?s"
    by (auto simp: motor_ok_def sm_ok_def sm_get_def sm_count_def kMaxHeartbeatTicks_def)
  have "motorExists 1 ?s" "\<not> motorExists 1 (motor_processHeartbeat ?s)"
    "motorExists 2 (motor_processHeartbeat ?s)"
    using motor_beat_list[OF ok, of 1] motor_beat_list[OF ok, of 2]
    by (simp_all add: motorExists_def sm_count_def sm_get_def)
  from motor_timeout_forgets[OF ok this] show ?thesis
    by (simp add: sm_get_def)
qed

text \<open>Ids outside the CAN range are never registered, and a type number the code does not know
  changes nothing for an unknown motor, not even its heartbeat.\<close>

theorem motor_register_rejects:
  assumes "64 \<le> i \<or> (\<exists>n. t = OtherMotorType n) \<and> \<not> motorExists i s"
  shows "registerMotor i t c s = s"
  using assms by (auto simp: registerMotor_def motorExists_def Let_def)

theorem motor_register_rejects_witness:
  "registerMotor 64 TALON_FX RIO_CANIVORE (MotorManager_new :: nat motor_manager) = MotorManager_new"
  by (rule motor_register_rejects) simp

end
