(* ===== verification/Solenoid_Manager.thy ===== *)
theory Solenoid_Manager
  imports Device_Registry Network_Manager Timers
begin

text \<open>
  \<open>utils/drivers/CKSolenoid\<close>, \<open>SolenoidManager\<close> and \<open>tasks/ApplySolenoidValuesTask\<close>: solenoids
  named by a 32-bit id (module in the high half, channel in the low half) and the compressor.
  Calls into WPILib are events; whether a WPILib solenoid can be constructed is the parameter
  \<open>fits\<close>, a construction that cannot throws. Errors are as the code reports them: the text is a
  string literal plus an integer, a pointer into the literal or past it.
\<close>

datatype sol_module = CTREPCM | REVPH | OtherModule int
datatype sol_type = SINGLE | DOUBLE | OtherSolenoidType int
datatype sol_value = SOL_OFF | SOL_ON | SOL_FORWARD | SOL_REVERSE | OtherSolenoidValue int

datatype frc_solenoid =
    FrcSolenoid u16 sol_module u16
  | FrcDoubleSolenoid u16 sol_module u16 int

datatype pneu_event =
    NewFrc frc_solenoid
  | SetSingle frc_solenoid bool
  | SetDouble frc_solenoid sol_value
  | ReportError string
  | ReportInvalidPH u16 u32
  | NewCompressor
  | CompressorDisable
  | CompressorEnableDigital

section \<open>CKSolenoid\<close>

record ck_solenoid =
  cs_value :: sol_value
  cs_moduleType :: sol_module
  cs_solenoidId :: u32
  cs_solenoidType :: sol_type
  cs_single :: "frc_solenoid option"
  cs_double :: "frc_solenoid option"

definition getModuleId :: "ck_solenoid \<Rightarrow> u16" where
  "getModuleId c =
     (let retVal = ucast (drop_bit 16 (cs_solenoidId c) AND 0xFFFF)
      in if cs_moduleType c = REVPH \<and> retVal = 0 then 1 else retVal)"

definition getSolenoidId :: "ck_solenoid \<Rightarrow> u16" where
  "getSolenoidId c = ucast (cs_solenoidId c AND 0xFFFF)"

definition solenoid_id_invalid :: "ck_solenoid \<Rightarrow> bool" where
  "solenoid_id_invalid c \<longleftrightarrow>
     (case cs_moduleType c of
        CTREPCM \<Rightarrow> getModuleId c \<ge> 64 \<or> getSolenoidId c \<ge> 8
      | REVPH \<Rightarrow> getModuleId c \<ge> 63 \<or> getSolenoidId c \<ge> 16
      | OtherModule _ \<Rightarrow> False)"

definition CKSolenoid_new ::
  "(frc_solenoid \<Rightarrow> bool) \<Rightarrow> sol_module \<Rightarrow> u32 \<Rightarrow> sol_type \<Rightarrow> fault + (pneu_event list \<times> ck_solenoid)" where
  "CKSolenoid_new fits moduleType solenoidId solenoidType =
     (let c = \<lparr>cs_value = SOL_OFF, cs_moduleType = moduleType, cs_solenoidId = solenoidId,
               cs_solenoidType = solenoidType, cs_single = None, cs_double = None\<rparr>
      in if solenoid_id_invalid c then
           Inr ([if moduleType = REVPH then ReportInvalidPH (getModuleId c) solenoidId
                 else ReportError ''Solenoid or PCM ID is invalid. Not creating solenoid''], c)
         else
           (case solenoidType of
              SINGLE \<Rightarrow>
                (let f = FrcSolenoid (getModuleId c) moduleType (getSolenoidId c)
                 in if fits f then Inr ([NewFrc f], c\<lparr>cs_single := Some f\<rparr>)
                    else Inl (ThrownException ''frc::Solenoid''))
            | DOUBLE \<Rightarrow>
                (let f = FrcDoubleSolenoid (getModuleId c) moduleType (getSolenoidId c)
                           (uint (getSolenoidId c) + 1)
                 in if fits f then Inr ([NewFrc f], c\<lparr>cs_double := Some f\<rparr>)
                    else Inl (ThrownException ''frc::DoubleSolenoid''))
            | OtherSolenoidType _ \<Rightarrow> Inr ([], c)))"

text \<open>A literal plus an offset: a suffix of the literal, or undefined past its terminator.\<close>

definition literal_plus :: "string \<Rightarrow> u32 \<Rightarrow> fault + string" where
  "literal_plus lit n =
     (if unat n \<le> length lit then Inr (drop (unat n) lit) else Inl UndefinedBehaviour)"

definition report_literal_plus :: "string \<Rightarrow> ck_solenoid \<Rightarrow> fault + (pneu_event list \<times> ck_solenoid)" where
  "report_literal_plus lit c =
     (case literal_plus lit (cs_solenoidId c) of
        Inl f \<Rightarrow> Inl f | Inr msg \<Rightarrow> Inr ([ReportError msg], c))"

definition CKSolenoid_set :: "sol_value \<Rightarrow> ck_solenoid \<Rightarrow> fault + (pneu_event list \<times> ck_solenoid)" where
  "CKSolenoid_set v c =
     (if cs_single c = None \<and> cs_double c = None then
        report_literal_plus ''Solenoid or PH ID is invalid. Cannot set invalid solenoid with ID'' c
      else
        (let c1 = c\<lparr>cs_value := v\<rparr>
         in case cs_solenoidType c of
              SINGLE \<Rightarrow>
                (case cs_single c of
                   Some f \<Rightarrow> (if v = SOL_ON \<or> v = SOL_OFF then Inr ([SetSingle f (v = SOL_ON)], c1)
                             else report_literal_plus ''Invalid solenoid set for ID: '' c1)
                 | None \<Rightarrow> report_literal_plus ''Invalid solenoid set for ID: '' c1)
            | DOUBLE \<Rightarrow>
                (case cs_double c of
                   Some f \<Rightarrow> (if v = SOL_OFF \<or> v = SOL_FORWARD \<or> v = SOL_REVERSE
                             then Inr ([SetDouble f v], c1)
                             else report_literal_plus ''Invalid solenoid set for ID: '' c1)
                 | None \<Rightarrow> report_literal_plus ''Invalid solenoid set for ID: '' c1)
            | OtherSolenoidType _ \<Rightarrow> Inr ([], c1)))"

section \<open>SolenoidManager\<close>

record solenoid_manager =
  mRegisteredSolenoidList :: "(u32, ck_solenoid) std_map"
  mRegisteredSolenoidTypeList :: "(u32, sol_type) std_map"
  mRegisteredSolenoidHeartbeatList :: "(u32, int) std_map"

definition SolenoidManager_new :: solenoid_manager where
  "SolenoidManager_new = \<lparr>mRegisteredSolenoidList = [], mRegisteredSolenoidTypeList = [],
     mRegisteredSolenoidHeartbeatList = []\<rparr>"

definition registerSolenoid ::
  "(frc_solenoid \<Rightarrow> bool) \<Rightarrow> sol_module \<Rightarrow> u32 \<Rightarrow> sol_type \<Rightarrow> solenoid_manager
     \<Rightarrow> fault + (pneu_event list \<times> solenoid_manager)" where
  "registerSolenoid fits moduleType i solenoidType s =
     (let beat = (\<lambda>s. s\<lparr>mRegisteredSolenoidHeartbeatList :=
                        sm_put i kMaxHeartbeatTicks (mRegisteredSolenoidHeartbeatList s)\<rparr>)
      in if \<not> sm_count (mRegisteredSolenoidList s) i then
           (case CKSolenoid_new fits moduleType i solenoidType of
              Inl f \<Rightarrow> Inl f
            | Inr (es, c) \<Rightarrow>
                Inr (es, beat (s\<lparr>mRegisteredSolenoidList := sm_put i c (mRegisteredSolenoidList s),
                                 mRegisteredSolenoidTypeList :=
                                   sm_put i solenoidType (mRegisteredSolenoidTypeList s)\<rparr>)))
         else Inr ([], beat s))"

definition deleteSolenoid :: "u32 \<Rightarrow> solenoid_manager \<Rightarrow> solenoid_manager" where
  "deleteSolenoid i s =
     (let s1 = (if sm_count (mRegisteredSolenoidList s) i
                then s\<lparr>mRegisteredSolenoidList := sm_erase i (mRegisteredSolenoidList s)\<rparr> else s)
      in if sm_count (mRegisteredSolenoidTypeList s1) i
         then s1\<lparr>mRegisteredSolenoidTypeList := sm_erase i (mRegisteredSolenoidTypeList s1)\<rparr> else s1)"

definition set_solenoid_heartbeats :: "(u32, int) std_map \<Rightarrow> solenoid_manager \<Rightarrow> solenoid_manager" where
  "set_solenoid_heartbeats m s = s\<lparr>mRegisteredSolenoidHeartbeatList := m\<rparr>"

definition solenoid_processHeartbeat :: "solenoid_manager \<Rightarrow> solenoid_manager" where
  "solenoid_processHeartbeat =
     heartbeat_loop mRegisteredSolenoidHeartbeatList set_solenoid_heartbeats deleteSolenoid"

definition getSolenoid :: "u32 \<Rightarrow> solenoid_manager \<Rightarrow> ck_solenoid option" where
  "getSolenoid i s = (if sm_count (mRegisteredSolenoidList s) i then sm_get (mRegisteredSolenoidList s) i else None)"

text \<open>\<open>onSolenoid\<close> with the one use the program makes of it, setting the solenoid in place.\<close>

definition onSolenoid_set ::
  "u32 \<Rightarrow> sol_value \<Rightarrow> solenoid_manager \<Rightarrow> fault + (pneu_event list \<times> solenoid_manager)" where
  "onSolenoid_set i v s =
     (case sm_get (mRegisteredSolenoidList s) i of
        None \<Rightarrow> Inr ([], s)
      | Some c \<Rightarrow>
          (case CKSolenoid_set v c of
             Inl f \<Rightarrow> Inl f
           | Inr (es, c') \<Rightarrow>
               Inr (es, s\<lparr>mRegisteredSolenoidList := sm_put i c' (mRegisteredSolenoidList s)\<rparr>)))"


section \<open>ApplySolenoidValuesTask\<close>

record solenoid_msg =
  sm_module_type :: sol_module
  sm_id :: u32
  sm_solenoid_type :: sol_type
  sm_output_value :: sol_value

record solenoid_control =
  solenoids :: "solenoid_msg list"
  compressor_is_enabled_for_auto :: bool

record solenoid_task =
  mPrevSolenoidMsg :: solenoid_control
  sol_rtTimer :: rt_timer
  mCompressorCreated :: bool
  mCompressorState :: bool

definition compressor_step :: "solenoid_control \<Rightarrow> bool \<Rightarrow> solenoid_task \<Rightarrow> pneu_event list \<times> solenoid_task" where
  "compressor_step update isTeleop t =
     (let (es, t1) = (if \<not> mCompressorCreated t
                      then ([NewCompressor, CompressorDisable],
                            t\<lparr>mCompressorCreated := True, mCompressorState := False\<rparr>)
                      else ([], t))
      in if \<not> compressor_is_enabled_for_auto update \<and> \<not> isTeleop then
           (if mCompressorState t1 then (es @ [CompressorDisable], t1\<lparr>mCompressorState := False\<rparr>)
            else (es, t1))
         else
           (if \<not> mCompressorState t1 then (es @ [CompressorEnableDigital], t1\<lparr>mCompressorState := True\<rparr>)
            else (es, t1)))"

text \<open>The loop over the solenoids of a message: the fault that leaves it, if any, the events and
  the manager up to there.\<close>

fun apply_solenoids ::
  "(frc_solenoid \<Rightarrow> bool) \<Rightarrow> solenoid_msg list \<Rightarrow> solenoid_manager
     \<Rightarrow> fault option \<times> pneu_event list \<times> solenoid_manager" where
  "apply_solenoids fits [] s = (None, [], s)"
| "apply_solenoids fits (m # ms) s =
     (case registerSolenoid fits (sm_module_type m) (sm_id m) (sm_solenoid_type m) s of
        Inl f \<Rightarrow> (Some f, [], s)
      | Inr (es, s1) \<Rightarrow>
          (case onSolenoid_set (sm_id m) (sm_output_value m) s1 of
             Inl f \<Rightarrow> (Some f, es, s1)
           | Inr (es', s2) \<Rightarrow>
               (case apply_solenoids fits ms s2 of (r, es'', s3) \<Rightarrow> (r, es @ es' @ es'', s3))))"

definition kMandatoryUpdatePerioduS :: u64 where
  "kMandatoryUpdatePerioduS = 200000"

text \<open>\<open>run\<close>: \<open>parse\<close> is \<open>ParseFromArray\<close>, its flag and the (possibly partial) message it leaves;
  \<open>now\<close> is the clock at the comparison and at the restart of the timer.\<close>

definition solenoid_task_run ::
  "(bytes \<Rightarrow> bool \<times> solenoid_control) \<Rightarrow> (frc_solenoid \<Rightarrow> bool) \<Rightarrow> u64 \<Rightarrow> bool
     \<Rightarrow> network \<times> solenoid_manager \<times> solenoid_task
     \<Rightarrow> fault option \<times> pneu_event list \<times> network \<times> solenoid_manager \<times> solenoid_task" where
  "solenoid_task_run parse fits now isTeleop st =
     (case st of (n, mgr, t) \<Rightarrow>
       (case getMessage ''solenoidcontrol'' n of
          (None, n1) \<Rightarrow> (None, [], n1, mgr, t)
        | (Some buf, n1) \<Rightarrow>
            (let (parsed, update) = parse buf
             in if parsed then
                  (let (es, t1) = (if solenoids update \<noteq> [] then compressor_step update isTeleop t
                                   else ([], t))
                   in if update \<noteq> mPrevSolenoidMsg t1
                         \<or> RTTimer_hasElapseduS now (sol_rtTimer t1) > kMandatoryUpdatePerioduS
                      then (case apply_solenoids fits (solenoids update) mgr of
                              (Some f, es', mgr1) \<Rightarrow> (Some f, es @ es', n1, mgr1, t1)
                            | (None, es', mgr1) \<Rightarrow>
                                (None, es @ es', n1, mgr1,
                                 t1\<lparr>sol_rtTimer := RTTimer_start now (sol_rtTimer t1),
                                    mPrevSolenoidMsg := update\<rparr>))
                      else (None, es, n1, mgr, t1\<lparr>mPrevSolenoidMsg := update\<rparr>))
                else (None, [], n1, mgr, t\<lparr>mPrevSolenoidMsg := update\<rparr>))))"

section \<open>Registry\<close>

definition solenoid_ok :: "solenoid_manager \<Rightarrow> bool" where
  "solenoid_ok s \<longleftrightarrow> sm_ok (mRegisteredSolenoidList s) \<and> sm_ok (mRegisteredSolenoidTypeList s)
     \<and> sm_ok (mRegisteredSolenoidHeartbeatList s)
     \<and> (\<forall>i. case sm_get (mRegisteredSolenoidHeartbeatList s) i of
           None \<Rightarrow> sm_get (mRegisteredSolenoidList s) i = None \<and> sm_get (mRegisteredSolenoidTypeList s) i = None
         | Some n \<Rightarrow> 1 \<le> n \<and> n \<le> kMaxHeartbeatTicks
             \<and> (\<exists>c. sm_get (mRegisteredSolenoidList s) i = Some c \<and> cs_solenoidId c = i
                  \<and> sm_get (mRegisteredSolenoidTypeList s) i = Some (cs_solenoidType c)))"

lemma solenoid_ok_new: "solenoid_ok SolenoidManager_new"
  by (simp add: solenoid_ok_def SolenoidManager_new_def)

lemma solenoid_ok_maps:
  "solenoid_ok s \<Longrightarrow> sm_ok (mRegisteredSolenoidList s) \<and> sm_ok (mRegisteredSolenoidTypeList s)
     \<and> sm_ok (mRegisteredSolenoidHeartbeatList s)"
  by (simp add: solenoid_ok_def)

lemma solenoid_ok_entry:
  "solenoid_ok s \<Longrightarrow> case sm_get (mRegisteredSolenoidHeartbeatList s) i of
       None \<Rightarrow> sm_get (mRegisteredSolenoidList s) i = None \<and> sm_get (mRegisteredSolenoidTypeList s) i = None
     | Some n \<Rightarrow> 1 \<le> n \<and> n \<le> kMaxHeartbeatTicks
         \<and> (\<exists>c. sm_get (mRegisteredSolenoidList s) i = Some c \<and> cs_solenoidId c = i
              \<and> sm_get (mRegisteredSolenoidTypeList s) i = Some (cs_solenoidType c))"
  by (simp add: solenoid_ok_def)

interpretation solenoid_table:
  heartbeat_table mRegisteredSolenoidHeartbeatList set_solenoid_heartbeats deleteSolenoid
  by unfold_locales (simp_all add: set_solenoid_heartbeats_def deleteSolenoid_def Let_def)

lemma deleteSolenoid_tables:
  "sm_get (mRegisteredSolenoidList (deleteSolenoid i s)) j = (if j = i then None else sm_get (mRegisteredSolenoidList s) j)"
  "sm_get (mRegisteredSolenoidTypeList (deleteSolenoid i s)) j = (if j = i then None else sm_get (mRegisteredSolenoidTypeList s) j)"
  "sm_ok (mRegisteredSolenoidList s) \<Longrightarrow> sm_ok (mRegisteredSolenoidList (deleteSolenoid i s))"
  "sm_ok (mRegisteredSolenoidTypeList s) \<Longrightarrow> sm_ok (mRegisteredSolenoidTypeList (deleteSolenoid i s))"
  by (auto simp: deleteSolenoid_def Let_def sm_count_def)

lemma solenoid_beat_list:
  assumes "solenoid_ok s"
  shows "sm_ok (mRegisteredSolenoidList (solenoid_processHeartbeat s))
    \<and> sm_get (mRegisteredSolenoidList (solenoid_processHeartbeat s)) j =
      (case sm_get (mRegisteredSolenoidHeartbeatList s) j of
         Some n \<Rightarrow> if n \<le> 1 then None else sm_get (mRegisteredSolenoidList s) j
       | None \<Rightarrow> sm_get (mRegisteredSolenoidList s) j)"
  unfolding solenoid_processHeartbeat_def
  by (rule conjI; rule solenoid_table.loop_table[where look = sm_get and ok = sm_ok and tab = "mRegisteredSolenoidList"])
    (use solenoid_ok_maps[OF assms] in \<open>simp_all add: set_solenoid_heartbeats_def deleteSolenoid_tables\<close>)

lemma solenoid_beat_types:
  assumes "solenoid_ok s"
  shows "sm_ok (mRegisteredSolenoidTypeList (solenoid_processHeartbeat s))
    \<and> sm_get (mRegisteredSolenoidTypeList (solenoid_processHeartbeat s)) j =
      (case sm_get (mRegisteredSolenoidHeartbeatList s) j of
         Some n \<Rightarrow> if n \<le> 1 then None else sm_get (mRegisteredSolenoidTypeList s) j
       | None \<Rightarrow> sm_get (mRegisteredSolenoidTypeList s) j)"
  unfolding solenoid_processHeartbeat_def
  by (rule conjI; rule solenoid_table.loop_table[where look = sm_get and ok = sm_ok and tab = "mRegisteredSolenoidTypeList"])
    (use solenoid_ok_maps[OF assms] in \<open>simp_all add: set_solenoid_heartbeats_def deleteSolenoid_tables\<close>)

lemma solenoid_beat_ticks:
  assumes "solenoid_ok s"
  shows "sm_ok (mRegisteredSolenoidHeartbeatList (solenoid_processHeartbeat s))
    \<and> sm_get (mRegisteredSolenoidHeartbeatList (solenoid_processHeartbeat s)) j =
      (case sm_get (mRegisteredSolenoidHeartbeatList s) j of
         None \<Rightarrow> None | Some n \<Rightarrow> if n \<le> 1 then None else Some (n - 1))"
  using solenoid_ok_maps[OF assms]
  by (simp add: solenoid_processHeartbeat_def solenoid_table.loop_ok solenoid_table.loop_ticks)

lemma solenoid_ok_beat:
  assumes "solenoid_ok s"
  shows "solenoid_ok (solenoid_processHeartbeat s)"
proof -
  let ?s = "solenoid_processHeartbeat s"
  have "case sm_get (mRegisteredSolenoidHeartbeatList ?s) i of
       None \<Rightarrow> sm_get (mRegisteredSolenoidList ?s) i = None \<and> sm_get (mRegisteredSolenoidTypeList ?s) i = None
     | Some n \<Rightarrow> 1 \<le> n \<and> n \<le> kMaxHeartbeatTicks
         \<and> (\<exists>c. sm_get (mRegisteredSolenoidList ?s) i = Some c \<and> cs_solenoidId c = i
              \<and> sm_get (mRegisteredSolenoidTypeList ?s) i = Some (cs_solenoidType c))" for i
    using solenoid_ok_entry[OF assms, of i] solenoid_beat_list[OF assms, of i]
      solenoid_beat_types[OF assms, of i] solenoid_beat_ticks[OF assms, of i]
    by (auto split: option.splits if_splits)
  then show ?thesis
    unfolding solenoid_ok_def[of ?s]
    using solenoid_beat_list[OF assms] solenoid_beat_types[OF assms] solenoid_beat_ticks[OF assms]
    by blast
qed

lemma CKSolenoid_new_fields:
  "CKSolenoid_new fits m i t = Inr (es, c) \<Longrightarrow> cs_solenoidId c = i \<and> cs_solenoidType c = t \<and> cs_moduleType c = m"
  by (auto simp: CKSolenoid_new_def Let_def split: if_splits sol_type.splits)

lemma solenoid_ok_register:
  assumes "solenoid_ok s" and "registerSolenoid fits m i t s = Inr (es, s')"
  shows "solenoid_ok s'"
proof -
  have "case sm_get (mRegisteredSolenoidHeartbeatList s') j of
       None \<Rightarrow> sm_get (mRegisteredSolenoidList s') j = None \<and> sm_get (mRegisteredSolenoidTypeList s') j = None
     | Some n \<Rightarrow> 1 \<le> n \<and> n \<le> kMaxHeartbeatTicks
         \<and> (\<exists>c. sm_get (mRegisteredSolenoidList s') j = Some c \<and> cs_solenoidId c = j
              \<and> sm_get (mRegisteredSolenoidTypeList s') j = Some (cs_solenoidType c))" for j
    using assms(2) solenoid_ok_entry[OF assms(1), of j] solenoid_ok_maps[OF assms(1)]
      CKSolenoid_new_fields[of fits m i t]
    by (auto simp: registerSolenoid_def Let_def sm_count_def kMaxHeartbeatTicks_def
        split: option.splits if_splits sum.splits)
  moreover have "sm_ok (mRegisteredSolenoidList s')" "sm_ok (mRegisteredSolenoidTypeList s')"
    "sm_ok (mRegisteredSolenoidHeartbeatList s')"
    using assms(2) solenoid_ok_maps[OF assms(1)]
    by (auto simp: registerSolenoid_def Let_def split: if_splits sum.splits)
  ultimately show ?thesis unfolding solenoid_ok_def[of s'] by blast
qed


lemma CKSolenoid_set_fields:
  "CKSolenoid_set v c = Inr (es, c') \<Longrightarrow> cs_solenoidId c' = cs_solenoidId c
     \<and> cs_solenoidType c' = cs_solenoidType c \<and> cs_single c' = cs_single c \<and> cs_double c' = cs_double c"
  by (auto simp: CKSolenoid_set_def report_literal_plus_def Let_def
      split: if_splits sol_type.splits option.splits sum.splits)

lemma solenoid_ok_set:
  assumes "solenoid_ok s" and "onSolenoid_set i v s = Inr (es, s')"
  shows "solenoid_ok s' \<and> mRegisteredSolenoidHeartbeatList s' = mRegisteredSolenoidHeartbeatList s"
proof (cases "sm_get (mRegisteredSolenoidList s) i")
  case None
  then show ?thesis using assms by (simp add: onSolenoid_set_def)
next
  case (Some c)
  then obtain c' where c': "CKSolenoid_set v c = Inr (es, c')"
    and s': "s' = s\<lparr>mRegisteredSolenoidList := sm_put i c' (mRegisteredSolenoidList s)\<rparr>"
    using assms(2) by (auto simp: onSolenoid_set_def split: sum.splits)
  note fields = CKSolenoid_set_fields[OF c']
  have "case sm_get (mRegisteredSolenoidHeartbeatList s') j of
       None \<Rightarrow> sm_get (mRegisteredSolenoidList s') j = None \<and> sm_get (mRegisteredSolenoidTypeList s') j = None
     | Some n \<Rightarrow> 1 \<le> n \<and> n \<le> kMaxHeartbeatTicks
         \<and> (\<exists>c. sm_get (mRegisteredSolenoidList s') j = Some c \<and> cs_solenoidId c = j
              \<and> sm_get (mRegisteredSolenoidTypeList s') j = Some (cs_solenoidType c))" for j
    using solenoid_ok_entry[OF assms(1), of j] solenoid_ok_maps[OF assms(1)] fields Some
    by (auto simp: s' split: option.splits)
  then show ?thesis
    unfolding solenoid_ok_def[of s'] using solenoid_ok_maps[OF assms(1)] by (simp add: s')
qed

definition solenoid_ticks :: "solenoid_manager \<Rightarrow> u32 \<Rightarrow> int option" where
  "solenoid_ticks s i = sm_get (mRegisteredSolenoidHeartbeatList s) i"

lemma registerSolenoid_ticks:
  "solenoid_ok s \<Longrightarrow> registerSolenoid fits m i t s = Inr (es, s') \<Longrightarrow>
     solenoid_ticks s' j = (if j = i then Some kMaxHeartbeatTicks else solenoid_ticks s j)"
  using solenoid_ok_maps[of s]
  by (auto simp: registerSolenoid_def solenoid_ticks_def Let_def split: if_splits sum.splits)

lemma apply_solenoids_ok:
  assumes "solenoid_ok s" and "apply_solenoids fits ms s = (r, es, s')"
  shows "solenoid_ok s' \<and> (r = None \<longrightarrow>
    (\<forall>j. solenoid_ticks s' j = (if j \<in> sm_id ` set ms then Some kMaxHeartbeatTicks else solenoid_ticks s j)))"
  using assms
proof (induction ms arbitrary: s r es s')
  case Nil
  then show ?case by simp
next
  case (Cons m ms)
  show ?case
  proof (cases "registerSolenoid fits (sm_module_type m) (sm_id m) (sm_solenoid_type m) s")
    case (Inl f)
    then show ?thesis using Cons.prems by auto
  next
    case (Inr p)
    then obtain es1 s1 where r1: "registerSolenoid fits (sm_module_type m) (sm_id m) (sm_solenoid_type m) s = Inr (es1, s1)"
      by (cases p) auto
    note ok1 = solenoid_ok_register[OF Cons.prems(1) r1]
    note t1 = registerSolenoid_ticks[OF Cons.prems(1) r1]
    show ?thesis
    proof (cases "onSolenoid_set (sm_id m) (sm_output_value m) s1")
      case (Inl f)
      then show ?thesis using Cons.prems r1 ok1 by auto
    next
      case (Inr q)
      then obtain es2 s2 where r2: "onSolenoid_set (sm_id m) (sm_output_value m) s1 = Inr (es2, s2)"
        by (cases q) auto
      note ok2 = solenoid_ok_set[OF ok1 r2]
      obtain r3 es3 s3 where r3: "apply_solenoids fits ms s2 = (r3, es3, s3)"
        using prod_cases3 by blast
      have "solenoid_ticks s2 j = solenoid_ticks s1 j" for j
        using ok2 by (simp add: solenoid_ticks_def)
      then show ?thesis
        using Cons.IH[OF conjunct1[OF ok2] r3] Cons.prems r1 r2 r3 t1 by auto
    qed
  qed
qed

type_synonym solenoid_request = "sol_module \<times> u32 \<times> sol_type"

definition solenoid_request_id :: "solenoid_request \<Rightarrow> u32" where
  "solenoid_request_id r = fst (snd r)"

text \<open>A registration as a state change: one that throws leaves the manager as it was.\<close>

definition solenoid_register ::
  "(frc_solenoid \<Rightarrow> bool) \<Rightarrow> solenoid_request \<Rightarrow> solenoid_manager \<Rightarrow> solenoid_manager" where
  "solenoid_register fits r s =
     (case r of (m, i, t) \<Rightarrow>
       (case registerSolenoid fits m i t s of Inl f \<Rightarrow> s | Inr (es, s') \<Rightarrow> s'))"

definition solenoid_creates :: "(frc_solenoid \<Rightarrow> bool) \<Rightarrow> solenoid_request \<Rightarrow> solenoid_manager \<Rightarrow> bool" where
  "solenoid_creates fits r s \<longleftrightarrow> (case r of (m, i, t) \<Rightarrow>
     getSolenoid i s = None \<and> (\<exists>p. CKSolenoid_new fits m i t = Inr p))"

definition solenoid_accepts :: "(frc_solenoid \<Rightarrow> bool) \<Rightarrow> solenoid_request \<Rightarrow> solenoid_manager \<Rightarrow> bool" where
  "solenoid_accepts fits r s \<longleftrightarrow> (case r of (m, i, t) \<Rightarrow>
     getSolenoid i s \<noteq> None \<or> (\<exists>p. CKSolenoid_new fits m i t = Inr p))"

interpretation solenoid_registry: device_registry
  "\<lambda>s i. getSolenoid i s \<noteq> None" solenoid_ticks "solenoid_register fits" solenoid_request_id
  "solenoid_accepts fits" "solenoid_creates fits" solenoid_processHeartbeat solenoid_ok
  for fits
proof unfold_locales
  fix s and r :: solenoid_request and k
  assume ok: "solenoid_ok s"
  obtain m i t where r: "r = (m, i, t)" by (cases r)
  note maps = solenoid_ok_maps[OF ok] and entry = solenoid_ok_entry[OF ok]
  show "solenoid_ok (solenoid_register fits r s)"
    using ok solenoid_ok_register[OF ok, of fits m i t]
    by (auto simp: r solenoid_register_def split: sum.splits)
  show "solenoid_ok (solenoid_processHeartbeat s)" using ok by (rule solenoid_ok_beat)
  show "solenoid_ticks (solenoid_register fits r s) k =
      (if k = solenoid_request_id r \<and> solenoid_accepts fits r s then Some kMaxHeartbeatTicks
       else solenoid_ticks s k)"
    using maps by (auto simp: r solenoid_register_def registerSolenoid_def solenoid_request_id_def
        solenoid_ticks_def solenoid_accepts_def getSolenoid_def sm_count_def Let_def
        split: sum.splits)
  show "(getSolenoid k (solenoid_register fits r s) \<noteq> None)
      = (getSolenoid k s \<noteq> None \<or> k = solenoid_request_id r \<and> solenoid_creates fits r s)"
    using maps by (auto simp: r solenoid_register_def registerSolenoid_def solenoid_request_id_def
        solenoid_creates_def getSolenoid_def sm_count_def Let_def split: sum.splits)
  show "solenoid_ticks (solenoid_processHeartbeat s) k =
      (case solenoid_ticks s k of None \<Rightarrow> None | Some n \<Rightarrow> if n \<le> 1 then None else Some (n - 1))"
    using solenoid_beat_ticks[OF ok] by (simp add: solenoid_ticks_def)
  show "(getSolenoid k (solenoid_processHeartbeat s) \<noteq> None) = (getSolenoid k s \<noteq> None \<and>
      (case solenoid_ticks s k of None \<Rightarrow> True | Some n \<Rightarrow> 1 < n))"
    using solenoid_beat_list[OF ok, of k]
    by (auto simp: getSolenoid_def sm_count_def solenoid_ticks_def split: option.splits)
  show "getSolenoid k s \<noteq> None \<Longrightarrow> \<exists>n. solenoid_ticks s k = Some n \<and> 1 \<le> n \<and> n \<le> kMaxHeartbeatTicks"
    using entry[of k] by (auto simp: getSolenoid_def solenoid_ticks_def sm_count_def split: option.splits if_splits)
  show "solenoid_creates fits r s \<Longrightarrow> solenoid_accepts fits r s"
    by (auto simp: solenoid_creates_def solenoid_accepts_def)
qed

section \<open>Properties\<close>

text \<open>A solenoid registered without a construction error lives through exactly the next 249
  heartbeats in which it is not named again, whatever happens to other solenoids meanwhile.\<close>

theorem solenoid_lifetime:
  assumes "solenoid_ok s" and "solenoid_accepts fits (m, i, t) s"
    and "silent solenoid_request_id i ops"
  shows "getSolenoid i (registry_run (solenoid_register fits) solenoid_processHeartbeat ops
      (solenoid_register fits (m, i, t) s)) \<noteq> None \<longleftrightarrow> beats ops < 250"
proof -
  have "getSolenoid i s \<noteq> None \<or> solenoid_creates fits (m, i, t) s"
    using assms(2) by (auto simp: solenoid_accepts_def solenoid_creates_def)
  with solenoid_registry.lifetime[OF assms(1,2), of ops] assms(3) show ?thesis
    by (simp add: solenoid_request_id_def kMaxHeartbeatTicks_def)
qed

theorem solenoid_lifetime_witness:
  "getSolenoid 3 (registry_run (solenoid_register (\<lambda>f. True)) solenoid_processHeartbeat [Heartbeat]
      (solenoid_register (\<lambda>f. True) (CTREPCM, 3, SINGLE) SolenoidManager_new)) \<noteq> None"
proof -
  have "solenoid_accepts (\<lambda>f. True) (CTREPCM, 3, SINGLE) SolenoidManager_new"
    by (simp add: solenoid_accepts_def CKSolenoid_new_def Let_def)
  from solenoid_lifetime[OF solenoid_ok_new this, of "[Heartbeat]"] show ?thesis
    by (simp add: silent_def beats_def)
qed

text \<open>A run of the solenoid task keeps the tables consistent even when it is cut short by an
  exception, consumes the message, and when it applies a parsed message to the end reloads the
  heartbeat of exactly the solenoids named in it.\<close>

theorem solenoid_task_keeps_tables:
  assumes "solenoid_ok mgr"
    and "solenoid_task_run parse fits now isTeleop (n, mgr, t) = (r, es, n', mgr', t')"
  shows "solenoid_ok mgr' \<and> waiting n' ''solenoidcontrol'' = None
    \<and> (r = None \<and> mgr' \<noteq> mgr \<longrightarrow> (\<exists>buf update. waiting n ''solenoidcontrol'' = Some buf
        \<and> parse buf = (True, update) \<and> mPrevSolenoidMsg t' = update
        \<and> (\<forall>j. solenoid_ticks mgr' j =
              (if j \<in> sm_id ` set (solenoids update) then Some kMaxHeartbeatTicks else solenoid_ticks mgr j))))"
proof -
  obtain n1 where g: "getMessage ''solenoidcontrol'' n = (waiting n ''solenoidcontrol'', n1)"
    and w: "waiting n1 ''solenoidcontrol'' = None"
    by (metis getMessage_result prod.collapse waiting_get)
  show ?thesis
  proof (cases "waiting n ''solenoidcontrol''")
    case None
    then show ?thesis using assms g w by (auto simp: solenoid_task_run_def)
  next
    case (Some buf)
    obtain parsed update where p: "parse buf = (parsed, update)" by fastforce
    obtain r1 es1 mgr1 where a: "apply_solenoids fits (solenoids update) mgr = (r1, es1, mgr1)"
      using prod_cases3 by blast
    note ok = apply_solenoids_ok[OF assms(1) a]
    have cases: "(mgr' = mgr \<or> (parsed \<and> mgr' = mgr1 \<and> r = r1 \<and> (r1 = None \<longrightarrow> mPrevSolenoidMsg t' = update)))
        \<and> n' = n1"
      using assms(2) g Some p a
      by (auto simp: solenoid_task_run_def Let_def split: if_splits prod.splits option.splits)
    then show ?thesis using ok w assms(1) Some p by auto
  qed
qed

theorem solenoid_task_keeps_tables_witness:
  "solenoid_ok (fst (snd (snd (snd (solenoid_task_run (\<lambda>b. (True, \<lparr>solenoids = [], compressor_is_enabled_for_auto = True\<rparr>))
      (\<lambda>f. True) 0 False (NetworkManager_new, SolenoidManager_new,
        \<lparr>mPrevSolenoidMsg = \<lparr>solenoids = [], compressor_is_enabled_for_auto = False\<rparr>,
         sol_rtTimer = RTTimer_new 0, mCompressorCreated = False, mCompressorState = False\<rparr>))))))"
proof -
  let ?st = "(NetworkManager_new, SolenoidManager_new,
        \<lparr>mPrevSolenoidMsg = \<lparr>solenoids = [], compressor_is_enabled_for_auto = False\<rparr>,
         sol_rtTimer = RTTimer_new 0, mCompressorCreated = False, mCompressorState = False\<rparr>)"
  obtain r es n' mgr' t' where x: "solenoid_task_run (\<lambda>b. (True, \<lparr>solenoids = [], compressor_is_enabled_for_auto = True\<rparr>))
      (\<lambda>f. True) 0 False ?st = (r, es, n', mgr', t')"
    by (metis prod_cases5)
  show ?thesis
    unfolding x using solenoid_task_keeps_tables[OF solenoid_ok_new x] by simp
qed


text \<open>What the compressor does after a sequence of events.\<close>

fun compressor_on :: "pneu_event list \<Rightarrow> bool \<Rightarrow> bool" where
  "compressor_on [] on = on"
| "compressor_on (CompressorEnableDigital # es) on = compressor_on es True"
| "compressor_on (CompressorDisable # es) on = compressor_on es False"
| "compressor_on (e # es) on = compressor_on es on"

text \<open>The task's idea of the compressor is what the compressor does: after a message with
  solenoids, the compressor runs exactly when the message allows it outside teleop or the robot is
  in teleop, the stored flag says so, and no command is issued when it already was in that state.\<close>

theorem solenoid_compressor_follows:
  assumes "compressor_step update isTeleop t = (es, t')"
    and "mCompressorCreated t \<longrightarrow> on = mCompressorState t"
  shows "compressor_on es on = (compressor_is_enabled_for_auto update \<or> isTeleop)
    \<and> mCompressorState t' = compressor_on es on \<and> mCompressorCreated t'
    \<and> (mCompressorCreated t \<and> mCompressorState t = (compressor_is_enabled_for_auto update \<or> isTeleop)
        \<longrightarrow> es = [])"
  using assms by (auto simp: compressor_step_def Let_def split: if_splits)

theorem solenoid_compressor_follows_witness:
  "compressor_on (fst (compressor_step \<lparr>solenoids = [], compressor_is_enabled_for_auto = False\<rparr> True
     \<lparr>mPrevSolenoidMsg = \<lparr>solenoids = [], compressor_is_enabled_for_auto = False\<rparr>,
      sol_rtTimer = RTTimer_new 0, mCompressorCreated = False, mCompressorState = False\<rparr>)) False"
proof -
  let ?t = "\<lparr>mPrevSolenoidMsg = \<lparr>solenoids = [], compressor_is_enabled_for_auto = False\<rparr>,
      sol_rtTimer = RTTimer_new 0, mCompressorCreated = False, mCompressorState = False\<rparr>"
  obtain es t' where c: "compressor_step \<lparr>solenoids = [], compressor_is_enabled_for_auto = False\<rparr> True ?t = (es, t')"
    by fastforce
  show ?thesis using solenoid_compressor_follows[OF c, of False] c by simp
qed

text \<open>The commands a solenoid gets are legal: a single solenoid is only ever switched on or off
  and a double one only off, forward or reverse; every other value, and every value for a solenoid
  that was not created, sends no command at all.\<close>

theorem solenoid_set_legal:
  assumes "CKSolenoid_set v c = Inr (es, c')"
  shows "(\<forall>f b. SetSingle f b \<in> set es \<longrightarrow>
            cs_solenoidType c = SINGLE \<and> cs_single c = Some f \<and> v \<in> {SOL_ON, SOL_OFF} \<and> b = (v = SOL_ON))
    \<and> (\<forall>f u. SetDouble f u \<in> set es \<longrightarrow>
            cs_solenoidType c = DOUBLE \<and> cs_double c = Some f \<and> u = v \<and> v \<in> {SOL_OFF, SOL_FORWARD, SOL_REVERSE})
    \<and> (cs_solenoidType c = SINGLE \<and> cs_single c \<noteq> None \<and> v \<in> {SOL_ON, SOL_OFF} \<longrightarrow>
            es = [SetSingle (the (cs_single c)) (v = SOL_ON)] \<and> cs_value c' = v)
    \<and> (cs_solenoidType c = DOUBLE \<and> cs_double c \<noteq> None \<and> v \<in> {SOL_OFF, SOL_FORWARD, SOL_REVERSE} \<longrightarrow>
            es = [SetDouble (the (cs_double c)) v] \<and> cs_value c' = v)"
  using assms
  by (auto simp: CKSolenoid_set_def report_literal_plus_def Let_def
      split: if_splits sol_type.splits option.splits sum.splits)

theorem solenoid_set_legal_witness:
  "cs_value (snd (projr (CKSolenoid_set SOL_ON \<lparr>cs_value = SOL_OFF, cs_moduleType = CTREPCM,
     cs_solenoidId = 3, cs_solenoidType = SINGLE, cs_single = Some (FrcSolenoid 0 CTREPCM 3),
     cs_double = None\<rparr>))) = SOL_ON"
proof -
  let ?c = "\<lparr>cs_value = SOL_OFF, cs_moduleType = CTREPCM, cs_solenoidId = 3, cs_solenoidType = SINGLE,
            cs_single = Some (FrcSolenoid 0 CTREPCM 3), cs_double = None\<rparr>"
  have s: "CKSolenoid_set SOL_ON ?c = Inr ([SetSingle (FrcSolenoid 0 CTREPCM 3) True], ?c\<lparr>cs_value := SOL_ON\<rparr>)"
    by (simp add: CKSolenoid_set_def)
  from solenoid_set_legal[OF s, THEN conjunct2, THEN conjunct2, THEN conjunct1] show ?thesis
    by (simp only: s sum.sel snd_conv) simp
qed

lemma unat_ge_of_drop_bit:
  fixes i :: u32
  assumes "drop_bit 16 i \<noteq> 0"
  shows "65536 \<le> unat i"
proof (rule ccontr)
  assume "\<not> 65536 \<le> unat i"
  then have "unat i div 2 ^ 16 = 0" by simp
  then have "unat (drop_bit 16 i) = 0" by (simp add: drop_bit_eq_div unat_div_distrib)
  then show False using assms by (simp add: unat_eq_zero)
qed

text \<open>Setting a solenoid whose module number was rejected at registration never reports the
  error it means to: the message is a string literal plus the 32-bit id, which for any module
  number above 0 points far past the literal, so the behaviour is undefined.\<close>

theorem solenoid_rejected_set_undefined:
  assumes "CKSolenoid_new fits m i t = Inr (es, c)" and "cs_single c = None \<and> cs_double c = None"
    and "drop_bit 16 i \<noteq> 0"
  shows "CKSolenoid_set v c = Inl UndefinedBehaviour"
  using unat_ge_of_drop_bit[OF assms(3)] CKSolenoid_new_fields[OF assms(1)] assms(2)
  by (simp add: CKSolenoid_set_def report_literal_plus_def literal_plus_def)

theorem solenoid_rejected_set_undefined_witness:
  "\<exists>es c. CKSolenoid_new (\<lambda>f. True) CTREPCM 0x400003 SINGLE = Inr (es, c)
     \<and> CKSolenoid_set SOL_ON c = Inl UndefinedBehaviour"
proof -
  have n: "CKSolenoid_new (\<lambda>f. True) CTREPCM 0x400003 SINGLE =
      Inr ([ReportError ''Solenoid or PCM ID is invalid. Not creating solenoid''],
        \<lparr>cs_value = SOL_OFF, cs_moduleType = CTREPCM, cs_solenoidId = 0x400003,
         cs_solenoidType = SINGLE, cs_single = None, cs_double = None\<rparr>)"
    by (simp add: CKSolenoid_new_def solenoid_id_invalid_def getModuleId_def getSolenoidId_def Let_def)
  show ?thesis
    by (intro exI conjI, rule n, rule solenoid_rejected_set_undefined[OF n]) simp_all
qed

text \<open>The id check of the constructor bounds the first channel only: whatever it accepts on a
  CTRE module has its first channel below 8 and its module below 64, but a double solenoid on
  channel 7 is passed to WPILib with the reverse channel 8.\<close>

theorem solenoid_channels_bounded:
  assumes "CKSolenoid_new fits CTREPCM i t = Inr (es, c)"
  shows "(\<forall>md mt ch. cs_single c = Some (FrcSolenoid md mt ch) \<longrightarrow> md < 64 \<and> ch < 8)
    \<and> (\<forall>md mt ch rv. cs_double c = Some (FrcDoubleSolenoid md mt ch rv) \<longrightarrow>
          md < 64 \<and> ch < 8 \<and> rv \<le> 8 \<and> (rv = 8 \<longleftrightarrow> ch = 7))"
proof -
  have rev: "uint ch + 1 \<le> 8 \<and> (uint ch + 1 = 8 \<longleftrightarrow> ch = 7)" if "ch < 8" for ch :: u16
    using that by (auto simp: word_less_def word_uint_eq_iff)
  show ?thesis
    using assms rev[of "getSolenoidId \<lparr>cs_value = SOL_OFF, cs_moduleType = CTREPCM, cs_solenoidId = i,
         cs_solenoidType = t, cs_single = None, cs_double = None\<rparr>"]
    by (auto simp: CKSolenoid_new_def solenoid_id_invalid_def Let_def not_le
        split: if_splits sol_type.splits)
qed

theorem solenoid_channels_bounded_witness:
  "cs_double (snd (projr (CKSolenoid_new (\<lambda>f. True) CTREPCM 7 DOUBLE))) = Some (FrcDoubleSolenoid 0 CTREPCM 7 8)
   \<and> (7 :: u16) < 8"
proof -
  let ?c = "\<lparr>cs_value = SOL_OFF, cs_moduleType = CTREPCM, cs_solenoidId = 7,
         cs_solenoidType = DOUBLE, cs_single = None, cs_double = Some (FrcDoubleSolenoid 0 CTREPCM 7 8)\<rparr>"
  have n: "CKSolenoid_new (\<lambda>f. True) CTREPCM 7 DOUBLE = Inr ([NewFrc (FrcDoubleSolenoid 0 CTREPCM 7 8)], ?c)"
    by (simp add: CKSolenoid_new_def solenoid_id_invalid_def getModuleId_def getSolenoidId_def Let_def)
  show ?thesis using solenoid_channels_bounded[OF n] by (simp add: n)
qed

end
