(* ===== verification/Sensor_Drivers.thy ===== *)
theory Sensor_Drivers
  imports CK_Math Phoenix_Helper
begin

text \<open>
  \<open>utils/drivers/CKPigeon2\<close> (the IMU) and \<open>utils/drivers/CKCANCoder\<close> (the absolute encoder). The
  devices themselves are the CTRE library: a command is an entry of the call log, its answer is
  \<open>resp\<close>, and a reading is an argument.
\<close>

datatype sensor_call =
    SetStatusFramePeriod string int
  | ConfigMountPose int int
  | PigeonSetYaw real
  | PigeonSetAccumZAngle real
  | ConfigSensorInitializationStrategy int
  | CANCoderSetPosition real
  | ConfigMagnetOffset real

text \<open>A command with retries, on the log of a device.\<close>

definition sensor_retry :: "(nat \<Rightarrow> error_code) \<Rightarrow> sensor_call \<Rightarrow> sensor_call list \<Rightarrow> bool \<times> sensor_call list" where
  "sensor_retry resp c calls =
     (case runPhoenixFunctionWithRetry (phoenix_call resp c) (- 1) calls of (ok, _, calls') \<Rightarrow> (ok, calls'))"

section \<open>CKPigeon2\<close>

record ck_pigeon2 =
  pg_deviceNumber :: int
  pg_canbus :: string
  m_yaw_angle_offset :: real

type_synonym ypr_reading = "error_code \<times> real \<times> real \<times> real"

definition CKPigeon2_new ::
  "(nat \<Rightarrow> error_code) \<Rightarrow> int \<Rightarrow> string \<Rightarrow> sensor_call list \<Rightarrow> ck_pigeon2 \<times> sensor_call list" where
  "CKPigeon2_new resp deviceNumber canbus calls =
     (\<lparr>pg_deviceNumber = deviceNumber, pg_canbus = canbus, m_yaw_angle_offset = 0\<rparr>,
      fold (\<lambda>frame calls. snd (sensor_retry resp (SetStatusFramePeriod frame 5) calls))
        [''RawStatus_4_Mag'', ''CondStatus_6_SensorFusion'', ''CondStatus_9_SixDeg_YPR'',
         ''CondStatus_10_SixDeg_Quat'', ''CondStatus_11_GyroAccum''] calls)"

definition pigeon_setYaw :: "ypr_reading \<Rightarrow> real \<Rightarrow> ck_pigeon2 \<Rightarrow> bool \<times> ck_pigeon2" where
  "pigeon_setYaw reading yaw s =
     (case reading of (eCode, rawYaw, _, _) \<Rightarrow>
       if eCode \<noteq> OK then (False, s)
       else (let actual = normalizeYaw rawYaw
             in (True, s\<lparr>m_yaw_angle_offset := normalizeYaw (normalizeYaw yaw - actual)\<rparr>)))"

definition pigeon_getYPR :: "ypr_reading \<Rightarrow> ck_pigeon2 \<Rightarrow> (real \<times> real \<times> real) option" where
  "pigeon_getYPR reading s =
     (case reading of (eCode, rawYaw, pitch, roll) \<Rightarrow>
       if eCode \<noteq> OK then None
       else Some (deg2rad (normalizeYaw (normalizeYaw rawYaw + m_yaw_angle_offset s)),
                  deg2rad pitch, deg2rad roll))"

definition pigeon_getYPRRPS :: "ypr_reading \<Rightarrow> (real \<times> real \<times> real) option" where
  "pigeon_getYPRRPS reading =
     (case reading of (eCode, x, y, z) \<Rightarrow> if eCode \<noteq> OK then None else Some (x, y, z))"

definition pigeon_getQuaternion ::
  "error_code \<times> real \<times> real \<times> real \<times> real \<Rightarrow> (real \<times> real \<times> real \<times> real) option" where
  "pigeon_getQuaternion reading =
     (case reading of (eCode, q) \<Rightarrow> if eCode = OK then Some q else None)"

definition pigeon_getYaw :: "real \<Rightarrow> real" where
  "pigeon_getYaw yaw = deg2rad yaw"

definition pigeon_getPitch :: "real \<Rightarrow> real" where
  "pigeon_getPitch pitch = deg2rad pitch"

definition pigeon_getRoll :: "real \<Rightarrow> real" where
  "pigeon_getRoll roll = deg2rad roll"

definition pigeon_reset :: "(nat \<Rightarrow> error_code) \<Rightarrow> sensor_call list \<Rightarrow> bool \<times> sensor_call list" where
  "pigeon_reset resp calls =
     (let (ok1, calls1) = sensor_retry resp (PigeonSetYaw 0) calls;
          (ok2, calls2) = sensor_retry resp (PigeonSetAccumZAngle 0) calls1
      in (ok1 \<and> ok2, calls2))"

definition pigeon_configMountPose ::
  "(nat \<Rightarrow> error_code) \<Rightarrow> int \<Rightarrow> int \<Rightarrow> sensor_call list \<Rightarrow> bool \<times> sensor_call list" where
  "pigeon_configMountPose resp forward up calls = sensor_retry resp (ConfigMountPose forward up) calls"

lemma rad2deg_deg2rad [simp]: "rad2deg (deg2rad x) = x"
  using ck_PI_pos by (simp add: rad2deg_def deg2rad_def)

text \<open>Setting the yaw of the IMU zeroes it where the robot stands: after \<open>setYaw\<close> at one raw
  reading, the yaw reported at any later raw reading is the requested yaw turned by the difference
  of the readings, as an angle in [-180,180] degrees; pitch and roll are passed through, and a
  failed reading neither changes the offset nor reports a pose.\<close>

theorem pigeon_yaw_offset:
  assumes "pigeon_setYaw (OK, raw1, p1, r1) yaw s = (ok, s')"
    and "pigeon_getYPR (OK, raw2, p2, r2) s' = Some (y, p, r)"
  shows "ok \<and> \<bar>rad2deg y\<bar> \<le> 180 \<and> yaw_equiv (rad2deg y) (yaw + (raw2 - raw1))
    \<and> rad2deg p = p2 \<and> rad2deg r = r2
    \<and> (e \<noteq> OK \<longrightarrow> pigeon_setYaw (e, raw1, p1, r1) yaw s = (False, s)
                \<and> pigeon_getYPR (e, raw2, p2, r2) s' = None)"
proof -
  let ?o = "normalizeYaw (normalizeYaw yaw - normalizeYaw raw1)"
  have o: "ok" "m_yaw_angle_offset s' = ?o"
    using assms(1) by (auto simp: pigeon_setYaw_def Let_def)
  have out: "rad2deg y = normalizeYaw (normalizeYaw raw2 + ?o)" "rad2deg p = p2" "rad2deg r = r2"
    using assms(2) o by (auto simp: pigeon_getYPR_def)
  have "yaw_equiv ?o (yaw - raw1)"
    using normalizeYaw_equiv yaw_equiv_add(2)[OF normalizeYaw_equiv[of yaw] normalizeYaw_equiv[of raw1]]
    by (blast intro: yaw_equiv_trans)
  then have "yaw_equiv (normalizeYaw raw2 + ?o) (raw2 + (yaw - raw1))"
    using normalizeYaw_equiv by (intro yaw_equiv_add) auto
  then have "yaw_equiv (rad2deg y) (yaw + (raw2 - raw1))"
    unfolding out(1) using normalizeYaw_equiv[of "normalizeYaw raw2 + ?o"]
    by (metis (no_types, opaque_lifting) add.commute add_diff_eq yaw_equiv_trans)
  then show ?thesis
    using o out normalizeYaw_range[of "normalizeYaw raw2 + ?o"]
    by (auto simp: pigeon_setYaw_def pigeon_getYPR_def)
qed

theorem pigeon_yaw_offset_witness:
  "yaw_equiv (rad2deg (fst (the (pigeon_getYPR (OK, 30, 0, 0)
      (snd (pigeon_setYaw (OK, 10, 0, 0) 90
        \<lparr>pg_deviceNumber = 1, pg_canbus = ''rio'', m_yaw_angle_offset = 0\<rparr>)))))) 110"
proof -
  let ?s = "\<lparr>pg_deviceNumber = 1, pg_canbus = ''rio'', m_yaw_angle_offset = 0\<rparr>"
  obtain ok s' where a: "pigeon_setYaw (OK, 10, 0, 0) 90 ?s = (ok, s')" by fastforce
  obtain y p r where b: "pigeon_getYPR (OK, 30, 0, 0) s' = Some (y, p, r)"
    by (simp add: pigeon_getYPR_def)
  show ?thesis using pigeon_yaw_offset[OF a b] by (simp add: a b)
qed

text \<open>The angular rates are passed on in the unit the sensor reports, degrees per second, while
  the pose is converted to radians: what callers send as radians per second is off by the factor
  180/pi.\<close>

theorem pigeon_rates_not_converted:
  "pigeon_getYPRRPS (OK, x, y, z) = Some (rad2deg (deg2rad x), rad2deg (deg2rad y), rad2deg (deg2rad z))
   \<and> pigeon_getYPRRPS (OK, 180, y, z) \<noteq> Some (deg2rad 180, y, z)"
  by (simp add: pigeon_getYPRRPS_def) (simp add: deg2rad_def ck_PI_def)

section \<open>CKCANCoder\<close>

datatype encoder_sensor_source = RELATIVE | ABSOLUTE | OtherSensorSource int

datatype magnet_field_strength =
  Invalid_Unknown | BadRange_RedLED | Adequate_OrangeLED | Good_GreenLED

record ck_cancoder =
  cc_deviceNumber :: int
  cc_canbus :: string
  m_sensor_source :: encoder_sensor_source

definition CKCANCoder_new :: "int \<Rightarrow> string \<Rightarrow> ck_cancoder" where
  "CKCANCoder_new deviceNumber canbus =
     \<lparr>cc_deviceNumber = deviceNumber, cc_canbus = canbus, m_sensor_source = RELATIVE\<rparr>"

definition cancoder_getPosition :: "real \<Rightarrow> real \<Rightarrow> ck_cancoder \<Rightarrow> real" where
  "cancoder_getPosition absolutePosition relativePosition s =
     (case m_sensor_source s of
        RELATIVE \<Rightarrow> relativePosition
      | ABSOLUTE \<Rightarrow> absolutePosition
      | OtherSensorSource _ \<Rightarrow> 0)"

definition cancoder_isFaulted :: "magnet_field_strength \<Rightarrow> magnet_field_strength \<Rightarrow> bool" where
  "cancoder_isFaulted first second \<longleftrightarrow> first = BadRange_RedLED \<or> second = Invalid_Unknown"

definition cancoder_configSensorSource :: "encoder_sensor_source \<Rightarrow> ck_cancoder \<Rightarrow> bool \<times> ck_cancoder" where
  "cancoder_configSensorSource source s = (True, s\<lparr>m_sensor_source := source\<rparr>)"

definition cancoder_configInitializationStrategy ::
  "(nat \<Rightarrow> error_code) \<Rightarrow> int \<Rightarrow> sensor_call list \<Rightarrow> bool \<times> sensor_call list" where
  "cancoder_configInitializationStrategy resp strategy calls =
     sensor_retry resp (ConfigSensorInitializationStrategy strategy) calls"

definition cancoder_reset :: "(nat \<Rightarrow> error_code) \<Rightarrow> sensor_call list \<Rightarrow> bool \<times> sensor_call list" where
  "cancoder_reset resp calls = sensor_retry resp (CANCoderSetPosition 0) calls"

end
