(* ===== verification/Sensor_Managers.thy ===== *)
theory Sensor_Managers
  imports Device_Registry Sensor_Drivers
begin

text \<open>
  \<open>CKIMUManager\<close> and \<open>CKEncoderManager\<close>: the registered IMUs and encoders with their types and
  heartbeats. Each is an instance of the registry contract. Neither heartbeat is called by the
  heartbeat task of the program, so outside these theories their devices never time out.
\<close>

section \<open>IMUManager\<close>

datatype imu_type = PIGEON2 | NAVX | OtherIMUType int

record imu_manager =
  mRegisteredIMUList :: "(u16, ck_pigeon2) std_map"
  mRegisteredIMUTypeList :: "(u16, imu_type) std_map"
  mRegisteredIMUHeartbeatList :: "(u16, int) std_map"

definition CKIMUManager_new :: imu_manager where
  "CKIMUManager_new = \<lparr>mRegisteredIMUList = [], mRegisteredIMUTypeList = [], mRegisteredIMUHeartbeatList = []\<rparr>"

definition registerIMU ::
  "(nat \<Rightarrow> error_code) \<Rightarrow> sensor_call list \<Rightarrow> u16 \<Rightarrow> imu_type \<Rightarrow> can_interface \<Rightarrow> imu_manager
     \<Rightarrow> imu_manager \<times> sensor_call list" where
  "registerIMU resp calls i imuType canInterface s =
     (let canNetwork = getCANInterfaceName canInterface;
          (s1, calls1) =
            (if \<not> sm_count (mRegisteredIMUList s) i then
               (case imuType of
                  PIGEON2 \<Rightarrow> (let (dev, calls') = CKPigeon2_new resp (uint i) canNetwork calls
                             in (s\<lparr>mRegisteredIMUList := sm_put i dev (mRegisteredIMUList s)\<rparr>, calls'))
                | _ \<Rightarrow> (s, calls))
             else (s, calls))
      in (s1\<lparr>mRegisteredIMUTypeList := sm_put i imuType (mRegisteredIMUTypeList s1),
             mRegisteredIMUHeartbeatList :=
               sm_put i kMaxHeartbeatTicks (mRegisteredIMUHeartbeatList s1)\<rparr>, calls1))"

definition deleteIMU :: "u16 \<Rightarrow> imu_manager \<Rightarrow> imu_manager" where
  "deleteIMU i s =
     (let s1 = (if sm_count (mRegisteredIMUList s) i
                then s\<lparr>mRegisteredIMUList := sm_erase i (mRegisteredIMUList s)\<rparr> else s)
      in if sm_count (mRegisteredIMUTypeList s1) i
         then s1\<lparr>mRegisteredIMUTypeList := sm_erase i (mRegisteredIMUTypeList s1)\<rparr> else s1)"

definition set_imu_heartbeats :: "(u16, int) std_map \<Rightarrow> imu_manager \<Rightarrow> imu_manager" where
  "set_imu_heartbeats m s = s\<lparr>mRegisteredIMUHeartbeatList := m\<rparr>"

definition imu_processHeartbeat :: "imu_manager \<Rightarrow> imu_manager" where
  "imu_processHeartbeat =
     heartbeat_loop mRegisteredIMUHeartbeatList set_imu_heartbeats deleteIMU"

definition imuExists :: "u16 \<Rightarrow> imu_manager \<Rightarrow> bool" where
  "imuExists i s = sm_count (mRegisteredIMUList s) i"

definition getIMU :: "u16 \<Rightarrow> imu_manager \<Rightarrow> ck_pigeon2 option" where
  "getIMU i s = (if sm_count (mRegisteredIMUList s) i then sm_get (mRegisteredIMUList s) i else None)"

text \<open>The function handed to \<open>onIMU\<close> and \<open>forEach\<close> may change the device and the caller's state.\<close>

definition onIMU ::
  "u16 \<Rightarrow> (u16 \<Rightarrow> ck_pigeon2 \<Rightarrow> imu_type \<Rightarrow> 'w \<Rightarrow> ck_pigeon2 \<times> 'w) \<Rightarrow> imu_manager \<times> 'w \<Rightarrow> imu_manager \<times> 'w" where
  "onIMU i func st =
     (case st of (s, w) \<Rightarrow>
       (case sm_get (mRegisteredIMUList s) i of
          None \<Rightarrow> (s, w)
        | Some dev \<Rightarrow>
            (let (ty, types) = sm_at PIGEON2 i (mRegisteredIMUTypeList s); (dev', w') = func i dev ty w
             in (s\<lparr>mRegisteredIMUList := sm_put i dev' (mRegisteredIMUList s),
                   mRegisteredIMUTypeList := types\<rparr>, w'))))"

definition imu_forEach ::
  "(u16 \<Rightarrow> ck_pigeon2 \<Rightarrow> imu_type \<Rightarrow> 'w \<Rightarrow> ck_pigeon2 \<times> 'w) \<Rightarrow> imu_manager \<times> 'w \<Rightarrow> imu_manager \<times> 'w" where
  "imu_forEach func st = fold (\<lambda>i. onIMU i func) (sm_keys (mRegisteredIMUList (fst st))) st"

definition imu_ok :: "imu_manager \<Rightarrow> bool" where
  "imu_ok s \<longleftrightarrow> sm_ok (mRegisteredIMUList s) \<and> sm_ok (mRegisteredIMUTypeList s)
     \<and> sm_ok (mRegisteredIMUHeartbeatList s)
     \<and> (\<forall>i. case sm_get (mRegisteredIMUHeartbeatList s) i of
           None \<Rightarrow> sm_get (mRegisteredIMUList s) i = None \<and> sm_get (mRegisteredIMUTypeList s) i = None
         | Some n \<Rightarrow> 1 \<le> n \<and> n \<le> kMaxHeartbeatTicks \<and> sm_get (mRegisteredIMUTypeList s) i \<noteq> None)"

lemma imu_ok_new: "imu_ok CKIMUManager_new"
  by (simp add: imu_ok_def CKIMUManager_new_def)

lemma imu_ok_maps:
  "imu_ok s \<Longrightarrow> sm_ok (mRegisteredIMUList s) \<and> sm_ok (mRegisteredIMUTypeList s)
     \<and> sm_ok (mRegisteredIMUHeartbeatList s)"
  by (simp add: imu_ok_def)

lemma imu_ok_entry:
  "imu_ok s \<Longrightarrow> case sm_get (mRegisteredIMUHeartbeatList s) i of
       None \<Rightarrow> sm_get (mRegisteredIMUList s) i = None \<and> sm_get (mRegisteredIMUTypeList s) i = None
     | Some n \<Rightarrow> 1 \<le> n \<and> n \<le> kMaxHeartbeatTicks \<and> sm_get (mRegisteredIMUTypeList s) i \<noteq> None"
  by (simp add: imu_ok_def)

interpretation imu_table: heartbeat_table mRegisteredIMUHeartbeatList set_imu_heartbeats deleteIMU
  by unfold_locales (simp_all add: set_imu_heartbeats_def deleteIMU_def Let_def)

lemma deleteIMU_tables:
  "sm_get (mRegisteredIMUList (deleteIMU i s)) j = (if j = i then None else sm_get (mRegisteredIMUList s) j)"
  "sm_get (mRegisteredIMUTypeList (deleteIMU i s)) j = (if j = i then None else sm_get (mRegisteredIMUTypeList s) j)"
  "sm_ok (mRegisteredIMUList s) \<Longrightarrow> sm_ok (mRegisteredIMUList (deleteIMU i s))"
  "sm_ok (mRegisteredIMUTypeList s) \<Longrightarrow> sm_ok (mRegisteredIMUTypeList (deleteIMU i s))"
  by (auto simp: deleteIMU_def Let_def sm_count_def)

lemma imu_beat_list:
  assumes "imu_ok s"
  shows "sm_ok (mRegisteredIMUList (imu_processHeartbeat s))
    \<and> sm_get (mRegisteredIMUList (imu_processHeartbeat s)) j =
      (case sm_get (mRegisteredIMUHeartbeatList s) j of
         Some n \<Rightarrow> if n \<le> 1 then None else sm_get (mRegisteredIMUList s) j
       | None \<Rightarrow> sm_get (mRegisteredIMUList s) j)"
  unfolding imu_processHeartbeat_def
  by (rule conjI; rule imu_table.loop_table[where look = sm_get and ok = sm_ok and tab = "mRegisteredIMUList"])
    (use imu_ok_maps[OF assms] in \<open>simp_all add: set_imu_heartbeats_def deleteIMU_tables\<close>)

lemma imu_beat_types:
  assumes "imu_ok s"
  shows "sm_ok (mRegisteredIMUTypeList (imu_processHeartbeat s))
    \<and> sm_get (mRegisteredIMUTypeList (imu_processHeartbeat s)) j =
      (case sm_get (mRegisteredIMUHeartbeatList s) j of
         Some n \<Rightarrow> if n \<le> 1 then None else sm_get (mRegisteredIMUTypeList s) j
       | None \<Rightarrow> sm_get (mRegisteredIMUTypeList s) j)"
  unfolding imu_processHeartbeat_def
  by (rule conjI; rule imu_table.loop_table[where look = sm_get and ok = sm_ok and tab = "mRegisteredIMUTypeList"])
    (use imu_ok_maps[OF assms] in \<open>simp_all add: set_imu_heartbeats_def deleteIMU_tables\<close>)

lemma imu_beat_ticks:
  assumes "imu_ok s"
  shows "sm_ok (mRegisteredIMUHeartbeatList (imu_processHeartbeat s))
    \<and> sm_get (mRegisteredIMUHeartbeatList (imu_processHeartbeat s)) j =
      (case sm_get (mRegisteredIMUHeartbeatList s) j of
         None \<Rightarrow> None | Some n \<Rightarrow> if n \<le> 1 then None else Some (n - 1))"
  using imu_ok_maps[OF assms]
  by (simp add: imu_processHeartbeat_def imu_table.loop_ok imu_table.loop_ticks)

lemma imu_ok_beat:
  assumes "imu_ok s"
  shows "imu_ok (imu_processHeartbeat s)"
proof -
  let ?s = "imu_processHeartbeat s"
  have "case sm_get (mRegisteredIMUHeartbeatList ?s) i of
       None \<Rightarrow> sm_get (mRegisteredIMUList ?s) i = None \<and> sm_get (mRegisteredIMUTypeList ?s) i = None
     | Some n \<Rightarrow> 1 \<le> n \<and> n \<le> kMaxHeartbeatTicks \<and> sm_get (mRegisteredIMUTypeList ?s) i \<noteq> None" for i
    using imu_ok_entry[OF assms, of i] imu_beat_list[OF assms, of i]
      imu_beat_types[OF assms, of i] imu_beat_ticks[OF assms, of i]
    by (auto split: option.splits if_splits)
  then show ?thesis
    unfolding imu_ok_def[of ?s]
    using imu_beat_list[OF assms] imu_beat_types[OF assms] imu_beat_ticks[OF assms]
    by blast
qed

lemma imu_ok_register:
  assumes "imu_ok s"
  shows "imu_ok (fst (registerIMU resp calls i t c s))"
proof -
  let ?s = "fst (registerIMU resp calls i t c s)"
  have "case sm_get (mRegisteredIMUHeartbeatList ?s) j of
       None \<Rightarrow> sm_get (mRegisteredIMUList ?s) j = None \<and> sm_get (mRegisteredIMUTypeList ?s) j = None
     | Some n \<Rightarrow> 1 \<le> n \<and> n \<le> kMaxHeartbeatTicks \<and> sm_get (mRegisteredIMUTypeList ?s) j \<noteq> None" for j
    using imu_ok_entry[OF assms, of j] imu_ok_maps[OF assms]
    by (auto simp: registerIMU_def Let_def kMaxHeartbeatTicks_def
        split: option.splits if_splits imu_type.splits prod.splits)
  moreover have "sm_ok (mRegisteredIMUList ?s)" "sm_ok (mRegisteredIMUTypeList ?s)"
    "sm_ok (mRegisteredIMUHeartbeatList ?s)"
    using imu_ok_maps[OF assms]
    by (auto simp: registerIMU_def Let_def split: imu_type.splits prod.splits)
  ultimately show ?thesis unfolding imu_ok_def[of ?s] by blast
qed

type_synonym imu_request = "u16 \<times> imu_type \<times> can_interface"

definition imu_request_id :: "imu_request \<Rightarrow> u16" where
  "imu_request_id r = fst r"

definition imu_register :: "(nat \<Rightarrow> error_code) \<Rightarrow> sensor_call list \<Rightarrow> imu_request \<Rightarrow> imu_manager \<Rightarrow> imu_manager" where
  "imu_register resp calls r s = (case r of (i, t, c) \<Rightarrow> fst (registerIMU resp calls i t c s))"

definition imu_creates :: "imu_request \<Rightarrow> imu_manager \<Rightarrow> bool" where
  "imu_creates r s \<longleftrightarrow> (case r of (i, t, c) \<Rightarrow> t = PIGEON2 \<and> \<not> imuExists i s)"

interpretation imus: device_registry
  "\<lambda>s i. imuExists i s" "\<lambda>s i. sm_get (mRegisteredIMUHeartbeatList s) i"
  "imu_register resp calls" imu_request_id "\<lambda>r s. True" imu_creates imu_processHeartbeat imu_ok
  for resp calls
proof unfold_locales
  fix s :: imu_manager and r :: imu_request and k
  assume ok: "imu_ok s"
  obtain i t c where r: "r = (i, t, c)" by (cases r)
  note maps = imu_ok_maps[OF ok] and entry = imu_ok_entry[OF ok]
  show "imu_ok (imu_register resp calls r s)" using ok by (simp add: r imu_register_def imu_ok_register)
  show "imu_ok (imu_processHeartbeat s)" using ok by (rule imu_ok_beat)
  show "sm_get (mRegisteredIMUHeartbeatList (imu_register resp calls r s)) k =
      (if k = imu_request_id r \<and> True then Some kMaxHeartbeatTicks
       else sm_get (mRegisteredIMUHeartbeatList s) k)"
    using maps by (auto simp: r imu_register_def registerIMU_def imu_request_id_def Let_def
        split: imu_type.split prod.splits)
  show "imuExists k (imu_register resp calls r s) = (imuExists k s \<or> k = imu_request_id r \<and> imu_creates r s)"
    using maps by (auto simp: r imu_register_def registerIMU_def imu_request_id_def
        imu_creates_def imuExists_def Let_def split: imu_type.splits prod.splits)
  show "sm_get (mRegisteredIMUHeartbeatList (imu_processHeartbeat s)) k =
      (case sm_get (mRegisteredIMUHeartbeatList s) k of None \<Rightarrow> None
       | Some n \<Rightarrow> if n \<le> 1 then None else Some (n - 1))"
    using imu_beat_ticks[OF ok] by simp
  show "imuExists k (imu_processHeartbeat s) = (imuExists k s \<and>
      (case sm_get (mRegisteredIMUHeartbeatList s) k of None \<Rightarrow> True | Some n \<Rightarrow> 1 < n))"
    using imu_beat_list[OF ok, of k] by (auto simp: imuExists_def sm_count_def split: option.splits)
  show "imuExists k s \<Longrightarrow> \<exists>n. sm_get (mRegisteredIMUHeartbeatList s) k = Some n \<and> 1 \<le> n \<and> n \<le> kMaxHeartbeatTicks"
    using entry[of k] by (auto simp: imuExists_def sm_count_def split: option.splits)
  show "imu_creates r s \<Longrightarrow> True" by simp
qed

section \<open>EncoderManager\<close>

datatype encoder_type = CANCoder | OtherEncoderType int

record encoder_manager =
  mRegisteredEncoderList :: "(u16, ck_cancoder) std_map"
  mRegisteredEncoderTypeList :: "(u16, encoder_type) std_map"
  mRegisteredEncoderHeartbeatList :: "(u16, int) std_map"

definition CKEncoderManager_new :: encoder_manager where
  "CKEncoderManager_new = \<lparr>mRegisteredEncoderList = [], mRegisteredEncoderTypeList = [], mRegisteredEncoderHeartbeatList = []\<rparr>"

definition registerEncoder ::
  "u16 \<Rightarrow> encoder_type \<Rightarrow> can_interface \<Rightarrow> encoder_manager \<Rightarrow> encoder_manager" where
  "registerEncoder i encoderType canInterface s =
     (let canNetwork = getCANInterfaceName canInterface;
          s1 = (if \<not> sm_count (mRegisteredEncoderList s) i then
                  (case encoderType of
                     CANCoder \<Rightarrow> s\<lparr>mRegisteredEncoderList :=
                                   sm_put i (CKCANCoder_new (uint i) canNetwork) (mRegisteredEncoderList s)\<rparr>
                   | OtherEncoderType _ \<Rightarrow> s)
                else s)
      in s1\<lparr>mRegisteredEncoderTypeList := sm_put i encoderType (mRegisteredEncoderTypeList s1),
            mRegisteredEncoderHeartbeatList :=
              sm_put i kMaxHeartbeatTicks (mRegisteredEncoderHeartbeatList s1)\<rparr>)"

definition deleteEncoder :: "u16 \<Rightarrow> encoder_manager \<Rightarrow> encoder_manager" where
  "deleteEncoder i s =
     (let s1 = (if sm_count (mRegisteredEncoderList s) i
                then s\<lparr>mRegisteredEncoderList := sm_erase i (mRegisteredEncoderList s)\<rparr> else s)
      in if sm_count (mRegisteredEncoderTypeList s1) i
         then s1\<lparr>mRegisteredEncoderTypeList := sm_erase i (mRegisteredEncoderTypeList s1)\<rparr> else s1)"

definition set_encoder_heartbeats :: "(u16, int) std_map \<Rightarrow> encoder_manager \<Rightarrow> encoder_manager" where
  "set_encoder_heartbeats m s = s\<lparr>mRegisteredEncoderHeartbeatList := m\<rparr>"

definition encoder_processHeartbeat :: "encoder_manager \<Rightarrow> encoder_manager" where
  "encoder_processHeartbeat =
     heartbeat_loop mRegisteredEncoderHeartbeatList set_encoder_heartbeats deleteEncoder"

definition encoderExists :: "u16 \<Rightarrow> encoder_manager \<Rightarrow> bool" where
  "encoderExists i s = sm_count (mRegisteredEncoderList s) i"

definition getEncoder :: "u16 \<Rightarrow> encoder_manager \<Rightarrow> ck_cancoder option" where
  "getEncoder i s = (if sm_count (mRegisteredEncoderList s) i then sm_get (mRegisteredEncoderList s) i else None)"

text \<open>The function handed to \<open>onEncoder\<close> and \<open>forEach\<close> may change the device and the caller's state.\<close>

definition onEncoder ::
  "u16 \<Rightarrow> (u16 \<Rightarrow> ck_cancoder \<Rightarrow> encoder_type \<Rightarrow> 'w \<Rightarrow> ck_cancoder \<times> 'w) \<Rightarrow> encoder_manager \<times> 'w \<Rightarrow> encoder_manager \<times> 'w" where
  "onEncoder i func st =
     (case st of (s, w) \<Rightarrow>
       (case sm_get (mRegisteredEncoderList s) i of
          None \<Rightarrow> (s, w)
        | Some dev \<Rightarrow>
            (let (ty, types) = sm_at CANCoder i (mRegisteredEncoderTypeList s); (dev', w') = func i dev ty w
             in (s\<lparr>mRegisteredEncoderList := sm_put i dev' (mRegisteredEncoderList s),
                   mRegisteredEncoderTypeList := types\<rparr>, w'))))"

definition encoder_forEach ::
  "(u16 \<Rightarrow> ck_cancoder \<Rightarrow> encoder_type \<Rightarrow> 'w \<Rightarrow> ck_cancoder \<times> 'w) \<Rightarrow> encoder_manager \<times> 'w \<Rightarrow> encoder_manager \<times> 'w" where
  "encoder_forEach func st = fold (\<lambda>i. onEncoder i func) (sm_keys (mRegisteredEncoderList (fst st))) st"

definition encoder_ok :: "encoder_manager \<Rightarrow> bool" where
  "encoder_ok s \<longleftrightarrow> sm_ok (mRegisteredEncoderList s) \<and> sm_ok (mRegisteredEncoderTypeList s)
     \<and> sm_ok (mRegisteredEncoderHeartbeatList s)
     \<and> (\<forall>i. case sm_get (mRegisteredEncoderHeartbeatList s) i of
           None \<Rightarrow> sm_get (mRegisteredEncoderList s) i = None \<and> sm_get (mRegisteredEncoderTypeList s) i = None
         | Some n \<Rightarrow> 1 \<le> n \<and> n \<le> kMaxHeartbeatTicks \<and> sm_get (mRegisteredEncoderTypeList s) i \<noteq> None)"

lemma encoder_ok_new: "encoder_ok CKEncoderManager_new"
  by (simp add: encoder_ok_def CKEncoderManager_new_def)

lemma encoder_ok_maps:
  "encoder_ok s \<Longrightarrow> sm_ok (mRegisteredEncoderList s) \<and> sm_ok (mRegisteredEncoderTypeList s)
     \<and> sm_ok (mRegisteredEncoderHeartbeatList s)"
  by (simp add: encoder_ok_def)

lemma encoder_ok_entry:
  "encoder_ok s \<Longrightarrow> case sm_get (mRegisteredEncoderHeartbeatList s) i of
       None \<Rightarrow> sm_get (mRegisteredEncoderList s) i = None \<and> sm_get (mRegisteredEncoderTypeList s) i = None
     | Some n \<Rightarrow> 1 \<le> n \<and> n \<le> kMaxHeartbeatTicks \<and> sm_get (mRegisteredEncoderTypeList s) i \<noteq> None"
  by (simp add: encoder_ok_def)

interpretation encoder_table: heartbeat_table mRegisteredEncoderHeartbeatList set_encoder_heartbeats deleteEncoder
  by unfold_locales (simp_all add: set_encoder_heartbeats_def deleteEncoder_def Let_def)

lemma deleteEncoder_tables:
  "sm_get (mRegisteredEncoderList (deleteEncoder i s)) j = (if j = i then None else sm_get (mRegisteredEncoderList s) j)"
  "sm_get (mRegisteredEncoderTypeList (deleteEncoder i s)) j = (if j = i then None else sm_get (mRegisteredEncoderTypeList s) j)"
  "sm_ok (mRegisteredEncoderList s) \<Longrightarrow> sm_ok (mRegisteredEncoderList (deleteEncoder i s))"
  "sm_ok (mRegisteredEncoderTypeList s) \<Longrightarrow> sm_ok (mRegisteredEncoderTypeList (deleteEncoder i s))"
  by (auto simp: deleteEncoder_def Let_def sm_count_def)

lemma encoder_beat_list:
  assumes "encoder_ok s"
  shows "sm_ok (mRegisteredEncoderList (encoder_processHeartbeat s))
    \<and> sm_get (mRegisteredEncoderList (encoder_processHeartbeat s)) j =
      (case sm_get (mRegisteredEncoderHeartbeatList s) j of
         Some n \<Rightarrow> if n \<le> 1 then None else sm_get (mRegisteredEncoderList s) j
       | None \<Rightarrow> sm_get (mRegisteredEncoderList s) j)"
  unfolding encoder_processHeartbeat_def
  by (rule conjI; rule encoder_table.loop_table[where look = sm_get and ok = sm_ok and tab = "mRegisteredEncoderList"])
    (use encoder_ok_maps[OF assms] in \<open>simp_all add: set_encoder_heartbeats_def deleteEncoder_tables\<close>)

lemma encoder_beat_types:
  assumes "encoder_ok s"
  shows "sm_ok (mRegisteredEncoderTypeList (encoder_processHeartbeat s))
    \<and> sm_get (mRegisteredEncoderTypeList (encoder_processHeartbeat s)) j =
      (case sm_get (mRegisteredEncoderHeartbeatList s) j of
         Some n \<Rightarrow> if n \<le> 1 then None else sm_get (mRegisteredEncoderTypeList s) j
       | None \<Rightarrow> sm_get (mRegisteredEncoderTypeList s) j)"
  unfolding encoder_processHeartbeat_def
  by (rule conjI; rule encoder_table.loop_table[where look = sm_get and ok = sm_ok and tab = "mRegisteredEncoderTypeList"])
    (use encoder_ok_maps[OF assms] in \<open>simp_all add: set_encoder_heartbeats_def deleteEncoder_tables\<close>)

lemma encoder_beat_ticks:
  assumes "encoder_ok s"
  shows "sm_ok (mRegisteredEncoderHeartbeatList (encoder_processHeartbeat s))
    \<and> sm_get (mRegisteredEncoderHeartbeatList (encoder_processHeartbeat s)) j =
      (case sm_get (mRegisteredEncoderHeartbeatList s) j of
         None \<Rightarrow> None | Some n \<Rightarrow> if n \<le> 1 then None else Some (n - 1))"
  using encoder_ok_maps[OF assms]
  by (simp add: encoder_processHeartbeat_def encoder_table.loop_ok encoder_table.loop_ticks)

lemma encoder_ok_beat:
  assumes "encoder_ok s"
  shows "encoder_ok (encoder_processHeartbeat s)"
proof -
  let ?s = "encoder_processHeartbeat s"
  have "case sm_get (mRegisteredEncoderHeartbeatList ?s) i of
       None \<Rightarrow> sm_get (mRegisteredEncoderList ?s) i = None \<and> sm_get (mRegisteredEncoderTypeList ?s) i = None
     | Some n \<Rightarrow> 1 \<le> n \<and> n \<le> kMaxHeartbeatTicks \<and> sm_get (mRegisteredEncoderTypeList ?s) i \<noteq> None" for i
    using encoder_ok_entry[OF assms, of i] encoder_beat_list[OF assms, of i]
      encoder_beat_types[OF assms, of i] encoder_beat_ticks[OF assms, of i]
    by (auto split: option.splits if_splits)
  then show ?thesis
    unfolding encoder_ok_def[of ?s]
    using encoder_beat_list[OF assms] encoder_beat_types[OF assms] encoder_beat_ticks[OF assms]
    by blast
qed

lemma encoder_ok_register:
  assumes "encoder_ok s"
  shows "encoder_ok (registerEncoder i t c s)"
proof -
  let ?s = "registerEncoder i t c s"
  have "case sm_get (mRegisteredEncoderHeartbeatList ?s) j of
       None \<Rightarrow> sm_get (mRegisteredEncoderList ?s) j = None \<and> sm_get (mRegisteredEncoderTypeList ?s) j = None
     | Some n \<Rightarrow> 1 \<le> n \<and> n \<le> kMaxHeartbeatTicks \<and> sm_get (mRegisteredEncoderTypeList ?s) j \<noteq> None" for j
    using encoder_ok_entry[OF assms, of j] encoder_ok_maps[OF assms]
    by (auto simp: registerEncoder_def Let_def kMaxHeartbeatTicks_def
        split: option.splits if_splits encoder_type.splits prod.splits)
  moreover have "sm_ok (mRegisteredEncoderList ?s)" "sm_ok (mRegisteredEncoderTypeList ?s)"
    "sm_ok (mRegisteredEncoderHeartbeatList ?s)"
    using encoder_ok_maps[OF assms]
    by (auto simp: registerEncoder_def Let_def split: encoder_type.splits prod.splits)
  ultimately show ?thesis unfolding encoder_ok_def[of ?s] by blast
qed

type_synonym encoder_request = "u16 \<times> encoder_type \<times> can_interface"

definition encoder_request_id :: "encoder_request \<Rightarrow> u16" where
  "encoder_request_id r = fst r"

definition encoder_register :: "encoder_request \<Rightarrow> encoder_manager \<Rightarrow> encoder_manager" where
  "encoder_register r s = (case r of (i, t, c) \<Rightarrow> registerEncoder i t c s)"

definition encoder_creates :: "encoder_request \<Rightarrow> encoder_manager \<Rightarrow> bool" where
  "encoder_creates r s \<longleftrightarrow> (case r of (i, t, c) \<Rightarrow> t = CANCoder \<and> \<not> encoderExists i s)"

interpretation encoders: device_registry
  "\<lambda>s i. encoderExists i s" "\<lambda>s i. sm_get (mRegisteredEncoderHeartbeatList s) i"
  "encoder_register" encoder_request_id "\<lambda>r s. True" encoder_creates encoder_processHeartbeat encoder_ok
proof unfold_locales
  fix s :: encoder_manager and r :: encoder_request and k
  assume ok: "encoder_ok s"
  obtain i t c where r: "r = (i, t, c)" by (cases r)
  note maps = encoder_ok_maps[OF ok] and entry = encoder_ok_entry[OF ok]
  show "encoder_ok (encoder_register r s)" using ok by (simp add: r encoder_register_def encoder_ok_register)
  show "encoder_ok (encoder_processHeartbeat s)" using ok by (rule encoder_ok_beat)
  show "sm_get (mRegisteredEncoderHeartbeatList (encoder_register r s)) k =
      (if k = encoder_request_id r \<and> True then Some kMaxHeartbeatTicks
       else sm_get (mRegisteredEncoderHeartbeatList s) k)"
    using maps by (auto simp: r encoder_register_def registerEncoder_def encoder_request_id_def Let_def
        split: encoder_type.split prod.splits)
  show "encoderExists k (encoder_register r s) = (encoderExists k s \<or> k = encoder_request_id r \<and> encoder_creates r s)"
    using maps by (auto simp: r encoder_register_def registerEncoder_def encoder_request_id_def
        encoder_creates_def encoderExists_def Let_def split: encoder_type.splits prod.splits)
  show "sm_get (mRegisteredEncoderHeartbeatList (encoder_processHeartbeat s)) k =
      (case sm_get (mRegisteredEncoderHeartbeatList s) k of None \<Rightarrow> None
       | Some n \<Rightarrow> if n \<le> 1 then None else Some (n - 1))"
    using encoder_beat_ticks[OF ok] by simp
  show "encoderExists k (encoder_processHeartbeat s) = (encoderExists k s \<and>
      (case sm_get (mRegisteredEncoderHeartbeatList s) k of None \<Rightarrow> True | Some n \<Rightarrow> 1 < n))"
    using encoder_beat_list[OF ok, of k] by (auto simp: encoderExists_def sm_count_def split: option.splits)
  show "encoderExists k s \<Longrightarrow> \<exists>n. sm_get (mRegisteredEncoderHeartbeatList s) k = Some n \<and> 1 \<le> n \<and> n \<le> kMaxHeartbeatTicks"
    using entry[of k] by (auto simp: encoderExists_def sm_count_def split: option.splits)
  show "encoder_creates r s \<Longrightarrow> True" by simp
qed

end
