(* ===== verification/Proto_Diff.thy ===== *)
theory Proto_Diff
  imports CK_Prelude
begin

text \<open>
  Differential updates: \<open>google::protobuf::util::MessageDifferencer\<close> as the tasks use it (fields of
  both messages in tag order, lists compared by position, no maps, no ignored fields, matches and
  moves not reported) and \<open>utils/DifferentialUpdateReporter\<close>, which runs the update function
  registered for a changed field. A message is the list of its present fields by tag; a proto3
  scalar with its default value is not present.
\<close>

datatype pval =
    PNum real
  | PInt int
  | PBool bool
  | PStr string
  | PMsg "(nat \<times> pval) list"
  | PRep "pval list"

type_synonym pmsg = "(nat \<times> pval) list"

definition getNum :: "pmsg \<Rightarrow> nat \<Rightarrow> real" where
  "getNum m f = (case map_of m f of Some (PNum x) \<Rightarrow> x | Some (PInt n) \<Rightarrow> of_int n | _ \<Rightarrow> 0)"

definition getInt :: "pmsg \<Rightarrow> nat \<Rightarrow> int" where
  "getInt m f = (case map_of m f of Some (PInt n) \<Rightarrow> n | _ \<Rightarrow> 0)"

definition getBool :: "pmsg \<Rightarrow> nat \<Rightarrow> bool" where
  "getBool m f = (case map_of m f of Some (PBool b) \<Rightarrow> b | _ \<Rightarrow> False)"

definition getMsg :: "pmsg \<Rightarrow> nat \<Rightarrow> pmsg" where
  "getMsg m f = (case map_of m f of Some (PMsg s) \<Rightarrow> s | _ \<Rightarrow> [])"

definition getRep :: "pmsg \<Rightarrow> nat \<Rightarrow> pval list" where
  "getRep m f = (case map_of m f of Some (PRep xs) \<Rightarrow> xs | _ \<Rightarrow> [])"

definition msg_ok :: "pmsg \<Rightarrow> bool" where
  "msg_ok m \<longleftrightarrow> sorted_wrt (<) (map fst m)"

section \<open>MessageDifferencer\<close>

datatype report_kind = ReportAdded | ReportModified | ReportDeleted

text \<open>A report: what it says and the path of tags to the field, from the top-level message. The
  messages handed to the reporter are those that contain the last field of the path.\<close>

type_synonym diff_report = "report_kind \<times> nat list"

text \<open>How many reports a field present on one side only gets: one per element of a list.\<close>

definition field_count :: "pval \<Rightarrow> nat" where
  "field_count v = (case v of PRep xs \<Rightarrow> length xs | _ \<Rightarrow> 1)"

definition is_list :: "pval \<Rightarrow> bool" where
  "is_list v = (case v of PRep _ \<Rightarrow> True | _ \<Rightarrow> False)"

text \<open>The values of a field, the fields of a message and the elements of a list, compared: whether
  they are the same, and the reports. The elements of a list are reported by the list.\<close>

fun compare_values :: "nat list \<Rightarrow> pval \<Rightarrow> pval \<Rightarrow> bool \<times> diff_report list"
  and compare_fields :: "nat list \<Rightarrow> pmsg \<Rightarrow> pmsg \<Rightarrow> bool \<times> diff_report list"
  and compare_repeated :: "nat list \<Rightarrow> pval list \<Rightarrow> pval list \<Rightarrow> bool \<times> diff_report list"
where
  "compare_values path v1 v2 =
     (case v1 of
        PMsg m1 \<Rightarrow> (case v2 of PMsg m2 \<Rightarrow> compare_fields path m1 m2 | _ \<Rightarrow> (False, []))
      | PRep xs \<Rightarrow> (case v2 of PRep ys \<Rightarrow> compare_repeated path xs ys | _ \<Rightarrow> (False, []))
      | _ \<Rightarrow> (v1 = v2, []))"
| "compare_fields path [] [] = (True, [])"
| "compare_fields path ((f1, v1) # r1) [] =
     (case compare_fields path r1 [] of
        (_, reps) \<Rightarrow> (False, replicate (field_count v1) (ReportDeleted, path @ [f1]) @ reps))"
| "compare_fields path [] ((f2, v2) # r2) =
     (case compare_fields path [] r2 of
        (_, reps) \<Rightarrow> (False, replicate (field_count v2) (ReportAdded, path @ [f2]) @ reps))"
| "compare_fields path ((f1, v1) # r1) ((f2, v2) # r2) =
     (if f1 < f2 then
        (case compare_fields path r1 ((f2, v2) # r2) of
           (_, reps) \<Rightarrow> (False, replicate (field_count v1) (ReportDeleted, path @ [f1]) @ reps))
      else if f2 < f1 then
        (case compare_fields path ((f1, v1) # r1) r2 of
           (_, reps) \<Rightarrow> (False, replicate (field_count v2) (ReportAdded, path @ [f2]) @ reps))
      else
        (let (same, here) = compare_values (path @ [f1]) v1 v2;
             here' = here @ (if same \<or> is_list v1 then [] else [(ReportModified, path @ [f1])]);
             (rest_same, reps) = compare_fields path r1 r2
         in (same \<and> rest_same, here' @ reps)))"
| "compare_repeated path [] ys = (ys = [], replicate (length ys) (ReportAdded, path))"
| "compare_repeated path (x # xs) [] = (False, replicate (length (x # xs)) (ReportDeleted, path))"
| "compare_repeated path (x # xs) (y # ys) =
     (case compare_values path x y of
        (same, reps) \<Rightarrow>
          (case compare_repeated path xs ys of
             (rest_same, reps') \<Rightarrow>
               (same \<and> rest_same,
                reps @ (if same then [] else [(ReportModified, path)]) @ reps')))"

section \<open>DifferentialUpdateReporter\<close>

text \<open>
  \<open>ReportAdded\<close> and \<open>ReportModified\<close> run the registered function of every field of the path on
  the second message; \<open>ReportDeleted\<close> does nothing. The registered fields are those of the
  top-level message, and a function run on a message nested in it does nothing, because
  \<open>getTypedMessage\<close> fails its cast. The calls are the fields whose functions take effect.
\<close>

definition getTypedMessage :: "nat list \<Rightarrow> 'a \<Rightarrow> 'a option" where
  "getTypedMessage path m = (if length path = 1 then Some m else None)"

definition report_calls :: "(nat \<Rightarrow> bool) \<Rightarrow> diff_report \<Rightarrow> nat list" where
  "report_calls registered rep =
     (case rep of
        (ReportDeleted, path) \<Rightarrow> []
      | (_, path) \<Rightarrow>
          (case path of
             [] \<Rightarrow> []
           | f # _ \<Rightarrow> if registered f \<and> getTypedMessage path () \<noteq> None then [f] else []))"

definition differential_calls :: "(nat \<Rightarrow> bool) \<Rightarrow> pmsg \<Rightarrow> pmsg \<Rightarrow> nat list" where
  "differential_calls registered m1 m2 =
     concat (map (report_calls registered) (snd (compare_fields [] m1 m2)))"


section \<open>What is compared and what is called\<close>

declare compare_values.simps [simp del]

lemma compare_equal:
  "fst (compare_values path v1 v2) \<Longrightarrow> v1 = v2"
  "fst (compare_fields path m1 m2) \<Longrightarrow> m1 = m2"
  "fst (compare_repeated path xs ys) \<Longrightarrow> xs = ys"
proof (induction path v1 v2 and path m1 m2 and path xs ys
    rule: compare_values_compare_fields_compare_repeated.induct)
  case (1 path v1 v2)
  then show ?case by (auto simp: compare_values.simps split: pval.splits)
next
  case (5 path f1 v1 r1 f2 v2 r2)
  then show ?case
    by (auto simp: Let_def split: prod.splits if_splits pval.splits)
next
  case (8 path x xs y ys)
  then show ?case by (auto split: prod.splits if_splits)
qed (auto split: prod.splits)


lemma compare_repeated_refl:
  "(\<And>v p. v \<in> set xs \<Longrightarrow> compare_values p v v = (True, [])) \<Longrightarrow> compare_repeated path xs xs = (True, [])"
  by (induction xs) auto

lemma compare_fields_refl:
  "(\<And>f v p. (f, v) \<in> set m \<Longrightarrow> compare_values p v v = (True, [])) \<Longrightarrow> compare_fields path m m = (True, [])"
proof (induction m)
  case (Cons e m)
  obtain f v where e: "e = (f, v)" by (cases e)
  have "compare_fields path m m = (True, [])"
    using Cons.IH Cons.prems[OF list.set_intros(2)] by blast
  moreover have "compare_values p v v = (True, [])" for p using Cons.prems e by auto
  ultimately show ?case using e by simp
qed simp

lemma compare_values_same: "compare_values path v v = (True, [])"
proof (induction v arbitrary: path)
  case (PMsg m)
  have "compare_fields path m m = (True, [])"
    by (rule compare_fields_refl) (use PMsg.IH in auto)
  then show ?case by (simp add: compare_values.simps)
next
  case (PRep xs)
  then show ?case by (auto simp: compare_values.simps intro: compare_repeated_refl)
qed (simp_all add: compare_values.simps)

lemma compare_fields_same: "compare_fields path m m = (True, [])"
  by (rule compare_fields_refl) (rule compare_values_same)

text \<open>Reports from inside a nested message have paths of more than one tag.\<close>

lemma report_depth:
  "rep \<in> set (snd (compare_values path v1 v2)) \<Longrightarrow> length path \<le> length (snd rep) \<and> (\<not> is_list v1 \<longrightarrow> length path < length (snd rep))"
  "rep \<in> set (snd (compare_fields path m1 m2)) \<Longrightarrow> length path < length (snd rep)"
  "rep \<in> set (snd (compare_repeated path xs ys)) \<Longrightarrow> length path \<le> length (snd rep)"
proof (induction path v1 v2 and path m1 m2 and path xs ys
    rule: compare_values_compare_fields_compare_repeated.induct)
  case (1 path v1 v2)
  then show ?case by (auto simp: compare_values.simps is_list_def less_imp_le split: pval.splits)
next
  case (5 path f1 v1 r1 f2 v2 r2)
  show ?case
  proof (cases f1 f2 rule: linorder_cases)
    case equal
    obtain same here where v: "compare_values (path @ [f1]) v1 v2 = (same, here)" by fastforce
    obtain rs reps where r: "compare_fields path r1 r2 = (rs, reps)" by fastforce
    show ?thesis using 5 equal v r by (auto simp: Let_def split: if_splits)
  qed (use 5 in \<open>auto split: prod.splits\<close>)
next
  case (8 path x xs y ys)
  then show ?case by (fastforce split: prod.splits if_splits)
qed (auto split: prod.splits)

lemma report_calls_deep: "1 < length (snd rep) \<Longrightarrow> report_calls registered rep = []"
  by (auto simp: report_calls_def getTypedMessage_def split: prod.splits report_kind.splits list.splits)

lemma report_calls_simps [simp]:
  "report_calls registered (ReportDeleted, path) = []"
  "report_calls registered (ReportAdded, [f]) = (if registered f then [f] else [])"
  "report_calls registered (ReportModified, [f]) = (if registered f then [f] else [])"
  by (simp_all add: report_calls_def getTypedMessage_def)

lemma nested_calls: "\<not> is_list v1 \<Longrightarrow> concat (map (report_calls registered) (snd (compare_values [f] v1 v2))) = []"
  using report_depth(1)[of _ "[f]" v1 v2] report_calls_deep by (auto simp: concat_eq_Nil_conv)

definition no_lists :: "pmsg \<Rightarrow> bool" where
  "no_lists m \<longleftrightarrow> list_all (\<lambda>e. case snd e of PRep _ \<Rightarrow> False | _ \<Rightarrow> True) m"

lemma calls_replicate_deleted [simp]:
  "concat (map (report_calls registered) (replicate n (ReportDeleted, path))) = []"
  by (induction n) auto

lemma map_of_below:
  fixes f :: nat
  shows "sorted_wrt (<) (f # map fst m) \<Longrightarrow> map_of m f = None"
  by (fastforce simp: map_of_eq_None_iff)

lemma calls_fields:
  assumes "msg_ok m1" "msg_ok m2" "no_lists m1" "no_lists m2"
  shows "concat (map (report_calls registered) (snd (compare_fields [] m1 m2)))
    = filter (\<lambda>f. registered f \<and> map_of m1 f \<noteq> map_of m2 f) (map fst m2)"
  using assms
proof (induction "length m1 + length m2" arbitrary: m1 m2 rule: less_induct)
  case less
  consider (nn) "m1 = []" "m2 = []"
    | (cn) f1 v1 r1 where "m1 = (f1, v1) # r1" "m2 = []"
    | (nc) f2 v2 r2 where "m1 = []" "m2 = (f2, v2) # r2"
    | (cc) f1 v1 r1 f2 v2 r2 where "m1 = (f1, v1) # r1" "m2 = (f2, v2) # r2"
    by (metis list.exhaust surj_pair)
  then show ?case
  proof cases
    case nn
    then show ?thesis by simp
  next
    case cn
    then show ?thesis
      using less.hyps[of r1 "[]"] less.prems by (auto simp: msg_ok_def no_lists_def split: prod.splits)
  next
    case nc
    have "filter (\<lambda>f. registered f \<and> None \<noteq> map_of m2 f) (map fst r2)
        = filter (\<lambda>f. registered f \<and> None \<noteq> map_of r2 f) (map fst r2)"
      using less.prems(2) by (intro filter_cong) (auto simp: nc msg_ok_def)
    moreover have "field_count v2 = 1"
      using less.prems(4) by (auto simp: nc no_lists_def field_count_def split: pval.splits)
    ultimately show ?thesis
      using less.hyps[of "[]" r2] less.prems
      by (auto simp: nc msg_ok_def no_lists_def split: prod.splits)
  next
    case cc
    have ok: "msg_ok r1" "msg_ok r2" "no_lists r1" "no_lists r2"
      and none: "map_of r1 f1 = None" "map_of r2 f2 = None"
      and one: "field_count v2 = 1"
      using less.prems map_of_below by (auto simp: cc msg_ok_def no_lists_def field_count_def split: pval.splits)
    show ?thesis
    proof (cases f1 f2 rule: linorder_cases)
      case less': less
      have "\<forall>g \<in> set (map fst m2). g \<noteq> f1"
        using less' less.prems(2) by (auto simp: cc msg_ok_def)
      then have "filter (\<lambda>f. registered f \<and> map_of m1 f \<noteq> map_of m2 f) (map fst m2)
          = filter (\<lambda>f. registered f \<and> map_of r1 f \<noteq> map_of m2 f) (map fst m2)"
        by (intro filter_cong) (auto simp: cc)
      moreover have "snd (compare_fields [] m1 m2)
          = replicate (field_count v1) (ReportDeleted, [f1]) @ snd (compare_fields [] r1 m2)"
        using less' by (simp add: cc split_beta)
      ultimately show ?thesis
        using less.hyps[of r1 m2] less.prems ok by (simp add: cc(1) del: map_replicate)
    next
      case greater
      have "map_of m1 f2 = None"
        using greater less.prems(1) by (auto simp: cc msg_ok_def map_of_eq_None_iff)
      moreover have "filter (\<lambda>f. registered f \<and> map_of m1 f \<noteq> map_of m2 f) (map fst r2)
          = filter (\<lambda>f. registered f \<and> map_of m1 f \<noteq> map_of r2 f) (map fst r2)"
        using none(2) by (intro filter_cong) (auto simp: cc map_of_eq_None_iff)
      moreover have "snd (compare_fields [] m1 m2) = (ReportAdded, [f2]) # snd (compare_fields [] m1 r2)"
        using greater one by (simp add: cc split_beta)
      ultimately show ?thesis
        using less.hyps[of m1 r2] less.prems ok none(2) by (simp add: cc(2))
    next
      case equal
      have tail: "filter (\<lambda>f. registered f \<and> map_of m1 f \<noteq> map_of m2 f) (map fst r2)
          = filter (\<lambda>f. registered f \<and> map_of r1 f \<noteq> map_of r2 f) (map fst r2)"
        using none equal by (intro filter_cong) (auto simp: cc map_of_eq_None_iff)
      have nolist: "\<not> is_list v1"
        using less.prems(3) by (auto simp: cc no_lists_def is_list_def split: pval.splits)
      obtain same reps where v: "compare_values [f1] v1 v2 = (same, reps)" by fastforce
      have same: "same = (v1 = v2)"
        using v compare_equal(1)[of "[f1]" v1 v2] compare_values_same[of "[f1]" v2] by auto
      have "concat (map (report_calls registered) reps) = []"
        using nested_calls[OF nolist, of registered f1 v2] v by simp
      then show ?thesis
        using less.hyps[of r1 r2] ok equal v same tail nolist
        by (auto simp: cc Let_def split: prod.splits pval.splits)
    qed
  qed
qed

text \<open>C25. Between two messages without repeated fields at the top level, a differential update runs, in
  tag order, the update functions of exactly the registered fields that are present in the new
  message with a value other than the old message's, once each, and nothing for the fields inside
  nested messages. (A repeated field runs its function once for each element that changed or was
  added, and not at all for elements taken off the end.)\<close>

theorem differential_calls_changed:
  assumes "msg_ok m1" and "msg_ok m2" and "no_lists m1" and "no_lists m2"
  shows "differential_calls registered m1 m2
    = filter (\<lambda>f. registered f \<and> map_of m1 f \<noteq> map_of m2 f) (map fst m2)"
  unfolding differential_calls_def by (rule calls_fields[OF assms])

theorem differential_calls_changed_witness:
  "differential_calls (\<lambda>f. f \<noteq> 4) [(1, PInt 3), (4, PNum 1), (27, PMsg [(1, PBool True)])]
      [(1, PInt 3), (4, PNum 2), (5, PNum 7), (27, PMsg [(1, PBool True), (2, PNum 40)])] = [5, 27]"
proof -
  let ?a = "[(1, PInt 3), (4, PNum 1), (27, PMsg [(1, PBool True)])]"
  let ?b = "[(1, PInt 3), (4, PNum 2), (5, PNum 7), (27, PMsg [(1, PBool True), (2, PNum 40)])]"
  have "msg_ok ?a" "msg_ok ?b" "no_lists ?a" "no_lists ?b" by (simp_all add: msg_ok_def no_lists_def)
  from differential_calls_changed[OF this] show ?thesis by simp
qed

text \<open>A field that the new message clears (sets back to its default) is reported as deleted and
  never reaches its update function: in differential mode the device keeps the old setting.\<close>

theorem differential_misses_cleared:
  assumes "msg_ok m1" and "msg_ok m2" and "no_lists m1" and "no_lists m2"
    and "map_of m2 f = None"
  shows "f \<notin> set (differential_calls registered m1 m2)"
  unfolding differential_calls_def calls_fields[OF assms(1-4)]
  using assms(5) by (auto simp: map_of_eq_None_iff)

theorem differential_misses_cleared_witness:
  "4 \<notin> set (differential_calls (\<lambda>f. True) [(1, PInt 3), (4, PNum 1)] [(1, PInt 3)])"
  by (rule differential_misses_cleared) (simp_all add: msg_ok_def no_lists_def)

text \<open>Sending the same message again runs no update function, whatever the message holds, lists
  and nested messages included; and a comparison without difference means the messages are equal.\<close>

theorem differential_idempotent:
  "differential_calls registered m m = [] \<and> (fst (compare_fields [] m1 m2) \<longleftrightarrow> m1 = m2)"
  using compare_equal(2)[of "[]" m1 m2] by (auto simp: differential_calls_def compare_fields_same)

end
