(* ===== verification/Motor_Config.thy ===== *)
theory Motor_Config
  imports Motor_Manager Sensor_Managers Proto_Diff Network_Manager
begin

text \<open>
  \<open>tasks/ApplyMotorConfigTask\<close>: applying configuration messages to the talons, all of a message
  (\<open>fullUpdate\<close>) or the changed fields only. A configuration message is a \<open>pmsg\<close> with the tags of
  \<open>initFieldDescriptors\<close>; commands to a talon are log entries with their answers in \<open>resp\<close>; how
  the protobuf enumeration of controller modes is numbered is the parameter \<open>modeOf\<close>.
\<close>

section \<open>Fields\<close>

definition ID_FD :: nat where "ID_FD = 1"
definition CONTROLLER_TYPE_FD :: nat where "CONTROLLER_TYPE_FD = 2"
definition CONTROLLER_MODE_FD :: nat where "CONTROLLER_MODE_FD = 3"
definition KP_FD :: nat where "KP_FD = 4"
definition KI_FD :: nat where "KI_FD = 5"
definition KD_FD :: nat where "KD_FD = 6"
definition KF_FD :: nat where "KF_FD = 7"
definition IZONE_FD :: nat where "IZONE_FD = 8"
definition MAX_I_ACCUM_FD :: nat where "MAX_I_ACCUM_FD = 9"
definition ALLOWED_CLOSED_LOOP_ERROR_FD :: nat where "ALLOWED_CLOSED_LOOP_ERROR_FD = 10"
definition MAX_CLOSED_LOOP_PEAK_OUTPUT_FD :: nat where "MAX_CLOSED_LOOP_PEAK_OUTPUT_FD = 11"
definition MOTION_CRUISE_VELOCITY_FD :: nat where "MOTION_CRUISE_VELOCITY_FD = 12"
definition MOTION_ACCELERATION_FD :: nat where "MOTION_ACCELERATION_FD = 13"
definition MOTION_S_CURVE_STRENGTH_FD :: nat where "MOTION_S_CURVE_STRENGTH_FD = 14"
definition FORWARD_SOFT_LIMIT_FD :: nat where "FORWARD_SOFT_LIMIT_FD = 15"
definition FORWARD_SOFT_LIMIT_ENABLE_FD :: nat where "FORWARD_SOFT_LIMIT_ENABLE_FD = 16"
definition REVERSE_SOFT_LIMIT_FD :: nat where "REVERSE_SOFT_LIMIT_FD = 17"
definition REVERSE_SOFT_LIMIT_ENABLE_FD :: nat where "REVERSE_SOFT_LIMIT_ENABLE_FD = 18"
definition FEEDBACK_SENSOR_COEFFICIENT_FD :: nat where "FEEDBACK_SENSOR_COEFFICIENT_FD = 19"
definition VOLTAGE_COMPENSATION_SATURATION_FD :: nat where "VOLTAGE_COMPENSATION_SATURATION_FD = 20"
definition VOLTAGE_COMPENSATION_ENABLED_FD :: nat where "VOLTAGE_COMPENSATION_ENABLED_FD = 21"
definition INVERT_TYPE_FD :: nat where "INVERT_TYPE_FD = 22"
definition SENSOR_PHASE_INVERTED_FD :: nat where "SENSOR_PHASE_INVERTED_FD = 23"
definition NEUTRAL_MODE_FD :: nat where "NEUTRAL_MODE_FD = 24"
definition OPEN_LOOP_RAMP_FD :: nat where "OPEN_LOOP_RAMP_FD = 25"
definition CLOSED_LOOP_RAMP_FD :: nat where "CLOSED_LOOP_RAMP_FD = 26"
definition SUPPLY_CURRENT_LIMIT_CONFIG_FD :: nat where "SUPPLY_CURRENT_LIMIT_CONFIG_FD = 27"
definition STATOR_CURRENT_LIMIT_CONFIG_FD :: nat where "STATOR_CURRENT_LIMIT_CONFIG_FD = 28"
definition FORWARD_LIMIT_SWITCH_SOURCE_FD :: nat where "FORWARD_LIMIT_SWITCH_SOURCE_FD = 29"
definition FORWARD_LIMIT_SWITCH_NORMAL_FD :: nat where "FORWARD_LIMIT_SWITCH_NORMAL_FD = 30"
definition REVERSE_LIMIT_SWITCH_SOURCE_FD :: nat where "REVERSE_LIMIT_SWITCH_SOURCE_FD = 31"
definition REVERSE_LIMIT_SWITCH_NORMAL_FD :: nat where "REVERSE_LIMIT_SWITCH_NORMAL_FD = 32"
definition PEAK_OUTPUT_FORWARD_FD :: nat where "PEAK_OUTPUT_FORWARD_FD = 33"
definition PEAK_OUTPUT_REVERSE_FD :: nat where "PEAK_OUTPUT_REVERSE_FD = 34"
definition CAN_NETWORK_FD :: nat where "CAN_NETWORK_FD = 35"
definition FEEDBACK_SENSOR_CAN_ID_FD :: nat where "FEEDBACK_SENSOR_CAN_ID_FD = 36"
definition ACTIVE_GAIN_SLOT_FD :: nat where "ACTIVE_GAIN_SLOT_FD = 37"
definition KP1_FD :: nat where "KP1_FD = 38"
definition KI1_FD :: nat where "KI1_FD = 39"
definition KD1_FD :: nat where "KD1_FD = 40"
definition KF1_FD :: nat where "KF1_FD = 41"

lemmas motor_field_defs =
  ID_FD_def CONTROLLER_TYPE_FD_def CONTROLLER_MODE_FD_def KP_FD_def KI_FD_def KD_FD_def
  KF_FD_def IZONE_FD_def MAX_I_ACCUM_FD_def ALLOWED_CLOSED_LOOP_ERROR_FD_def
  MAX_CLOSED_LOOP_PEAK_OUTPUT_FD_def MOTION_CRUISE_VELOCITY_FD_def MOTION_ACCELERATION_FD_def
  MOTION_S_CURVE_STRENGTH_FD_def FORWARD_SOFT_LIMIT_FD_def FORWARD_SOFT_LIMIT_ENABLE_FD_def
  REVERSE_SOFT_LIMIT_FD_def REVERSE_SOFT_LIMIT_ENABLE_FD_def FEEDBACK_SENSOR_COEFFICIENT_FD_def
  VOLTAGE_COMPENSATION_SATURATION_FD_def VOLTAGE_COMPENSATION_ENABLED_FD_def INVERT_TYPE_FD_def
  SENSOR_PHASE_INVERTED_FD_def NEUTRAL_MODE_FD_def OPEN_LOOP_RAMP_FD_def
  CLOSED_LOOP_RAMP_FD_def SUPPLY_CURRENT_LIMIT_CONFIG_FD_def STATOR_CURRENT_LIMIT_CONFIG_FD_def
  FORWARD_LIMIT_SWITCH_SOURCE_FD_def FORWARD_LIMIT_SWITCH_NORMAL_FD_def
  REVERSE_LIMIT_SWITCH_SOURCE_FD_def REVERSE_LIMIT_SWITCH_NORMAL_FD_def
  PEAK_OUTPUT_FORWARD_FD_def PEAK_OUTPUT_REVERSE_FD_def CAN_NETWORK_FD_def
  FEEDBACK_SENSOR_CAN_ID_FD_def ACTIVE_GAIN_SLOT_FD_def KP1_FD_def KI1_FD_def KD1_FD_def
  KF1_FD_def

definition msg_id :: "pmsg \<Rightarrow> u16" where
  "msg_id m = word_of_int (getInt m ID_FD)"

section \<open>Commands\<close>

datatype controller_mode = MASTER | FAST_MASTER | SLAVE | INVALID_MODE

datatype motor_call =
    ClearStickyFaults
  | ConfigVoltageCompSaturation real
  | EnableVoltageCompensation bool
  | SetInverted int
  | SetSensorPhase bool
  | SetNeutralMode int
  | ConfigOpenloopRamp real
  | ConfigClosedloopRamp real
  | ConfigPeakOutputForward real
  | ConfigPeakOutputReverse real
  | ConfigForwardLimitSwitchSource int int
  | ConfigReverseLimitSwitchSource int int
  | ConfigRemoteFeedbackFilter int
  | ConfigRemoteFeedbackFilterCANCoder ck_cancoder
  | ConfigSelectedFeedbackSensorRemote0
  | ConfigSelectedFeedbackSensorIntegrated
  | Config_kP nat real
  | Config_kI nat real
  | Config_kD nat real
  | Config_kF nat real
  | SelectProfileSlot int
  | Config_IntegralZone real
  | ConfigMaxIntegralAccumulator real
  | ConfigAllowableClosedloopError real
  | ConfigClosedLoopPeakOutput real
  | ConfigMotionCruiseVelocity real
  | ConfigMotionAcceleration real
  | ConfigMotionSCurveStrength real
  | ConfigForwardSoftLimitThreshold real
  | ConfigForwardSoftLimitEnable bool
  | ConfigReverseSoftLimitThreshold real
  | ConfigReverseSoftLimitEnable bool
  | ConfigSelectedFeedbackCoefficient real
  | ConfigSupplyCurrentLimit pmsg
  | ConfigStatorCurrentLimit pmsg
  | SetControlFramePeriod int
  | SetMotorStatusFramePeriod string int

text \<open>A retried function makes one call, or two of which both must succeed.\<close>

datatype motor_step = OneCall motor_call | BothCalls motor_call motor_call

type_synonym motor_log = "(u16 \<times> motor_call) list"

definition general_error :: error_code where
  "general_error = ErrorCode (- 1)"

definition step_func :: "(nat \<Rightarrow> error_code) \<Rightarrow> u16 \<Rightarrow> motor_step \<Rightarrow> motor_log \<Rightarrow> error_code \<times> motor_log" where
  "step_func resp i st calls =
     (case st of
        OneCall c \<Rightarrow> phoenix_call resp (i, c) calls
      | BothCalls c1 c2 \<Rightarrow>
          (let (e1, calls1) = phoenix_call resp (i, c1) calls;
               (e2, calls2) = phoenix_call resp (i, c2) calls1
           in (if e1 = OK \<and> e2 = OK then OK else general_error, calls2)))"

definition run_step :: "(nat \<Rightarrow> error_code) \<Rightarrow> u16 \<Rightarrow> motor_step \<Rightarrow> motor_log \<Rightarrow> motor_log" where
  "run_step resp i st calls = snd (snd (runPhoenixFunctionWithRetry (step_func resp i st) (uint i) calls))"

definition run_steps :: "(nat \<Rightarrow> error_code) \<Rightarrow> u16 \<Rightarrow> motor_step list \<Rightarrow> motor_log \<Rightarrow> motor_log" where
  "run_steps resp i sts calls = fold (run_step resp i) sts calls"

section \<open>fullUpdate\<close>

definition peak_forward :: "pmsg \<Rightarrow> real" where
  "peak_forward m = (if getNum m PEAK_OUTPUT_FORWARD_FD < 4 / 100 then 1 else getNum m PEAK_OUTPUT_FORWARD_FD)"

definition peak_reverse :: "pmsg \<Rightarrow> real" where
  "peak_reverse m = (if getNum m PEAK_OUTPUT_REVERSE_FD > - 4 / 100 then - 1 else getNum m PEAK_OUTPUT_REVERSE_FD)"

definition full_update_common :: "pmsg \<Rightarrow> motor_step list" where
  "full_update_common m =
     [OneCall ClearStickyFaults,
      OneCall (ConfigVoltageCompSaturation (getNum m VOLTAGE_COMPENSATION_SATURATION_FD)),
      OneCall (EnableVoltageCompensation (getBool m VOLTAGE_COMPENSATION_ENABLED_FD)),
      OneCall (SetInverted (getInt m INVERT_TYPE_FD)),
      OneCall (SetNeutralMode (getInt m NEUTRAL_MODE_FD)),
      OneCall (ConfigOpenloopRamp (getNum m OPEN_LOOP_RAMP_FD)),
      OneCall (ConfigClosedloopRamp (getNum m CLOSED_LOOP_RAMP_FD)),
      OneCall (ConfigPeakOutputForward (peak_forward m)),
      OneCall (ConfigPeakOutputReverse (peak_reverse m)),
      OneCall (ConfigForwardLimitSwitchSource (getInt m FORWARD_LIMIT_SWITCH_SOURCE_FD)
                 (getInt m FORWARD_LIMIT_SWITCH_NORMAL_FD)),
      OneCall (ConfigReverseLimitSwitchSource (getInt m REVERSE_LIMIT_SWITCH_SOURCE_FD)
                 (getInt m REVERSE_LIMIT_SWITCH_NORMAL_FD))]"

definition full_update_feedback :: "pmsg \<Rightarrow> motor_step" where
  "full_update_feedback m =
     (if getInt m FEEDBACK_SENSOR_CAN_ID_FD > 0
      then BothCalls (ConfigRemoteFeedbackFilter (getInt m FEEDBACK_SENSOR_CAN_ID_FD))
             ConfigSelectedFeedbackSensorRemote0
      else OneCall ConfigSelectedFeedbackSensorIntegrated)"

definition full_update_master :: "pmsg \<Rightarrow> motor_step list" where
  "full_update_master m =
     [full_update_feedback m,
      OneCall (Config_kP 0 (getNum m KP_FD)), OneCall (Config_kI 0 (getNum m KI_FD)),
      OneCall (Config_kD 0 (getNum m KD_FD)), OneCall (Config_kF 0 (getNum m KF_FD)),
      OneCall (Config_kP 1 (getNum m KP1_FD)), OneCall (Config_kI 1 (getNum m KI1_FD)),
      OneCall (Config_kD 1 (getNum m KD1_FD)), OneCall (Config_kF 1 (getNum m KF1_FD)),
      OneCall (SelectProfileSlot (getInt m ACTIVE_GAIN_SLOT_FD)),
      OneCall (Config_IntegralZone (getNum m IZONE_FD)),
      OneCall (ConfigMaxIntegralAccumulator (getNum m MAX_I_ACCUM_FD)),
      OneCall (ConfigAllowableClosedloopError (getNum m ALLOWED_CLOSED_LOOP_ERROR_FD)),
      OneCall (ConfigClosedLoopPeakOutput
                 (if getNum m MAX_CLOSED_LOOP_PEAK_OUTPUT_FD < 1 / 100 then 1
                  else getNum m MAX_CLOSED_LOOP_PEAK_OUTPUT_FD)),
      OneCall (ConfigMotionCruiseVelocity (getNum m MOTION_CRUISE_VELOCITY_FD)),
      OneCall (ConfigMotionAcceleration (getNum m MOTION_ACCELERATION_FD)),
      OneCall (ConfigMotionSCurveStrength (getNum m MOTION_S_CURVE_STRENGTH_FD)),
      OneCall (ConfigForwardSoftLimitThreshold (getNum m FORWARD_SOFT_LIMIT_FD)),
      OneCall (ConfigForwardSoftLimitEnable (getBool m FORWARD_SOFT_LIMIT_ENABLE_FD)),
      OneCall (ConfigReverseSoftLimitThreshold (getNum m REVERSE_SOFT_LIMIT_FD)),
      OneCall (ConfigReverseSoftLimitEnable (getBool m REVERSE_SOFT_LIMIT_ENABLE_FD))]"

definition full_update_current_limits :: "motor_type \<Rightarrow> pmsg \<Rightarrow> motor_step list" where
  "full_update_current_limits mType m =
     (case mType of
        TALON_FX \<Rightarrow> [OneCall (ConfigSupplyCurrentLimit (getMsg m SUPPLY_CURRENT_LIMIT_CONFIG_FD)),
                     OneCall (ConfigStatorCurrentLimit (getMsg m STATOR_CURRENT_LIMIT_CONFIG_FD))]
      | TALON_SRX \<Rightarrow> [OneCall (ConfigSupplyCurrentLimit (getMsg m SUPPLY_CURRENT_LIMIT_CONFIG_FD))]
      | OtherMotorType _ \<Rightarrow> [])"

definition frame_steps :: "int \<Rightarrow> int \<Rightarrow> int \<Rightarrow> int \<Rightarrow> motor_step list" where
  "frame_steps control general feedback aintempvbat =
     [OneCall (SetControlFramePeriod control),
      OneCall (SetMotorStatusFramePeriod ''Status_1_General_'' general),
      OneCall (SetMotorStatusFramePeriod ''Status_2_Feedback0_'' feedback),
      OneCall (SetMotorStatusFramePeriod ''Status_4_AinTempVbat_'' aintempvbat)]"

definition full_update_frames :: "controller_mode \<Rightarrow> motor_step list" where
  "full_update_frames md =
     (case md of
        FAST_MASTER \<Rightarrow> frame_steps 5 5 10 10
      | SLAVE \<Rightarrow> frame_steps 10 10 10 10
      | _ \<Rightarrow> frame_steps 10 10 10 10)"

definition full_update_steps :: "(int \<Rightarrow> controller_mode) \<Rightarrow> motor_type \<Rightarrow> pmsg \<Rightarrow> motor_step list" where
  "full_update_steps modeOf mType m =
     (let md = modeOf (getInt m CONTROLLER_MODE_FD)
      in full_update_common m @ (if md \<noteq> SLAVE then full_update_master m else [])
           @ full_update_current_limits mType m @ full_update_frames md)"

definition motor_fullUpdate ::
  "(int \<Rightarrow> controller_mode) \<Rightarrow> (nat \<Rightarrow> error_code) \<Rightarrow> pmsg \<Rightarrow> 'm motor_manager \<Rightarrow> motor_log \<Rightarrow> bool \<times> motor_log" where
  "motor_fullUpdate modeOf resp m mgr calls =
     (True, onMotor (msg_id m) mgr
              (\<lambda>i dev mType. run_steps resp i (full_update_steps modeOf mType m)) calls)"


section \<open>Update functions\<close>

text \<open>What the function registered for a field does with a registered motor: the commands, or the
  fault it ends in.\<close>

type_synonym update_function = "motor_type \<Rightarrow> encoder_manager \<Rightarrow> pmsg \<Rightarrow> fault + motor_step list"

definition command :: "(pmsg \<Rightarrow> motor_call) \<Rightarrow> update_function" where
  "command c = (\<lambda>mType enc m. Inr [OneCall (c m)])"

definition gain_updates :: "(nat \<times> update_function) list" where
  "gain_updates =
     [(KP_FD, command (\<lambda>m. Config_kP 0 (getNum m KP_FD))),
      (KI_FD, command (\<lambda>m. Config_kI 0 (getNum m KI_FD))),
      (KD_FD, command (\<lambda>m. Config_kD 0 (getNum m KD_FD))),
      (KF_FD, command (\<lambda>m. Config_kF 0 (getNum m KF_FD))),
      (KP1_FD, command (\<lambda>m. Config_kP 1 (getNum m KP1_FD))),
      (KI1_FD, command (\<lambda>m. Config_kI 1 (getNum m KI1_FD))),
      (KD1_FD, command (\<lambda>m. Config_kD 1 (getNum m KD1_FD))),
      (KF1_FD, command (\<lambda>m. Config_kF 1 (getNum m KF1_FD)))]"

definition closed_loop_updates :: "(nat \<times> update_function) list" where
  "closed_loop_updates =
     [(IZONE_FD, command (\<lambda>m. Config_IntegralZone (getNum m IZONE_FD))),
      (MAX_I_ACCUM_FD, command (\<lambda>m. ConfigMaxIntegralAccumulator (getNum m MAX_I_ACCUM_FD))),
      (ALLOWED_CLOSED_LOOP_ERROR_FD,
         command (\<lambda>m. ConfigAllowableClosedloopError (getNum m ALLOWED_CLOSED_LOOP_ERROR_FD))),
      (MAX_CLOSED_LOOP_PEAK_OUTPUT_FD,
         command (\<lambda>m. ConfigClosedLoopPeakOutput (getNum m MAX_CLOSED_LOOP_PEAK_OUTPUT_FD))),
      (MOTION_CRUISE_VELOCITY_FD,
         command (\<lambda>m. ConfigMotionCruiseVelocity (getNum m MOTION_CRUISE_VELOCITY_FD))),
      (MOTION_ACCELERATION_FD,
         command (\<lambda>m. ConfigMotionAcceleration (getNum m MOTION_ACCELERATION_FD))),
      (MOTION_S_CURVE_STRENGTH_FD,
         command (\<lambda>m. ConfigMotionSCurveStrength (getNum m MOTION_S_CURVE_STRENGTH_FD)))]"

definition soft_limit_updates :: "(nat \<times> update_function) list" where
  "soft_limit_updates =
     [(FORWARD_SOFT_LIMIT_FD,
         command (\<lambda>m. ConfigForwardSoftLimitThreshold (getNum m FORWARD_SOFT_LIMIT_FD))),
      (FORWARD_SOFT_LIMIT_ENABLE_FD,
         command (\<lambda>m. ConfigForwardSoftLimitEnable (getBool m FORWARD_SOFT_LIMIT_ENABLE_FD))),
      (REVERSE_SOFT_LIMIT_FD,
         command (\<lambda>m. ConfigReverseSoftLimitThreshold (getNum m REVERSE_SOFT_LIMIT_FD))),
      (REVERSE_SOFT_LIMIT_ENABLE_FD,
         command (\<lambda>m. ConfigReverseSoftLimitEnable (getBool m REVERSE_SOFT_LIMIT_ENABLE_FD))),
      (FEEDBACK_SENSOR_COEFFICIENT_FD,
         command (\<lambda>m. ConfigSelectedFeedbackCoefficient (getNum m FEEDBACK_SENSOR_COEFFICIENT_FD)))]"

definition drive_updates :: "(nat \<times> update_function) list" where
  "drive_updates =
     [(VOLTAGE_COMPENSATION_SATURATION_FD,
         command (\<lambda>m. ConfigVoltageCompSaturation (getNum m VOLTAGE_COMPENSATION_SATURATION_FD))),
      (VOLTAGE_COMPENSATION_ENABLED_FD,
         command (\<lambda>m. EnableVoltageCompensation (getBool m VOLTAGE_COMPENSATION_ENABLED_FD))),
      (INVERT_TYPE_FD, command (\<lambda>m. SetInverted (getInt m INVERT_TYPE_FD))),
      (SENSOR_PHASE_INVERTED_FD, command (\<lambda>m. SetSensorPhase (getBool m SENSOR_PHASE_INVERTED_FD))),
      (NEUTRAL_MODE_FD, command (\<lambda>m. SetNeutralMode (getInt m NEUTRAL_MODE_FD))),
      (OPEN_LOOP_RAMP_FD, command (\<lambda>m. ConfigOpenloopRamp (getNum m OPEN_LOOP_RAMP_FD))),
      (CLOSED_LOOP_RAMP_FD, command (\<lambda>m. ConfigClosedloopRamp (getNum m CLOSED_LOOP_RAMP_FD)))]"

definition supply_current_update :: update_function where
  "supply_current_update mType enc m =
     (let c = ConfigSupplyCurrentLimit (getMsg m SUPPLY_CURRENT_LIMIT_CONFIG_FD)
      in case mType of TALON_FX \<Rightarrow> Inr [OneCall c] | TALON_SRX \<Rightarrow> Inr [OneCall c] | _ \<Rightarrow> Inr [])"

definition stator_current_update :: update_function where
  "stator_current_update mType enc m =
     (case mType of
        TALON_FX \<Rightarrow> Inr [OneCall (ConfigStatorCurrentLimit (getMsg m STATOR_CURRENT_LIMIT_CONFIG_FD))]
      | _ \<Rightarrow> Inr [])"

definition forward_switch :: "pmsg \<Rightarrow> motor_call" where
  "forward_switch m = ConfigForwardLimitSwitchSource (getInt m FORWARD_LIMIT_SWITCH_SOURCE_FD)
     (getInt m FORWARD_LIMIT_SWITCH_NORMAL_FD)"

definition reverse_switch :: "pmsg \<Rightarrow> motor_call" where
  "reverse_switch m = ConfigReverseLimitSwitchSource (getInt m REVERSE_LIMIT_SWITCH_SOURCE_FD)
     (getInt m REVERSE_LIMIT_SWITCH_NORMAL_FD)"

definition limit_updates :: "(nat \<times> update_function) list" where
  "limit_updates =
     [(SUPPLY_CURRENT_LIMIT_CONFIG_FD, supply_current_update),
      (STATOR_CURRENT_LIMIT_CONFIG_FD, stator_current_update),
      (FORWARD_LIMIT_SWITCH_SOURCE_FD, command forward_switch),
      (FORWARD_LIMIT_SWITCH_NORMAL_FD, command forward_switch),
      (REVERSE_LIMIT_SWITCH_SOURCE_FD, command reverse_switch),
      (REVERSE_LIMIT_SWITCH_NORMAL_FD, command reverse_switch),
      (PEAK_OUTPUT_FORWARD_FD, command (\<lambda>m. ConfigPeakOutputForward (peak_forward m))),
      (PEAK_OUTPUT_REVERSE_FD, command (\<lambda>m. ConfigPeakOutputReverse (peak_reverse m)))]"

text \<open>The remote encoder is looked up in \<open>CKEncoderManager\<close> and used without a check.\<close>

definition feedback_update :: update_function where
  "feedback_update mType enc m =
     (if getInt m FEEDBACK_SENSOR_CAN_ID_FD > 0 then
        (case getEncoder (word_of_int (getInt m FEEDBACK_SENSOR_CAN_ID_FD)) enc of
           None \<Rightarrow> Inl NullDereference
         | Some canCoder \<Rightarrow>
             Inr [BothCalls (ConfigRemoteFeedbackFilterCANCoder canCoder) ConfigSelectedFeedbackSensorRemote0])
      else Inr [OneCall ConfigSelectedFeedbackSensorIntegrated])"

definition motor_updates :: "(nat \<times> update_function) list" where
  "motor_updates = gain_updates @ closed_loop_updates @ soft_limit_updates @ drive_updates
     @ limit_updates
     @ [(FEEDBACK_SENSOR_CAN_ID_FD, feedback_update),
        (ACTIVE_GAIN_SLOT_FD, command (\<lambda>m. SelectProfileSlot (getInt m ACTIVE_GAIN_SLOT_FD)))]"

definition motor_registered :: "nat \<Rightarrow> bool" where
  "motor_registered f \<longleftrightarrow> map_of motor_updates f \<noteq> None"

text \<open>\<open>onMotor(msg, ...)\<close> for each call of the reporter: nothing for a motor that is not there.\<close>

fun run_updates ::
  "(nat \<Rightarrow> error_code) \<Rightarrow> encoder_manager \<Rightarrow> pmsg \<Rightarrow> 'm motor_manager \<Rightarrow> nat list \<Rightarrow> motor_log
     \<Rightarrow> fault option \<times> motor_log" where
  "run_updates resp enc m mgr [] calls = (None, calls)"
| "run_updates resp enc m mgr (f # fs) calls =
     (case map_of motor_updates f of
        None \<Rightarrow> run_updates resp enc m mgr fs calls
      | Some upd \<Rightarrow>
          (if sm_count (mRegisteredMotorList mgr) (msg_id m) then
             (case upd (fst (sm_at TALON_FX (msg_id m) (mRegisteredMotorTypeList mgr))) enc m of
                Inl fault \<Rightarrow> (Some fault, calls)
              | Inr sts \<Rightarrow> run_updates resp enc m mgr fs (run_steps resp (msg_id m) sts calls))
           else run_updates resp enc m mgr fs calls))"

definition motor_differential ::
  "(nat \<Rightarrow> error_code) \<Rightarrow> encoder_manager \<Rightarrow> pmsg \<Rightarrow> pmsg \<Rightarrow> 'm motor_manager \<Rightarrow> motor_log
     \<Rightarrow> fault option \<times> motor_log" where
  "motor_differential resp enc prev m mgr calls =
     run_updates resp enc m mgr (differential_calls motor_registered prev m) calls"

section \<open>The task\<close>

text \<open>The loop over the motors of a message; \<open>n\<close> is their number. \<open>operator[]\<close> on the map of
  previous messages inserts an empty message for a motor it does not know.\<close>

fun motor_config_loop ::
  "(int \<Rightarrow> controller_mode) \<Rightarrow> (nat \<Rightarrow> error_code) \<Rightarrow> encoder_manager \<Rightarrow> nat \<Rightarrow> pmsg list
     \<Rightarrow> pmsg motor_manager \<Rightarrow> motor_log \<Rightarrow> fault option \<times> pmsg motor_manager \<times> motor_log" where
  "motor_config_loop modeOf resp enc n [] mgr calls = (None, mgr, calls)"
| "motor_config_loop modeOf resp enc n (m # ms) mgr calls =
     (if motorExists (msg_id m) mgr then
        (let prevs = mPrevMotorMsgs (motorConfigs mgr);
             store = (\<lambda>mgr. mgr\<lparr>motorConfigs := setPrevMotorConfigMsg (msg_id m) m (motorConfigs mgr)\<rparr>)
         in if n = length prevs then
              (let (prev, prevs1) = sm_at [] (msg_id m) prevs;
                   mgr1 = mgr\<lparr>motorConfigs := (motorConfigs mgr)\<lparr>mPrevMotorMsgs := prevs1\<rparr>\<rparr>
               in case motor_differential resp enc prev m mgr1 calls of
                    (Some fault, calls1) \<Rightarrow> (Some fault, mgr1, calls1)
                  | (None, calls1) \<Rightarrow> motor_config_loop modeOf resp enc n ms (store mgr1) calls1)
            else
              (case motor_fullUpdate modeOf resp m mgr calls of
                 (updateSuccessful, calls1) \<Rightarrow>
                   motor_config_loop modeOf resp enc n ms (if updateSuccessful then store mgr else mgr) calls1))
      else motor_config_loop modeOf resp enc n ms mgr calls)"

definition motor_config_run ::
  "(bytes \<Rightarrow> pmsg list option) \<Rightarrow> bool \<Rightarrow> (int \<Rightarrow> controller_mode) \<Rightarrow> (nat \<Rightarrow> error_code) \<Rightarrow> encoder_manager
     \<Rightarrow> network \<Rightarrow> pmsg motor_manager \<Rightarrow> motor_log
     \<Rightarrow> fault option \<times> network \<times> pmsg motor_manager \<times> motor_log" where
  "motor_config_run parse try_lock modeOf resp enc n mgr calls =
     (case getMessage ''motorconfig'' n of
        (None, n1) \<Rightarrow> (None, n1, mgr, calls)
      | (Some buf, n1) \<Rightarrow>
          (case parse buf of
             None \<Rightarrow> (None, n1, mgr, calls)
           | Some motors \<Rightarrow>
               (if try_lock then
                  (let mgr1 = mgr\<lparr>motorConfigs := setMotorsConfigMsg msg_id motors (motorConfigs mgr)\<rparr>
                   in case motor_config_loop modeOf resp enc (length motors) motors mgr1 calls of
                        (r, mgr2, calls1) \<Rightarrow> (r, n1, mgr2, calls1))
                else (None, n1, mgr, calls))))"


section \<open>Properties\<close>

lemma motor_differential_same: "motor_differential resp enc m m mgr calls = (None, calls)"
  by (simp add: motor_differential_def differential_calls_def compare_fields_same)

lemma setMotorsConfigMsg_prev [simp]: "mPrevMotorMsgs (setMotorsConfigMsg f ms c) = mPrevMotorMsgs c"
  by (simp add: setMotorsConfigMsg_def)

lemma motor_config_loop_settled:
  assumes "sm_ok (mPrevMotorMsgs (motorConfigs mgr))" and "n = length (mPrevMotorMsgs (motorConfigs mgr))"
    and "\<forall>m \<in> set ms. motorExists (msg_id m) mgr \<longrightarrow> sm_get (mPrevMotorMsgs (motorConfigs mgr)) (msg_id m) = Some m"
  shows "motor_config_loop modeOf resp enc n ms mgr calls = (None, mgr, calls)"
  using assms(3)
proof (induction ms)
  case (Cons m ms)
  show ?case
  proof (cases "motorExists (msg_id m) mgr")
    case True
    then have g: "sm_get (mPrevMotorMsgs (motorConfigs mgr)) (msg_id m) = Some m" using Cons.prems by simp
    then have "sm_put (msg_id m) m (mPrevMotorMsgs (motorConfigs mgr)) = mPrevMotorMsgs (motorConfigs mgr)"
      using assms(1) by (simp add: sm_put_same)
    then show ?thesis
      using True g assms(2) Cons by (simp add: sm_at_def motor_differential_same setPrevMotorConfigMsg_def)
  qed (use Cons in simp)
qed simp

text \<open>C14. Configuration settles: when a message names as many motors as there are stored
  configurations, and the configuration stored for each registered motor it names is exactly the one in
  the message, processing it sends no command to any talon and leaves the registered motors and the
  stored configurations as they are.\<close>

theorem motor_config_settles:
  assumes "motor_ok mgr" and "waiting net0 ''motorconfig'' = Some buf" and "parse buf = Some motors"
    and "length motors = length (mPrevMotorMsgs (motorConfigs mgr))"
    and "\<forall>m \<in> set motors. motorExists (msg_id m) mgr \<longrightarrow> sm_get (mPrevMotorMsgs (motorConfigs mgr)) (msg_id m) = Some m"
    and "motor_config_run parse True modeOf resp enc net0 mgr calls = (r, net1, mgr', calls')"
  shows "r = None \<and> calls' = calls \<and> mRegisteredMotorList mgr' = mRegisteredMotorList mgr
    \<and> mPrevMotorMsgs (motorConfigs mgr') = mPrevMotorMsgs (motorConfigs mgr)"
proof -
  obtain n1 where g: "getMessage ''motorconfig'' net0 = (Some buf, n1)"
    using assms(2) by (metis getMessage_result prod.collapse)
  let ?mgr = "mgr\<lparr>motorConfigs := setMotorsConfigMsg msg_id motors (motorConfigs mgr)\<rparr>"
  have "motor_config_loop modeOf resp enc (length motors) motors ?mgr calls = (None, ?mgr, calls)"
    using motor_ok_maps[OF assms(1)] assms(4,5)
    by (intro motor_config_loop_settled) (auto simp: motorExists_def)
  then show ?thesis
    using assms(3,6) g by (auto simp: motor_config_run_def Let_def)
qed

theorem motor_config_settles_witness:
  "let m = [(1, PInt 2), (4, PNum 3)];
       mgr = \<lparr>mRegisteredMotorList = [(2, TalonSRX 2)], mRegisteredMotorTypeList = [(2, TALON_SRX)],
              mRegisteredMotorHeartbeatList = [(2, 5)],
              motorConfigs = \<lparr>mMotorMsgs = [], mPrevMotorMsgs = [(2, m)]\<rparr>\<rparr>
   in snd (snd (snd (motor_config_run (\<lambda>b. Some [m]) True (\<lambda>k. MASTER) (\<lambda>k. OK) CKEncoderManager_new
        (snd (placeFailoverMessage ''motorconfig'' [] NetworkManager_new)) mgr []))) = []"
proof -
  let ?m = "[(1, PInt 2), (4, PNum 3)]"
  let ?mgr = "\<lparr>mRegisteredMotorList = [(2, TalonSRX 2)], mRegisteredMotorTypeList = [(2, TALON_SRX)],
              mRegisteredMotorHeartbeatList = [(2, 5)],
              motorConfigs = \<lparr>mMotorMsgs = [], mPrevMotorMsgs = [(2, ?m)]\<rparr>\<rparr>"
  let ?n = "snd (placeFailoverMessage ''motorconfig'' [] NetworkManager_new)"
  have ok: "motor_ok ?mgr"
    by (auto simp: motor_ok_def sm_ok_def sm_get_def sm_count_def kMaxHeartbeatTicks_def)
  have w: "waiting ?n ''motorconfig'' = Some []" by simp
  obtain r n1 mgr' calls' where x: "motor_config_run (\<lambda>b. Some [?m]) True (\<lambda>k. MASTER) (\<lambda>k. OK)
      CKEncoderManager_new ?n ?mgr [] = (r, n1, mgr', calls')"
    by (metis prod_cases4)
  have "calls' = []"
    using motor_config_settles[OF ok w _ _ _ x, of "[?m]"]
    by (simp add: msg_id_def getInt_def ID_FD_def sm_get_def)
  then show ?thesis by (simp only: Let_def x snd_conv)
qed

text \<open>The steps registered for a field, when they do not fault.\<close>

definition update_steps :: "nat \<Rightarrow> motor_type \<Rightarrow> encoder_manager \<Rightarrow> pmsg \<Rightarrow> motor_step list" where
  "update_steps f mType enc m =
     (case map_of motor_updates f of
        None \<Rightarrow> []
      | Some upd \<Rightarrow> (case upd mType enc m of Inl _ \<Rightarrow> [] | Inr sts \<Rightarrow> sts))"

lemmas motor_update_defs =
  motor_updates_def gain_updates_def closed_loop_updates_def soft_limit_updates_def
  drive_updates_def limit_updates_def command_def supply_current_update_def
  stator_current_update_def forward_switch_def reverse_switch_def feedback_update_def

lemmas full_update_defs =
  full_update_steps_def full_update_common_def full_update_master_def
  full_update_current_limits_def frame_steps_def full_update_frames_def

text \<open>A fact about the steps of every field, checked entry by entry.\<close>

lemma update_steps_cases:
  assumes "st \<in> set (update_steps f mType enc m)"
    and "list_all (\<lambda>(f', upd). case upd mType enc m of
           Inl _ \<Rightarrow> True | Inr sts \<Rightarrow> f' = f \<longrightarrow> (\<forall>st \<in> set sts. P st)) motor_updates"
  shows "P st"
proof -
  obtain upd sts where "map_of motor_updates f = Some upd" "upd mType enc m = Inr sts" "st \<in> set sts"
  proof (cases "map_of motor_updates f")
    case None
    then show thesis using assms(1) by (simp add: update_steps_def)
  next
    case (Some upd)
    then show thesis using assms(1) that by (cases "upd mType enc m") (auto simp: update_steps_def)
  qed
  then show ?thesis
    using assms(2) map_of_SomeD[of motor_updates f upd] by (force simp: list_all_iff)
qed

text \<open>C22. The differential update refines the full one: for every field but four, the commands its
  update function sends for a motor that is not a follower are commands that a full update of the
  same message sends. The exceptions are the closed-loop peak output, the feedback sensor, its
  coefficient and the sensor phase.\<close>

theorem motor_differential_refines_full:
  assumes "modeOf (getInt m CONTROLLER_MODE_FD) \<noteq> SLAVE"
    and "f \<notin> {MAX_CLOSED_LOOP_PEAK_OUTPUT_FD, FEEDBACK_SENSOR_CAN_ID_FD,
              FEEDBACK_SENSOR_COEFFICIENT_FD, SENSOR_PHASE_INVERTED_FD}"
  shows "set (update_steps f mType enc m) \<subseteq> set (full_update_steps modeOf mType m)"
proof
  fix st
  assume "st \<in> set (update_steps f mType enc m)"
  moreover have "MAX_CLOSED_LOOP_PEAK_OUTPUT_FD \<noteq> f" "FEEDBACK_SENSOR_CAN_ID_FD \<noteq> f"
    "FEEDBACK_SENSOR_COEFFICIENT_FD \<noteq> f" "SENSOR_PHASE_INVERTED_FD \<noteq> f"
    using assms(2) by auto
  ultimately show "st \<in> set (full_update_steps modeOf mType m)"
    by (elim update_steps_cases)
      (simp add: motor_update_defs full_update_defs Let_def assms(1)
        split: motor_type.split option.split sum.split)
qed

theorem motor_differential_refines_full_witness:
  "set (update_steps KP_FD TALON_FX CKEncoderManager_new [(1, PInt 2), (4, PNum 3)])
     \<subseteq> set (full_update_steps (\<lambda>k. MASTER) TALON_FX [(1, PInt 2), (4, PNum 3)])"
  by (rule motor_differential_refines_full) (simp_all add: motor_field_defs)

text \<open>A configuration can never switch a motor off by its output limits: every forward peak
  output sent to a talon, by a full or a differential update, is at least 0.04 and every reverse
  one at most -0.04, whatever the message holds.\<close>

theorem motor_peak_outputs_usable:
  assumes "OneCall c \<in> set (full_update_steps modeOf mType m) \<union> set (update_steps f mType enc m)"
  shows "(c = ConfigPeakOutputForward x \<longrightarrow> 4 / 100 \<le> x) \<and> (c = ConfigPeakOutputReverse x \<longrightarrow> x \<le> - 4 / 100)"
proof -
  have "(c = ConfigPeakOutputForward x \<longrightarrow> x = peak_forward m) \<and> (c = ConfigPeakOutputReverse x \<longrightarrow> x = peak_reverse m)"
    using assms
  proof
    assume "OneCall c \<in> set (full_update_steps modeOf mType m)"
    then show ?thesis
      by (auto simp: full_update_defs full_update_feedback_def Let_def
          split: if_splits motor_type.splits controller_mode.splits)
  next
    assume "OneCall c \<in> set (update_steps f mType enc m)"
    then have "\<exists>c'. OneCall c = OneCall c' \<and>
        (c' = ConfigPeakOutputForward x \<longrightarrow> x = peak_forward m) \<and> (c' = ConfigPeakOutputReverse x \<longrightarrow> x = peak_reverse m)
        \<or> (\<exists>d e. OneCall c = BothCalls d e)"
      by (rule update_steps_cases)
        (auto simp: motor_update_defs split: motor_type.split option.split)
    then show ?thesis by auto
  qed
  moreover have "4 / 100 \<le> peak_forward m" "peak_reverse m \<le> - 4 / 100"
    by (auto simp: peak_forward_def peak_reverse_def)
  ultimately show ?thesis by auto
qed

theorem motor_peak_outputs_usable_witness:
  "OneCall (ConfigPeakOutputForward 1) \<in> set (full_update_steps (\<lambda>k. MASTER) TALON_FX [])
   \<and> (4 / 100 :: real) \<le> 1"
proof -
  have "OneCall (ConfigPeakOutputForward 1) \<in> set (full_update_steps (\<lambda>k. MASTER) TALON_FX [])"
    by (simp add: full_update_defs peak_forward_def getNum_def)
  with motor_peak_outputs_usable[of "ConfigPeakOutputForward 1" "\<lambda>k. MASTER" TALON_FX "[]" 0 CKEncoderManager_new 1]
  show ?thesis by simp
qed

text \<open>The two paths disagree on the closed-loop peak output: a full update replaces a value
  below 0.01 by 1, the differential update sends the value itself, so a changed setting of, say,
  0.005 leaves the motor with almost no closed-loop output.\<close>

theorem motor_closed_loop_peak_diverges:
  assumes "getNum m MAX_CLOSED_LOOP_PEAK_OUTPUT_FD = x" and "x < 1 / 100"
    and "modeOf (getInt m CONTROLLER_MODE_FD) \<noteq> SLAVE"
  shows "update_steps MAX_CLOSED_LOOP_PEAK_OUTPUT_FD mType enc m = [OneCall (ConfigClosedLoopPeakOutput x)]
    \<and> OneCall (ConfigClosedLoopPeakOutput 1) \<in> set (full_update_steps modeOf mType m)
    \<and> OneCall (ConfigClosedLoopPeakOutput x) \<notin> set (full_update_steps modeOf mType m)"
  using assms
  by (auto simp: update_steps_def motor_update_defs motor_field_defs full_update_defs
      full_update_feedback_def Let_def split: if_splits motor_type.splits controller_mode.splits)

theorem motor_closed_loop_peak_diverges_witness:
  "update_steps MAX_CLOSED_LOOP_PEAK_OUTPUT_FD TALON_FX CKEncoderManager_new [(11, PNum (5 / 1000))]
     = [OneCall (ConfigClosedLoopPeakOutput (5 / 1000))]"
  using motor_closed_loop_peak_diverges[of "[(11, PNum (5 / 1000))]" "5 / 1000" "\<lambda>k. MASTER" TALON_FX CKEncoderManager_new]
  by (simp add: getNum_def MAX_CLOSED_LOOP_PEAK_OUTPUT_FD_def)

lemma run_updates_fault:
  assumes "FEEDBACK_SENSOR_CAN_ID_FD \<in> set fs" and "getInt m FEEDBACK_SENSOR_CAN_ID_FD > 0"
    and "getEncoder (word_of_int (getInt m FEEDBACK_SENSOR_CAN_ID_FD)) enc = None"
    and "sm_count (mRegisteredMotorList mgr) (msg_id m)"
  shows "fst (run_updates resp enc m mgr fs calls) = Some NullDereference"
  using assms(1)
proof (induction fs arbitrary: calls)
  case (Cons f fs)
  have fb: "map_of motor_updates FEEDBACK_SENSOR_CAN_ID_FD = Some feedback_update"
    by (simp add: motor_updates_def gain_updates_def closed_loop_updates_def soft_limit_updates_def
        drive_updates_def limit_updates_def motor_field_defs)
  have flt: "upd mType enc m = Inl fault \<Longrightarrow> fault = NullDereference" if "map_of motor_updates f = Some upd"
    for upd mType fault
  proof -
    have "list_all (\<lambda>(f', upd). \<forall>e. upd mType enc m = Inl e \<longrightarrow> e = NullDereference) motor_updates"
      by (auto simp: motor_update_defs split: motor_type.split option.split if_splits)
    then show "upd mType enc m = Inl fault \<Longrightarrow> fault = NullDereference"
      using map_of_SomeD[OF that] by (force simp: list_all_iff)
  qed
  show ?case
  proof (cases "f = FEEDBACK_SENSOR_CAN_ID_FD")
    case True
    then show ?thesis using assms(2-4) fb by (simp add: feedback_update_def)
  next
    case False
    then show ?thesis
      using Cons assms(4) flt by (auto split: option.split sum.split)
  qed
qed simp

text \<open>C40. Changing a motor's feedback encoder by a differential update dereferences a null pointer
  whenever that encoder is not registered, whatever else the message changes. No scheduled task
  registers encoders, so this holds for every encoder id.\<close>

theorem motor_feedback_change_crashes:
  assumes "motorExists (msg_id m) mgr"
    and "FEEDBACK_SENSOR_CAN_ID_FD \<in> set (differential_calls motor_registered prev m)"
    and "getInt m FEEDBACK_SENSOR_CAN_ID_FD > 0"
    and "getEncoder (word_of_int (getInt m FEEDBACK_SENSOR_CAN_ID_FD)) enc = None"
  shows "fst (motor_differential resp enc prev m mgr calls) = Some NullDereference"
  using assms run_updates_fault by (auto simp: motor_differential_def motorExists_def)

theorem motor_feedback_change_crashes_witness:
  "fst (motor_differential (\<lambda>k. OK) CKEncoderManager_new [(1, PInt 2)] [(1, PInt 2), (36, PInt 9)]
     \<lparr>mRegisteredMotorList = [(2, TalonSRX 2)], mRegisteredMotorTypeList = [(2, TALON_SRX)],
      mRegisteredMotorHeartbeatList = [(2, 5)],
      motorConfigs = \<lparr>mMotorMsgs = [], mPrevMotorMsgs = [] :: (u16, pmsg) std_map\<rparr>\<rparr> []) = Some NullDereference"
proof (rule motor_feedback_change_crashes)
  have "motor_registered 36"
    by (simp add: motor_registered_def motor_updates_def gain_updates_def closed_loop_updates_def
        soft_limit_updates_def drive_updates_def limit_updates_def motor_field_defs)
  moreover have "differential_calls motor_registered [(1, PInt 2)] [(1, PInt 2), (36, PInt 9)]
      = filter (\<lambda>f. motor_registered f \<and> map_of [(1, PInt 2)] f \<noteq> map_of [(1, PInt 2), (36, PInt 9)] f)
          (map fst [(1, PInt 2), (36, PInt 9)])"
    unfolding differential_calls_def by (rule calls_fields) (simp_all add: msg_ok_def no_lists_def)
  ultimately show "FEEDBACK_SENSOR_CAN_ID_FD \<in> set (differential_calls motor_registered [(1, PInt 2)] [(1, PInt 2), (36, PInt 9)])"
    by (simp add: FEEDBACK_SENSOR_CAN_ID_FD_def)
qed (simp_all add: motorExists_def msg_id_def getInt_def motor_field_defs sm_count_def sm_get_def
    getEncoder_def CKEncoderManager_new_def)

section \<open>The task keeps the tables consistent\<close>

lemma motor_ok_configs:
  "motor_ok s \<Longrightarrow> sm_ok (mMotorMsgs c) \<Longrightarrow> sm_ok (mPrevMotorMsgs c) \<Longrightarrow> motor_ok (s\<lparr>motorConfigs := c\<rparr>)"
  by (simp add: motor_ok_def cong: option.case_cong)

lemma motor_ok_config_loop:
  assumes "motor_ok mgr" and "motor_config_loop modeOf resp enc n ms mgr calls = (r, mgr', calls')"
  shows "motor_ok mgr'"
  using assms
proof (induction ms arbitrary: mgr calls)
  case (Cons m ms)
  let ?store = "\<lambda>mgr. mgr\<lparr>motorConfigs := setPrevMotorConfigMsg (msg_id m) m (motorConfigs mgr)\<rparr>"
  let ?at = "sm_at [] (msg_id m) (mPrevMotorMsgs (motorConfigs mgr))"
  let ?mgr1 = "mgr\<lparr>motorConfigs := (motorConfigs mgr)\<lparr>mPrevMotorMsgs := snd ?at\<rparr>\<rparr>"
  have store: "motor_ok (?store s)" if "motor_ok s" for s :: "pmsg motor_manager"
    using that motor_ok_maps[OF that] by (intro motor_ok_configs) (simp_all add: setPrevMotorConfigMsg_def)
  have mgr1: "motor_ok ?mgr1"
    using Cons.prems(1) motor_ok_maps[OF Cons.prems(1)] by (intro motor_ok_configs) simp_all
  from Cons.prems(2) consider "mgr' = ?mgr1"
    | calls1 where "motor_config_loop modeOf resp enc n ms (?store ?mgr1) calls1 = (r, mgr', calls')"
    | calls1 where "motor_config_loop modeOf resp enc n ms (?store mgr) calls1 = (r, mgr', calls')"
    | calls1 where "motor_config_loop modeOf resp enc n ms mgr calls1 = (r, mgr', calls')"
    by (auto simp: Let_def split_beta split: if_splits option.splits prod.splits)
  then show ?case
    by cases (use mgr1 store Cons.IH Cons.prems(1) in blast)+
qed simp

lemma motor_ok_config_task:
  assumes "motor_ok mgr" and "motor_config_run parse try_lock modeOf resp enc n mgr calls = (r, n', mgr', calls')"
  shows "motor_ok mgr'"
proof -
  have "motor_ok (mgr\<lparr>motorConfigs := setMotorsConfigMsg msg_id ms (motorConfigs mgr)\<rparr>)" for ms
  proof (rule motor_ok_configs[OF assms(1)])
    show "sm_ok (mMotorMsgs (setMotorsConfigMsg msg_id ms (motorConfigs mgr)))"
      using motor_ok_maps[OF assms(1)]
      by (auto simp: setMotorsConfigMsg_def intro!: fold_invariant_list[where P = sm_ok])
  qed (use motor_ok_maps[OF assms(1)] in simp)
  with assms show ?thesis
    by (auto simp: motor_config_run_def Let_def split: prod.splits option.splits if_splits
        intro: motor_ok_config_loop)
qed

lemma motor_config_task_network:
  "fst (snd (motor_config_run parse try_lock modeOf resp enc n mgr calls)) = snd (getMessage ''motorconfig'' n)"
  by (simp add: motor_config_run_def Let_def split: prod.split option.split)

end
