(* ===== verification/Motor_Values.thy ===== *)
theory Motor_Values
  imports Motor_Manager Network_Manager Timers
begin

text \<open>
  \<open>tasks/ApplyMotorValuesTask\<close>: the control messages of the coprocessor (or of the failover code)
  applied to the talons. A call on a talon is an entry of a log, with the id of the talon; the mode
  a talon reports (\<open>GetControlMode\<close>) is the parameter \<open>currentMode\<close>, a function of the calls made
  so far. Parsing the message and reading the bus out of a configuration message are parameters.
\<close>

datatype control_mode = PercentOutput | Position | Velocity | Follower | OtherControlMode int

record motor_control =
  mv_id :: int
  mv_controller_type :: motor_type
  mv_control_mode :: control_mode
  mv_output_value :: cdouble
  mv_arbitrary_feedforward :: cdouble

datatype talon_cmd =
    CmdSet control_mode cdouble cdouble
  | CmdSetPercent real
  | CmdFollow talon

type_synonym talon_log = "(u16 \<times> talon_cmd) list"

definition mv_key :: "motor_control \<Rightarrow> u16" where
  "mv_key m = word_of_int (mv_id m)"

section \<open>One motor\<close>

text \<open>The function handed to \<open>onMotor\<close>. The master id is the output value converted to 16 bits,
  which the caller has already converted once.\<close>

definition apply_motor_value ::
  "(talon_log \<Rightarrow> u16 \<Rightarrow> control_mode) \<Rightarrow> 'm motor_manager \<Rightarrow> motor_control \<Rightarrow> u16 \<Rightarrow> talon_log \<Rightarrow> talon_log" where
  "apply_motor_value currentMode mgr m i calls =
     (if mv_control_mode m \<noteq> Follower then
        (if \<not> isinf (mv_output_value m) \<and> \<not> isnan (mv_output_value m) then
           calls @ [(i, CmdSet (mv_control_mode m) (mv_output_value m) (mv_arbitrary_feedforward m))]
         else calls)
      else
        (case double_to_u16 (mv_output_value m) of
           None \<Rightarrow> calls
         | Some master \<Rightarrow>
             (case getMotor master mgr of
                None \<Rightarrow> calls
              | Some motorMaster \<Rightarrow>
                  (if currentMode calls i \<noteq> Follower then calls @ [(i, CmdFollow motorMaster)]
                   else calls))))"

text \<open>The guard: a follower needs its master. Converting an output value outside the 16-bit range
  is undefined behaviour.\<close>

definition motor_value_guard :: "motor_control \<Rightarrow> 'm motor_manager \<Rightarrow> fault + bool" where
  "motor_value_guard m mgr =
     (if mv_control_mode m = Follower then
        (case double_to_u16 (mv_output_value m) of
           None \<Rightarrow> Inl UndefinedBehaviour
         | Some master \<Rightarrow> Inr (motorExists master mgr))
      else Inr True)"

fun apply_motor_values ::
  "(talon_log \<Rightarrow> u16 \<Rightarrow> control_mode) \<Rightarrow> ('m \<Rightarrow> can_interface) \<Rightarrow> motor_control list
     \<Rightarrow> 'm motor_manager \<Rightarrow> talon_log \<Rightarrow> fault option \<times> 'm motor_manager \<times> talon_log" where
  "apply_motor_values currentMode canOf [] mgr calls = (None, mgr, calls)"
| "apply_motor_values currentMode canOf (m # ms) mgr calls =
     (case sm_get (mMotorMsgs (motorConfigs mgr)) (mv_key m) of
        None \<Rightarrow> apply_motor_values currentMode canOf ms mgr calls
      | Some config \<Rightarrow>
          (case motor_value_guard m mgr of
             Inl f \<Rightarrow> (Some f, mgr, calls)
           | Inr False \<Rightarrow> apply_motor_values currentMode canOf ms mgr calls
           | Inr True \<Rightarrow>
               (let mgr1 = registerMotor (mv_key m) (mv_controller_type m) (canOf config) mgr
                in apply_motor_values currentMode canOf ms mgr1
                     (onMotor (mv_key m) mgr1
                        (\<lambda>i dev mType. apply_motor_value currentMode mgr1 m i) calls))))"

section \<open>The task\<close>

definition stop_masters ::
  "(talon_log \<Rightarrow> u16 \<Rightarrow> control_mode) \<Rightarrow> 'm motor_manager \<Rightarrow> talon_log \<Rightarrow> talon_log" where
  "stop_masters currentMode mgr calls =
     motor_forEach mgr (\<lambda>i dev mType calls.
        if currentMode calls i \<noteq> Follower then calls @ [(i, CmdSetPercent 0)] else calls) calls"

definition motor_values_run ::
  "(bytes \<Rightarrow> motor_control list option) \<Rightarrow> bool \<Rightarrow> bool \<Rightarrow> u64
     \<Rightarrow> (talon_log \<Rightarrow> u16 \<Rightarrow> control_mode) \<Rightarrow> ('m \<Rightarrow> can_interface)
     \<Rightarrow> network \<Rightarrow> rt_timer \<Rightarrow> 'm motor_manager \<Rightarrow> talon_log
     \<Rightarrow> fault option \<times> network \<times> rt_timer \<times> 'm motor_manager \<times> talon_log" where
  "motor_values_run parse try_lock isDisabled now currentMode canOf n rtTimer mgr calls =
     (let (r, n1, t1, mgr1, calls1) =
        (case getMessage ''motorcontrol'' n of
           (None, n1) \<Rightarrow> (None, n1, rtTimer, mgr, calls)
         | (Some buf, n1) \<Rightarrow>
             (case (case parse buf of
                      None \<Rightarrow> (None, mgr, calls)
                    | Some motors \<Rightarrow>
                        (if try_lock then apply_motor_values currentMode canOf motors mgr calls
                         else (None, mgr, calls))) of
                (Some f, mgr1, calls1) \<Rightarrow> (Some f, n1, rtTimer, mgr1, calls1)
              | (None, mgr1, calls1) \<Rightarrow> (None, n1, RTTimer_start now rtTimer, mgr1, calls1)))
      in if r \<noteq> None then (r, n1, t1, mgr1, calls1)
         else (None, n1, t1, mgr1, if isDisabled then stop_masters currentMode mgr1 calls1 else calls1))"


section \<open>The loop\<close>

lemma registerMotor_configs [simp]: "motorConfigs (registerMotor i t c s) = motorConfigs s"
  by (simp add: registerMotor_def Let_def split: motor_type.split)

lemma getMotor_register:
  "motor_ok s \<Longrightarrow> getMotor j s = Some dev \<Longrightarrow> getMotor j (registerMotor i t c s) = Some dev"
  by (drule motor_ok_maps)
    (auto simp: getMotor_def registerMotor_def Let_def sm_count_def split: motor_type.split if_splits)

lemma motorExists_getMotor: "motorExists i s \<longleftrightarrow> getMotor i s \<noteq> None"
  by (auto simp: motorExists_def getMotor_def sm_count_def)

lemma motorExists_register:
  assumes "motor_ok s"
  shows "motorExists j (registerMotor i t c s)
    \<longleftrightarrow> motorExists j s \<or> j = i \<and> i < 64 \<and> t \<in> {TALON_FX, TALON_SRX}"
  using motors.live_register[OF assms, where r = "(i, t, c)" and k = j]
  by (auto simp: motor_register_def motor_request_id_def motor_creates_def)

lemma ticks_registerMotor:
  assumes "motor_ok s"
  shows "sm_get (mRegisteredMotorHeartbeatList (registerMotor i t c s)) j =
    (if j = i \<and> i < 64 \<and> (motorExists i s \<or> t \<in> {TALON_FX, TALON_SRX}) then Some kMaxHeartbeatTicks
     else sm_get (mRegisteredMotorHeartbeatList s) j)"
  using motors.ticks_register[OF assms, where r = "(i, t, c)" and k = j]
  by (simp add: motor_register_def motor_request_id_def motor_accepts_def)

lemma onMotor_cases:
  obtains "\<not> motorExists i s" and "onMotor i s f w = w"
  | dev t where "motorExists i s" and "onMotor i s f w = f i dev t w"
  by (cases "sm_get (mRegisteredMotorList s) i")
    (auto simp: onMotor_def motorExists_def sm_count_def)

text \<open>The loop as a case split on its first message: skipped, a fault, or applied.\<close>

lemma apply_motor_values_cases:
  assumes "apply_motor_values currentMode canOf (m # ms) mgr calls = (r, mgr', calls')"
  obtains (skip) "apply_motor_values currentMode canOf ms mgr calls = (r, mgr', calls')"
      and "sm_get (mMotorMsgs (motorConfigs mgr)) (mv_key m) = None \<or> motor_value_guard m mgr = Inr False"
  | (fault) f where "r = Some f" and "mgr' = mgr" and "calls' = calls" and "motor_value_guard m mgr = Inl f"
  | (applied) config mgr1 where "sm_get (mMotorMsgs (motorConfigs mgr)) (mv_key m) = Some config"
      and "motor_value_guard m mgr = Inr True"
      and "mgr1 = registerMotor (mv_key m) (mv_controller_type m) (canOf config) mgr"
      and "apply_motor_values currentMode canOf ms mgr1
             (onMotor (mv_key m) mgr1 (\<lambda>i dev mType. apply_motor_value currentMode mgr1 m i) calls)
           = (r, mgr', calls')"
  using assms by (auto simp: Let_def split: option.splits sum.splits bool.splits)

declare apply_motor_values.simps(2) [simp del]

lemma apply_motor_values_frame:
  assumes "motor_ok mgr" and "apply_motor_values currentMode canOf ms mgr calls = (r, mgr', calls')"
  shows "motor_ok mgr' \<and> motorConfigs mgr' = motorConfigs mgr
    \<and> (getMotor j mgr = Some dev \<longrightarrow> getMotor j mgr' = Some dev)
    \<and> (sm_get (mRegisteredMotorHeartbeatList mgr) j = Some kMaxHeartbeatTicks
         \<longrightarrow> sm_get (mRegisteredMotorHeartbeatList mgr') j = Some kMaxHeartbeatTicks)"
  using assms
proof (induction ms arbitrary: mgr calls)
  case (Cons m ms)
  show ?case
    using Cons.prems(2)
  proof (cases rule: apply_motor_values_cases)
    case skip
    with Cons.IH[OF Cons.prems(1)] show ?thesis by simp
  next
    case fault
    with Cons.prems(1) show ?thesis by simp
  next
    case (applied config mgr1)
    then have "motor_ok mgr1" using Cons.prems(1) by (simp add: motor_ok_register)
    with Cons.IH[OF this applied(4)] applied(3) getMotor_register[OF Cons.prems(1), of j dev]
      ticks_registerMotor[OF Cons.prems(1), of "mv_key m" "mv_controller_type m" _ j]
    show ?thesis by auto
  qed
qed simp

lemma onMotor_value_prefix:
  "\<exists>new. onMotor j mgr (\<lambda>i dev mType. apply_motor_value currentMode mgr m i) calls = calls @ new"
  by (auto simp: onMotor_def apply_motor_value_def split: option.split)

lemma motor_values_prefix:
  assumes "motor_ok mgr" and "apply_motor_values currentMode canOf ms mgr calls = (r, mgr', calls')"
  shows "\<exists>new. calls' = calls @ new"
  using assms
proof (induction ms arbitrary: mgr calls)
  case (Cons m ms)
  show ?case
    using Cons.prems(2)
  proof (cases rule: apply_motor_values_cases)
    case (applied config mgr1)
    obtain new where "onMotor (mv_key m) mgr1 (\<lambda>i dev mType. apply_motor_value currentMode mgr1 m i) calls = calls @ new"
      using onMotor_value_prefix by blast
    with Cons.IH[OF _ applied(4)] applied(3) Cons.prems(1) show ?thesis
      by (auto simp: motor_ok_register)
  qed (use Cons in auto)
qed simp

section \<open>Properties\<close>

definition command_legal :: "'m motor_manager \<Rightarrow> talon_cmd \<Rightarrow> bool" where
  "command_legal mgr c =
     (case c of
        CmdSet md v ff \<Rightarrow> md \<noteq> Follower \<and> \<not> isinf v \<and> \<not> isnan v
      | CmdFollow master \<Rightarrow> master \<in> snd ` set (mRegisteredMotorList mgr)
      | CmdSetPercent x \<Rightarrow> x = 0)"

lemma getMotor_in: "motor_ok s \<Longrightarrow> getMotor j s = Some dev \<Longrightarrow> (j, dev) \<in> set (mRegisteredMotorList s)"
  by (drule motor_ok_maps) (auto simp: getMotor_def sm_get_in_set split: if_splits)

lemma command_legal_mono:
  assumes "motor_ok s" "motor_ok s'" "command_legal s c"
    and "\<And>j dev. getMotor j s = Some dev \<Longrightarrow> getMotor j s' = Some dev"
  shows "command_legal s' c"
proof (cases c)
  case (CmdFollow master)
  then obtain j where "(j, master) \<in> set (mRegisteredMotorList s)"
    using assms(3) by (auto simp: command_legal_def)
  then have "getMotor j s = Some master"
    using motor_ok_maps[OF assms(1)] by (auto simp: getMotor_def sm_count_def sm_get_in_set)
  from getMotor_in[OF assms(2) assms(4)[OF this]] CmdFollow show ?thesis
    by (force simp: command_legal_def)
qed (use assms(3) in \<open>auto simp: command_legal_def\<close>)

lemma apply_motor_value_legal:
  assumes "motor_ok mgr"
  shows "apply_motor_value currentMode mgr m i calls = calls
    \<or> (\<exists>c. apply_motor_value currentMode mgr m i calls = calls @ [(i, c)] \<and> command_legal mgr c)"
proof -
  have "command_legal mgr (CmdFollow dev)" if "getMotor j mgr = Some dev" for j dev
    using getMotor_in[OF assms that] by (force simp: command_legal_def)
  moreover have "command_legal mgr (CmdSet (mv_control_mode m) (mv_output_value m) (mv_arbitrary_feedforward m))"
    if "mv_control_mode m \<noteq> Follower" "\<not> isinf (mv_output_value m)" "\<not> isnan (mv_output_value m)"
    using that by (simp add: command_legal_def)
  ultimately show ?thesis
    by (simp add: apply_motor_value_def split: option.split)
qed

text \<open>The loop commands a motor only if the message names it and a configuration message did before.\<close>

lemma apply_values_guarded:
  assumes "motor_ok mgr" and "apply_motor_values currentMode canOf ms mgr calls = (r, mgr', calls')"
  shows "\<exists>new. calls' = calls @ new \<and> (\<forall>(i, c) \<in> set new.
    i \<in> mv_key ` set ms \<and> sm_count (mMotorMsgs (motorConfigs mgr)) i
    \<and> motorExists i mgr' \<and> command_legal mgr' c)"
  using assms
proof (induction ms arbitrary: mgr calls)
  case (Cons m ms)
  show ?case
    using Cons.prems(2)
  proof (cases rule: apply_motor_values_cases)
    case skip
    with Cons.IH[OF Cons.prems(1) skip(1)] show ?thesis by auto
  next
    case (applied config mgr1)
    then have ok1: "motor_ok mgr1" using Cons.prems(1) by (simp add: motor_ok_register)
    let ?calls = "onMotor (mv_key m) mgr1 (\<lambda>i dev mType. apply_motor_value currentMode mgr1 m i) calls"
    obtain new where new: "calls' = ?calls @ new"
      "\<forall>(i, c) \<in> set new. i \<in> mv_key ` set ms \<and> sm_count (mMotorMsgs (motorConfigs mgr1)) i
        \<and> motorExists i mgr' \<and> command_legal mgr' c"
      using Cons.IH[OF ok1 applied(4)] by blast
    have fr: "motor_ok mgr'" "\<And>j dev. getMotor j mgr1 = Some dev \<Longrightarrow> getMotor j mgr' = Some dev"
      using apply_motor_values_frame[OF ok1 applied(4)] by auto
    consider "?calls = calls"
      | c where "?calls = calls @ [(mv_key m, c)]" "command_legal mgr1 c" "motorExists (mv_key m) mgr1"
      by (rule onMotor_cases[of "mv_key m" mgr1 "\<lambda>i dev mType. apply_motor_value currentMode mgr1 m i" calls])
        (use apply_motor_value_legal[OF ok1, of currentMode m "mv_key m" calls] in auto)
    then show ?thesis
    proof cases
      case 1
      with new applied(3) show ?thesis by auto
    next
      case 2
      have "command_legal mgr' c" by (rule command_legal_mono[OF ok1 fr(1) 2(2) fr(2)])
      moreover have "motorExists (mv_key m) mgr'"
        using 2(3) fr(2) by (auto simp: motorExists_getMotor)
      ultimately show ?thesis
        using new 2(1) applied(1,3) by (intro exI[of _ "(mv_key m, c) # new"]) (auto simp: sm_count_def)
    qed
  qed simp
qed simp

text \<open>The stops of disabled mode: for each registered motor that does not follow, a percent output of zero.\<close>

lemma stop_masters_calls:
  "\<exists>new. stop_masters currentMode mgr calls = calls @ new
     \<and> (\<forall>(i, c) \<in> set new. i \<in> fst ` set (mRegisteredMotorList mgr) \<and> c = CmdSetPercent 0)"
proof -
  have "\<exists>new. fold (\<lambda>(i, dev) calls. if currentMode calls i \<noteq> Follower then calls @ [(i, CmdSetPercent 0)] else calls) devs calls
      = calls @ new \<and> (\<forall>(i, c) \<in> set new. i \<in> fst ` set devs \<and> c = CmdSetPercent 0)" for devs :: "(u16 \<times> talon) list"
  proof (induction devs arbitrary: calls)
    case (Cons d devs)
    obtain j dev where d: "d = (j, dev)" by fastforce
    define calls1 where "calls1 = (if currentMode calls j \<noteq> Follower then calls @ [(j, CmdSetPercent 0)] else calls)"
    obtain new where "fold (\<lambda>(i, dev) calls. if currentMode calls i \<noteq> Follower then calls @ [(i, CmdSetPercent 0)] else calls) devs calls1
        = calls1 @ new" "\<forall>(i, c) \<in> set new. i \<in> fst ` set devs \<and> c = CmdSetPercent 0"
      using Cons.IH[of calls1] by blast
    then show ?case
      by (intro exI[of _ "(if currentMode calls j \<noteq> Follower then [(j, CmdSetPercent 0)] else []) @ new"])
        (auto simp: d calls1_def)
  qed simp
  then show ?thesis by (simp add: stop_masters_def motor_forEach_def)
qed

text \<open>C15. The task only ever commands motors it may. Every call it makes on a talon, in any mode and
  however the pass ends, is for a registered motor; it is the zero output of disabled mode, or it is
  for a motor that the message waiting names and an earlier configuration message configured. No
  infinite or NaN output value is ever sent, and a talon is only made to follow a talon that is
  registered.\<close>

theorem motor_values_guarded:
  assumes "motor_ok mgr"
    and "motor_values_run parse try_lock isDisabled now currentMode canOf n t mgr calls = (r, n', t', mgr', calls')"
  shows "\<exists>new. calls' = calls @ new \<and> (\<forall>(i, c) \<in> set new.
    motorExists i mgr' \<and> command_legal mgr' c
    \<and> (isDisabled \<and> c = CmdSetPercent 0
       \<or> sm_count (mMotorMsgs (motorConfigs mgr)) i
         \<and> (\<exists>buf ms. waiting n ''motorcontrol'' = Some buf \<and> parse buf = Some ms \<and> i \<in> mv_key ` set ms)))"
proof -
  have "\<exists>new calls1. calls1 = calls @ new \<and> (calls' = calls1 \<or> isDisabled \<and> calls' = stop_masters currentMode mgr' calls1)
    \<and> motor_ok mgr' \<and> (\<forall>(i, c) \<in> set new. motorExists i mgr' \<and> command_legal mgr' c
       \<and> sm_count (mMotorMsgs (motorConfigs mgr)) i
       \<and> (\<exists>buf ms. waiting n ''motorcontrol'' = Some buf \<and> parse buf = Some ms \<and> i \<in> mv_key ` set ms))"
  proof (cases "\<exists>buf ms. fst (getMessage ''motorcontrol'' n) = Some buf \<and> parse buf = Some ms \<and> try_lock")
    case True
    then obtain buf ms where w: "getMessage ''motorcontrol'' n = (Some buf, snd (getMessage ''motorcontrol'' n))"
      "parse buf = Some ms" "try_lock" by (metis prod.collapse)
    obtain r1 mgr1 calls1 where a: "apply_motor_values currentMode canOf ms mgr calls = (r1, mgr1, calls1)"
      using prod_cases3 by blast
    have m: "mgr' = mgr1" "calls' = calls1 \<or> isDisabled \<and> calls' = stop_masters currentMode mgr' calls1"
      using assms(2) w a by (auto simp: motor_values_run_def Let_def split: option.splits if_splits prod.splits)
    have "waiting n ''motorcontrol'' = Some buf" using w(1) getMessage_result by (metis fst_conv)
    then show ?thesis
      using apply_values_guarded[OF assms(1) a] apply_motor_values_frame[OF assms(1) a] m w(2) by fastforce
  next
    case False
    then have "mgr' = mgr" "calls' = calls \<or> isDisabled \<and> calls' = stop_masters currentMode mgr' calls"
      using assms(2) by (auto simp: motor_values_run_def Let_def split: option.splits if_splits prod.splits)
    then show ?thesis using assms(1) by - (rule exI[of _ "[]"], rule exI[of _ calls], simp)
  qed
  then obtain new calls1 where new: "calls1 = calls @ new" "motor_ok mgr'"
    "calls' = calls1 \<or> isDisabled \<and> calls' = stop_masters currentMode mgr' calls1"
    "\<forall>(i, c) \<in> set new. motorExists i mgr' \<and> command_legal mgr' c \<and> sm_count (mMotorMsgs (motorConfigs mgr)) i
       \<and> (\<exists>buf ms. waiting n ''motorcontrol'' = Some buf \<and> parse buf = Some ms \<and> i \<in> mv_key ` set ms)"
    by blast
  from new(3) show ?thesis
  proof
    assume "calls' = calls1"
    then show ?thesis using new(1,4) by blast
  next
    assume d: "isDisabled \<and> calls' = stop_masters currentMode mgr' calls1"
    obtain stops where s: "stop_masters currentMode mgr' calls1 = calls1 @ stops"
      "\<forall>(i, c) \<in> set stops. i \<in> fst ` set (mRegisteredMotorList mgr') \<and> c = CmdSetPercent 0"
      using stop_masters_calls by blast
    have ex: "motorExists i mgr'" if "i \<in> fst ` set (mRegisteredMotorList mgr')" for i
      using that sm_keys_get[of i] by (auto simp: motorExists_def sm_count_def sm_keys_def)
    have "\<forall>(i, c) \<in> set stops. motorExists i mgr' \<and> command_legal mgr' c \<and> isDisabled \<and> c = CmdSetPercent 0"
      using s(2) d by (auto simp: command_legal_def intro!: ex dest!: bspec)
    then show ?thesis using d s(1) new(1,4) by (intro exI[of _ "new @ stops"]) auto
  qed
qed

theorem motor_values_guarded_witness:
  "let mgr = (MotorManager_new :: nat motor_manager)
         \<lparr>motorConfigs := \<lparr>mMotorMsgs = [(3, 0)], mPrevMotorMsgs = []\<rparr>\<rparr>;
       m = (\<lambda>x. \<lparr>mv_id = 3, mv_controller_type = TALON_FX, mv_control_mode = Velocity,
            mv_output_value = x, mv_arbitrary_feedforward = Finite 0\<rparr>);
       calls = snd (snd (snd (snd (motor_values_run (\<lambda>b. Some [m (Finite 5), m NotANumber]) True True 0 (\<lambda>l i. PercentOutput)
         (\<lambda>c. RIO_CANIVORE) (snd (placeFailoverMessage ''motorcontrol'' [] NetworkManager_new)) (RTTimer_new 0) mgr []))))
   in calls = [(3, CmdSet Velocity (Finite 5) (Finite 0)), (3, CmdSetPercent 0)]
      \<and> (\<forall>(i, c) \<in> set calls. c = CmdSetPercent 0 \<or> i = 3)"
proof -
  let ?mgr = "(MotorManager_new :: nat motor_manager)
         \<lparr>motorConfigs := \<lparr>mMotorMsgs = [(3, 0)], mPrevMotorMsgs = []\<rparr>\<rparr>"
  let ?m = "\<lambda>x. \<lparr>mv_id = 3, mv_controller_type = TALON_FX, mv_control_mode = Velocity,
            mv_output_value = x, mv_arbitrary_feedforward = Finite 0\<rparr>"
  let ?n = "snd (placeFailoverMessage ''motorcontrol'' [] NetworkManager_new)"
  have ok: "motor_ok ?mgr"
    by (simp add: motor_ok_def MotorManager_new_def sm_ok_def sm_get_def sm_count_def)
  obtain r n' t' mgr' calls' where a: "motor_values_run (\<lambda>b. Some [?m (Finite 5), ?m NotANumber]) True True 0 (\<lambda>l i. PercentOutput)
      (\<lambda>c. RIO_CANIVORE) ?n (RTTimer_new 0) ?mgr [] = (r, n', t', mgr', calls')" using prod_cases5 by blast
  have "calls' = [(3, CmdSet Velocity (Finite 5) (Finite 0)), (3, CmdSetPercent 0)]"
    using a by (auto simp: motor_values_run_def placeFailoverMessage_def NetworkManager_new_def getMessage_def sm_count_def
        sm_get_def apply_motor_values.simps motor_value_guard_def mv_key_def registerMotor_def MotorManager_new_def
        onMotor_def apply_motor_value_def stop_masters_def motor_forEach_def isinf_def isnan_def Let_def)
  moreover from motor_values_guarded[OF ok a] have "\<forall>(i, c) \<in> set calls'. c = CmdSetPercent 0 \<or> i = 3"
    by (auto simp: mv_key_def)
  ultimately show ?thesis by (simp only: Let_def a snd_conv)
qed

text \<open>A non-follower in the message is registered and has a full heartbeat after the loop.\<close>

lemma motor_values_reload:
  assumes "motor_ok mgr" and "apply_motor_values currentMode canOf ms mgr calls = (None, mgr', calls')"
    and "m \<in> set ms" and "mv_control_mode m \<noteq> Follower"
    and "sm_count (mMotorMsgs (motorConfigs mgr)) (mv_key m)" and "mv_key m < 64"
    and "motorExists (mv_key m) mgr \<or> mv_controller_type m \<in> {TALON_FX, TALON_SRX}"
  shows "motorExists (mv_key m) mgr'
    \<and> sm_get (mRegisteredMotorHeartbeatList mgr') (mv_key m) = Some kMaxHeartbeatTicks"
  using assms(1-3,5,7)
proof (induction ms arbitrary: mgr calls)
  case (Cons m' ms)
  show ?case
    using Cons.prems(2)
  proof (cases rule: apply_motor_values_cases)
    case skip
    then have "m \<noteq> m'" using Cons.prems(4) assms(4) by (auto simp: motor_value_guard_def sm_count_def)
    with Cons skip show ?thesis by auto
  next
    case (applied config mgr1)
    then have ok1: "motor_ok mgr1" using Cons.prems(1) by (simp add: motor_ok_register)
    show ?thesis
    proof (cases "m = m'")
      case True
      then have "motorExists (mv_key m) mgr1"
        "sm_get (mRegisteredMotorHeartbeatList mgr1) (mv_key m) = Some kMaxHeartbeatTicks"
        using Cons.prems(1,5) assms(6) applied(3)
        by (auto simp: motorExists_register ticks_registerMotor)
      with apply_motor_values_frame[OF ok1 applied(4), of "mv_key m"] show ?thesis
        by (auto simp: motorExists_getMotor)
    next
      case False
      with Cons.IH[OF ok1 applied(4)] Cons.prems applied(3) show ?thesis
        by (auto simp: motorExists_register)
    qed
  qed simp
qed simp

lemma motor_values_no_fault:
  assumes "\<forall>m \<in> set ms. mv_control_mode m = Follower \<longrightarrow> double_to_u16 (mv_output_value m) \<noteq> None"
  shows "fst (apply_motor_values currentMode canOf ms mgr calls) = None"
  using assms
proof (induction ms arbitrary: mgr calls)
  case (Cons m ms)
  obtain r mgr' calls' where a: "apply_motor_values currentMode canOf (m # ms) mgr calls = (r, mgr', calls')"
    using prod_cases3 by blast
  then show ?case
  proof (cases rule: apply_motor_values_cases)
    case skip
    have "fst (apply_motor_values currentMode canOf ms mgr calls) = None" using Cons by simp
    with skip(1) a show ?thesis by simp
  next
    case (fault f)
    with Cons.prems show ?thesis by (auto simp: motor_value_guard_def split: if_splits option.splits)
  next
    case (applied config mgr1)
    with Cons a show ?thesis by (metis fst_conv list.set_intros(2))
  qed
qed simp

text \<open>Control messages keep motors alive: after a pass without a fault, every motor the message
  drives (not as a follower), that is configured, has an id below 64 and exists or has a supported
  type, is registered, and it stays so through exactly the next 249 heartbeats in which no further
  registration names it.\<close>

theorem motor_values_keep_alive:
  assumes "motor_ok mgr" and "apply_motor_values currentMode canOf ms mgr calls = (None, mgr', calls')"
    and "m \<in> set ms" and "mv_control_mode m \<noteq> Follower"
    and "sm_count (mMotorMsgs (motorConfigs mgr)) (mv_key m)" and "mv_key m < 64"
    and "motorExists (mv_key m) mgr \<or> mv_controller_type m \<in> {TALON_FX, TALON_SRX}"
    and "silent motor_request_id (mv_key m) ops"
  shows "motorExists (mv_key m) (registry_run motor_register motor_processHeartbeat ops mgr')
    \<longleftrightarrow> beats ops < 250"
proof -
  have "motorExists (mv_key m) mgr'
    \<and> sm_get (mRegisteredMotorHeartbeatList mgr') (mv_key m) = Some kMaxHeartbeatTicks"
    by (rule motor_values_reload[OF assms(1-7)])
  moreover have "motor_ok mgr'" using apply_motor_values_frame[OF assms(1,2)] by blast
  ultimately show ?thesis
    using motors.silent_lifetime[OF _ _ _ _ assms(8), of mgr' "kMaxHeartbeatTicks"]
    by (simp add: kMaxHeartbeatTicks_def)
qed

theorem motor_values_keep_alive_witness:
  "let mgr = (MotorManager_new :: nat motor_manager)
         \<lparr>motorConfigs := \<lparr>mMotorMsgs = [(3, 0)], mPrevMotorMsgs = []\<rparr>\<rparr>;
       m = \<lparr>mv_id = 3, mv_controller_type = TALON_FX, mv_control_mode = Velocity,
            mv_output_value = Finite 1, mv_arbitrary_feedforward = Finite 0\<rparr>
   in motorExists 3 (motor_processHeartbeat
        (fst (snd (apply_motor_values (\<lambda>l i. PercentOutput) (\<lambda>c. RIO_CANIVORE) [m] mgr []))))"
proof -
  let ?mgr = "(MotorManager_new :: nat motor_manager)
         \<lparr>motorConfigs := \<lparr>mMotorMsgs = [(3, 0)], mPrevMotorMsgs = []\<rparr>\<rparr>"
  let ?m = "\<lparr>mv_id = 3, mv_controller_type = TALON_FX, mv_control_mode = Velocity,
            mv_output_value = Finite 1, mv_arbitrary_feedforward = Finite 0\<rparr>"
  have ok: "motor_ok ?mgr"
    by (simp add: motor_ok_def MotorManager_new_def sm_ok_def sm_get_def sm_count_def)
  obtain mgr' calls' where a: "apply_motor_values (\<lambda>l i. PercentOutput) (\<lambda>c. RIO_CANIVORE) [?m] ?mgr []
      = (None, mgr', calls')"
    by (simp add: apply_motor_values.simps motor_value_guard_def mv_key_def sm_get_def Let_def)
  have "motorExists 3 (motor_processHeartbeat mgr')"
    using motor_values_keep_alive[OF ok a, of ?m "[Heartbeat]"]
    by (simp add: mv_key_def sm_count_def sm_get_def silent_def beats_def registry_step_def)
  with a show ?thesis by (simp only: Let_def snd_conv fst_conv)
qed


section \<open>Disabled mode\<close>

text \<open>The last call made on a talon.\<close>

definition last_cmd :: "u16 \<Rightarrow> talon_log \<Rightarrow> talon_cmd option" where
  "last_cmd i calls = map_of (rev calls) i"

lemma last_cmd_snoc [simp]: "last_cmd i (calls @ [(j, c)]) = (if j = i then Some c else last_cmd i calls)"
  by (simp add: last_cmd_def)

definition stopped :: "(talon_log \<Rightarrow> u16 \<Rightarrow> control_mode) \<Rightarrow> talon_log \<Rightarrow> u16 \<Rightarrow> bool" where
  "stopped currentMode calls i \<longleftrightarrow>
     last_cmd i calls = Some (CmdSetPercent 0) \<or> currentMode calls i = Follower"

lemma stop_fold:
  assumes "\<And>calls i j c. j \<noteq> i \<Longrightarrow> currentMode (calls @ [(j, c)]) i = currentMode calls i"
    and "distinct (map fst devs)"
  defines "stop \<equiv> fold (\<lambda>(i, dev) calls. if currentMode calls i \<noteq> Follower
                                         then calls @ [(i, CmdSetPercent 0)] else calls)"
  shows "(i \<notin> fst ` set devs \<longrightarrow> last_cmd i (stop devs calls) = last_cmd i calls
              \<and> currentMode (stop devs calls) i = currentMode calls i)
    \<and> (i \<in> fst ` set devs \<longrightarrow> stopped currentMode (stop devs calls) i)"
  using assms(2)
proof (induction devs arbitrary: calls)
  case (Cons d devs)
  obtain j dev where d: "d = (j, dev)" by fastforce
  define calls1 where "calls1 = (if currentMode calls j \<noteq> Follower then calls @ [(j, CmdSetPercent 0)] else calls)"
  have s: "stop (d # devs) calls = stop devs calls1" by (simp add: stop_def d calls1_def)
  have keep: "i \<noteq> j \<Longrightarrow> last_cmd i calls1 = last_cmd i calls \<and> currentMode calls1 i = currentMode calls i"
    using assms(1)[of j i calls] by (simp add: calls1_def)
  have st: "stopped currentMode calls1 j" by (simp add: stopped_def calls1_def)
  have dist: "distinct (map fst devs)" "j \<notin> fst ` set devs" using Cons.prems by (auto simp: d)
  show ?case
  proof (cases "i = j")
    case True
    with Cons.IH[OF dist(1), of calls1] st dist(2) show ?thesis
      unfolding s by (auto simp: stopped_def d)
  next
    case False
    then have "i \<in> fst ` set (d # devs) \<longleftrightarrow> i \<in> fst ` set devs" by (simp add: d)
    with Cons.IH[OF dist(1), of calls1] keep[OF False] show ?thesis
      unfolding s by simp
  qed
qed (simp add: stop_def)

text \<open>C35. While the robot is disabled, every run of the task leaves every registered motor stopped:
  the last call made on it is a percent output of zero, unless it follows another motor. It holds
  whatever message waits, also when there is none or the configuration lock is taken. What is
  assumed of the talons is that the mode of one does not depend on calls made on another.\<close>

theorem motor_values_disabled_stops:
  assumes "\<And>calls i j c. j \<noteq> i \<Longrightarrow> currentMode (calls @ [(j, c)]) i = currentMode calls i"
    and "motor_ok mgr"
    and "motor_values_run parse try_lock True now currentMode canOf n t mgr calls = (None, n', t', mgr', calls')"
    and "motorExists i mgr'"
  shows "stopped currentMode calls' i"
proof -
  obtain calls1 where c: "calls' = stop_masters currentMode mgr' calls1" and ok: "motor_ok mgr'"
  proof -
    let ?go = "case parse (the (fst (getMessage ''motorcontrol'' n))) of
        None \<Rightarrow> (None, mgr, calls)
      | Some motors \<Rightarrow> if try_lock then apply_motor_values currentMode canOf motors mgr calls
                       else (None, mgr, calls)"
    have "motor_ok (fst (snd ?go))"
      using apply_motor_values_frame[OF assms(2)] assms(2)
      by (cases "parse (the (fst (getMessage ''motorcontrol'' n)))")
        (auto, metis fst_conv snd_conv prod_cases3)
    with assms(2,3) that show ?thesis
      by (auto simp: motor_values_run_def Let_def split: option.splits prod.splits)
  qed
  have "distinct (map fst (mRegisteredMotorList mgr'))"
    using motor_ok_maps[OF ok] sm_ok_distinct unfolding sm_keys_def by blast
  moreover have "i \<in> fst ` set (mRegisteredMotorList mgr')"
    using assms(4) sm_keys_get[of i] by (auto simp: motorExists_def sm_count_def sm_keys_def)
  moreover have "calls' = fold (\<lambda>(i, dev) calls. if currentMode calls i \<noteq> Follower
      then calls @ [(i, CmdSetPercent 0)] else calls) (mRegisteredMotorList mgr') calls1"
    by (simp add: c stop_masters_def motor_forEach_def)
  ultimately show ?thesis
    using stop_fold[where currentMode = currentMode and devs = "mRegisteredMotorList mgr'" and i = i
        and calls = calls1] assms(1) by simp
qed


theorem motor_values_disabled_stops_witness:
  "let mode = (\<lambda>calls i. case last_cmd i calls of Some (CmdFollow t) \<Rightarrow> Follower
                 | Some (CmdSet md v ff) \<Rightarrow> md | _ \<Rightarrow> PercentOutput);
       mgr = registerMotor 3 TALON_FX RIO_CANIVORE (MotorManager_new :: nat motor_manager)
   in stopped mode (snd (snd (snd (snd (motor_values_run (\<lambda>b. None) True True 0 mode (\<lambda>c. RIO_CANIVORE)
        NetworkManager_new (RTTimer_new 0) mgr [(3, CmdSet Velocity (Finite 5) (Finite 0))]))))) 3"
proof -
  let ?mode = "\<lambda>calls i. case last_cmd i calls of Some (CmdFollow t) \<Rightarrow> Follower
                 | Some (CmdSet md v ff) \<Rightarrow> md | _ \<Rightarrow> PercentOutput"
  let ?mgr = "registerMotor 3 TALON_FX RIO_CANIVORE (MotorManager_new :: nat motor_manager)"
  have ok: "motor_ok ?mgr" by (simp add: motor_ok_register motor_ok_new)
  have none: "getMessage ''motorcontrol'' NetworkManager_new = (None, NetworkManager_new)"
    by (simp add: getMessage_def NetworkManager_new_def)
  obtain n' t' mgr' calls' where r: "motor_values_run (\<lambda>b. None) True True 0 ?mode (\<lambda>c. RIO_CANIVORE)
      NetworkManager_new (RTTimer_new 0) ?mgr [(3, CmdSet Velocity (Finite 5) (Finite 0))]
      = (None, n', t', mgr', calls')" and m: "mgr' = ?mgr"
    by (simp add: motor_values_run_def none Let_def)
  have "stopped ?mode calls' 3"
    by (rule motor_values_disabled_stops[OF _ ok r]) (simp_all add: m motorExists_register motor_ok_new)
  then show ?thesis by (simp only: Let_def r snd_conv)
qed

section \<open>Followers\<close>

text \<open>A follower waits for its master. In a message that lists a follower before its master,
  neither being registered, the first pass registers and drives the master only; the next pass of
  the same message registers the follower and makes it follow.\<close>

theorem motor_values_follower_waits:
  assumes "motor_ok mgr"
    and "mv_control_mode f = Follower" and "double_to_u16 (mv_output_value f) = Some (mv_key m)"
    and "mv_control_mode m \<noteq> Follower" and "mv_key f \<noteq> mv_key m"
    and "mv_key f < 64" "mv_key m < 64"
    and "mv_controller_type f \<in> {TALON_FX, TALON_SRX}" "mv_controller_type m \<in> {TALON_FX, TALON_SRX}"
    and "sm_count (mMotorMsgs (motorConfigs mgr)) (mv_key f)" "sm_count (mMotorMsgs (motorConfigs mgr)) (mv_key m)"
    and "\<not> motorExists (mv_key f) mgr" "\<not> motorExists (mv_key m) mgr"
    and "apply_motor_values currentMode canOf [f, m] mgr calls = (r1, mgr1, calls1)"
    and "apply_motor_values currentMode canOf [f, m] mgr1 calls1 = (r2, mgr2, calls2)"
    and "currentMode calls1 (mv_key f) \<noteq> Follower"
  shows "r1 = None \<and> r2 = None \<and> motorExists (mv_key m) mgr1 \<and> \<not> motorExists (mv_key f) mgr1
    \<and> motorExists (mv_key f) mgr2
    \<and> (\<exists>master. getMotor (mv_key m) mgr1 = Some master \<and> (mv_key f, CmdFollow master) \<in> set calls2)"
proof -
  obtain cf cm where c: "sm_get (mMotorMsgs (motorConfigs mgr)) (mv_key f) = Some cf"
    "sm_get (mMotorMsgs (motorConfigs mgr)) (mv_key m) = Some cm"
    using assms(10,11) by (auto simp: sm_count_def)
  have 1: "mgr1 = registerMotor (mv_key m) (mv_controller_type m) (canOf cm) mgr \<and> r1 = None"
    using assms(2-4,13,14) c
    by (simp add: apply_motor_values.simps motor_value_guard_def Let_def)
  then have ok1: "motor_ok mgr1" and ex: "motorExists (mv_key m) mgr1" "\<not> motorExists (mv_key f) mgr1"
    using assms(1,5,7,9,12) by (auto simp: motor_ok_register motorExists_register)
  let ?mgr2 = "registerMotor (mv_key f) (mv_controller_type f) (canOf cf) mgr1"
  have ex2: "motorExists (mv_key f) ?mgr2" using ok1 assms(6,8) by (simp add: motorExists_register)
  obtain master where master: "getMotor (mv_key m) mgr1 = Some master"
    using ex by (auto simp: motorExists_getMotor)
  then have "getMotor (mv_key m) ?mgr2 = Some master" using ok1 by (simp add: getMotor_register)
  then have follow: "onMotor (mv_key f) ?mgr2 (\<lambda>i dev mType. apply_motor_value currentMode ?mgr2 f i) calls1
      = calls1 @ [(mv_key f, CmdFollow master)]"
    by (rule_tac onMotor_cases[of "mv_key f" ?mgr2 "\<lambda>i dev mType. apply_motor_value currentMode ?mgr2 f i" calls1])
      (use ex2 assms(2,3,16) in \<open>simp_all add: apply_motor_value_def\<close>)
  have 2: "apply_motor_values currentMode canOf [m] ?mgr2 (calls1 @ [(mv_key f, CmdFollow master)])
      = (r2, mgr2, calls2)"
    using assms(15) c 1 follow ex(1) assms(2,3)
    by (simp only: apply_motor_values.simps(2)[of _ _ f]) (simp add: motor_value_guard_def Let_def)
  have "motor_ok ?mgr2" using ok1 by (simp add: motor_ok_register)
  from motor_values_prefix[OF this 2] apply_motor_values_frame[OF this 2, of "mv_key f"] ex2
  have "motorExists (mv_key f) mgr2" "(mv_key f, CmdFollow master) \<in> set calls2"
    by (auto simp: motorExists_getMotor)
  moreover have "r2 = None"
    using 2 assms(4) c 1 by (simp add: apply_motor_values.simps motor_value_guard_def Let_def)
  ultimately show ?thesis using 1 ex master by blast
qed

theorem motor_values_follower_waits_witness:
  "let mgr = (MotorManager_new :: nat motor_manager)
         \<lparr>motorConfigs := \<lparr>mMotorMsgs = [(3, 0), (4, 0)], mPrevMotorMsgs = []\<rparr>\<rparr>;
       m = \<lparr>mv_id = 3, mv_controller_type = TALON_FX, mv_control_mode = Velocity,
            mv_output_value = Finite 1, mv_arbitrary_feedforward = Finite 0\<rparr>;
       f = \<lparr>mv_id = 4, mv_controller_type = TALON_SRX, mv_control_mode = Follower,
            mv_output_value = Finite 3, mv_arbitrary_feedforward = Finite 0\<rparr>;
       pass = (\<lambda>(r, mgr, calls). apply_motor_values (\<lambda>l i. PercentOutput) (\<lambda>c. RIO_CANIVORE) [f, m] mgr calls)
   in (\<not> motorExists 4 (fst (snd (pass (None, mgr, []))))) \<and> motorExists 4 (fst (snd (pass (pass (None, mgr, [])))))"
proof -
  let ?mgr = "(MotorManager_new :: nat motor_manager)
         \<lparr>motorConfigs := \<lparr>mMotorMsgs = [(3, 0), (4, 0)], mPrevMotorMsgs = []\<rparr>\<rparr>"
  let ?m = "\<lparr>mv_id = 3, mv_controller_type = TALON_FX, mv_control_mode = Velocity,
            mv_output_value = Finite 1, mv_arbitrary_feedforward = Finite 0\<rparr>"
  let ?f = "\<lparr>mv_id = 4, mv_controller_type = TALON_SRX, mv_control_mode = Follower,
            mv_output_value = Finite 3, mv_arbitrary_feedforward = Finite 0\<rparr>"
  have ok: "motor_ok ?mgr"
    by (simp add: motor_ok_def MotorManager_new_def sm_ok_def sm_get_def sm_count_def)
  obtain r1 mgr1 calls1 where a: "apply_motor_values (\<lambda>l i. PercentOutput) (\<lambda>c. RIO_CANIVORE) [?f, ?m] ?mgr []
      = (r1, mgr1, calls1)" using prod_cases3 by blast
  obtain r2 mgr2 calls2 where b: "apply_motor_values (\<lambda>l i. PercentOutput) (\<lambda>c. RIO_CANIVORE) [?f, ?m] mgr1 calls1
      = (r2, mgr2, calls2)" using prod_cases3 by blast
  have "\<not> motorExists 4 mgr1 \<and> motorExists 4 mgr2"
    using motor_values_follower_waits[OF ok _ _ _ _ _ _ _ _ _ _ _ _ a b]
    by (simp add: mv_key_def double_to_u16_def trunc_real_def sm_count_def sm_get_def motorExists_def
        MotorManager_new_def)
  then show ?thesis by (simp only: Let_def a b fst_conv snd_conv prod.case simp_thms)
qed

text \<open>The master id of a follower is a double converted without a check: a value that does not
  fit 16 bits after truncation (a negative id, an infinite or NaN value) is undefined behaviour as
  soon as the task reaches the entry, whatever else the message holds.\<close>

theorem motor_values_follower_range:
  assumes "sm_count (mMotorMsgs (motorConfigs mgr)) (mv_key f)" and "mv_control_mode f = Follower"
    and "\<forall>x. mv_output_value f = Finite x \<longrightarrow> x \<le> - 1 \<or> 65536 \<le> x"
  shows "fst (apply_motor_values currentMode canOf (f # ms) mgr calls) = Some UndefinedBehaviour"
proof -
  have "double_to_u16 (mv_output_value f) = None"
  proof (cases "mv_output_value f")
    case (Finite x)
    then have "x \<le> - 1 \<or> 65536 \<le> x" using assms(3) by blast
    then have "trunc_real x < 0 \<or> 65536 \<le> trunc_real x"
      by (auto simp: trunc_real_def ceiling_less_iff le_floor_iff)
    with Finite show ?thesis by (auto simp: double_to_u16_def Let_def)
  qed (simp_all add: double_to_u16_def)
  with assms(1,2) show ?thesis
    by (auto simp: apply_motor_values.simps(2) motor_value_guard_def sm_count_def)
qed

theorem motor_values_follower_range_witness:
  "fst (apply_motor_values (\<lambda>l i. PercentOutput) (\<lambda>c. RIO_CANIVORE)
      [\<lparr>mv_id = 4, mv_controller_type = TALON_SRX, mv_control_mode = Follower,
        mv_output_value = NotANumber, mv_arbitrary_feedforward = Finite 0\<rparr>]
      ((MotorManager_new :: nat motor_manager)
         \<lparr>motorConfigs := \<lparr>mMotorMsgs = [(4, 0)], mPrevMotorMsgs = []\<rparr>\<rparr>) []) = Some UndefinedBehaviour"
  by (rule motor_values_follower_range) (simp_all add: mv_key_def sm_count_def sm_get_def)

end
