(* ===== verification/CANdle_Manager.thy ===== *)
theory CANdle_Manager
  imports Device_Registry Phoenix_Helper
begin

text \<open>
  \<open>CANdleManager\<close>: the CANdle LED controllers that exist, their heartbeats, and the control
  messages kept for them. Unlike \<open>MotorManager\<close>, deleting a CANdle keeps both messages. The type
  of a message is the parameter \<open>'m\<close>.
\<close>

datatype candle = CANdle u16 string

record 'm candle_manager =
  mRegisteredCANdleList :: "(u16, candle) std_map"
  mRegisteredCANdleHeartbeatList :: "(u16, int) std_map"
  mCANdleMsgs :: "(u16, 'm) std_map"
  mPrevCANdleMsgs :: "(u16, 'm) std_map"

definition CANdleManager_new :: "'m candle_manager" where
  "CANdleManager_new = \<lparr>mRegisteredCANdleList = [], mRegisteredCANdleHeartbeatList = [],
     mCANdleMsgs = [], mPrevCANdleMsgs = []\<rparr>"

definition setPrevCANdleConfigMsg :: "u16 \<Rightarrow> 'm \<Rightarrow> 'm candle_manager \<Rightarrow> 'm candle_manager" where
  "setPrevCANdleConfigMsg i m s = s\<lparr>mPrevCANdleMsgs := sm_put i m (mPrevCANdleMsgs s)\<rparr>"

definition setCANdlesConfigMsg :: "('m \<Rightarrow> u16) \<Rightarrow> 'm list \<Rightarrow> 'm candle_manager \<Rightarrow> 'm candle_manager" where
  "setCANdlesConfigMsg msgId ms s = s\<lparr>mCANdleMsgs := fold (\<lambda>m. sm_put (msgId m) m) ms (mCANdleMsgs s)\<rparr>"

definition candle_forEach :: "'m candle_manager \<Rightarrow> (u16 \<Rightarrow> candle \<Rightarrow> 'w \<Rightarrow> 'w) \<Rightarrow> 'w \<Rightarrow> 'w" where
  "candle_forEach s func w = fold (\<lambda>(i, dev). func i dev) (mRegisteredCANdleList s) w"

definition onCANdle :: "u16 \<Rightarrow> 'm candle_manager \<Rightarrow> (u16 \<Rightarrow> candle \<Rightarrow> 'w \<Rightarrow> 'w) \<Rightarrow> 'w \<Rightarrow> 'w" where
  "onCANdle i s func w =
     (case sm_get (mRegisteredCANdleList s) i of None \<Rightarrow> w | Some dev \<Rightarrow> func i dev w)"

definition registerCANdle :: "u16 \<Rightarrow> can_interface \<Rightarrow> 'm candle_manager \<Rightarrow> 'm candle_manager" where
  "registerCANdle i canInterface s =
     (if i < 64 then
        (let s1 = (if \<not> sm_count (mRegisteredCANdleList s) i
                   then s\<lparr>mRegisteredCANdleList :=
                            sm_put i (CANdle i (getCANInterfaceName canInterface)) (mRegisteredCANdleList s)\<rparr>
                   else s)
         in s1\<lparr>mRegisteredCANdleHeartbeatList :=
                 sm_put i kMaxHeartbeatTicks (mRegisteredCANdleHeartbeatList s1)\<rparr>)
      else s)"

definition deleteCANdle :: "u16 \<Rightarrow> 'm candle_manager \<Rightarrow> 'm candle_manager" where
  "deleteCANdle i s =
     (if sm_count (mRegisteredCANdleList s) i
      then s\<lparr>mRegisteredCANdleList := sm_erase i (mRegisteredCANdleList s)\<rparr> else s)"

definition set_candle_heartbeats :: "(u16, int) std_map \<Rightarrow> 'm candle_manager \<Rightarrow> 'm candle_manager" where
  "set_candle_heartbeats m s = s\<lparr>mRegisteredCANdleHeartbeatList := m\<rparr>"

definition candle_processHeartbeat :: "'m candle_manager \<Rightarrow> 'm candle_manager" where
  "candle_processHeartbeat =
     heartbeat_loop mRegisteredCANdleHeartbeatList set_candle_heartbeats deleteCANdle"

definition candleExists :: "u16 \<Rightarrow> 'm candle_manager \<Rightarrow> bool" where
  "candleExists i s = sm_count (mRegisteredCANdleList s) i"

definition getCANdle :: "u16 \<Rightarrow> 'm candle_manager \<Rightarrow> candle option" where
  "getCANdle i s = (if sm_count (mRegisteredCANdleList s) i then sm_get (mRegisteredCANdleList s) i else None)"

section \<open>Invariant\<close>

definition candle_ok :: "'m candle_manager \<Rightarrow> bool" where
  "candle_ok s \<longleftrightarrow> sm_ok (mRegisteredCANdleList s) \<and> sm_ok (mRegisteredCANdleHeartbeatList s)
     \<and> sm_ok (mCANdleMsgs s) \<and> sm_ok (mPrevCANdleMsgs s)
     \<and> (\<forall>i. case sm_get (mRegisteredCANdleHeartbeatList s) i of
           None \<Rightarrow> sm_get (mRegisteredCANdleList s) i = None
         | Some n \<Rightarrow> 1 \<le> n \<and> n \<le> kMaxHeartbeatTicks \<and> i < 64 \<and> sm_count (mRegisteredCANdleList s) i)"

lemma candle_ok_new: "candle_ok CANdleManager_new"
  by (simp add: candle_ok_def CANdleManager_new_def)

lemma candle_ok_maps:
  "candle_ok s \<Longrightarrow> sm_ok (mRegisteredCANdleList s) \<and> sm_ok (mRegisteredCANdleHeartbeatList s)
     \<and> sm_ok (mCANdleMsgs s) \<and> sm_ok (mPrevCANdleMsgs s)"
  by (simp add: candle_ok_def)

lemma candle_ok_entry:
  "candle_ok s \<Longrightarrow> case sm_get (mRegisteredCANdleHeartbeatList s) i of
       None \<Rightarrow> sm_get (mRegisteredCANdleList s) i = None
     | Some n \<Rightarrow> 1 \<le> n \<and> n \<le> kMaxHeartbeatTicks \<and> i < 64 \<and> sm_count (mRegisteredCANdleList s) i"
  by (simp add: candle_ok_def)

interpretation candle_table: heartbeat_table mRegisteredCANdleHeartbeatList set_candle_heartbeats deleteCANdle
  by unfold_locales (simp_all add: set_candle_heartbeats_def deleteCANdle_def)

lemma deleteCANdle_tables:
  "sm_get (mRegisteredCANdleList (deleteCANdle i s)) j = (if j = i then None else sm_get (mRegisteredCANdleList s) j)"
  "mCANdleMsgs (deleteCANdle i s) = mCANdleMsgs s"
  "mPrevCANdleMsgs (deleteCANdle i s) = mPrevCANdleMsgs s"
  "sm_ok (mRegisteredCANdleList s) \<Longrightarrow> sm_ok (mRegisteredCANdleList (deleteCANdle i s))"
  by (auto simp: deleteCANdle_def sm_count_def)

lemma candle_beat_list:
  assumes "candle_ok s"
  shows "sm_ok (mRegisteredCANdleList (candle_processHeartbeat s))
    \<and> sm_get (mRegisteredCANdleList (candle_processHeartbeat s)) j =
      (case sm_get (mRegisteredCANdleHeartbeatList s) j of
         Some n \<Rightarrow> if n \<le> 1 then None else sm_get (mRegisteredCANdleList s) j
       | None \<Rightarrow> sm_get (mRegisteredCANdleList s) j)"
  unfolding candle_processHeartbeat_def
  by (rule conjI; rule candle_table.loop_table[where look = sm_get and ok = sm_ok and tab = "mRegisteredCANdleList"])
    (use candle_ok_maps[OF assms] in \<open>simp_all add: set_candle_heartbeats_def deleteCANdle_tables\<close>)

lemma candle_beat_ticks:
  assumes "candle_ok s"
  shows "sm_ok (mRegisteredCANdleHeartbeatList (candle_processHeartbeat s))
    \<and> sm_get (mRegisteredCANdleHeartbeatList (candle_processHeartbeat s)) j =
      (case sm_get (mRegisteredCANdleHeartbeatList s) j of
         None \<Rightarrow> None | Some n \<Rightarrow> if n \<le> 1 then None else Some (n - 1))"
  using candle_ok_maps[OF assms]
  by (simp add: candle_processHeartbeat_def candle_table.loop_ok candle_table.loop_ticks)

text \<open>A heartbeat never touches the messages.\<close>

lemma candle_visit_msgs:
  "mCANdleMsgs (heartbeat_visit mRegisteredCANdleHeartbeatList set_candle_heartbeats deleteCANdle k s) = mCANdleMsgs s"
  "mPrevCANdleMsgs (heartbeat_visit mRegisteredCANdleHeartbeatList set_candle_heartbeats deleteCANdle k s) = mPrevCANdleMsgs s"
  by (simp_all add: heartbeat_visit_def Let_def set_candle_heartbeats_def deleteCANdle_tables)

lemma candle_beat_msgs [simp]:
  "mCANdleMsgs (candle_processHeartbeat s) = mCANdleMsgs s"
  "mPrevCANdleMsgs (candle_processHeartbeat s) = mPrevCANdleMsgs s"
proof -
  have "mCANdleMsgs (fold (heartbeat_visit mRegisteredCANdleHeartbeatList set_candle_heartbeats deleteCANdle) ks s) = mCANdleMsgs s
    \<and> mPrevCANdleMsgs (fold (heartbeat_visit mRegisteredCANdleHeartbeatList set_candle_heartbeats deleteCANdle) ks s) = mPrevCANdleMsgs s" for ks
    by (induction ks arbitrary: s) (simp_all add: candle_visit_msgs)
  then show "mCANdleMsgs (candle_processHeartbeat s) = mCANdleMsgs s"
    "mPrevCANdleMsgs (candle_processHeartbeat s) = mPrevCANdleMsgs s"
    by (simp_all add: candle_processHeartbeat_def heartbeat_loop_def)
qed

lemma candle_ok_beat:
  assumes "candle_ok s"
  shows "candle_ok (candle_processHeartbeat s)"
proof -
  let ?s = "candle_processHeartbeat s"
  have "case sm_get (mRegisteredCANdleHeartbeatList ?s) i of
       None \<Rightarrow> sm_get (mRegisteredCANdleList ?s) i = None
     | Some n \<Rightarrow> 1 \<le> n \<and> n \<le> kMaxHeartbeatTicks \<and> i < 64 \<and> sm_count (mRegisteredCANdleList ?s) i" for i
    using candle_ok_entry[OF assms, of i] candle_beat_list[OF assms, of i] candle_beat_ticks[OF assms, of i]
    by (auto simp: sm_count_def split: option.splits if_splits)
  then show ?thesis
    unfolding candle_ok_def[of ?s] using candle_ok_maps[OF assms] candle_beat_list[OF assms]
      candle_beat_ticks[OF assms] by simp
qed

lemma candle_ok_register:
  assumes "candle_ok s"
  shows "candle_ok (registerCANdle i c s)"
proof -
  let ?s = "registerCANdle i c s"
  have "case sm_get (mRegisteredCANdleHeartbeatList ?s) j of
       None \<Rightarrow> sm_get (mRegisteredCANdleList ?s) j = None
     | Some n \<Rightarrow> 1 \<le> n \<and> n \<le> kMaxHeartbeatTicks \<and> j < 64 \<and> sm_count (mRegisteredCANdleList ?s) j" for j
    using candle_ok_entry[OF assms, of j] candle_ok_maps[OF assms]
    by (auto simp: registerCANdle_def Let_def sm_count_def kMaxHeartbeatTicks_def split: option.splits if_splits)
  then show ?thesis
    unfolding candle_ok_def[of ?s] using candle_ok_maps[OF assms] by (auto simp: registerCANdle_def Let_def)
qed

type_synonym candle_request = "u16 \<times> can_interface"

definition candle_register :: "candle_request \<Rightarrow> 'm candle_manager \<Rightarrow> 'm candle_manager" where
  "candle_register r = registerCANdle (fst r) (snd r)"

interpretation candles: device_registry
  "\<lambda>s i. candleExists i s" "\<lambda>s i. sm_get (mRegisteredCANdleHeartbeatList s) i"
  candle_register fst "\<lambda>r s. fst r < 64" "\<lambda>r s. fst r < 64 \<and> \<not> candleExists (fst r) s"
  candle_processHeartbeat candle_ok
proof unfold_locales
  fix s :: "'m candle_manager" and r :: candle_request and k
  assume ok: "candle_ok s"
  note maps = candle_ok_maps[OF ok] and entry = candle_ok_entry[OF ok]
  show "candle_ok (candle_register r s)" using ok by (simp add: candle_register_def candle_ok_register)
  show "candle_ok (candle_processHeartbeat s)" using ok by (rule candle_ok_beat)
  show "sm_get (mRegisteredCANdleHeartbeatList (candle_register r s)) k =
      (if k = fst r \<and> fst r < 64 then Some kMaxHeartbeatTicks
       else sm_get (mRegisteredCANdleHeartbeatList s) k)"
    using maps by (auto simp: candle_register_def registerCANdle_def Let_def)
  show "candleExists k (candle_register r s) = (candleExists k s \<or> k = fst r \<and> fst r < 64 \<and> \<not> candleExists (fst r) s)"
    using maps by (auto simp: candle_register_def registerCANdle_def candleExists_def Let_def)
  show "sm_get (mRegisteredCANdleHeartbeatList (candle_processHeartbeat s)) k =
      (case sm_get (mRegisteredCANdleHeartbeatList s) k of None \<Rightarrow> None
       | Some n \<Rightarrow> if n \<le> 1 then None else Some (n - 1))"
    using candle_beat_ticks[OF ok] by simp
  show "candleExists k (candle_processHeartbeat s) = (candleExists k s \<and>
      (case sm_get (mRegisteredCANdleHeartbeatList s) k of None \<Rightarrow> True | Some n \<Rightarrow> 1 < n))"
    using candle_beat_list[OF ok, of k] by (auto simp: candleExists_def sm_count_def split: option.splits)
  show "candleExists k s \<Longrightarrow> \<exists>n. sm_get (mRegisteredCANdleHeartbeatList s) k = Some n \<and> 1 \<le> n \<and> n \<le> kMaxHeartbeatTicks"
    using entry[of k] by (auto simp: candleExists_def sm_count_def split: option.splits)
qed simp

text \<open>C11. A CANdle lives exactly as long as its heartbeat: when one with an id below 64 is registered, anew or
  again, in consistent tables, and any sequence of heartbeats and of registrations of other CANdles
  follows, it is registered at the end if and only if fewer than 250 heartbeats were among them. The
  control messages kept outlive it: they are the same at the end as before, whatever was deleted.\<close>

theorem candle_lifetime:
  assumes "candle_ok s" and "i < 64" and "silent fst i ops"
  shows "(candleExists i (registry_run candle_register candle_processHeartbeat ops (registerCANdle i c s))
      \<longleftrightarrow> beats ops < 250)
    \<and> mPrevCANdleMsgs (registry_run candle_register candle_processHeartbeat ops (registerCANdle i c s))
      = mPrevCANdleMsgs s"
proof
  show "candleExists i (registry_run candle_register candle_processHeartbeat ops (registerCANdle i c s))
      \<longleftrightarrow> beats ops < 250"
    using candles.lifetime[OF assms(1), of "(i, c)" ops] assms(2,3)
    by (auto simp: candle_register_def kMaxHeartbeatTicks_def)
  have "mPrevCANdleMsgs (registry_run candle_register candle_processHeartbeat ops t) = mPrevCANdleMsgs t"
    for t :: "'a candle_manager"
    by (induction ops arbitrary: t)
      (simp_all add: registry_step_def candle_register_def registerCANdle_def Let_def split: registry_op.split)
  then show "mPrevCANdleMsgs (registry_run candle_register candle_processHeartbeat ops (registerCANdle i c s))
      = mPrevCANdleMsgs s"
    by (simp add: registerCANdle_def Let_def)
qed

theorem candle_lifetime_witness:
  "candleExists 2 (registry_run candle_register candle_processHeartbeat [Heartbeat, Register (3, RIO_CANIVORE)]
      (registerCANdle 2 RIO_CANIVORE (CANdleManager_new :: nat candle_manager)))"
  using candle_lifetime[of "CANdleManager_new :: nat candle_manager" 2 "[Heartbeat, Register (3, RIO_CANIVORE)]" RIO_CANIVORE]
  by (simp add: candle_ok_new silent_def beats_def)

end
