(* ===== verification/LED_Task.thy ===== *)
theory LED_Task
  imports CANdle_Manager Proto_Diff Network_Manager
begin

text \<open>
  \<open>tasks/ApplyLEDControlTask\<close>: colours and animations for the CANdles, sent in full or as the
  differences to the last message. The accessors the protobuf compiler generates for the messages
  are the fields of \<open>led_schema\<close>, where the source does not fix the field numbers. Calls on the
  LED library go to a log, with the id of the CANdle; what each answers is the parameter \<open>resp\<close>.
\<close>

definition LED_TYPE_FD :: nat where "LED_TYPE_FD = 3"
definition VBAT_CONFIG_FD :: nat where "VBAT_CONFIG_FD = 4"
definition VBAT_DUTY_CYCLE_FD :: nat where "VBAT_DUTY_CYCLE_FD = 5"
definition LED_CONTROL_MODE_FD :: nat where "LED_CONTROL_MODE_FD = 6"
definition COLOR_FD :: nat where "COLOR_FD = 7"
definition ANIMATION_FD :: nat where "ANIMATION_FD = 8"

lemmas led_field_defs = LED_TYPE_FD_def VBAT_CONFIG_FD_def VBAT_DUTY_CYCLE_FD_def
  LED_CONTROL_MODE_FD_def COLOR_FD_def ANIMATION_FD_def

datatype led_control_mode = LedStatic | LedAnimated | OtherLedMode int

datatype led_animation_type =
    AnimColorFlow | AnimFire | AnimLarson | AnimRainbow | AnimRGBFade | AnimSingleFade
  | AnimTwinkle | AnimTwinkleOff | AnimStrobe | AnimMorse | OtherAnimation int

record rgbw_color =
  col_r :: int
  col_g :: int
  col_b :: int
  col_w :: int

record led_color =
  lc_rgbw :: rgbw_color
  lc_start_index :: int
  lc_num_leds :: int

record led_animation =
  an_slot :: int
  an_type :: led_animation_type
  an_color :: rgbw_color
  an_brightness :: real
  an_speed :: real
  an_num_led :: int
  an_direction :: int
  an_offset :: int

record led_schema =
  ls_id :: "pmsg \<Rightarrow> u16"
  ls_can_network :: "pmsg \<Rightarrow> can_interface"
  ls_mode :: "int \<Rightarrow> led_control_mode"
  ls_color :: "pmsg \<Rightarrow> led_color"
  ls_animation :: "pval \<Rightarrow> led_animation"

text \<open>The one enumerator the code uses of \<open>TwinklePercent\<close> and of \<open>TwinkleOffPercent\<close>.\<close>

datatype twinkle_percent = Percent30

datatype ctre_animation =
    ColorFlowAnimation rgbw_color real int int int
  | FireAnimation real real int real real int int
  | LarsonAnimation rgbw_color real int int int int
  | RainbowAnimation real real int int int
  | RgbFadeAnimation real real int int
  | SingleFadeAnimation rgbw_color real int int
  | TwinkleAnimation rgbw_color real int twinkle_percent int
  | TwinkleOffAnimation rgbw_color real int twinkle_percent int
  | StrobeAnimation rgbw_color real int int

datatype candle_call =
    ConfigLEDType int
  | ConfigVBatOutput int
  | ModulateVBatOutput real
  | ClearAnimation int
  | SetLEDs rgbw_color int int
  | Animate ctre_animation int

type_synonym led_state = "pmsg candle_manager \<times> (u16 \<times> candle_call) list"

definition led_mode :: "led_schema \<Rightarrow> pmsg \<Rightarrow> led_control_mode" where
  "led_mode sch m = ls_mode sch (getInt m LED_CONTROL_MODE_FD)"

definition led_animations :: "led_schema \<Rightarrow> pmsg \<Rightarrow> led_animation list" where
  "led_animations sch m = map (ls_animation sch) (getRep m ANIMATION_FD)"

text \<open>A call with retries, on a CANdle if it is registered (\<open>onCANdle\<close>).\<close>

definition candle_retry :: "(nat \<Rightarrow> error_code) \<Rightarrow> u16 \<Rightarrow> candle_call \<Rightarrow> led_state \<Rightarrow> led_state" where
  "candle_retry resp i c st =
     (case st of (mgr, calls) \<Rightarrow>
       (mgr, snd (snd (runPhoenixFunctionWithRetry (phoenix_call resp (i, c)) (uint i) calls))))"

section \<open>Colours and animations\<close>

text \<open>The slots of the last message are cleared; \<open>operator[]\<close> stores an empty message when there is
  none.\<close>

definition clearAllAnimations :: "led_schema \<Rightarrow> (nat \<Rightarrow> error_code) \<Rightarrow> u16 \<Rightarrow> led_state \<Rightarrow> led_state" where
  "clearAllAnimations sch resp i st =
     (if candleExists i (fst st) then
        (let (prev, prevs) = sm_at [] i (mPrevCANdleMsgs (fst st));
             st1 = ((fst st)\<lparr>mPrevCANdleMsgs := prevs\<rparr>, snd st)
         in fold (\<lambda>an. candle_retry resp i (ClearAnimation (an_slot an))) (led_animations sch prev) st1)
      else st)"

definition updateColor :: "led_schema \<Rightarrow> (nat \<Rightarrow> error_code) \<Rightarrow> pmsg \<Rightarrow> led_state \<Rightarrow> led_state" where
  "updateColor sch resp m st =
     (let st1 = clearAllAnimations sch resp (ls_id sch m) st;
          c = ls_color sch m
      in if candleExists (ls_id sch m) (fst st1) then
           candle_retry resp (ls_id sch m) (SetLEDs (lc_rgbw c) (lc_start_index c) (lc_num_leds c)) st1
         else st1)"

definition animationLookup :: "led_animation \<Rightarrow> ctre_animation option" where
  "animationLookup a =
     (case an_type a of
        AnimColorFlow \<Rightarrow> Some (ColorFlowAnimation (an_color a) (an_speed a) (an_num_led a) (an_direction a) (an_offset a))
      | AnimFire \<Rightarrow> Some (FireAnimation (an_brightness a) (an_speed a) (an_num_led a) 1 1 (an_direction a) (an_offset a))
      | AnimLarson \<Rightarrow> Some (LarsonAnimation (an_color a) (an_speed a) (an_num_led a) (an_direction a) 7 (an_offset a))
      | AnimRainbow \<Rightarrow> Some (RainbowAnimation (an_brightness a) (an_speed a) (an_num_led a) (an_direction a) (an_offset a))
      | AnimRGBFade \<Rightarrow> Some (RgbFadeAnimation (an_brightness a) (an_speed a) (an_num_led a) (an_offset a))
      | AnimSingleFade \<Rightarrow> Some (SingleFadeAnimation (an_color a) (an_speed a) (an_num_led a) (an_offset a))
      | AnimTwinkle \<Rightarrow> Some (TwinkleAnimation (an_color a) (an_speed a) (an_num_led a) Percent30 (an_offset a))
      | AnimTwinkleOff \<Rightarrow> Some (TwinkleOffAnimation (an_color a) (an_speed a) (an_num_led a) Percent30 (an_offset a))
      | AnimStrobe \<Rightarrow> Some (StrobeAnimation (an_color a) (an_speed a) (an_num_led a) (an_offset a))
      | _ \<Rightarrow> None)"

definition updateAnimation :: "led_schema \<Rightarrow> (nat \<Rightarrow> error_code) \<Rightarrow> pmsg \<Rightarrow> led_state \<Rightarrow> led_state" where
  "updateAnimation sch resp m st =
     (let st1 = clearAllAnimations sch resp (ls_id sch m) st
      in if candleExists (ls_id sch m) (fst st1) then
           fold (\<lambda>a st. if an_type a = AnimMorse then st
                        else (case animationLookup a of
                                None \<Rightarrow> st
                              | Some anim \<Rightarrow> candle_retry resp (ls_id sch m) (Animate anim (an_slot a)) st))
             (led_animations sch m) st1
         else st1)"

definition processLEDUpdate :: "led_schema \<Rightarrow> (nat \<Rightarrow> error_code) \<Rightarrow> pmsg \<Rightarrow> led_state \<Rightarrow> led_state" where
  "processLEDUpdate sch resp m st =
     (if led_mode sch m = LedStatic then updateColor sch resp m st
      else if led_mode sch m = LedAnimated then updateAnimation sch resp m st
      else st)"

definition led_fullUpdate :: "led_schema \<Rightarrow> (nat \<Rightarrow> error_code) \<Rightarrow> pmsg \<Rightarrow> led_state \<Rightarrow> bool \<times> led_state" where
  "led_fullUpdate sch resp m st =
     (True,
      if candleExists (ls_id sch m) (fst st) then
        (let st1 = candle_retry resp (ls_id sch m) (ConfigLEDType (getInt m LED_TYPE_FD)) st;
             st2 = candle_retry resp (ls_id sch m) (ConfigVBatOutput (getInt m VBAT_CONFIG_FD)) st1;
             st3 = candle_retry resp (ls_id sch m) (ModulateVBatOutput (getNum m VBAT_DUTY_CYCLE_FD)) st2
         in case led_mode sch m of
              LedStatic \<Rightarrow> updateColor sch resp m st3
            | LedAnimated \<Rightarrow> updateAnimation sch resp m st3
            | OtherLedMode _ \<Rightarrow> st3)
      else st)"

section \<open>Differences\<close>

definition on_candle_msg :: "led_schema \<Rightarrow> (nat \<Rightarrow> error_code) \<Rightarrow> candle_call \<Rightarrow> pmsg \<Rightarrow> led_state \<Rightarrow> led_state" where
  "on_candle_msg sch resp c m st =
     (if candleExists (ls_id sch m) (fst st) then candle_retry resp (ls_id sch m) c st else st)"

definition led_updates :: "led_schema \<Rightarrow> (nat \<Rightarrow> error_code) \<Rightarrow> (nat \<times> (pmsg \<Rightarrow> led_state \<Rightarrow> led_state)) list" where
  "led_updates sch resp =
     [(LED_TYPE_FD, \<lambda>m. on_candle_msg sch resp (ConfigLEDType (getInt m LED_TYPE_FD)) m),
      (VBAT_CONFIG_FD, \<lambda>m. on_candle_msg sch resp (ConfigVBatOutput (getInt m VBAT_CONFIG_FD)) m),
      (VBAT_DUTY_CYCLE_FD, \<lambda>m. on_candle_msg sch resp (ModulateVBatOutput (getNum m VBAT_DUTY_CYCLE_FD)) m),
      (LED_CONTROL_MODE_FD, processLEDUpdate sch resp),
      (COLOR_FD, processLEDUpdate sch resp),
      (ANIMATION_FD, processLEDUpdate sch resp)]"

definition led_registered :: "nat \<Rightarrow> bool" where
  "led_registered f \<longleftrightarrow> f \<in> {LED_TYPE_FD, VBAT_CONFIG_FD, VBAT_DUTY_CYCLE_FD, LED_CONTROL_MODE_FD,
                             COLOR_FD, ANIMATION_FD}"

definition led_differential :: "led_schema \<Rightarrow> (nat \<Rightarrow> error_code) \<Rightarrow> pmsg \<Rightarrow> pmsg \<Rightarrow> led_state \<Rightarrow> led_state" where
  "led_differential sch resp prev m st =
     fold (\<lambda>f st. case map_of (led_updates sch resp) f of None \<Rightarrow> st | Some upd \<Rightarrow> upd m st)
       (differential_calls led_registered prev m) st"

section \<open>The task\<close>

fun led_loop :: "led_schema \<Rightarrow> (nat \<Rightarrow> error_code) \<Rightarrow> nat \<Rightarrow> pmsg list \<Rightarrow> led_state \<Rightarrow> led_state" where
  "led_loop sch resp n [] st = st"
| "led_loop sch resp n (m # ms) st =
     (let mgr = registerCANdle (ls_id sch m) (ls_can_network sch m) (fst st)
      in if candleExists (ls_id sch m) mgr then
           (let (updateSuccessful, st1) =
                  (if n = length (mPrevCANdleMsgs mgr) then
                     (let (prev, prevs) = sm_at [] (ls_id sch m) (mPrevCANdleMsgs mgr)
                      in (True, led_differential sch resp prev m (mgr\<lparr>mPrevCANdleMsgs := prevs\<rparr>, snd st)))
                   else led_fullUpdate sch resp m (mgr, snd st))
            in led_loop sch resp n ms
                 (if updateSuccessful then (setPrevCANdleConfigMsg (ls_id sch m) m (fst st1), snd st1)
                  else st1))
         else led_loop sch resp n ms (mgr, snd st))"

definition led_task_run ::
  "(bytes \<Rightarrow> pmsg list option) \<Rightarrow> bool \<Rightarrow> led_schema \<Rightarrow> (nat \<Rightarrow> error_code)
     \<Rightarrow> network \<Rightarrow> led_state \<Rightarrow> network \<times> led_state" where
  "led_task_run parse try_lock sch resp n st =
     (case getMessage ''ledcontrol'' n of
        (None, n1) \<Rightarrow> (n1, st)
      | (Some buf, n1) \<Rightarrow>
          (case parse buf of
             None \<Rightarrow> (n1, st)
           | Some ms \<Rightarrow>
               (if try_lock then
                  (n1, led_loop sch resp (length ms) ms (setCANdlesConfigMsg (ls_id sch) ms (fst st), snd st))
                else (n1, st))))"

section \<open>What the calls achieve\<close>

text \<open>
  The abstract view of a CANdle: the animation in each slot. A call the library answers with
  \<open>OK\<close> has taken effect; one it answers with an error has not. Repeating a call that took
  effect changes nothing.
\<close>

definition slot_effect :: "candle_call \<Rightarrow> (int \<Rightarrow> ctre_animation option) \<Rightarrow> int \<Rightarrow> ctre_animation option" where
  "slot_effect c slots =
     (case c of
        Animate a s \<Rightarrow> slots(s \<mapsto> a)
      | ClearAnimation s \<Rightarrow> slots(s := None)
      | _ \<Rightarrow> slots)"

definition running ::
  "(nat \<Rightarrow> error_code) \<Rightarrow> u16 \<Rightarrow> (u16 \<times> candle_call) list \<Rightarrow> int \<Rightarrow> ctre_animation option" where
  "running resp i calls =
     fold (\<lambda>(n, j, c) slots. if j = i \<and> resp n = OK then slot_effect c slots else slots) (enumerate 0 calls) (\<lambda>s. None)"

definition wanted :: "led_animation list \<Rightarrow> int \<Rightarrow> ctre_animation option" where
  "wanted anims = fold (\<lambda>a slots. case animationLookup a of None \<Rightarrow> slots
                                  | Some anim \<Rightarrow> slots(an_slot a \<mapsto> anim)) anims (\<lambda>s. None)"

text \<open>The library answers in time: no four calls in a row fail, which is how often a call is tried.\<close>

definition answers_in_time :: "(nat \<Rightarrow> error_code) \<Rightarrow> bool" where
  "answers_in_time resp \<longleftrightarrow> (\<forall>n. \<exists>k < 4. resp (n + k) = OK)"

lemma slot_effect_twice: "slot_effect c (slot_effect c slots) = slot_effect c slots"
  by (cases c) (auto simp: slot_effect_def)

lemma running_snoc:
  "running resp i (calls @ [(j, c)]) =
     (if j = i \<and> resp (length calls) = OK then slot_effect c (running resp i calls) else running resp i calls)"
  by (simp add: running_def enumerate_append_eq)

lemma running_replicate:
  "running resp i (calls @ replicate k (i, c)) =
     (if \<exists>m < k. resp (length calls + m) = OK then slot_effect c (running resp i calls) else running resp i calls)"
proof (induction k)
  case (Suc k)
  have "calls @ replicate (Suc k) (i, c) = (calls @ replicate k (i, c)) @ [(i, c)]"
    by (simp add: replicate_append_same)
  moreover have "(\<exists>m < Suc k. P m) \<longleftrightarrow> (\<exists>m < k. P m) \<or> P k" for P
    by (auto simp: less_Suc_eq)
  ultimately show ?case
    by (simp only: running_snoc Suc.IH length_append length_replicate) (auto simp: slot_effect_twice)
qed simp

lemma candle_retry_eq:
  "candle_retry resp i c (mgr, calls) = (mgr, calls @ replicate (attempts resp (length calls) 4) (i, c))"
  using retry_loop_calls[of 0 resp "(i, c)" calls]
  by (simp add: candle_retry_def runPhoenixFunctionWithRetry_def Let_def)

lemma attempts_ok: "(\<exists>m < attempts resp n k. resp (n + m) = OK) \<longleftrightarrow> (\<exists>m < k. resp (n + m) = OK)"
proof (induction k arbitrary: n)
  case (Suc k)
  have "(\<exists>m < Suc j. P m) \<longleftrightarrow> P 0 \<or> (\<exists>m < j. P (Suc m))" for j P
    by (auto simp: less_Suc_eq_0_disj)
  with Suc[of "Suc n"] show ?case by simp
qed simp

lemma candle_retry_effect:
  "fst (candle_retry resp i c st) = fst st
   \<and> running resp i (snd (candle_retry resp i c st)) =
       (if \<exists>m < 4. resp (length (snd st) + m) = OK then slot_effect c (running resp i (snd st)) else running resp i (snd st))"
  using attempts_ok[of resp "length (snd st)" 4]
  by (cases st) (simp only: candle_retry_eq running_replicate fst_conv snd_conv simp_thms)

lemma candle_retry_in_time:
  "answers_in_time resp \<Longrightarrow>
     running resp i (snd (candle_retry resp i c st)) = slot_effect c (running resp i (snd st))"
  by (simp add: candle_retry_effect answers_in_time_def)

lemma animationLookup_morse: "an_type a = AnimMorse \<Longrightarrow> animationLookup a = None"
  by (simp add: animationLookup_def)

text \<open>Clearing slots and starting animations, when the library answers in time and in any case.\<close>

lemma clear_slots:
  "fst (fold (\<lambda>an. candle_retry resp i (ClearAnimation (an_slot an))) ans st) = fst st"
  "answers_in_time resp \<Longrightarrow>
     running resp i (snd (fold (\<lambda>an. candle_retry resp i (ClearAnimation (an_slot an))) ans st)) s
     = (if s \<in> an_slot ` set ans then None else running resp i (snd st) s)"
  "running resp i (snd (fold (\<lambda>an. candle_retry resp i (ClearAnimation (an_slot an))) ans st)) s
     \<in> {None, running resp i (snd st) s}"
proof -
  show "fst (fold (\<lambda>an. candle_retry resp i (ClearAnimation (an_slot an))) ans st) = fst st"
    by (induction ans arbitrary: st) (auto simp: candle_retry_effect)
  show "answers_in_time resp \<Longrightarrow>
      running resp i (snd (fold (\<lambda>an. candle_retry resp i (ClearAnimation (an_slot an))) ans st)) s
      = (if s \<in> an_slot ` set ans then None else running resp i (snd st) s)"
    by (induction ans arbitrary: st) (auto simp: candle_retry_in_time slot_effect_def)
  show "running resp i (snd (fold (\<lambda>an. candle_retry resp i (ClearAnimation (an_slot an))) ans st)) s
      \<in> {None, running resp i (snd st) s}"
  proof (induction ans arbitrary: st)
    case (Cons an ans)
    have "running resp i (snd (candle_retry resp i (ClearAnimation (an_slot an)) st)) s \<in> {None, running resp i (snd st) s}"
      by (auto simp: candle_retry_effect slot_effect_def)
    then show ?case using Cons[of "candle_retry resp i (ClearAnimation (an_slot an)) st"] by auto
  qed simp
qed

lemma clearAllAnimations_effect:
  assumes "candleExists i (fst st)"
  shows "candleExists i (fst (clearAllAnimations sch resp i st))"
    and "running resp i (snd (clearAllAnimations sch resp i st)) s \<in> {None, running resp i (snd st) s}"
    and "answers_in_time resp \<Longrightarrow>
       running resp i (snd (clearAllAnimations sch resp i st)) s
       = (if s \<in> an_slot ` set (led_animations sch (fst (sm_at [] i (mPrevCANdleMsgs (fst st))))) then None
          else running resp i (snd st) s)"
proof -
  let ?st = "((fst st)\<lparr>mPrevCANdleMsgs := snd (sm_at [] i (mPrevCANdleMsgs (fst st)))\<rparr>, snd st)"
  have c: "clearAllAnimations sch resp i st = fold (\<lambda>an. candle_retry resp i (ClearAnimation (an_slot an)))
      (led_animations sch (fst (sm_at [] i (mPrevCANdleMsgs (fst st))))) ?st"
    using assms by (simp add: clearAllAnimations_def split_beta)
  show "candleExists i (fst (clearAllAnimations sch resp i st))"
    using assms by (simp add: c clear_slots(1) candleExists_def)
  show "running resp i (snd (clearAllAnimations sch resp i st)) s \<in> {None, running resp i (snd st) s}"
    using clear_slots(3)[of resp i _ ?st s] by (simp add: c)
  show "answers_in_time resp \<Longrightarrow>
       running resp i (snd (clearAllAnimations sch resp i st)) s
       = (if s \<in> an_slot ` set (led_animations sch (fst (sm_at [] i (mPrevCANdleMsgs (fst st))))) then None
          else running resp i (snd st) s)"
    by (simp add: c clear_slots(2))
qed

definition animate_all :: "(nat \<Rightarrow> error_code) \<Rightarrow> u16 \<Rightarrow> led_animation list \<Rightarrow> led_state \<Rightarrow> led_state" where
  "animate_all resp i ans = fold (\<lambda>a st. if an_type a = AnimMorse then st
       else (case animationLookup a of None \<Rightarrow> st
             | Some anim \<Rightarrow> candle_retry resp i (Animate anim (an_slot a)) st)) ans"

lemma animate_slots:
  "answers_in_time resp \<Longrightarrow> running resp i (snd (animate_all resp i ans st))
   = fold (\<lambda>a slots. case animationLookup a of None \<Rightarrow> slots
           | Some anim \<Rightarrow> slots(an_slot a \<mapsto> anim)) ans (running resp i (snd st))"
  unfolding animate_all_def
  by (induction ans arbitrary: st)
    (auto simp: candle_retry_in_time slot_effect_def animationLookup_morse split: option.split)

lemma animate_only:
  "running resp i (snd (animate_all resp i ans st)) s
   \<in> insert (running resp i (snd st) s) {animationLookup a | a. a \<in> set ans \<and> an_slot a = s}"
proof (induction ans arbitrary: st)
  case (Cons a ans)
  let ?st = "animate_all resp i [a] st"
  have "running resp i (snd ?st) s \<in> insert (running resp i (snd st) s) {animationLookup b | b. b = a \<and> an_slot b = s}"
    by (auto simp: animate_all_def candle_retry_effect slot_effect_def split: option.split)
  moreover have "animate_all resp i (a # ans) st = animate_all resp i ans ?st"
    by (simp add: animate_all_def)
  ultimately show ?case using Cons[of ?st] by auto
qed (simp add: animate_all_def)

section \<open>Properties\<close>

lemma led_apply_effect:
  assumes "candleExists (ls_id sch m) (fst st)"
    and "st' = (if led_mode sch m = LedStatic then updateColor sch resp m st else updateAnimation sch resp m st)"
  shows "running resp (ls_id sch m) (snd st') s \<in> {None, running resp (ls_id sch m) (snd st) s}
       \<union> (if led_mode sch m = LedStatic then {}
          else {animationLookup a | a. a \<in> set (led_animations sch m) \<and> an_slot a = s})"
    and "answers_in_time resp \<Longrightarrow>
       (\<And>s. running resp (ls_id sch m) (snd st) s \<noteq> None \<Longrightarrow>
          s \<in> an_slot ` set (led_animations sch (fst (sm_at [] (ls_id sch m) (mPrevCANdleMsgs (fst st)))))) \<Longrightarrow>
       running resp (ls_id sch m) (snd st') = (if led_mode sch m = LedStatic then \<lambda>s. None else wanted (led_animations sch m))"
proof -
  let ?i = "ls_id sch m"
  let ?st = "clearAllAnimations sch resp ?i st"
  note clear = clearAllAnimations_effect[OF assms(1), where sch = sch and resp = resp]
  obtain c where static: "led_mode sch m = LedStatic \<Longrightarrow> st' = candle_retry resp ?i c ?st"
    "\<And>slots. slot_effect c slots = slots"
  proof -
    have "slot_effect (SetLEDs (lc_rgbw (ls_color sch m)) (lc_start_index (ls_color sch m)) (lc_num_leds (ls_color sch m))) slots = slots"
      for slots by (simp add: slot_effect_def)
    then show thesis using that[of "SetLEDs (lc_rgbw (ls_color sch m)) (lc_start_index (ls_color sch m)) (lc_num_leds (ls_color sch m))"]
      assms(2) clear(1) by (simp add: updateColor_def Let_def)
  qed
  have animated: "led_mode sch m \<noteq> LedStatic \<Longrightarrow> st' = animate_all resp ?i (led_animations sch m) ?st"
    using assms(2) clear(1) by (simp add: updateAnimation_def Let_def animate_all_def)
  show "running resp ?i (snd st') s \<in> {None, running resp ?i (snd st) s}
       \<union> (if led_mode sch m = LedStatic then {}
          else {animationLookup a | a. a \<in> set (led_animations sch m) \<and> an_slot a = s})"
  proof (cases "led_mode sch m = LedStatic")
    case True
    then show ?thesis using static clear(2)[of s] by (simp add: candle_retry_effect)
  next
    case False
    then show ?thesis using animated animate_only[of resp ?i "led_animations sch m" ?st s] clear(2)[of s] by auto
  qed
  assume lucky: "answers_in_time resp"
    and only: "\<And>s. running resp ?i (snd st) s \<noteq> None \<Longrightarrow>
      s \<in> an_slot ` set (led_animations sch (fst (sm_at [] ?i (mPrevCANdleMsgs (fst st)))))"
  have none: "running resp ?i (snd ?st) = (\<lambda>s. None)"
  proof
    fix s
    show "running resp ?i (snd ?st) s = None"
      using clear(3)[OF lucky, of s] only[of s] by (cases "running resp ?i (snd st) s") (auto split: if_splits)
  qed
  show "running resp ?i (snd st') = (if led_mode sch m = LedStatic then \<lambda>s. None else wanted (led_animations sch m))"
    using static animated by (simp add: candle_retry_effect none animate_slots[OF lucky] wanted_def)
qed

text \<open>C34. An update leaves no stale animation as long as the library answers one call in four. If the
  animations that run on a CANdle are among those of the last message kept for it, then after a
  differential update of colour, animations or mode, or a full update, none runs in static mode,
  and in animated mode exactly those of the new message run, the last one of a slot winning and
  Morse and unknown animations left out. Whatever the library answers, nothing runs afterwards that
  neither ran in its slot before nor is one of the new message for that slot.\<close>

theorem led_update_replaces:
  assumes "candleExists (ls_id sch m) (fst st)" and "led_mode sch m \<in> {LedStatic, LedAnimated}"
    and "st' = processLEDUpdate sch resp m st \<or> st' = snd (led_fullUpdate sch resp m st)"
  shows "(answers_in_time resp \<and>
       (\<forall>s. running resp (ls_id sch m) (snd st) s \<noteq> None \<longrightarrow>
          s \<in> an_slot ` set (led_animations sch (fst (sm_at [] (ls_id sch m) (mPrevCANdleMsgs (fst st))))))
     \<longrightarrow> running resp (ls_id sch m) (snd st')
           = (if led_mode sch m = LedStatic then \<lambda>s. None else wanted (led_animations sch m)))
    \<and> running resp (ls_id sch m) (snd st') s \<in> {None, running resp (ls_id sch m) (snd st) s}
        \<union> (if led_mode sch m = LedStatic then {}
           else {animationLookup a | a. a \<in> set (led_animations sch m) \<and> an_slot a = s})"
proof -
  let ?i = "ls_id sch m"
  obtain st0 where st0: "fst st0 = fst st" "running resp ?i (snd st0) = running resp ?i (snd st)"
    "st' = (if led_mode sch m = LedStatic then updateColor sch resp m st0 else updateAnimation sch resp m st0)"
  proof (cases "st' = processLEDUpdate sch resp m st")
    case True
    then show thesis using that[of st] assms(2) by (auto simp: processLEDUpdate_def)
  next
    case False
    have quiet: "running resp ?i (snd (candle_retry resp ?i c st)) = running resp ?i (snd st)"
      if "\<And>slots. slot_effect c slots = slots" for c st using that by (simp add: candle_retry_effect)
    show thesis
      using that[of "candle_retry resp ?i (ModulateVBatOutput (getNum m VBAT_DUTY_CYCLE_FD))
          (candle_retry resp ?i (ConfigVBatOutput (getInt m VBAT_CONFIG_FD))
            (candle_retry resp ?i (ConfigLEDType (getInt m LED_TYPE_FD)) st))"] assms False
      by (auto simp: led_fullUpdate_def Let_def candle_retry_effect quiet slot_effect_def)
  qed
  have e: "candleExists ?i (fst st0)" using assms(1) st0(1) by simp
  show ?thesis using led_apply_effect[OF e st0(3)] by (simp add: st0(1,2))
qed

theorem led_update_replaces_witness:
  "let sch = \<lparr>ls_id = \<lambda>m. 2, ls_can_network = \<lambda>m. RIO_CANIVORE, ls_mode = \<lambda>k. LedStatic,
             ls_color = \<lambda>m. \<lparr>lc_rgbw = \<lparr>col_r = 255, col_g = 0, col_b = 0, col_w = 0\<rparr>,
                             lc_start_index = 0, lc_num_leds = 50\<rparr>,
             ls_animation = \<lambda>v. \<lparr>an_slot = 1, an_type = AnimFire,
                               an_color = \<lparr>col_r = 0, col_g = 0, col_b = 0, col_w = 0\<rparr>,
                               an_brightness = 1, an_speed = 1, an_num_led = 50, an_direction = 0,
                               an_offset = 0\<rparr>\<rparr>;
       prev = [(8, PRep [PInt 0])];
       mgr = setPrevCANdleConfigMsg 2 prev (registerCANdle 2 RIO_CANIVORE CANdleManager_new);
       calls = [(2, Animate (FireAnimation 1 1 50 1 1 0 0) 1)];
       resp = (\<lambda>k. if even k then OK else ErrorCode 1)
   in running resp 2 calls 1 \<noteq> None \<and> running resp 2 (snd (processLEDUpdate sch resp [] (mgr, calls))) 1 = None"
proof -
  let ?sch = "\<lparr>ls_id = \<lambda>m. 2, ls_can_network = \<lambda>m. RIO_CANIVORE, ls_mode = \<lambda>k. LedStatic,
             ls_color = \<lambda>m. \<lparr>lc_rgbw = \<lparr>col_r = 255, col_g = 0, col_b = 0, col_w = 0\<rparr>,
                             lc_start_index = 0, lc_num_leds = 50\<rparr>,
             ls_animation = \<lambda>v. \<lparr>an_slot = 1, an_type = AnimFire,
                               an_color = \<lparr>col_r = 0, col_g = 0, col_b = 0, col_w = 0\<rparr>,
                               an_brightness = 1, an_speed = 1, an_num_led = 50, an_direction = 0,
                               an_offset = 0\<rparr>\<rparr>"
  let ?mgr = "setPrevCANdleConfigMsg 2 [(8, PRep [PInt 0])] (registerCANdle 2 RIO_CANIVORE CANdleManager_new)"
  let ?calls = "[(2, Animate (FireAnimation 1 1 50 1 1 0 0) 1)]"
  let ?resp = "\<lambda>k. if even k then OK else ErrorCode 1"
  have a: "answers_in_time ?resp"
    unfolding answers_in_time_def
  proof
    fix n :: nat
    show "\<exists>k<4. ?resp (n + k) = OK" by (rule exI[of _ "n mod 2"]) (simp add: less_le_trans[OF pos_mod_bound] mod_less_divisor[THEN less_trans])
  qed
  have b: "candleExists 2 ?mgr"
    by (simp add: candleExists_def setPrevCANdleConfigMsg_def registerCANdle_def Let_def CANdleManager_new_def
        sm_count_def sm_get_def)
  have c: "\<forall>s. running ?resp 2 ?calls s \<noteq> None \<longrightarrow>
      s \<in> an_slot ` set (led_animations ?sch (fst (sm_at [] 2 (mPrevCANdleMsgs ?mgr))))"
    by (auto simp: setPrevCANdleConfigMsg_def registerCANdle_def Let_def CANdleManager_new_def sm_count_def
        sm_get_def sm_at_def led_animations_def getRep_def ANIMATION_FD_def running_def slot_effect_def split: if_splits)
  have s: "led_mode ?sch [] = LedStatic" by (simp add: led_mode_def)
  note u = led_update_replaces[of ?sch "[]" "(?mgr, ?calls)" _ ?resp 0, OF _ _ disjI1[OF refl], THEN conjunct1,
      unfolded led_schema.simps fst_conv snd_conv s]
  have "running ?resp 2 (snd (processLEDUpdate ?sch ?resp [] (?mgr, ?calls))) = (\<lambda>s. None)"
    using mp[OF u[OF b insertI1] conjI[OF a c]] by (simp only: refl if_True)
  then show ?thesis
    by (simp only: Let_def) (simp add: running_def slot_effect_def)
qed

lemma compare_fields_prefix:
  "snd (compare_fields path (pre @ r1) (pre @ r2)) = snd (compare_fields path r1 r2)"
  by (induction pre) (auto simp: compare_values_same split_beta)

lemma compare_repeated_shrink:
  "compare_repeated path (xs @ ys) xs = (ys = [], replicate (length ys) (ReportDeleted, path))"
proof (induction xs)
  case Nil
  then show ?case by (cases ys) simp_all
qed (simp add: compare_values_same)

text \<open>Taking animations off the end of the list is not noticed: when a message differs from the
  last one only in that, the differential update makes no call, so the animations taken off go on
  running.\<close>

theorem led_removed_animation_keeps_running:
  "led_differential sch resp (pre @ [(ANIMATION_FD, PRep (xs @ ys))]) (pre @ [(ANIMATION_FD, PRep xs)]) st = st
   \<and> led_differential sch resp (pre @ [(ANIMATION_FD, PRep ys)]) pre st = st"
proof -
  have "differential_calls led_registered (pre @ [(ANIMATION_FD, PRep (xs @ ys))]) (pre @ [(ANIMATION_FD, PRep xs)]) = []"
    by (simp add: differential_calls_def compare_fields_prefix compare_values.simps compare_repeated_shrink
        is_list_def)
  moreover have "differential_calls led_registered (pre @ [(ANIMATION_FD, PRep ys)]) (pre @ []) = []"
    unfolding differential_calls_def compare_fields_prefix by simp
  ultimately show ?thesis by (simp add: led_differential_def)
qed


lemma led_differential_same: "led_differential sch resp m m st = st"
  by (simp add: led_differential_def differential_calls_def compare_fields_same)

text \<open>The messages kept outlive the CANdle: when a CANdle was deleted by its heartbeat, or never
  existed, and the same messages come again, the task registers it but sends it nothing, so a
  CANdle that lost its configuration stays dark until a message changes.\<close>

theorem led_reregistered_unconfigured:
  assumes "candle_ok mgr" and "n = length (mPrevCANdleMsgs mgr)"
    and "\<forall>m \<in> set ms. sm_get (mPrevCANdleMsgs mgr) (ls_id sch m) = Some m"
    and "m \<in> set ms" and "ls_id sch m < 64"
  shows "snd (led_loop sch resp n ms (mgr, calls)) = calls
    \<and> candleExists (ls_id sch m) (fst (led_loop sch resp n ms (mgr, calls)))"
proof -
  have "snd (led_loop sch resp n ms (mgr, calls)) = calls
    \<and> (\<forall>i. candleExists i mgr \<or> (\<exists>m \<in> set ms. ls_id sch m = i \<and> i < 64)
          \<longrightarrow> candleExists i (fst (led_loop sch resp n ms (mgr, calls))))"
    using assms(1-3)
  proof (induction ms arbitrary: mgr)
    case (Cons m ms)
    let ?i = "ls_id sch m"
    let ?mgr = "registerCANdle ?i (ls_can_network sch m) mgr"
    have prev: "mPrevCANdleMsgs ?mgr = mPrevCANdleMsgs mgr" by (simp add: registerCANdle_def Let_def)
    have ok: "candle_ok ?mgr" using Cons.prems(1) by (rule candle_ok_register)
    have live: "candleExists i ?mgr \<longleftrightarrow> candleExists i mgr \<or> i = ?i \<and> ?i < 64" for i
      using candles.live_register[OF Cons.prems(1), where r = "(?i, ls_can_network sch m)" and k = i]
      by (auto simp: candle_register_def)
    have at: "sm_at [] ?i (mPrevCANdleMsgs mgr) = (m, mPrevCANdleMsgs mgr)"
      using Cons.prems(3) by (simp add: sm_at_def)
    have put: "sm_put ?i m (mPrevCANdleMsgs mgr) = mPrevCANdleMsgs mgr"
      using Cons.prems(3) candle_ok_maps[OF Cons.prems(1)] by (simp add: sm_put_same)
    have step: "led_loop sch resp n (m # ms) (mgr, calls) = led_loop sch resp n ms (?mgr, calls)"
      using Cons.prems(2) at put
      by (simp add: Let_def prev led_differential_same setPrevCANdleConfigMsg_def)
        (simp flip: prev)
    show ?case
      unfolding step using Cons.IH[OF ok] Cons.prems(2,3) live by (simp add: prev) blast
  qed simp
  with assms(4,5) show ?thesis by blast
qed

theorem led_reregistered_unconfigured_witness:
  "let sch = \<lparr>ls_id = \<lambda>m. 2, ls_can_network = \<lambda>m. RIO_CANIVORE, ls_mode = \<lambda>k. LedStatic,
             ls_color = undefined, ls_animation = undefined\<rparr>;
       mgr = \<lparr>mRegisteredCANdleList = [], mRegisteredCANdleHeartbeatList = [], mCANdleMsgs = [],
              mPrevCANdleMsgs = [(2, [(3, PInt 1)])]\<rparr>
   in snd (led_loop sch (\<lambda>k. OK) 1 [[(3, PInt 1)]] (mgr, [])) = []"
proof -
  let ?sch = "\<lparr>ls_id = \<lambda>m. 2, ls_can_network = \<lambda>m. RIO_CANIVORE, ls_mode = \<lambda>k. LedStatic,
             ls_color = undefined, ls_animation = undefined\<rparr>"
  let ?mgr = "\<lparr>mRegisteredCANdleList = [], mRegisteredCANdleHeartbeatList = [], mCANdleMsgs = [],
              mPrevCANdleMsgs = [(2, [(3, PInt 1)])]\<rparr>"
  have "candle_ok ?mgr" by (simp add: candle_ok_def sm_ok_def sm_get_def)
  from led_reregistered_unconfigured[OF this, of 1 "[[(3, PInt 1)]]" ?sch "[(3, PInt 1)]" "\<lambda>k. OK" "[]"]
  show ?thesis by (simp add: sm_get_def)
qed

section \<open>The task keeps the tables consistent\<close>

lemma candle_ok_prev:
  "candle_ok s \<Longrightarrow> sm_ok prevs \<Longrightarrow> candle_ok (s\<lparr>mPrevCANdleMsgs := prevs\<rparr>)"
  by (simp add: candle_ok_def cong: option.case_cong)

lemma candle_ok_msgs: "candle_ok s \<Longrightarrow> candle_ok (setCANdlesConfigMsg f ms s)"
proof -
  assume "candle_ok s"
  moreover have "sm_ok (fold (\<lambda>m. sm_put (f m) m) ms (mCANdleMsgs s))"
    using candle_ok_maps[OF \<open>candle_ok s\<close>] by (intro fold_invariant_list[where P = sm_ok]) simp_all
  ultimately show ?thesis by (simp add: candle_ok_def setCANdlesConfigMsg_def cong: option.case_cong)
qed

lemma candle_ok_clear: "candle_ok (fst st) \<Longrightarrow> candle_ok (fst (clearAllAnimations sch resp i st))"
  by (auto simp: clearAllAnimations_def clear_slots split_beta Let_def candle_ok_maps intro!: candle_ok_prev)

lemma candle_ok_animate:
  "fst (fold (\<lambda>a st. if an_type a = AnimMorse then st
       else (case animationLookup a of None \<Rightarrow> st
             | Some anim \<Rightarrow> candle_retry resp i (Animate anim (an_slot a)) st)) ans st) = fst st"
  by (induction ans arbitrary: st) (simp_all add: candle_retry_effect split: option.split)

lemma candle_ok_update:
  assumes "candle_ok (fst st)"
  shows "candle_ok (fst (updateColor sch resp m st))" "candle_ok (fst (updateAnimation sch resp m st))"
    "candle_ok (fst (processLEDUpdate sch resp m st))"
proof -
  note c = candle_ok_clear[OF assms, of sch resp "ls_id sch m"]
  show 1: "candle_ok (fst (updateColor sch resp m st))"
    using c by (simp add: updateColor_def Let_def candle_retry_effect)
  show 2: "candle_ok (fst (updateAnimation sch resp m st))"
    unfolding updateAnimation_def Let_def
    using c by (simp add: candle_ok_animate)
  show "candle_ok (fst (processLEDUpdate sch resp m st))"
    using assms 1 2 by (simp add: processLEDUpdate_def)
qed

lemma candle_ok_full: "candle_ok (fst st) \<Longrightarrow> candle_ok (fst (snd (led_fullUpdate sch resp m st)))"
  by (simp add: led_fullUpdate_def Let_def candle_ok_update candle_retry_effect split: led_control_mode.split)

lemma candle_ok_differential:
  "candle_ok (fst st) \<Longrightarrow> candle_ok (fst (led_differential sch resp prev m st))"
  unfolding led_differential_def
  by (rule fold_invariant_list)
    (auto simp: led_updates_def on_candle_msg_def candle_ok_update candle_retry_effect
      split: option.split if_splits)

lemma candle_ok_loop: "candle_ok (fst st) \<Longrightarrow> candle_ok (fst (led_loop sch resp n ms st))"
proof (induction ms arbitrary: st)
  case (Cons m ms)
  let ?mgr = "registerCANdle (ls_id sch m) (ls_can_network sch m) (fst st)"
  let ?prev = "sm_at [] (ls_id sch m) (mPrevCANdleMsgs ?mgr)"
  let ?st1 = "if n = length (mPrevCANdleMsgs ?mgr)
      then led_differential sch resp (fst ?prev) m (?mgr\<lparr>mPrevCANdleMsgs := snd ?prev\<rparr>, snd st)
      else snd (led_fullUpdate sch resp m (?mgr, snd st))"
  have mgr: "candle_ok ?mgr" using Cons.prems by (rule candle_ok_register)
  have "candle_ok (fst ?st1)"
    using mgr candle_ok_maps[OF mgr] by (simp add: candle_ok_differential candle_ok_full candle_ok_prev)
  then have "candle_ok (setPrevCANdleConfigMsg (ls_id sch m) m (fst ?st1))"
    unfolding setPrevCANdleConfigMsg_def by (intro candle_ok_prev) (auto dest: candle_ok_maps)
  moreover have "led_loop sch resp n (m # ms) st =
      (if candleExists (ls_id sch m) ?mgr
       then led_loop sch resp n ms (setPrevCANdleConfigMsg (ls_id sch m) m (fst ?st1), snd ?st1)
       else led_loop sch resp n ms (?mgr, snd st))"
    by (simp add: Let_def split_beta led_fullUpdate_def)
  ultimately show ?case using Cons.IH mgr by simp
qed simp

lemma candle_ok_task:
  assumes "candle_ok (fst st)" and "led_task_run parse try_lock sch resp n st = (n', st')"
  shows "candle_ok (fst st')"
  using assms by (auto simp: led_task_run_def candle_ok_loop candle_ok_msgs
      split: prod.splits option.splits if_splits)

lemma led_task_network: "fst (led_task_run parse try_lock sch resp n st) = snd (getMessage ''ledcontrol'' n)"
  by (simp add: led_task_run_def split: prod.split option.split)

end
