(* ===== verification/Failover_Messages.thy ===== *)
theory Failover_Messages
  imports Motor_Values Motor_Config Solenoid_Manager
begin

text \<open>
  \<open>failover/FailoverMessageManager\<close>: the messages the on-board failover code fills in instead of
  the coprocessor, and their publication into the mailbox of \<open>Network_Manager\<close>. The subsystems
  hold pointers to elements of the messages; a pointer is the index of the element, so writing
  through it is visible to the publication. Motor configurations are messages by field number, as
  in \<open>Motor_Config\<close>; a field set to its default is absent. What the protobuf compiler generates
  (the numbers of enumerators, the nested message of a current limit, serialisation) is a parameter.
\<close>

record proto_names =
  pn_enum :: "string \<Rightarrow> int"
  pn_current_limit :: "bool \<Rightarrow> real \<Rightarrow> real \<Rightarrow> real \<Rightarrow> pmsg"

record led_control_msg =
  lm_id :: int
  lm_led_type :: string
  lm_led_control_mode :: string
  lm_rgbw :: "int \<times> int \<times> int \<times> int"
  lm_start_index :: int
  lm_num_leds :: int
  lm_can_network :: can_interface
  lm_vbat_config :: string

record failover_messages =
  fm_motorConfiguration :: "pmsg list"
  fm_motorControl :: "motor_control list"
  fm_solenoidControl :: solenoid_control
  fm_imuConfig :: "pmsg list"
  fm_ledControl :: "led_control_msg list"
  fm_loopCounter :: u32

definition FailoverMessageManager_new :: failover_messages where
  "FailoverMessageManager_new = \<lparr>fm_motorConfiguration = [], fm_motorControl = [],
     fm_solenoidControl = \<lparr>solenoids = [], compressor_is_enabled_for_auto = False\<rparr>,
     fm_imuConfig = [], fm_ledControl = [], fm_loopCounter = 0\<rparr>"

section \<open>Adding elements\<close>

definition addMotorControl :: "failover_messages \<Rightarrow> nat \<times> failover_messages" where
  "addMotorControl fm = (length (fm_motorControl fm),
     fm\<lparr>fm_motorControl := fm_motorControl fm @
       [\<lparr>mv_id = 0, mv_controller_type = TALON_FX, mv_control_mode = PercentOutput,
         mv_output_value = Finite 0, mv_arbitrary_feedforward = Finite 0\<rparr>]\<rparr>)"

definition addMotorConfig :: "failover_messages \<Rightarrow> nat \<times> failover_messages" where
  "addMotorConfig fm = (length (fm_motorConfiguration fm),
     fm\<lparr>fm_motorConfiguration := fm_motorConfiguration fm @ [[]]\<rparr>)"

definition addSolenoidControl :: "failover_messages \<Rightarrow> nat \<times> failover_messages" where
  "addSolenoidControl fm = (length (solenoids (fm_solenoidControl fm)),
     fm\<lparr>fm_solenoidControl := (fm_solenoidControl fm)\<lparr>solenoids := solenoids (fm_solenoidControl fm) @
       [\<lparr>sm_module_type = CTREPCM, sm_id = 0, sm_solenoid_type = SINGLE, sm_output_value = SOL_OFF\<rparr>]\<rparr>\<rparr>)"

definition addIMUConfig :: "failover_messages \<Rightarrow> nat \<times> failover_messages" where
  "addIMUConfig fm = (length (fm_imuConfig fm), fm\<lparr>fm_imuConfig := fm_imuConfig fm @ [[]]\<rparr>)"

definition addLEDControl :: "failover_messages \<Rightarrow> nat \<times> failover_messages" where
  "addLEDControl fm = (length (fm_ledControl fm),
     fm\<lparr>fm_ledControl := fm_ledControl fm @
       [\<lparr>lm_id = 0, lm_led_type = '''', lm_led_control_mode = '''', lm_rgbw = (0, 0, 0, 0),
         lm_start_index = 0, lm_num_leds = 0, lm_can_network = RIO_INTERNAL_CAN,
         lm_vbat_config = ''''\<rparr>]\<rparr>)"

section \<open>Writing through a pointer\<close>

definition on_control :: "nat \<Rightarrow> (motor_control \<Rightarrow> motor_control) \<Rightarrow> failover_messages \<Rightarrow> failover_messages" where
  "on_control p f fm = fm\<lparr>fm_motorControl := (fm_motorControl fm)[p := f (fm_motorControl fm ! p)]\<rparr>"

definition on_config :: "nat \<Rightarrow> (pmsg \<Rightarrow> pmsg) \<Rightarrow> failover_messages \<Rightarrow> failover_messages" where
  "on_config p f fm = fm\<lparr>fm_motorConfiguration :=
     (fm_motorConfiguration fm)[p := f (fm_motorConfiguration fm ! p)]\<rparr>"

definition on_solenoid :: "nat \<Rightarrow> (solenoid_msg \<Rightarrow> solenoid_msg) \<Rightarrow> failover_messages \<Rightarrow> failover_messages" where
  "on_solenoid p f fm = fm\<lparr>fm_solenoidControl := (fm_solenoidControl fm)\<lparr>solenoids :=
     (solenoids (fm_solenoidControl fm))[p := f (solenoids (fm_solenoidControl fm) ! p)]\<rparr>\<rparr>"

definition set_output_value :: "nat \<Rightarrow> real \<Rightarrow> failover_messages \<Rightarrow> failover_messages" where
  "set_output_value p x = on_control p (\<lambda>c. c\<lparr>mv_output_value := Finite x\<rparr>)"

definition set_control_mode :: "nat \<Rightarrow> control_mode \<Rightarrow> failover_messages \<Rightarrow> failover_messages" where
  "set_control_mode p md = on_control p (\<lambda>c. c\<lparr>mv_control_mode := md\<rparr>)"

definition is_default :: "pval \<Rightarrow> bool" where
  "is_default v \<longleftrightarrow> v \<in> {PNum 0, PInt 0, PBool False}"

definition set_field :: "nat \<times> pval \<Rightarrow> pmsg \<Rightarrow> pmsg" where
  "set_field fv m = (if is_default (snd fv) then sm_erase (fst fv) m else sm_put (fst fv) (snd fv) m)"

definition set_fields :: "(nat \<times> pval) list \<Rightarrow> pmsg \<Rightarrow> pmsg" where
  "set_fields fvs m = fold set_field fvs m"

section \<open>Publication\<close>

record serializers =
  sr_motorControl :: "motor_control list \<Rightarrow> bytes"
  sr_solenoidControl :: "solenoid_control \<Rightarrow> bytes"
  sr_motorConfiguration :: "pmsg list \<Rightarrow> bytes"
  sr_ledControl :: "led_control_msg list \<Rightarrow> bytes"

definition BUF_SIZE :: nat where
  "BUF_SIZE = 16384"

text \<open>\<open>SerializeToArray\<close> fails on a message that does not fit the buffer; then nothing is placed.\<close>

definition publish_bytes :: "string \<Rightarrow> bytes \<Rightarrow> network \<Rightarrow> network" where
  "publish_bytes grp buf n =
     (if length buf \<le> BUF_SIZE then snd (placeFailoverMessage grp buf n) else n)"

definition publishMessages :: "serializers \<Rightarrow> failover_messages \<Rightarrow> network \<Rightarrow> failover_messages \<times> network" where
  "publishMessages sr fm n =
     (let n1 = publish_bytes ''motorcontrol'' (sr_motorControl sr (fm_motorControl fm)) n;
          n2 = publish_bytes ''solenoidcontrol'' (sr_solenoidControl sr (fm_solenoidControl fm)) n1;
          n3 = (if fm_loopCounter fm mod 25 = 0 then
                  publish_bytes ''ledcontrol'' (sr_ledControl sr (fm_ledControl fm))
                    (publish_bytes ''motorconfig'' (sr_motorConfiguration sr (fm_motorConfiguration fm)) n2)
                else n2)
      in (fm\<lparr>fm_loopCounter := fm_loopCounter fm + 1\<rparr>, n3))"

section \<open>Lemmas\<close>

lemma publish_bytes_ok [simp]: "network_ok n \<Longrightarrow> network_ok (publish_bytes grp buf n)"
  by (simp add: publish_bytes_def network_ok_def placeFailoverMessage_def)

lemma waiting_publish_bytes:
  "network_ok n \<Longrightarrow> waiting (publish_bytes grp buf n) g =
     (if g = grp \<and> length buf \<le> BUF_SIZE then Some buf else waiting n g)"
  by (auto simp: publish_bytes_def placeFailoverMessage_def waiting_def network_ok_def)

lemma publish_frame [simp]:
  "fm_motorControl (fst (publishMessages sr fm n)) = fm_motorControl fm"
  "fm_motorConfiguration (fst (publishMessages sr fm n)) = fm_motorConfiguration fm"
  "fm_solenoidControl (fst (publishMessages sr fm n)) = fm_solenoidControl fm"
  "fm_ledControl (fst (publishMessages sr fm n)) = fm_ledControl fm"
  "fm_loopCounter (fst (publishMessages sr fm n)) = fm_loopCounter fm + 1"
  by (simp_all add: publishMessages_def Let_def)

lemma publish_network_ok: "network_ok n \<Longrightarrow> network_ok (snd (publishMessages sr fm n))"
  by (simp add: publishMessages_def Let_def)

lemma unat_numeral_u32_25: "unat (25 :: u32) = 25"
  by simp

text \<open>C33. Every publication puts the current motor and solenoid commands into the mailbox, replacing
  what was there; the motor configuration and the LED command are put there by every 25th
  publication only (half a second at 20 ms), starting with the first. A message that does not fit
  the 16384-byte buffer is not placed and leaves what was there, and no other group is touched.\<close>

theorem failover_publication:
  assumes "network_ok n" and "publishMessages sr fm n = (fm', n')"
  shows "waiting n' g =
    (if g = ''motorcontrol'' \<and> length (sr_motorControl sr (fm_motorControl fm)) \<le> 16384
     then Some (sr_motorControl sr (fm_motorControl fm))
     else if g = ''solenoidcontrol'' \<and> length (sr_solenoidControl sr (fm_solenoidControl fm)) \<le> 16384
     then Some (sr_solenoidControl sr (fm_solenoidControl fm))
     else if g = ''motorconfig'' \<and> unat (fm_loopCounter fm) mod 25 = 0
         \<and> length (sr_motorConfiguration sr (fm_motorConfiguration fm)) \<le> 16384
     then Some (sr_motorConfiguration sr (fm_motorConfiguration fm))
     else if g = ''ledcontrol'' \<and> unat (fm_loopCounter fm) mod 25 = 0
         \<and> length (sr_ledControl sr (fm_ledControl fm)) \<le> 16384
     then Some (sr_ledControl sr (fm_ledControl fm))
     else waiting n g)
    \<and> unat (fm_loopCounter fm') = (unat (fm_loopCounter fm) + 1) mod 2 ^ 32"
proof -
  have m: "fm_loopCounter fm mod 25 = 0 \<longleftrightarrow> unat (fm_loopCounter fm) mod 25 = 0"
    by (metis unat_eq_zero unat_mod unat_numeral_u32_25)
  have n: "n' = snd (publishMessages sr fm n)" and fm: "fm' = fst (publishMessages sr fm n)"
    using assms(2) by simp_all
  have "unat (fm_loopCounter fm') = (unat (fm_loopCounter fm) + 1) mod 2 ^ 32"
    unfolding fm publish_frame by (simp only: unat_word_ariths(1)) simp
  moreover note assms(1)
  ultimately show ?thesis
    unfolding n publishMessages_def Let_def snd_conv m
    by (cases "unat (fm_loopCounter fm) mod 25 = 0")
      (simp_all add: waiting_publish_bytes BUF_SIZE_def del: unat_mod)
qed

theorem failover_publication_witness:
  "let sr = \<lparr>sr_motorControl = \<lambda>m. [1], sr_solenoidControl = \<lambda>m. [2],
             sr_motorConfiguration = \<lambda>m. [3], sr_ledControl = \<lambda>m. replicate 20000 0\<rparr>;
       n = snd (publishMessages sr FailoverMessageManager_new NetworkManager_new)
   in waiting n ''motorconfig'' = Some [3] \<and> waiting n ''ledcontrol'' = None"
proof -
  let ?sr = "\<lparr>sr_motorControl = \<lambda>m. [1], sr_solenoidControl = \<lambda>m. [2],
             sr_motorConfiguration = \<lambda>m. [3], sr_ledControl = \<lambda>m. replicate 20000 0\<rparr>"
  obtain fm' n' where p: "publishMessages ?sr FailoverMessageManager_new NetworkManager_new = (fm', n')"
    by fastforce
  have "network_ok NetworkManager_new" by simp
  from failover_publication[OF this p, of "''motorconfig''"] failover_publication[OF this p, of "''ledcontrol''"]
  have "waiting n' ''motorconfig'' = Some [3]" "waiting n' ''ledcontrol'' = None"
    by (simp_all add: FailoverMessageManager_new_def NetworkManager_new_def waiting_def)
  then show ?thesis by (simp only: Let_def p snd_conv simp_thms)
qed

end
