(* ===== verification/Failover_Subsystems.thy ===== *)
theory Failover_Subsystems
  imports Failover_Messages CK_Math
begin

text \<open>
  \<open>failover/subsystems\<close>: the arm, the intake, the LEDs and the swerve drivetrain as the robot runs
  them on its own, and \<open>failover/RobotFailover\<close>, which drives them. Each subsystem is the record of
  its pointers into the failover messages (and its own state); its operations write through them.
  The joystick, the swerve kinematics and the wheel-angle optimisation of WPILib are parameters, as
  is the position a talon reports.
\<close>

section \<open>Configurations and controls\<close>

text \<open>\<open>SetBaseConfig\<close> of the arm and the intake: the setters in their order.\<close>

definition SetBaseConfig :: "proto_names \<Rightarrow> int \<Rightarrow> real \<Rightarrow> failover_messages \<Rightarrow> nat \<times> failover_messages" where
  "SetBaseConfig pn devId current_limit fm =
     (let (p, fm1) = addMotorConfig fm
      in (p, on_config p (set_fields
            [(ID_FD, PInt devId),
             (CONTROLLER_MODE_FD, PInt (pn_enum pn ''ControllerMode_MASTER'')),
             (INVERT_TYPE_FD, PInt (pn_enum pn ''InvertType_None'')),
             (CONTROLLER_TYPE_FD, PInt (pn_enum pn ''ControllerType_TALON_FX'')),
             (NEUTRAL_MODE_FD, PInt (pn_enum pn ''NeutralMode_Brake'')),
             (VOLTAGE_COMPENSATION_SATURATION_FD, PNum 12),
             (VOLTAGE_COMPENSATION_ENABLED_FD, PBool True),
             (OPEN_LOOP_RAMP_FD, PNum 0),
             (FORWARD_LIMIT_SWITCH_SOURCE_FD, PInt (pn_enum pn ''LimitSwitchSource_Deactivated'')),
             (FORWARD_LIMIT_SWITCH_NORMAL_FD, PInt (pn_enum pn ''LimitSwitchNormal_Disabled'')),
             (REVERSE_LIMIT_SWITCH_SOURCE_FD, PInt (pn_enum pn ''LimitSwitchSource_Deactivated'')),
             (REVERSE_LIMIT_SWITCH_NORMAL_FD, PInt (pn_enum pn ''LimitSwitchNormal_Disabled'')),
             (SUPPLY_CURRENT_LIMIT_CONFIG_FD, PMsg (pn_current_limit pn True current_limit 0 0)),
             (CAN_NETWORK_FD, PInt (pn_enum pn ''RIO_CANIVORE''))]) fm1))"

definition SetBaseControl :: "int \<Rightarrow> failover_messages \<Rightarrow> nat \<times> failover_messages" where
  "SetBaseControl devId fm =
     (let (p, fm1) = addMotorControl fm
      in (p, on_control p (\<lambda>c. c\<lparr>mv_id := devId, mv_arbitrary_feedforward := Finite 0,
                mv_controller_type := TALON_FX, mv_control_mode := PercentOutput,
                mv_output_value := Finite 0\<rparr>) fm1))"

definition SetBaseControl_follower :: "int \<Rightarrow> int \<Rightarrow> failover_messages \<Rightarrow> nat \<times> failover_messages" where
  "SetBaseControl_follower devId master_id fm =
     (let (p, fm1) = SetBaseControl devId fm
      in (p, set_output_value p (of_int master_id) (set_control_mode p Follower fm1)))"

definition SetBaseSolenoid :: "u32 \<Rightarrow> u32 \<Rightarrow> failover_messages \<Rightarrow> nat \<times> failover_messages" where
  "SetBaseSolenoid channel module_id fm =
     (let (p, fm1) = addSolenoidControl fm
      in (p, on_solenoid p (\<lambda>s. s\<lparr>sm_id := ((push_bit 16 module_id AND 0xFFFF0000) OR (channel AND 0xFFFF)),
                sm_module_type := CTREPCM, sm_solenoid_type := SINGLE, sm_output_value := SOL_OFF\<rparr>) fm1))"

record config_data_set =
  cd_kP :: real
  cd_kI :: real
  cd_kD :: real
  cd_kF :: real
  cd_motion_cruise_vel :: real
  cd_motion_accel :: real
  cd_motion_scurve :: real
  cd_forward_soft_limit_enabled :: bool
  cd_forward_soft_limit :: real
  cd_reverse_soft_limit_enabled :: bool
  cd_reverse_soft_limit :: real

definition lower_arm_pid :: config_data_set where
  "lower_arm_pid = \<lparr>cd_kP = 524 / 1000, cd_kI = 0, cd_kD = 33 / 100, cd_kF = 242 / 1000,
     cd_motion_cruise_vel = 3600, cd_motion_accel = 3700, cd_motion_scurve = 3,
     cd_forward_soft_limit_enabled = True, cd_forward_soft_limit = 8958,
     cd_reverse_soft_limit_enabled = True, cd_reverse_soft_limit = - 13371\<rparr>"

definition upper_arm_pid :: config_data_set where
  "upper_arm_pid = \<lparr>cd_kP = 17 / 10, cd_kI = 0, cd_kD = 25 / 10, cd_kF = 391463871 / 100000000,
     cd_motion_cruise_vel = 200, cd_motion_accel = 450, cd_motion_scurve = 1,
     cd_forward_soft_limit_enabled = True, cd_forward_soft_limit = - 573,
     cd_reverse_soft_limit_enabled = True, cd_reverse_soft_limit = - 3604\<rparr>"

definition wrist_pid :: config_data_set where
  "wrist_pid = \<lparr>cd_kP = 27 / 1000, cd_kI = 0, cd_kD = 37 / 1000, cd_kF = 449122 / 10000000,
     cd_motion_cruise_vel = 19500, cd_motion_accel = 44000, cd_motion_scurve = 3,
     cd_forward_soft_limit_enabled = True, cd_forward_soft_limit = 232492,
     cd_reverse_soft_limit_enabled = True, cd_reverse_soft_limit = - 30930\<rparr>"

definition ConfigPID :: "nat \<Rightarrow> config_data_set \<Rightarrow> failover_messages \<Rightarrow> failover_messages" where
  "ConfigPID p d = on_config p (set_fields
     [(KP_FD, PNum (cd_kP d)), (KI_FD, PNum (cd_kI d)), (KD_FD, PNum (cd_kD d)), (KF_FD, PNum (cd_kF d)),
      (MOTION_CRUISE_VELOCITY_FD, PNum (cd_motion_cruise_vel d)),
      (MOTION_ACCELERATION_FD, PNum (cd_motion_accel d)),
      (MOTION_S_CURVE_STRENGTH_FD, PNum (cd_motion_scurve d)),
      (FORWARD_SOFT_LIMIT_ENABLE_FD, PBool (cd_forward_soft_limit_enabled d)),
      (FORWARD_SOFT_LIMIT_FD, PNum (cd_forward_soft_limit d)),
      (REVERSE_SOFT_LIMIT_ENABLE_FD, PBool (cd_reverse_soft_limit_enabled d)),
      (REVERSE_SOFT_LIMIT_FD, PNum (cd_reverse_soft_limit d))])"

section \<open>ArmFailover\<close>

record arm_failover =
  mLowerArmMasterConfig :: nat
  mLowerArmFollowerConfig :: nat
  mUpperArmMasterConfig :: nat
  mUpperArmFollowerConfig :: nat
  mWristConfig :: nat
  mLowerArmMaster :: nat
  mLowerArmFollower :: nat
  mUpperArmMaster :: nat
  mUpperArmFollower :: nat
  mWrist :: nat
  mLowerBrake :: nat
  mUpperBrake :: nat
  mExtension1 :: nat
  mExtension2 :: nat

definition ArmFailover_new :: "proto_names \<Rightarrow> failover_messages \<Rightarrow> arm_failover \<times> failover_messages" where
  "ArmFailover_new pn fm =
     (let invert = [(INVERT_TYPE_FD, PInt (pn_enum pn ''InvertType_InvertMotorOutput''))];
          oppose = [(INVERT_TYPE_FD, PInt (pn_enum pn ''InvertType_OpposeMaster''))];
          (lmc, fm) = SetBaseConfig pn 9 40 fm;
          fm = on_config lmc (set_fields [(FEEDBACK_SENSOR_CAN_ID_FD, PInt 29)]) fm;
          fm = on_config lmc (set_fields invert) fm;
          (lm, fm) = SetBaseControl 9 fm;
          fm = ConfigPID lmc lower_arm_pid fm;
          (lfc, fm) = SetBaseConfig pn 10 40 fm;
          fm = on_config lfc (set_fields oppose) fm;
          (lf, fm) = SetBaseControl_follower 10 9 fm;
          (umc, fm) = SetBaseConfig pn 11 40 fm;
          fm = on_config umc (set_fields [(FEEDBACK_SENSOR_CAN_ID_FD, PInt 31)]) fm;
          fm = on_config umc (set_fields invert) fm;
          (um, fm) = SetBaseControl 11 fm;
          fm = ConfigPID umc upper_arm_pid fm;
          (ufc, fm) = SetBaseConfig pn 12 40 fm;
          fm = on_config ufc (set_fields oppose) fm;
          (uf, fm) = SetBaseControl_follower 12 11 fm;
          (wc, fm) = SetBaseConfig pn 13 30 fm;
          fm = on_config wc (set_fields invert) fm;
          (w, fm) = SetBaseControl 13 fm;
          fm = ConfigPID wc wrist_pid fm;
          (lb, fm) = SetBaseSolenoid 7 0 fm;
          (ub, fm) = SetBaseSolenoid 6 0 fm;
          (e1, fm) = SetBaseSolenoid 0 1 fm;
          (e2, fm) = SetBaseSolenoid 2 1 fm
      in (\<lparr>mLowerArmMasterConfig = lmc, mLowerArmFollowerConfig = lfc, mUpperArmMasterConfig = umc,
           mUpperArmFollowerConfig = ufc, mWristConfig = wc, mLowerArmMaster = lm,
           mLowerArmFollower = lf, mUpperArmMaster = um, mUpperArmFollower = uf, mWrist = w,
           mLowerBrake = lb, mUpperBrake = ub, mExtension1 = e1, mExtension2 = e2\<rparr>, fm))"

text \<open>\<open>init\<close> and \<open>periodic\<close> of the arm, the intake and the LEDs are empty.\<close>

definition arm_uninit :: "arm_failover \<Rightarrow> failover_messages \<Rightarrow> failover_messages" where
  "arm_uninit a fm =
     set_output_value (mWrist a) 0 (set_control_mode (mWrist a) PercentOutput
       (set_output_value (mUpperArmMaster a) 0 (set_control_mode (mUpperArmMaster a) PercentOutput
         (set_output_value (mLowerArmMaster a) 0 (set_control_mode (mLowerArmMaster a) PercentOutput fm)))))"

definition set_solenoid_value :: "nat \<Rightarrow> sol_value \<Rightarrow> failover_messages \<Rightarrow> failover_messages" where
  "set_solenoid_value p v = on_solenoid p (\<lambda>s. s\<lparr>sm_output_value := v\<rparr>)"

definition arm_run :: "arm_failover \<Rightarrow> failover_messages \<Rightarrow> failover_messages" where
  "arm_run a fm =
     set_solenoid_value (mExtension2 a) SOL_OFF (set_solenoid_value (mExtension1 a) SOL_OFF
       (set_solenoid_value (mUpperBrake a) SOL_OFF (set_solenoid_value (mLowerBrake a) SOL_OFF
     (set_output_value (mWrist a) 0 (set_control_mode (mWrist a) PercentOutput
       (set_output_value (mUpperArmMaster a) 0 (set_control_mode (mUpperArmMaster a) PercentOutput
         (set_output_value (mLowerArmMaster a) 0 (set_control_mode (mLowerArmMaster a) PercentOutput fm)))))))))"

section \<open>IntakeFailover\<close>

record intake_failover =
  mIntakeConfig :: nat
  mIntake :: nat
  mPinch :: nat

definition IntakeFailover_new :: "proto_names \<Rightarrow> failover_messages \<Rightarrow> intake_failover \<times> failover_messages" where
  "IntakeFailover_new pn fm =
     (let (ic, fm) = SetBaseConfig pn 14 40 fm;
          (i, fm) = SetBaseControl 14 fm;
          (p, fm) = SetBaseSolenoid 1 1 fm
      in (\<lparr>mIntakeConfig = ic, mIntake = i, mPinch = p\<rparr>, fm))"

definition intake_uninit :: "intake_failover \<Rightarrow> failover_messages \<Rightarrow> failover_messages" where
  "intake_uninit k fm = set_output_value (mIntake k) 0 (set_control_mode (mIntake k) PercentOutput fm)"

definition intake_run :: "intake_failover \<Rightarrow> failover_messages \<Rightarrow> failover_messages" where
  "intake_run k fm = set_solenoid_value (mPinch k) SOL_OFF
     (set_output_value (mIntake k) 0 (set_control_mode (mIntake k) PercentOutput fm))"

section \<open>LEDFailover\<close>

definition LEDFailover_new :: "failover_messages \<Rightarrow> nat \<times> failover_messages" where
  "LEDFailover_new fm =
     (let (p, fm1) = addLEDControl fm
      in (p, fm1\<lparr>fm_ledControl := (fm_ledControl fm1)[p :=
            (fm_ledControl fm1 ! p)\<lparr>lm_id := 0, lm_led_type := ''GRBW'', lm_led_control_mode := ''Static'',
               lm_rgbw := (255, 0, 0, 0), lm_num_leds := 50, lm_start_index := 0,
               lm_can_network := RIO_CANIVORE, lm_vbat_config := ''Off''\<rparr>]\<rparr>))"

section \<open>SwerveDrivetrainFailover\<close>

record joystick =
  js_connected :: bool
  js_axis :: "nat \<Rightarrow> real"
  js_button :: "nat \<Rightarrow> bool"

text \<open>\<open>sw_mJoystick\<close>: the pointer is set; \<open>sw_live\<close>: how many joystick objects exist. The four
  modules are front left, front right, back left, back right.\<close>

record swerve_failover =
  sw_mJoystick :: bool
  sw_live :: nat
  sw_driveConfig :: "nat list"
  sw_drive :: "nat list"
  sw_steeringConfig :: "nat list"
  sw_steering :: "nat list"
  mSteeringAngles :: "real list"

definition STEERING_IDS :: "u16 list" where
  "STEERING_IDS = [5, 6, 7, 8]"

definition DRIVE_WHEEL_DIAMETER :: real where
  "DRIVE_WHEEL_DIAMETER = 39 / 10"

definition DRIVE_GEAR_RATIO :: real where
  "DRIVE_GEAR_RATIO = 675 / 100"

definition STEERING_GEAR_RATIO :: real where
  "STEERING_GEAR_RATIO = 1"

definition DRIVE_JOYSTICK_DEADBAND :: real where
  "DRIVE_JOYSTICK_DEADBAND = 1 / 10"

text \<open>The setters \<open>SetDriveConfig\<close> and \<open>SetSteeringConfig\<close> have in common.\<close>

definition swerve_config_fields ::
  "proto_names \<Rightarrow> int \<Rightarrow> real \<Rightarrow> real \<Rightarrow> real \<Rightarrow> real \<Rightarrow> real \<Rightarrow> pmsg \<Rightarrow> (nat \<times> pval) list" where
  "swerve_config_fields pn devId kP kI kD kF ramp limits =
     [(ID_FD, PInt devId),
      (CONTROLLER_MODE_FD, PInt (pn_enum pn ''ControllerMode_FAST_MASTER'')),
      (INVERT_TYPE_FD, PInt (pn_enum pn ''InvertType_None'')),
      (CONTROLLER_TYPE_FD, PInt (pn_enum pn ''ControllerType_TALON_FX'')),
      (NEUTRAL_MODE_FD, PInt (pn_enum pn ''NeutralMode_Brake'')),
      (VOLTAGE_COMPENSATION_SATURATION_FD, PNum 12),
      (VOLTAGE_COMPENSATION_ENABLED_FD, PBool True),
      (KP_FD, PNum kP), (KI_FD, PNum kI), (KD_FD, PNum kD), (KF_FD, PNum kF),
      (OPEN_LOOP_RAMP_FD, PNum ramp),
      (FORWARD_LIMIT_SWITCH_SOURCE_FD, PInt (pn_enum pn ''LimitSwitchSource_Deactivated'')),
      (FORWARD_LIMIT_SWITCH_NORMAL_FD, PInt (pn_enum pn ''LimitSwitchNormal_Disabled'')),
      (REVERSE_LIMIT_SWITCH_SOURCE_FD, PInt (pn_enum pn ''LimitSwitchSource_Deactivated'')),
      (REVERSE_LIMIT_SWITCH_NORMAL_FD, PInt (pn_enum pn ''LimitSwitchNormal_Disabled'')),
      (SUPPLY_CURRENT_LIMIT_CONFIG_FD, PMsg limits)]"

definition swerve_control :: "int \<Rightarrow> control_mode \<Rightarrow> failover_messages \<Rightarrow> nat \<times> failover_messages" where
  "swerve_control devId md fm =
     (let (p, fm1) = addMotorControl fm
      in (p, on_control p (\<lambda>c. c\<lparr>mv_id := devId, mv_arbitrary_feedforward := Finite 0,
                mv_controller_type := TALON_FX, mv_control_mode := md,
                mv_output_value := Finite 0\<rparr>) fm1))"

definition SetDriveConfig :: "proto_names \<Rightarrow> int \<Rightarrow> failover_messages \<Rightarrow> nat \<times> nat \<times> failover_messages" where
  "SetDriveConfig pn devId fm =
     (let (pc, fm) = addMotorConfig fm;
          fm = on_config pc (set_fields
                 (swerve_config_fields pn devId (7 / 100) 0 (43 / 100) (469 / 10000) (15 / 100)
                    (pn_current_limit pn True 55 0 0)
                  @ [(CAN_NETWORK_FD, PInt (pn_enum pn ''RIO_CANIVORE''))])) fm;
          (p, fm) = swerve_control devId Velocity fm
      in (pc, p, fm))"

definition SetSteeringConfig ::
  "proto_names \<Rightarrow> int \<Rightarrow> int \<Rightarrow> failover_messages \<Rightarrow> nat \<times> nat \<times> failover_messages" where
  "SetSteeringConfig pn devId cancoder_id fm =
     (let (pc, fm) = addMotorConfig fm;
          fm = on_config pc (set_fields
                 (swerve_config_fields pn devId (21 / 10) 0 3 0 0 (pn_current_limit pn True 80 40 1)
                  @ [(FEEDBACK_SENSOR_CAN_ID_FD, PInt cancoder_id),
                     (CAN_NETWORK_FD, PInt (pn_enum pn ''RIO_CANIVORE''))])) fm;
          (p, fm) = swerve_control devId Position fm
      in (pc, p, fm))"

definition SwerveDrivetrainFailover_new :: "proto_names \<Rightarrow> failover_messages \<Rightarrow> swerve_failover \<times> failover_messages" where
  "SwerveDrivetrainFailover_new pn fm =
     (let (fldc, fld, fm) = SetDriveConfig pn 1 fm;
          (frdc, frd, fm) = SetDriveConfig pn 2 fm;
          (bldc, bld, fm) = SetDriveConfig pn 3 fm;
          (brdc, brd, fm) = SetDriveConfig pn 4 fm;
          (flsc, fls, fm) = SetSteeringConfig pn 5 25 fm;
          (frsc, frs, fm) = SetSteeringConfig pn 6 26 fm;
          (blsc, bls, fm) = SetSteeringConfig pn 7 27 fm;
          (brsc, brs, fm) = SetSteeringConfig pn 8 28 fm
      in (\<lparr>sw_mJoystick = False, sw_live = 0, sw_driveConfig = [fldc, frdc, bldc, brdc],
           sw_drive = [fld, frd, bld, brd], sw_steeringConfig = [flsc, frsc, blsc, brsc],
           sw_steering = [fls, frs, bls, brs], mSteeringAngles = [0, 0, 0, 0]\<rparr>, fm))"

definition set_output_values :: "nat list \<Rightarrow> real list \<Rightarrow> failover_messages \<Rightarrow> failover_messages" where
  "set_output_values ps xs fm = fold (\<lambda>(p, x). set_output_value p x) (zip ps xs) fm"

text \<open>\<open>position\<close> is \<open>GetSelectedSensorPosition\<close> of a talon; a motor that is not registered leaves 0.\<close>

definition swerve_init ::
  "(u16 \<Rightarrow> real) \<Rightarrow> 'm motor_manager \<Rightarrow> swerve_failover \<times> failover_messages \<Rightarrow> swerve_failover \<times> failover_messages" where
  "swerve_init position mgr st =
     (case st of (sw, fm) \<Rightarrow>
       (let sw1 = sw\<lparr>sw_mJoystick := True, sw_live := sw_live sw + 1\<rparr>;
            current_angles = map (\<lambda>i. if motorExists i mgr then position i else 0) STEERING_IDS
        in (sw1\<lparr>mSteeringAngles := map (\<lambda>a. a / 4096 * 360) current_angles\<rparr>,
            set_output_values (sw_steering sw) current_angles fm)))"

definition swerve_uninit :: "swerve_failover \<times> failover_messages \<Rightarrow> swerve_failover \<times> failover_messages" where
  "swerve_uninit st =
     (case st of (sw, fm) \<Rightarrow>
       (if sw_mJoystick sw then sw\<lparr>sw_mJoystick := False, sw_live := sw_live sw - 1\<rparr> else sw,
        set_output_values (sw_drive sw) [0, 0, 0, 0] fm))"

definition swerve_periodic ::
  "(u16 \<Rightarrow> real) \<Rightarrow> 'm motor_manager \<Rightarrow> swerve_failover \<Rightarrow> swerve_failover" where
  "swerve_periodic position mgr sw =
     sw\<lparr>mSteeringAngles := map (\<lambda>(i, old). if motorExists i mgr then position i / 4096 * 360 else old)
          (zip STEERING_IDS (mSteeringAngles sw))\<rparr>"

definition meters_per_second_to_native_units_drive_velocity :: "real \<Rightarrow> real" where
  "meters_per_second_to_native_units_drive_velocity mps =
     (let wheel_diameter_m = inches_to_meters DRIVE_WHEEL_DIAMETER;
          rpm = mps / (wheel_diameter_m * pi) * 60
      in rpm * DRIVE_GEAR_RATIO * 2048 / 600)"

definition degrees_to_native_units_steering_angle :: "real \<Rightarrow> real" where
  "degrees_to_native_units_steering_angle rotation = (rotation / 360) * STEERING_GEAR_RATIO * 4096"

text \<open>A module state is a speed and an angle in degrees.\<close>

record swerve_lib =
  ToSwerveModuleStates :: "real \<times> real \<times> real \<Rightarrow> (real \<times> real) list"
  Optimize :: "real \<times> real \<Rightarrow> real \<Rightarrow> real \<times> real"

definition swerve_run ::
  "swerve_lib \<Rightarrow> joystick \<Rightarrow> swerve_failover \<Rightarrow> failover_messages \<Rightarrow> failover_messages" where
  "swerve_run lib js sw fm =
     (if sw_mJoystick sw \<and> js_connected js then
        (let x = - normalizeWithDeadband (js_axis js 0) DRIVE_JOYSTICK_DEADBAND;
             y = - normalizeWithDeadband (js_axis js 1) DRIVE_JOYSTICK_DEADBAND;
             z = - normalizeWithDeadband (js_axis js 3) DRIVE_JOYSTICK_DEADBAND;
             states = ToSwerveModuleStates lib (4 * y, 4 * x, 8 * z);
             optimized = map (\<lambda>(st, a). Optimize lib st a) (zip states (mSteeringAngles sw))
         in set_output_values (sw_steering sw)
              (map (\<lambda>st. degrees_to_native_units_steering_angle (snd st)) optimized)
              (set_output_values (sw_drive sw)
                 (map (\<lambda>st. meters_per_second_to_native_units_drive_velocity (fst st)) optimized) fm))
      else set_output_values (sw_drive sw) [0, 0, 0, 0] fm)"

section \<open>RobotFailover\<close>

record robot_failover =
  rf_swerve :: swerve_failover
  rf_arm :: arm_failover
  rf_intake :: intake_failover
  rf_led :: nat
  rf_msgs :: failover_messages

text \<open>The constructor creates the subsystems; the message manager is created by the first of them.\<close>

definition RobotFailover_new :: "proto_names \<Rightarrow> robot_failover" where
  "RobotFailover_new pn =
     (let fm = FailoverMessageManager_new;
          (sw, fm) = SwerveDrivetrainFailover_new pn fm;
          (a, fm) = ArmFailover_new pn fm;
          (k, fm) = IntakeFailover_new pn fm;
          (l, fm) = LEDFailover_new fm
      in \<lparr>rf_swerve = sw, rf_arm = a, rf_intake = k, rf_led = l, rf_msgs = fm\<rparr>)"

definition RobotFailoverInit :: "(u16 \<Rightarrow> real) \<Rightarrow> 'm motor_manager \<Rightarrow> robot_failover \<Rightarrow> robot_failover" where
  "RobotFailoverInit position mgr rf =
     (let (sw, fm) = swerve_init position mgr (rf_swerve rf, rf_msgs rf)
      in rf\<lparr>rf_swerve := sw, rf_msgs := fm\<rparr>)"

definition RobotFailoverPeriodic ::
  "serializers \<Rightarrow> (u16 \<Rightarrow> real) \<Rightarrow> 'm motor_manager \<Rightarrow> robot_failover \<times> network \<Rightarrow> robot_failover \<times> network" where
  "RobotFailoverPeriodic sr position mgr st =
     (case st of (rf, n) \<Rightarrow>
       (let (fm, n1) = publishMessages sr (rf_msgs rf) n
        in (rf\<lparr>rf_msgs := fm, rf_swerve := swerve_periodic position mgr (rf_swerve rf)\<rparr>, n1)))"

definition TeleopFailoverPeriodic :: "swerve_lib \<Rightarrow> joystick \<Rightarrow> robot_failover \<Rightarrow> robot_failover" where
  "TeleopFailoverPeriodic lib js rf =
     rf\<lparr>rf_msgs := intake_run (rf_intake rf) (arm_run (rf_arm rf)
          (swerve_run lib js (rf_swerve rf) (rf_msgs rf)))\<rparr>"

definition RobotFailover_Reset :: "robot_failover \<Rightarrow> robot_failover" where
  "RobotFailover_Reset rf =
     (let (sw, fm) = swerve_uninit (rf_swerve rf, rf_msgs rf)
      in rf\<lparr>rf_swerve := sw, rf_msgs := intake_uninit (rf_intake rf) (arm_uninit (rf_arm rf) fm)\<rparr>)"

section \<open>Setters\<close>

lemma set_field_ok [simp]: "sm_ok m \<Longrightarrow> sm_ok (set_field fv m)"
  by (simp add: set_field_def)

lemma set_fields_ok [simp]: "sm_ok m \<Longrightarrow> sm_ok (set_fields fvs m)"
  unfolding set_fields_def by (rule fold_invariant_list) simp_all

lemma sm_get_set_field:
  "sm_ok m \<Longrightarrow> sm_get (set_field (f, v) m) g =
     (if g = f then (if is_default v then None else Some v) else sm_get m g)"
  by (simp add: set_field_def)

text \<open>After a list of setters a field holds what the last setter of it wrote.\<close>

lemma sm_get_set_fields:
  "sm_ok m \<Longrightarrow> sm_get (set_fields fvs m) f =
     (case map_of (rev fvs) f of
        None \<Rightarrow> sm_get m f
      | Some v \<Rightarrow> if is_default v then None else Some v)"
proof (induction fvs rule: rev_induct)
  case (snoc fv fvs)
  obtain g v where fv: "fv = (g, v)" by fastforce
  have "set_fields (fvs @ [fv]) m = set_field fv (set_fields fvs m)"
    by (simp add: set_fields_def)
  with snoc show ?case by (simp add: fv sm_get_set_field)
qed (simp add: set_fields_def)

lemma getInt_set_fields:
  assumes "sm_ok m" and "map_of (rev fvs) f = Some (PInt x)"
  shows "getInt (set_fields fvs m) f = x"
  using sm_get_set_fields[OF assms(1), of fvs f] assms(2)
  by (auto simp: getInt_def sm_get_def is_default_def split: if_splits)

lemma getInt_set_fields_other:
  assumes "sm_ok m" and "f \<notin> fst ` set fvs"
  shows "getInt (set_fields fvs m) f = getInt m f"
proof -
  have "map_of (rev fvs) f = None" using assms(2) by (simp add: map_of_eq_None_iff)
  with sm_get_set_fields[OF assms(1), of fvs f] show ?thesis
    by (simp add: getInt_def sm_get_def)
qed

lemma on_control_frame [simp]:
  "fm_motorConfiguration (on_control p f fm) = fm_motorConfiguration fm"
  "fm_solenoidControl (on_control p f fm) = fm_solenoidControl fm"
  "fm_ledControl (on_control p f fm) = fm_ledControl fm"
  "fm_loopCounter (on_control p f fm) = fm_loopCounter fm"
  "fm_motorControl (on_control p f fm) = (fm_motorControl fm)[p := f (fm_motorControl fm ! p)]"
  by (simp_all add: on_control_def)

lemma on_config_frame [simp]:
  "fm_motorControl (on_config p g fm) = fm_motorControl fm"
  "fm_solenoidControl (on_config p g fm) = fm_solenoidControl fm"
  "fm_ledControl (on_config p g fm) = fm_ledControl fm"
  "fm_loopCounter (on_config p g fm) = fm_loopCounter fm"
  "fm_motorConfiguration (on_config p g fm) = (fm_motorConfiguration fm)[p := g (fm_motorConfiguration fm ! p)]"
  by (simp_all add: on_config_def)

lemma on_solenoid_frame [simp]:
  "fm_motorControl (on_solenoid p h fm) = fm_motorControl fm"
  "fm_motorConfiguration (on_solenoid p h fm) = fm_motorConfiguration fm"
  "fm_ledControl (on_solenoid p h fm) = fm_ledControl fm"
  "fm_loopCounter (on_solenoid p h fm) = fm_loopCounter fm"
  "solenoids (fm_solenoidControl (on_solenoid p h fm))
     = (solenoids (fm_solenoidControl fm))[p := h (solenoids (fm_solenoidControl fm) ! p)]"
  by (simp_all add: on_solenoid_def)

lemma set_value_frame [simp]:
  "fm_motorConfiguration (set_output_value p x fm) = fm_motorConfiguration fm"
  "fm_motorConfiguration (set_control_mode p md fm) = fm_motorConfiguration fm"
  "fm_motorConfiguration (set_solenoid_value p v fm) = fm_motorConfiguration fm"
  "fm_solenoidControl (set_output_value p x fm) = fm_solenoidControl fm"
  "fm_solenoidControl (set_control_mode p md fm) = fm_solenoidControl fm"
  "fm_motorControl (set_solenoid_value p v fm) = fm_motorControl fm"
  by (simp_all add: set_output_value_def set_control_mode_def set_solenoid_value_def)

definition failover_control :: "int \<Rightarrow> control_mode \<Rightarrow> real \<Rightarrow> motor_control" where
  "failover_control i md x = \<lparr>mv_id = i, mv_controller_type = TALON_FX, mv_control_mode = md,
     mv_output_value = Finite x, mv_arbitrary_feedforward = Finite 0\<rparr>"

text \<open>Each constructor step appends one element and returns its index.\<close>

lemma SetBaseConfig_effect [simp]:
  "fst (SetBaseConfig pn i amps fm) = length (fm_motorConfiguration fm)"
  "fm_motorControl (snd (SetBaseConfig pn i amps fm)) = fm_motorControl fm"
  "fm_solenoidControl (snd (SetBaseConfig pn i amps fm)) = fm_solenoidControl fm"
  "length (fm_motorConfiguration (snd (SetBaseConfig pn i amps fm))) = Suc (length (fm_motorConfiguration fm))"
  by (simp_all add: SetBaseConfig_def addMotorConfig_def)

lemma SetBaseControl_effect [simp]:
  "fst (SetBaseControl i fm) = length (fm_motorControl fm)"
  "fm_motorControl (snd (SetBaseControl i fm)) = fm_motorControl fm @ [failover_control i PercentOutput 0]"
  "fm_motorConfiguration (snd (SetBaseControl i fm)) = fm_motorConfiguration fm"
  "fm_solenoidControl (snd (SetBaseControl i fm)) = fm_solenoidControl fm"
  by (simp_all add: SetBaseControl_def addMotorControl_def failover_control_def)

lemma SetBaseControl_follower_effect [simp]:
  "fst (SetBaseControl_follower i m fm) = length (fm_motorControl fm)"
  "fm_motorControl (snd (SetBaseControl_follower i m fm)) = fm_motorControl fm @ [failover_control i Follower (of_int m)]"
  "fm_motorConfiguration (snd (SetBaseControl_follower i m fm)) = fm_motorConfiguration fm"
  "fm_solenoidControl (snd (SetBaseControl_follower i m fm)) = fm_solenoidControl fm"
  by (simp_all add: SetBaseControl_follower_def split_beta set_output_value_def set_control_mode_def
      failover_control_def)

lemma SetBaseSolenoid_effect [simp]:
  "fst (SetBaseSolenoid c m fm) = length (solenoids (fm_solenoidControl fm))"
  "solenoids (fm_solenoidControl (snd (SetBaseSolenoid c m fm))) = solenoids (fm_solenoidControl fm) @
     [\<lparr>sm_module_type = CTREPCM, sm_id = (push_bit 16 m AND 0xFFFF0000) OR (c AND 0xFFFF),
       sm_solenoid_type = SINGLE, sm_output_value = SOL_OFF\<rparr>]"
  "fm_motorControl (snd (SetBaseSolenoid c m fm)) = fm_motorControl fm"
  "fm_motorConfiguration (snd (SetBaseSolenoid c m fm)) = fm_motorConfiguration fm"
  by (simp_all add: SetBaseSolenoid_def addSolenoidControl_def)

lemma SetDriveConfig_effect [simp]:
  "fst (SetDriveConfig pn i fm) = length (fm_motorConfiguration fm)"
  "fst (snd (SetDriveConfig pn i fm)) = length (fm_motorControl fm)"
  "fm_motorControl (snd (snd (SetDriveConfig pn i fm))) = fm_motorControl fm @ [failover_control i Velocity 0]"
  "fm_solenoidControl (snd (snd (SetDriveConfig pn i fm))) = fm_solenoidControl fm"
  "length (fm_motorConfiguration (snd (snd (SetDriveConfig pn i fm)))) = Suc (length (fm_motorConfiguration fm))"
  by (simp_all add: SetDriveConfig_def addMotorConfig_def swerve_control_def addMotorControl_def
      split_beta Let_def failover_control_def)

lemma SetSteeringConfig_effect [simp]:
  "fst (SetSteeringConfig pn i e fm) = length (fm_motorConfiguration fm)"
  "fst (snd (SetSteeringConfig pn i e fm)) = length (fm_motorControl fm)"
  "fm_motorControl (snd (snd (SetSteeringConfig pn i e fm))) = fm_motorControl fm @ [failover_control i Position 0]"
  "fm_solenoidControl (snd (snd (SetSteeringConfig pn i e fm))) = fm_solenoidControl fm"
  "length (fm_motorConfiguration (snd (snd (SetSteeringConfig pn i e fm)))) = Suc (length (fm_motorConfiguration fm))"
  by (simp_all add: SetSteeringConfig_def addMotorConfig_def swerve_control_def addMotorControl_def
      split_beta Let_def failover_control_def)

lemma ConfigPID_frame [simp]:
  "fm_motorControl (ConfigPID p d fm) = fm_motorControl fm"
  "fm_solenoidControl (ConfigPID p d fm) = fm_solenoidControl fm"
  "length (fm_motorConfiguration (ConfigPID p d fm)) = length (fm_motorConfiguration fm)"
  by (simp_all add: ConfigPID_def)

lemma swerve_new_effect:
  "fst (SwerveDrivetrainFailover_new pn fm) =
     (let c = length (fm_motorConfiguration fm); p = length (fm_motorControl fm)
      in \<lparr>sw_mJoystick = False, sw_live = 0, sw_driveConfig = [c, c + 1, c + 2, c + 3],
          sw_drive = [p, p + 1, p + 2, p + 3], sw_steeringConfig = [c + 4, c + 5, c + 6, c + 7],
          sw_steering = [p + 4, p + 5, p + 6, p + 7], mSteeringAngles = [0, 0, 0, 0]\<rparr>)"
  "fm_motorControl (snd (SwerveDrivetrainFailover_new pn fm)) = fm_motorControl fm @
    [failover_control 1 Velocity 0, failover_control 2 Velocity 0,
     failover_control 3 Velocity 0, failover_control 4 Velocity 0,
     failover_control 5 Position 0, failover_control 6 Position 0,
     failover_control 7 Position 0, failover_control 8 Position 0]"
  "fm_solenoidControl (snd (SwerveDrivetrainFailover_new pn fm)) = fm_solenoidControl fm"
  by (simp_all add: SwerveDrivetrainFailover_new_def split_beta Let_def)

text \<open>A solenoid of the failover code, as \<open>SetBaseSolenoid\<close> fills it in.\<close>

definition failover_solenoid :: "u32 \<Rightarrow> solenoid_msg" where
  "failover_solenoid i = \<lparr>sm_module_type = CTREPCM, sm_id = i, sm_solenoid_type = SINGLE, sm_output_value = SOL_OFF\<rparr>"

lemma arm_new_effect:
  "fst (ArmFailover_new pn fm) =
     (let c = length (fm_motorConfiguration fm); p = length (fm_motorControl fm);
          q = length (solenoids (fm_solenoidControl fm))
      in \<lparr>mLowerArmMasterConfig = c, mLowerArmFollowerConfig = c + 1, mUpperArmMasterConfig = c + 2,
          mUpperArmFollowerConfig = c + 3, mWristConfig = c + 4, mLowerArmMaster = p,
          mLowerArmFollower = p + 1, mUpperArmMaster = p + 2, mUpperArmFollower = p + 3,
          mWrist = p + 4, mLowerBrake = q, mUpperBrake = q + 1, mExtension1 = q + 2, mExtension2 = q + 3\<rparr>)"
  "fm_motorControl (snd (ArmFailover_new pn fm)) = fm_motorControl fm @
    [failover_control 9 PercentOutput 0, failover_control 10 Follower 9,
     failover_control 11 PercentOutput 0, failover_control 12 Follower 11,
     failover_control 13 PercentOutput 0]"
  "solenoids (fm_solenoidControl (snd (ArmFailover_new pn fm))) =
     solenoids (fm_solenoidControl fm) @ map failover_solenoid [7, 6, 0x10000, 0x10002]"
  by (simp_all add: ArmFailover_new_def failover_solenoid_def split_beta Let_def)

section \<open>The layout of the messages\<close>

definition arm_controls :: "motor_control list" where
  "arm_controls = [failover_control 9 PercentOutput 0, failover_control 10 Follower 9,
     failover_control 11 PercentOutput 0, failover_control 12 Follower 11,
     failover_control 13 PercentOutput 0, failover_control 14 PercentOutput 0]"

text \<open>The commands with the four drive outputs \<open>ds\<close> and the four steering outputs \<open>ss\<close>.\<close>

definition failover_controls :: "real list \<Rightarrow> real list \<Rightarrow> motor_control list" where
  "failover_controls ds ss = map2 (\<lambda>i x. failover_control i Velocity x) [1, 2, 3, 4] ds
     @ map2 (\<lambda>i x. failover_control i Position x) [5, 6, 7, 8] ss @ arm_controls"

definition failover_solenoids :: "solenoid_msg list" where
  "failover_solenoids = map failover_solenoid [7, 6, 0x10000, 0x10002, 0x10001]"

definition layout_ok :: "failover_messages \<Rightarrow> bool" where
  "layout_ok fm \<longleftrightarrow>
     (\<exists>ds ss. length ds = 4 \<and> length ss = 4 \<and> fm_motorControl fm = failover_controls ds ss)
     \<and> solenoids (fm_solenoidControl fm) = failover_solenoids"

definition pointers_ok :: "robot_failover \<Rightarrow> bool" where
  "pointers_ok rf \<longleftrightarrow>
     sw_drive (rf_swerve rf) = [0, 1, 2, 3] \<and> sw_steering (rf_swerve rf) = [4, 5, 6, 7]
     \<and> mLowerArmMaster (rf_arm rf) = 8 \<and> mUpperArmMaster (rf_arm rf) = 10 \<and> mWrist (rf_arm rf) = 12
     \<and> mIntake (rf_intake rf) = 13
     \<and> mLowerBrake (rf_arm rf) = 0 \<and> mUpperBrake (rf_arm rf) = 1 \<and> mExtension1 (rf_arm rf) = 2
     \<and> mExtension2 (rf_arm rf) = 3 \<and> mPinch (rf_intake rf) = 4"

definition failover_ok :: "robot_failover \<Rightarrow> bool" where
  "failover_ok rf \<longleftrightarrow> pointers_ok rf \<and> layout_ok (rf_msgs rf)
     \<and> sw_live (rf_swerve rf) = (if sw_mJoystick (rf_swerve rf) then 1 else 0)
     \<and> length (mSteeringAngles (rf_swerve rf)) = 4"

lemma length4: "length (xs :: 'a list) = 4 \<Longrightarrow> \<exists>a b c d. xs = [a, b, c, d]"
  by (auto simp: length_Suc_conv numeral_eq_Suc)

lemma failover_controls_update:
  assumes "length ds = 4" "length ss = 4"
  shows "p < 4 \<Longrightarrow> (failover_controls ds ss)[p := (failover_controls ds ss ! p)\<lparr>mv_output_value := Finite x\<rparr>]
      = failover_controls (ds[p := x]) ss"
    and "p < 4 \<Longrightarrow> (failover_controls ds ss)[4 + p := (failover_controls ds ss ! (4 + p))\<lparr>mv_output_value := Finite x\<rparr>]
      = failover_controls ds (ss[p := x])"
proof -
  obtain a b c d where ds: "ds = [a, b, c, d]" using length4[OF assms(1)] by blast
  obtain e f g h where ss: "ss = [e, f, g, h]" using length4[OF assms(2)] by blast
  have cases: "p < 4 \<Longrightarrow> p = 0 \<or> p = 1 \<or> p = 2 \<or> p = 3" by arith
  show "p < 4 \<Longrightarrow> (failover_controls ds ss)[p := (failover_controls ds ss ! p)\<lparr>mv_output_value := Finite x\<rparr>]
      = failover_controls (ds[p := x]) ss"
    by (drule cases) (auto simp: failover_controls_def ds ss failover_control_def)
  show "p < 4 \<Longrightarrow> (failover_controls ds ss)[4 + p := (failover_controls ds ss ! (4 + p))\<lparr>mv_output_value := Finite x\<rparr>]
      = failover_controls ds (ss[p := x])"
    by (drule cases) (auto simp: failover_controls_def ds ss failover_control_def)
qed

lemma set_output_values_control:
  "fm_solenoidControl (set_output_values ps xs fm) = fm_solenoidControl fm"
  "fm_motorConfiguration (set_output_values ps xs fm) = fm_motorConfiguration fm"
  "fm_loopCounter (set_output_values ps xs fm) = fm_loopCounter fm"
  "fm_ledControl (set_output_values ps xs fm) = fm_ledControl fm"
proof -
  have "fm_solenoidControl (fold (\<lambda>(p, x). set_output_value p x) l fm) = fm_solenoidControl fm
    \<and> fm_motorConfiguration (fold (\<lambda>(p, x). set_output_value p x) l fm) = fm_motorConfiguration fm
    \<and> fm_loopCounter (fold (\<lambda>(p, x). set_output_value p x) l fm) = fm_loopCounter fm
    \<and> fm_ledControl (fold (\<lambda>(p, x). set_output_value p x) l fm) = fm_ledControl fm" for l
    by (induction l arbitrary: fm) (auto simp: set_output_value_def)
  then show "fm_solenoidControl (set_output_values ps xs fm) = fm_solenoidControl fm"
    "fm_motorConfiguration (set_output_values ps xs fm) = fm_motorConfiguration fm"
    "fm_loopCounter (set_output_values ps xs fm) = fm_loopCounter fm"
    "fm_ledControl (set_output_values ps xs fm) = fm_ledControl fm"
    by (simp_all add: set_output_values_def)
qed

lemma set_drive_values:
  assumes "length ds = 4" "length ss = 4" "fm_motorControl fm = failover_controls ds ss" "length xs = 4"
  shows "fm_motorControl (set_output_values [0, 1, 2, 3] xs fm) = failover_controls xs ss"
    and "fm_motorControl (set_output_values [4, 5, 6, 7] xs fm) = failover_controls ds xs"
proof -
  obtain a b c d where xs: "xs = [a, b, c, d]" using length4[OF assms(4)] by blast
  obtain da db dc dd where ds: "ds = [da, db, dc, dd]" using length4[OF assms(1)] by blast
  obtain e f g h where ss: "ss = [e, f, g, h]" using length4[OF assms(2)] by blast
  show "fm_motorControl (set_output_values [0, 1, 2, 3] xs fm) = failover_controls xs ss"
    "fm_motorControl (set_output_values [4, 5, 6, 7] xs fm) = failover_controls ds xs"
    using assms(3)
    by (simp_all add: set_output_values_def xs ds ss set_output_value_def failover_controls_def
        failover_control_def)
qed

lemma set_value_layout: "p < 8 \<Longrightarrow> layout_ok fm \<Longrightarrow> layout_ok (set_output_value p x fm)"
proof -
  assume p: "p < 8" and "layout_ok fm"
  then obtain ds ss where l: "length ds = 4" "length ss = 4" "fm_motorControl fm = failover_controls ds ss"
    by (auto simp: layout_ok_def)
  have "\<exists>ds' ss'. length ds' = 4 \<and> length ss' = 4
      \<and> fm_motorControl (set_output_value p x fm) = failover_controls ds' ss'"
  proof (cases "p < 4")
    case True
    with failover_controls_update(1)[OF l(1,2) True] l show ?thesis
      by (intro exI[of _ "ds[p := x]"] exI[of _ ss]) (simp add: set_output_value_def)
  next
    case False
    then have "p = 4 + (p - 4)" "p - 4 < 4" using p by auto
    with failover_controls_update(2)[OF l(1,2), of "p - 4"] l show ?thesis
      by (intro exI[of _ ds] exI[of _ "ss[p - 4 := x]"]) (simp add: set_output_value_def)
  qed
  with \<open>layout_ok fm\<close> show ?thesis by (simp add: layout_ok_def)
qed

lemma set_values_layout:
  assumes "set ps \<subseteq> {..<8}" and "layout_ok fm"
  shows "layout_ok (set_output_values ps xs fm)"
  unfolding set_output_values_def
  by (rule fold_invariant_list) (use assms in \<open>auto dest: set_zip_leftD intro!: set_value_layout\<close>)

text \<open>What the arm and the intake write is what is there already.\<close>

lemma list_update_self: "xs ! p = x \<Longrightarrow> xs[p := x] = xs"
  by auto

lemma layout_cong:
  assumes "layout_ok fm" and "fm_motorControl fm' = fm_motorControl fm"
    and "fm_solenoidControl fm' = fm_solenoidControl fm"
  shows "layout_ok fm'"
  using assms by (simp add: layout_ok_def)

lemma set_off_layout:
  assumes "p < 5" and "layout_ok fm"
  shows "layout_ok (set_solenoid_value p SOL_OFF fm)"
proof -
  have sol: "solenoids (fm_solenoidControl fm) = failover_solenoids" using assms(2) by (simp add: layout_ok_def)
  have "p < length failover_solenoids" using assms(1) by (simp add: failover_solenoids_def)
  then have "failover_solenoids ! p \<in> set failover_solenoids" by (rule nth_mem)
  then have "(failover_solenoids ! p)\<lparr>sm_output_value := SOL_OFF\<rparr> = failover_solenoids ! p"
    by (auto simp: failover_solenoids_def failover_solenoid_def)
  then have "solenoids (fm_solenoidControl (set_solenoid_value p SOL_OFF fm)) = failover_solenoids"
    by (simp add: set_solenoid_value_def sol list_update_self)
  then show ?thesis using assms(2) by (simp add: layout_ok_def set_solenoid_value_def)
qed

lemma arm_intake_motors:
  assumes "pointers_ok rf" and "layout_ok fm"
  shows "fm_motorControl (arm_uninit (rf_arm rf) fm) = fm_motorControl fm"
    "fm_motorControl (arm_run (rf_arm rf) fm) = fm_motorControl fm"
    "fm_motorControl (intake_uninit (rf_intake rf) fm) = fm_motorControl fm"
    "fm_motorControl (intake_run (rf_intake rf) fm) = fm_motorControl fm"
proof -
  obtain ds ss where l: "length ds = 4" "length ss = 4" "fm_motorControl fm = failover_controls ds ss"
    using assms(2) by (auto simp: layout_ok_def)
  obtain a b c d where ds: "ds = [a, b, c, d]" using length4[OF l(1)] by blast
  obtain e f g h where ss: "ss = [e, f, g, h]" using length4[OF l(2)] by blast
  note defs = set_output_value_def set_control_mode_def
  have 8: "failover_controls ds ss ! 8 = failover_control 9 PercentOutput 0"
    "failover_controls ds ss ! 10 = failover_control 11 PercentOutput 0"
    "failover_controls ds ss ! 12 = failover_control 13 PercentOutput 0"
    "failover_controls ds ss ! 13 = failover_control 14 PercentOutput 0"
    by (simp_all add: failover_controls_def ds ss arm_controls_def)
  have upd: "(failover_control i PercentOutput 0)\<lparr>mv_control_mode := PercentOutput\<rparr> = failover_control i PercentOutput 0"
    "(failover_control i PercentOutput 0)\<lparr>mv_output_value := Finite 0\<rparr> = failover_control i PercentOutput 0" for i
    by (simp_all add: failover_control_def)
  show "fm_motorControl (arm_uninit (rf_arm rf) fm) = fm_motorControl fm"
    "fm_motorControl (arm_run (rf_arm rf) fm) = fm_motorControl fm"
    "fm_motorControl (intake_uninit (rf_intake rf) fm) = fm_motorControl fm"
    "fm_motorControl (intake_run (rf_intake rf) fm) = fm_motorControl fm"
    using assms(1)
    by (simp_all add: arm_uninit_def arm_run_def intake_uninit_def intake_run_def pointers_ok_def defs
        l(3) 8 upd list_update_self)
qed

lemma arm_intake_layout:
  assumes "pointers_ok rf" and "layout_ok fm"
  shows "layout_ok (arm_uninit (rf_arm rf) fm)" "layout_ok (arm_run (rf_arm rf) fm)"
    "layout_ok (intake_uninit (rf_intake rf) fm)" "layout_ok (intake_run (rf_intake rf) fm)"
proof -
  note m = arm_intake_motors[OF assms]
  have run: "arm_run (rf_arm rf) fm = set_solenoid_value 3 SOL_OFF (set_solenoid_value 2 SOL_OFF
      (set_solenoid_value 1 SOL_OFF (set_solenoid_value 0 SOL_OFF (arm_uninit (rf_arm rf) fm))))"
    "intake_run (rf_intake rf) fm = set_solenoid_value 4 SOL_OFF (intake_uninit (rf_intake rf) fm)"
    using assms(1) by (simp_all add: arm_run_def arm_uninit_def intake_run_def intake_uninit_def pointers_ok_def)
  show a: "layout_ok (arm_uninit (rf_arm rf) fm)"
    by (rule layout_cong[OF assms(2) m(1)]) (simp add: arm_uninit_def)
  show k: "layout_ok (intake_uninit (rf_intake rf) fm)"
    by (rule layout_cong[OF assms(2) m(3)]) (simp add: intake_uninit_def)
  show "layout_ok (arm_run (rf_arm rf) fm)" "layout_ok (intake_run (rf_intake rf) fm)"
    unfolding run by (intro set_off_layout a k; simp)+
qed

section \<open>RobotFailover keeps the layout\<close>

lemma swerve_frame:
  "pointers_ok (rf\<lparr>rf_msgs := fm\<rparr>) = pointers_ok rf"
  "pointers_ok (rf\<lparr>rf_swerve := sw\<rparr>) \<longleftrightarrow>
     (sw_drive sw = [0, 1, 2, 3] \<and> sw_steering sw = [4, 5, 6, 7] \<and>
      pointers_ok (rf\<lparr>rf_swerve := sw\<lparr>sw_drive := [0, 1, 2, 3], sw_steering := [4, 5, 6, 7]\<rparr>\<rparr>))"
  by (auto simp: pointers_ok_def)

lemma failover_new_ok: "failover_ok (RobotFailover_new pn)" "\<not> sw_mJoystick (rf_swerve (RobotFailover_new pn))"
  "fm_motorControl (rf_msgs (RobotFailover_new pn)) = failover_controls [0, 0, 0, 0] [0, 0, 0, 0]"
proof -
  obtain sw fm1 where 1: "SwerveDrivetrainFailover_new pn FailoverMessageManager_new = (sw, fm1)" by fastforce
  obtain a fm2 where 2: "ArmFailover_new pn fm1 = (a, fm2)" by fastforce
  obtain k fm3 where 3: "IntakeFailover_new pn fm2 = (k, fm3)" by fastforce
  obtain l fm4 where 4: "LEDFailover_new fm3 = (l, fm4)" by fastforce
  have rf: "RobotFailover_new pn = \<lparr>rf_swerve = sw, rf_arm = a, rf_intake = k, rf_led = l, rf_msgs = fm4\<rparr>"
    by (simp add: RobotFailover_new_def 1 2 3 4)
  note sw = swerve_new_effect[of pn FailoverMessageManager_new, unfolded 1]
  note ar = arm_new_effect[of pn fm1, unfolded 2]
  have k: "k = \<lparr>mIntakeConfig = length (fm_motorConfiguration fm2), mIntake = length (fm_motorControl fm2),
      mPinch = length (solenoids (fm_solenoidControl fm2))\<rparr>"
    "fm_motorControl fm3 = fm_motorControl fm2 @ [failover_control 14 PercentOutput 0]"
    "solenoids (fm_solenoidControl fm3) = solenoids (fm_solenoidControl fm2) @ [failover_solenoid 0x10001]"
    using 3 by (auto simp: IntakeFailover_new_def failover_solenoid_def split_beta Let_def)
  have l: "fm_motorControl fm4 = fm_motorControl fm3" "fm_solenoidControl fm4 = fm_solenoidControl fm3"
    using 4 by (auto simp: LEDFailover_new_def addLEDControl_def split_beta Let_def)
  have sols: "solenoids (fm_solenoidControl fm2) = map failover_solenoid [7, 6, 0x10000, 0x10002]"
    "length (solenoids (fm_solenoidControl fm1)) = 0"
    using sw ar by (simp_all add: FailoverMessageManager_new_def)
  have n: "length (solenoids (fm_solenoidControl fm2)) = 4"
    unfolding sols(1) by simp
  have m: "fm_motorControl fm4 = failover_controls [0, 0, 0, 0] [0, 0, 0, 0]"
    using sw ar k(2) l(1)
    by (simp add: FailoverMessageManager_new_def failover_controls_def arm_controls_def)
  have "layout_ok fm4"
    unfolding layout_ok_def failover_solenoids_def using m sols(1) k(3) l(2)
    by (intro conjI exI[of _ "[0, 0, 0, 0]"]) simp_all
  moreover have "pointers_ok (RobotFailover_new pn)"
    using sw ar k(1) n sols(2) by (simp add: rf pointers_ok_def FailoverMessageManager_new_def Let_def)
  ultimately show "failover_ok (RobotFailover_new pn)" "\<not> sw_mJoystick (rf_swerve (RobotFailover_new pn))"
    "fm_motorControl (rf_msgs (RobotFailover_new pn)) = failover_controls [0, 0, 0, 0] [0, 0, 0, 0]"
    using sw m by (simp_all add: failover_ok_def rf Let_def)
qed

lemma swerve_values_layout:
  assumes "pointers_ok rf" and "layout_ok fm"
  shows "layout_ok (set_output_values (sw_drive (rf_swerve rf)) xs fm)"
    and "layout_ok (set_output_values (sw_steering (rf_swerve rf)) xs fm)"
  by (rule set_values_layout[OF _ assms(2)]; use assms(1) in \<open>simp add: pointers_ok_def\<close>)+

lemma swerve_run_layout:
  "pointers_ok rf \<Longrightarrow> layout_ok fm \<Longrightarrow> layout_ok (swerve_run lib js (rf_swerve rf) fm)"
  unfolding swerve_run_def Let_def by (auto intro!: swerve_values_layout)

lemma failover_init_ok:
  assumes "failover_ok rf" and "\<not> sw_mJoystick (rf_swerve rf)"
  shows "failover_ok (RobotFailoverInit position mgr rf)"
  using assms swerve_values_layout(2)[of rf "rf_msgs rf"]
  by (simp add: failover_ok_def RobotFailoverInit_def swerve_init_def Let_def pointers_ok_def STEERING_IDS_def)

lemma failover_reset_ok:
  assumes "failover_ok rf"
  shows "failover_ok (RobotFailover_Reset rf)" "\<not> sw_mJoystick (rf_swerve (RobotFailover_Reset rf))"
proof -
  obtain sw fm where s: "swerve_uninit (rf_swerve rf, rf_msgs rf) = (sw, fm)" by fastforce
  have rf: "pointers_ok rf" "layout_ok (rf_msgs rf)" using assms by (simp_all add: failover_ok_def)
  have fm: "layout_ok fm" using s swerve_values_layout(1)[OF rf] by (auto simp: swerve_uninit_def)
  have "layout_ok (intake_uninit (rf_intake rf) (arm_uninit (rf_arm rf) fm))"
    by (intro arm_intake_layout rf fm)
  then show "failover_ok (RobotFailover_Reset rf)" "\<not> sw_mJoystick (rf_swerve (RobotFailover_Reset rf))"
    using s assms
    by (cases "sw_mJoystick (rf_swerve rf)";
        force simp: failover_ok_def RobotFailover_Reset_def swerve_uninit_def pointers_ok_def)+
qed

lemma failover_teleop_ok:
  assumes "failover_ok rf"
  shows "failover_ok (TeleopFailoverPeriodic lib js rf)"
proof -
  have rf: "pointers_ok rf" "layout_ok (rf_msgs rf)" using assms by (simp_all add: failover_ok_def)
  have "layout_ok (intake_run (rf_intake rf) (arm_run (rf_arm rf) (swerve_run lib js (rf_swerve rf) (rf_msgs rf))))"
    by (intro arm_intake_layout swerve_run_layout rf)
  then show ?thesis using assms
    by (simp add: failover_ok_def TeleopFailoverPeriodic_def swerve_frame)
qed

lemma failover_periodic_ok:
  assumes "failover_ok rf" and "RobotFailoverPeriodic sr position mgr (rf, n) = (rf', n')"
  shows "failover_ok rf'"
proof -
  have "layout_ok (fst (publishMessages sr (rf_msgs rf) n))"
    using assms(1) publish_frame[of sr "rf_msgs rf" n] by (auto simp: failover_ok_def intro: layout_cong)
  with assms show ?thesis
    by (auto simp: RobotFailoverPeriodic_def failover_ok_def swerve_periodic_def pointers_ok_def
        STEERING_IDS_def split_beta Let_def)
qed

lemmas failover_joystick =
  RobotFailoverInit_def RobotFailoverPeriodic_def TeleopFailoverPeriodic_def swerve_init_def swerve_periodic_def

lemma joystick_flags [simp]:
  "sw_mJoystick (rf_swerve (RobotFailoverInit position mgr rf))"
  "sw_mJoystick (rf_swerve (TeleopFailoverPeriodic lib js rf)) = sw_mJoystick (rf_swerve rf)"
  "sw_mJoystick (rf_swerve (fst (RobotFailoverPeriodic sr position mgr (rf, n)))) = sw_mJoystick (rf_swerve rf)"
  by (simp_all add: failover_joystick split_beta Let_def)

section \<open>Concrete parameters\<close>

definition example_names :: proto_names where
  "example_names = \<lparr>pn_enum = \<lambda>name. int (length name), pn_current_limit = \<lambda>on amps thr t. [(1, PBool on), (2, PNum amps)]\<rparr>"

definition example_joystick :: joystick where
  "example_joystick = \<lparr>js_connected = True, js_axis = \<lambda>a. 1 / 2, js_button = \<lambda>b. False\<rparr>"

end
