(* ===== verification/Robot.thy ===== *)
theory Robot
  imports Failover_Subsystems Iterative_Robot LED_Task
begin

text \<open>
  \<open>Robot\<close> and the small tasks it schedules: the mode callbacks, the hand-over between the external
  controller and the on-board failover code, \<open>RobotControlModeHelper\<close>, \<open>DSConnectionMonitor\<close>,
  \<open>ProcessHeartbeatTask\<close>, \<open>ReceiveMessagesTask\<close> and \<open>UpdateDSConnectionStatusTask\<close>. The robot is a
  step relation: the callbacks of the main loop and the runs of the tasks interleave in any order.
  A callback asks for the external controller once, at its start, and shares only the mailbox and
  the registries, which are locked, with the tasks, so each is one step.
\<close>

section \<open>State\<close>

text \<open>\<open>CONTROL_MODE\<close>; its \<open>UNKNOWN\<close> is the same value as \<open>DISABLED\<close>.\<close>

datatype CONTROL_MODE = DISABLED | TELEOP | AUTONOMOUS | TEST | INVALID

record mode_helper =
  mDSAttached :: bool
  mControlMode :: CONTROL_MODE

definition RobotControlModeHelper_new :: mode_helper where
  "RobotControlModeHelper_new = \<lparr>mDSAttached = False, mControlMode = DISABLED\<rparr>"

definition setControlMode :: "CONTROL_MODE \<Rightarrow> mode_helper \<Rightarrow> mode_helper" where
  "setControlMode md h = h\<lparr>mControlMode := md\<rparr>"

definition setDSAttached :: "bool \<Rightarrow> mode_helper \<Rightarrow> mode_helper" where
  "setDSAttached attached h = h\<lparr>mDSAttached := attached\<rparr>"

text \<open>What the code cannot change: the serialisers and parsers protobuf generates, the kinematics of
  WPILib, and what the device libraries answer.\<close>

record robot_io =
  io_serializers :: serializers
  io_lib :: swerve_lib
  io_parse_control :: "bytes \<Rightarrow> motor_control list option"
  io_currentMode :: "talon_log \<Rightarrow> u16 \<Rightarrow> control_mode"
  io_canOf :: "pmsg \<Rightarrow> can_interface"
  io_parse_config :: "bytes \<Rightarrow> pmsg list option"
  io_modeOf :: "int \<Rightarrow> controller_mode"
  io_motor_resp :: "nat \<Rightarrow> error_code"
  io_parse_solenoids :: "bytes \<Rightarrow> bool \<times> solenoid_control"
  io_fits :: "frc_solenoid \<Rightarrow> bool"
  io_parse_led :: "bytes \<Rightarrow> pmsg list option"
  io_led_schema :: led_schema
  io_led_resp :: "nat \<Rightarrow> error_code"

record robot =
  failoverActive :: bool
  initialStartupROSCompleted :: bool
  rb_mode :: mode_helper
  hasConnection :: bool
  rb_reports :: "string list"
  robotFailover :: robot_failover
  rb_comms :: comms
  rb_motors :: "pmsg motor_manager"
  rb_talons :: talon_log
  rb_motor_timer :: rt_timer
  rb_motor_calls :: motor_log
  rb_solenoids :: solenoid_manager
  rb_solenoid_task :: solenoid_task
  rb_pneumatics :: "pneu_event list"
  rb_leds :: led_state

text \<open>The state after construction, for a solenoid task and a motor timer as constructed.\<close>

definition Robot_new :: "proto_names \<Rightarrow> solenoid_task \<Rightarrow> rt_timer \<Rightarrow> robot" where
  "Robot_new pn task timer = \<lparr>failoverActive = False, initialStartupROSCompleted = False,
     rb_mode = RobotControlModeHelper_new, hasConnection = False, rb_reports = [],
     robotFailover = RobotFailover_new pn,
     rb_comms = \<lparr>net = NetworkManager_new, ext = ExternalControlManager_init\<rparr>,
     rb_motors = MotorManager_new, rb_talons = [], rb_motor_timer = timer, rb_motor_calls = [],
     rb_solenoids = SolenoidManager_new, rb_solenoid_task = task, rb_pneumatics = [],
     rb_leds = (CANdleManager_new, [])\<rparr>"

definition isExternalControl :: "robot \<Rightarrow> bool" where
  "isExternalControl s \<longleftrightarrow> isExternalControlConnected (ext (rb_comms s))"

definition ReportError :: "string \<Rightarrow> robot \<Rightarrow> robot" where
  "ReportError msg s = s\<lparr>rb_reports := rb_reports s @ [msg]\<rparr>"

section \<open>The callbacks\<close>

text \<open>\<open>attached\<close>: what the driver station answers; \<open>position\<close>: what the talons report.\<close>

definition RobotPeriodic :: "robot_io \<Rightarrow> bool \<Rightarrow> (u16 \<Rightarrow> real) \<Rightarrow> robot \<Rightarrow> robot" where
  "RobotPeriodic io attached position s0 =
     (let s = s0\<lparr>rb_mode := setDSAttached attached (rb_mode s0)\<rparr>;
          dsAttached = mDSAttached (rb_mode s)
      in if isExternalControl s then
           (if failoverActive s then
              (let s1 = (if dsAttached then ReportError ''[rosdiag] ROS Connection Resumed'' s else s)
               in s1\<lparr>robotFailover := RobotFailover_Reset (robotFailover s1), failoverActive := False\<rparr>)
            else if \<not> initialStartupROSCompleted s \<and> dsAttached \<and> \<not> failoverActive s then
              (ReportError ''[rosdiag] ROS Connection Resumed'' s)\<lparr>initialStartupROSCompleted := True\<rparr>
            else s)
         else
           (let s1 = (if \<not> failoverActive s then
                        (let s' = (if dsAttached then ReportError ''[rosdiag] Failover Control Activated'' s else s)
                         in s'\<lparr>robotFailover := RobotFailoverInit position (rb_motors s') (robotFailover s'),
                               failoverActive := True\<rparr>)
                      else s);
                (rf, n) = RobotFailoverPeriodic (io_serializers io) position (rb_motors s1)
                            (robotFailover s1, net (rb_comms s1))
            in s1\<lparr>robotFailover := rf, rb_comms := (rb_comms s1)\<lparr>net := n\<rparr>\<rparr>))"

text \<open>The failover hooks of the modes are empty, except the teleoperated one.\<close>

definition AutonomousFailoverInit :: "robot_failover \<Rightarrow> robot_failover" where
  "AutonomousFailoverInit rf = rf"

definition AutonomousFailoverPeriodic :: "robot_failover \<Rightarrow> robot_failover" where
  "AutonomousFailoverPeriodic rf = rf"

definition TeleopFailoverInit :: "robot_failover \<Rightarrow> robot_failover" where
  "TeleopFailoverInit rf = rf"

definition DisabledFailoverInit :: "robot_failover \<Rightarrow> robot_failover" where
  "DisabledFailoverInit rf = rf"

definition DisabledFailoverPeriodic :: "robot_failover \<Rightarrow> robot_failover" where
  "DisabledFailoverPeriodic rf = rf"

lemmas failover_hooks = AutonomousFailoverInit_def AutonomousFailoverPeriodic_def TeleopFailoverInit_def
  DisabledFailoverInit_def DisabledFailoverPeriodic_def

definition unless_external :: "(robot_failover \<Rightarrow> robot_failover) \<Rightarrow> robot \<Rightarrow> robot" where
  "unless_external hook s =
     (if \<not> isExternalControl s then s\<lparr>robotFailover := hook (robotFailover s)\<rparr> else s)"

definition AutonomousInit :: "robot \<Rightarrow> robot" where
  "AutonomousInit s = unless_external AutonomousFailoverInit (s\<lparr>rb_mode := setControlMode AUTONOMOUS (rb_mode s)\<rparr>)"

definition AutonomousPeriodic :: "robot \<Rightarrow> robot" where
  "AutonomousPeriodic s = unless_external AutonomousFailoverPeriodic s"

definition TeleopInit :: "robot \<Rightarrow> robot" where
  "TeleopInit s = unless_external TeleopFailoverInit (s\<lparr>rb_mode := setControlMode TELEOP (rb_mode s)\<rparr>)"

definition TeleopPeriodic :: "robot_io \<Rightarrow> joystick \<Rightarrow> robot \<Rightarrow> robot" where
  "TeleopPeriodic io js s = unless_external (TeleopFailoverPeriodic (io_lib io) js) s"

definition DisabledInit :: "robot \<Rightarrow> robot" where
  "DisabledInit s = unless_external DisabledFailoverInit (s\<lparr>rb_mode := setControlMode DISABLED (rb_mode s)\<rparr>)"

definition DisabledPeriodic :: "robot \<Rightarrow> robot" where
  "DisabledPeriodic s = unless_external DisabledFailoverPeriodic s"

definition TestInit :: "robot \<Rightarrow> robot" where
  "TestInit s = s\<lparr>rb_mode := setControlMode TEST (rb_mode s)\<rparr>"

definition TestPeriodic :: "robot \<Rightarrow> robot" where
  "TestPeriodic s = s"

section \<open>The tasks\<close>

definition ReceiveMessagesTask_run :: "dish_event list \<Rightarrow> robot \<Rightarrow> robot" where
  "ReceiveMessagesTask_run queue s =
     s\<lparr>rb_comms := snd (snd (receiveMessagePump queue (rb_comms s)))\<rparr>"

definition ProcessHeartbeatTask_run :: "robot \<Rightarrow> robot" where
  "ProcessHeartbeatTask_run s =
     s\<lparr>rb_motors := motor_processHeartbeat (rb_motors s),
       rb_solenoids := solenoid_processHeartbeat (rb_solenoids s),
       rb_comms := (rb_comms s)\<lparr>ext := external_processHeartbeat (ext (rb_comms s))\<rparr>,
       rb_leds := (candle_processHeartbeat (fst (rb_leds s)), snd (rb_leds s))\<rparr>"

definition UpdateDSConnectionStatusTask_run :: "bool \<Rightarrow> robot \<Rightarrow> robot" where
  "UpdateDSConnectionStatusTask_run attached s = s\<lparr>hasConnection := attached\<rparr>"

text \<open>The tasks of the other theories on the state of the robot, with the fault that ends them.\<close>

definition robot_motor_values :: "robot_io \<Rightarrow> bool \<Rightarrow> u64 \<Rightarrow> robot \<Rightarrow> fault option \<times> robot" where
  "robot_motor_values io try_lock now s =
     (case motor_values_run (io_parse_control io) try_lock (mControlMode (rb_mode s) = DISABLED) now
             (io_currentMode io) (io_canOf io) (net (rb_comms s)) (rb_motor_timer s) (rb_motors s) (rb_talons s) of
        (r, n, t, mgr, calls) \<Rightarrow>
          (r, s\<lparr>rb_comms := (rb_comms s)\<lparr>net := n\<rparr>, rb_motor_timer := t, rb_motors := mgr, rb_talons := calls\<rparr>))"

definition robot_motor_config :: "robot_io \<Rightarrow> bool \<Rightarrow> robot \<Rightarrow> fault option \<times> robot" where
  "robot_motor_config io try_lock s =
     (case motor_config_run (io_parse_config io) try_lock (io_modeOf io) (io_motor_resp io) CKEncoderManager_new
             (net (rb_comms s)) (rb_motors s) (rb_motor_calls s) of
        (r, n, mgr, calls) \<Rightarrow>
          (r, s\<lparr>rb_comms := (rb_comms s)\<lparr>net := n\<rparr>, rb_motors := mgr, rb_motor_calls := calls\<rparr>))"

definition robot_solenoids :: "robot_io \<Rightarrow> u64 \<Rightarrow> robot \<Rightarrow> fault option \<times> robot" where
  "robot_solenoids io now s =
     (case solenoid_task_run (io_parse_solenoids io) (io_fits io) now (mControlMode (rb_mode s) = TELEOP)
             (net (rb_comms s), rb_solenoids s, rb_solenoid_task s) of
        (r, es, n, mgr, t) \<Rightarrow>
          (r, s\<lparr>rb_comms := (rb_comms s)\<lparr>net := n\<rparr>, rb_solenoids := mgr, rb_solenoid_task := t,
               rb_pneumatics := rb_pneumatics s @ es\<rparr>))"

definition robot_leds :: "robot_io \<Rightarrow> bool \<Rightarrow> robot \<Rightarrow> robot" where
  "robot_leds io try_lock s =
     (case led_task_run (io_parse_led io) try_lock (io_led_schema io) (io_led_resp io)
             (net (rb_comms s)) (rb_leds s) of
        (n, st) \<Rightarrow> s\<lparr>rb_comms := (rb_comms s)\<lparr>net := n\<rparr>, rb_leds := st\<rparr>)"

text \<open>\<open>ApplyIMUConfigTask\<close> takes its message out of the mailbox; the sensors it configures are not part
  of this state.\<close>

definition robot_imu_config :: "robot \<Rightarrow> robot" where
  "robot_imu_config s =
     s\<lparr>rb_comms := (rb_comms s)\<lparr>net := snd (getMessage ''imuconfig'' (net (rb_comms s)))\<rparr>\<rparr>"

section \<open>The robot as a step relation\<close>

datatype robot_event =
    RunRobotPeriodic bool "u16 \<Rightarrow> real"
  | RunModeInit mode
  | RunModePeriodic mode joystick
  | RunReceive "dish_event list"
  | RunHeartbeat
  | RunDSStatus bool
  | RunMotorValues bool u64
  | RunMotorConfig bool
  | RunSolenoids u64
  | RunLEDs bool
  | RunIMUConfig

definition mode_init :: "mode \<Rightarrow> robot \<Rightarrow> robot" where
  "mode_init m s = (case m of kDisabled \<Rightarrow> DisabledInit s | kAutonomous \<Rightarrow> AutonomousInit s
     | kTeleop \<Rightarrow> TeleopInit s | kTest \<Rightarrow> TestInit s | kNone \<Rightarrow> s)"

definition mode_periodic :: "robot_io \<Rightarrow> joystick \<Rightarrow> mode \<Rightarrow> robot \<Rightarrow> robot" where
  "mode_periodic io js m s = (case m of kDisabled \<Rightarrow> DisabledPeriodic s | kAutonomous \<Rightarrow> AutonomousPeriodic s
     | kTeleop \<Rightarrow> TeleopPeriodic io js s | kTest \<Rightarrow> TestPeriodic s | kNone \<Rightarrow> s)"

text \<open>A task that ends with undefined behaviour has no step: what follows it is not specified. A
  task that ends with an exception has one, to the state it left.\<close>

inductive robot_step :: "robot_io \<Rightarrow> robot \<Rightarrow> robot_event \<Rightarrow> robot \<Rightarrow> bool" for io where
  step_periodic: "robot_step io s (RunRobotPeriodic attached position) (RobotPeriodic io attached position s)"
| step_mode_init: "robot_step io s (RunModeInit m) (mode_init m s)"
| step_mode_periodic: "robot_step io s (RunModePeriodic m js) (mode_periodic io js m s)"
| step_receive: "robot_step io s (RunReceive queue) (ReceiveMessagesTask_run queue s)"
| step_heartbeat: "robot_step io s RunHeartbeat (ProcessHeartbeatTask_run s)"
| step_ds_status: "robot_step io s (RunDSStatus attached) (UpdateDSConnectionStatusTask_run attached s)"
| step_motor_values: "robot_motor_values io l now s = (r, s') \<Longrightarrow> r \<noteq> Some UndefinedBehaviour
    \<Longrightarrow> robot_step io s (RunMotorValues l now) s'"
| step_motor_config: "robot_motor_config io l s = (r, s') \<Longrightarrow> r \<noteq> Some UndefinedBehaviour
    \<Longrightarrow> robot_step io s (RunMotorConfig l) s'"
| step_solenoids: "robot_solenoids io now s = (r, s') \<Longrightarrow> r \<noteq> Some UndefinedBehaviour
    \<Longrightarrow> robot_step io s (RunSolenoids now) s'"
| step_leds: "robot_step io s (RunLEDs l) (robot_leds io l s)"
| step_imu_config: "robot_step io s RunIMUConfig (robot_imu_config s)"

inductive robot_runs :: "robot_io \<Rightarrow> robot \<Rightarrow> robot_event list \<Rightarrow> robot \<Rightarrow> bool" for io where
  runs_nil: "robot_runs io s [] s"
| runs_cons: "robot_step io s e s' \<Longrightarrow> robot_runs io s' es s'' \<Longrightarrow> robot_runs io s (e # es) s''"

inductive_cases robot_step_cases: "robot_step io s e s'"
inductive_cases robot_runs_nil: "robot_runs io s [] s'"
inductive_cases robot_runs_cons: "robot_runs io s (e # es) s'"
inductive_simps robot_step_periodic: "robot_step io s (RunRobotPeriodic attached position) s'"
inductive_simps robot_step_simps: "robot_step io s (RunModeInit m) s'"
  "robot_step io s (RunModePeriodic m js) s'" "robot_step io s (RunReceive queue) s'"
  "robot_step io s RunHeartbeat s'" "robot_step io s (RunDSStatus attached) s'"

section \<open>Invariant\<close>

definition drive_stopped :: "failover_messages \<Rightarrow> bool" where
  "drive_stopped fm \<longleftrightarrow> (\<forall>p < 4. mv_output_value (fm_motorControl fm ! p) = Finite 0)"

definition robot_ok :: "robot \<Rightarrow> bool" where
  "robot_ok s \<longleftrightarrow> failover_ok (robotFailover s)
     \<and> (sw_mJoystick (rf_swerve (robotFailover s)) \<longleftrightarrow> failoverActive s)
     \<and> (\<not> failoverActive s \<longrightarrow> drive_stopped (rf_msgs (robotFailover s)))
     \<and> network_ok (net (rb_comms s)) \<and> external_ok (ext (rb_comms s))
     \<and> motor_ok (rb_motors s) \<and> solenoid_ok (rb_solenoids s) \<and> candle_ok (fst (rb_leds s))"

lemma drive_stopped_zeros:
  assumes "length ds = 4" "length ss = 4" "fm_motorControl fm = failover_controls ds ss"
  shows "drive_stopped fm \<longleftrightarrow> ds = [0, 0, 0, 0]"
proof -
  obtain a b c d where ds: "ds = [a, b, c, d]" using length4[OF assms(1)] by blast
  obtain e f g h where ss: "ss = [e, f, g, h]" using length4[OF assms(2)] by blast
  have "{..<4 :: nat} = {0, 1, 2, 3}" by auto
  then have "drive_stopped fm \<longleftrightarrow> (\<forall>p \<in> {0, 1, 2, 3}. mv_output_value (fm_motorControl fm ! p) = Finite 0)"
    unfolding drive_stopped_def by (metis lessThan_iff)
  then show ?thesis
    using assms(3) by (simp add: ds ss failover_controls_def failover_control_def)
qed

lemma layout_controls:
  assumes "layout_ok fm"
  obtains ds ss where "length ds = 4" "length ss = 4" "fm_motorControl fm = failover_controls ds ss"
  using assms by (auto simp: layout_ok_def)

lemma stopped_by_zeros:
  assumes "layout_ok fm" shows "drive_stopped (set_output_values [0, 1, 2, 3] [0, 0, 0, 0] fm)"
proof -
  obtain ds ss where l: "length ds = 4" "length ss = 4" "fm_motorControl fm = failover_controls ds ss"
    using assms by (rule layout_controls)
  show ?thesis
    by (subst drive_stopped_zeros[OF _ l(2) set_drive_values(1)[OF l]]) simp_all
qed

lemma drive_stopped_cong: "fm_motorControl fm = fm_motorControl fm' \<Longrightarrow> drive_stopped fm = drive_stopped fm'"
  by (simp add: drive_stopped_def)

lemma failover_reset_stopped:
  assumes "failover_ok rf" shows "drive_stopped (rf_msgs (RobotFailover_Reset rf))"
proof -
  obtain sw fm where s: "swerve_uninit (rf_swerve rf, rf_msgs rf) = (sw, fm)" by fastforce
  have ok: "pointers_ok rf" "layout_ok (rf_msgs rf)" using assms by (simp_all add: failover_ok_def)
  then have fm: "fm = set_output_values [0, 1, 2, 3] [0, 0, 0, 0] (rf_msgs rf)"
    using s by (auto simp: swerve_uninit_def pointers_ok_def)
  have l: "layout_ok fm" using swerve_values_layout(1)[OF ok] ok(1) by (simp add: fm pointers_ok_def)
  have "drive_stopped (intake_uninit (rf_intake rf) (arm_uninit (rf_arm rf) fm)) = drive_stopped fm"
    by (rule drive_stopped_cong)
      (simp add: arm_intake_motors[OF ok(1) l] arm_intake_motors[OF ok(1) arm_intake_layout(1)[OF ok(1) l]])
  then show ?thesis using s stopped_by_zeros[OF ok(2)] fm by (simp add: RobotFailover_Reset_def)
qed

lemma teleop_stopped:
  assumes "failover_ok rf" and "\<not> (sw_mJoystick (rf_swerve rf) \<and> js_connected js)"
  shows "drive_stopped (rf_msgs (TeleopFailoverPeriodic lib js rf))"
proof -
  have ok: "pointers_ok rf" "layout_ok (rf_msgs rf)" using assms by (simp_all add: failover_ok_def)
  let ?fm = "swerve_run lib js (rf_swerve rf) (rf_msgs rf)"
  have fm: "?fm = set_output_values [0, 1, 2, 3] [0, 0, 0, 0] (rf_msgs rf)"
    using assms(2) ok(1) by (auto simp: swerve_run_def pointers_ok_def)
  have l: "layout_ok ?fm" by (rule swerve_run_layout[OF ok])
  have "drive_stopped (intake_run (rf_intake rf) (arm_run (rf_arm rf) ?fm)) = drive_stopped ?fm"
    by (rule drive_stopped_cong)
      (simp add: arm_intake_motors[OF ok(1) l] arm_intake_motors[OF ok(1) arm_intake_layout(2)[OF ok(1) l]])
  then show ?thesis using stopped_by_zeros[OF ok(2)] fm by (simp add: TeleopFailoverPeriodic_def)
qed

section \<open>Every step keeps the invariant\<close>

lemma motor_values_task_ok:
  assumes "motor_ok mgr"
    and "motor_values_run parse l d now currentMode canOf n t mgr calls = (r, n', t', mgr', calls')"
  shows "motor_ok mgr'" "n' = snd (getMessage ''motorcontrol'' n)"
proof -
  show "n' = snd (getMessage ''motorcontrol'' n)"
    using assms(2) by (auto simp: motor_values_run_def Let_def split: prod.splits option.splits if_splits)
  show "motor_ok mgr'"
    using assms apply_motor_values_frame[OF assms(1)]
    by (fastforce simp: motor_values_run_def Let_def split: prod.splits option.splits if_splits)
qed

lemma solenoid_task_ok:
  assumes "solenoid_ok mgr"
    and "solenoid_task_run parse fits now isTeleop (n, mgr, t) = (r, es, n', mgr', t')"
  shows "solenoid_ok mgr'" "n' = snd (getMessage ''solenoidcontrol'' n)"
proof -
  show "n' = snd (getMessage ''solenoidcontrol'' n)"
    using assms(2) by (auto simp: solenoid_task_run_def Let_def split: prod.splits option.splits if_splits)
  show "solenoid_ok mgr'"
    using assms apply_solenoids_ok[OF assms(1)]
    by (fastforce simp: solenoid_task_run_def Let_def split: prod.splits option.splits if_splits)
qed

lemma robot_ok_new: "robot_ok (Robot_new pn task timer)"
proof -
  have "drive_stopped (rf_msgs (RobotFailover_new pn))"
    by (subst drive_stopped_zeros[OF _ _ failover_new_ok(3)]) simp_all
  then show ?thesis
    using failover_new_ok(1,2)[of pn]
    by (simp add: robot_ok_def Robot_new_def external_ok_init motor_ok_new solenoid_ok_new candle_ok_new)
qed

text \<open>A periodic call as its three cases: the external controller drives, the hand-over to the
  failover code, or the failover code drives already.\<close>

lemma RobotPeriodic_external:
  assumes "isExternalControl s"
  shows "robotFailover (RobotPeriodic io attached position s) =
      (if failoverActive s then RobotFailover_Reset (robotFailover s) else robotFailover s)"
    "\<not> failoverActive (RobotPeriodic io attached position s)"
    "rb_comms (RobotPeriodic io attached position s) = rb_comms s"
  using assms by (simp_all add: RobotPeriodic_def Let_def isExternalControl_def ReportError_def)

definition failover_entered :: "(u16 \<Rightarrow> real) \<Rightarrow> robot \<Rightarrow> robot_failover" where
  "failover_entered position s =
     (if failoverActive s then robotFailover s else RobotFailoverInit position (rb_motors s) (robotFailover s))"

lemma RobotPeriodic_failover:
  assumes "\<not> isExternalControl s"
  shows "(robotFailover (RobotPeriodic io attached position s), net (rb_comms (RobotPeriodic io attached position s)))
      = RobotFailoverPeriodic (io_serializers io) position (rb_motors s)
          (failover_entered position s, net (rb_comms s))"
    "failoverActive (RobotPeriodic io attached position s)"
    "ext (rb_comms (RobotPeriodic io attached position s)) = ext (rb_comms s)"
  using assms
  by (simp_all add: RobotPeriodic_def Let_def isExternalControl_def ReportError_def failover_entered_def split_beta)

lemma RobotPeriodic_frame:
  "rb_motors (RobotPeriodic io attached position s) = rb_motors s"
  "rb_solenoids (RobotPeriodic io attached position s) = rb_solenoids s"
  "rb_leds (RobotPeriodic io attached position s) = rb_leds s"
  "mControlMode (rb_mode (RobotPeriodic io attached position s)) = mControlMode (rb_mode s)"
  by (simp_all add: RobotPeriodic_def Let_def ReportError_def setDSAttached_def split_beta)

lemma robot_ok_periodic:
  assumes "robot_ok s"
  shows "robot_ok (RobotPeriodic io attached position s)"
proof (cases "isExternalControl s")
  case True
  with assms RobotPeriodic_external[OF True] show ?thesis
    by (auto simp: robot_ok_def RobotPeriodic_frame failover_reset_ok failover_reset_stopped)
next
  case False
  let ?s' = "RobotPeriodic io attached position s"
  note r = RobotPeriodic_failover[OF False, of io attached position]
  have e: "failover_ok (failover_entered position s)" "sw_mJoystick (rf_swerve (failover_entered position s))"
    using assms by (auto simp: robot_ok_def failover_entered_def intro!: failover_init_ok)
  have "failover_ok (robotFailover ?s')"
    by (rule failover_periodic_ok[OF e(1) r(1)[symmetric]])
  moreover have "sw_mJoystick (rf_swerve (robotFailover ?s'))"
    using arg_cong[OF r(1), of fst] e(2) by (simp add: split_beta)
  moreover have "network_ok (net (rb_comms ?s'))"
    using arg_cong[OF r(1), of snd] assms
    by (simp add: RobotFailoverPeriodic_def Let_def split_beta publish_network_ok robot_ok_def)
  ultimately show ?thesis
    using assms r(2,3) by (simp add: robot_ok_def RobotPeriodic_frame)
qed

lemma unless_external_frame [simp]:
  "failoverActive (unless_external h s) = failoverActive s"
  "rb_comms (unless_external h s) = rb_comms s"
  "rb_motors (unless_external h s) = rb_motors s"
  "rb_solenoids (unless_external h s) = rb_solenoids s"
  "rb_leds (unless_external h s) = rb_leds s"
  "rb_mode (unless_external h s) = rb_mode s"
  by (simp_all add: unless_external_def)

lemma robot_ok_cong:
  assumes "robot_ok s" and "robotFailover s' = robotFailover s" and "failoverActive s' = failoverActive s"
    and "rb_comms s' = rb_comms s" and "rb_motors s' = rb_motors s" and "rb_solenoids s' = rb_solenoids s"
    and "rb_leds s' = rb_leds s"
  shows "robot_ok s'"
  using assms by (simp add: robot_ok_def)

text \<open>The hooks other than the teleoperated one change nothing but the control mode.\<close>

lemma mode_init_frame [simp]:
  "robotFailover (mode_init m s) = robotFailover s"
  "failoverActive (mode_init m s) = failoverActive s"
  "rb_comms (mode_init m s) = rb_comms s"
  "rb_motors (mode_init m s) = rb_motors s"
  "rb_solenoids (mode_init m s) = rb_solenoids s"
  "rb_leds (mode_init m s) = rb_leds s"
  by (simp_all add: mode_init_def DisabledInit_def AutonomousInit_def TeleopInit_def TestInit_def
      unless_external_def failover_hooks split: mode.split)

lemma mode_periodic_frame:
  "m \<noteq> kTeleop \<Longrightarrow> mode_periodic io js m s = s"
  by (cases m) (simp_all add: mode_periodic_def DisabledPeriodic_def AutonomousPeriodic_def
      TestPeriodic_def unless_external_def failover_hooks)

lemma robot_ok_teleop:
  assumes "robot_ok s"
  shows "robot_ok (TeleopPeriodic io js s)"
  using assms failover_teleop_ok[of "robotFailover s"] teleop_stopped[of "robotFailover s" js]
  by (auto simp: robot_ok_def TeleopPeriodic_def unless_external_def)

lemma robot_ok_mode_periodic: "robot_ok s \<Longrightarrow> robot_ok (mode_periodic io js m s)"
  by (cases "m = kTeleop") (simp add: mode_periodic_def robot_ok_teleop, simp add: mode_periodic_frame)

lemma receive_comms: "rb_comms (ReceiveMessagesTask_run queue s) = pumped queue (rb_comms s)"
  by (simp add: ReceiveMessagesTask_run_def receiveMessagePump_def split_beta)

lemma robot_ok_receive: "robot_ok s \<Longrightarrow> robot_ok (ReceiveMessagesTask_run queue s)"
  using pump_loop_network_ok[of "rb_comms s" queue] receive_comms[of queue s]
  by (simp add: robot_ok_def ReceiveMessagesTask_run_def pump_loop_ext external_ok_received)

lemma robot_ok_heartbeat: "robot_ok s \<Longrightarrow> robot_ok (ProcessHeartbeatTask_run s)"
  by (simp add: robot_ok_def ProcessHeartbeatTask_run_def external_ok_heartbeat motor_ok_beat
      solenoid_ok_beat candle_ok_beat)

text \<open>The tasks that take a message each: the mailbox loses the message and nothing else.\<close>

lemma robot_task_frames:
  "robot_motor_values io l now s = (r, s') \<Longrightarrow> robotFailover s' = robotFailover s
     \<and> failoverActive s' = failoverActive s \<and> ext (rb_comms s') = ext (rb_comms s)
     \<and> rb_solenoids s' = rb_solenoids s \<and> rb_leds s' = rb_leds s"
  "robot_motor_config io l s = (r, s') \<Longrightarrow> robotFailover s' = robotFailover s
     \<and> failoverActive s' = failoverActive s \<and> ext (rb_comms s') = ext (rb_comms s)
     \<and> rb_solenoids s' = rb_solenoids s \<and> rb_leds s' = rb_leds s"
  "robot_solenoids io now s = (r, s') \<Longrightarrow> robotFailover s' = robotFailover s
     \<and> failoverActive s' = failoverActive s \<and> ext (rb_comms s') = ext (rb_comms s)
     \<and> rb_motors s' = rb_motors s \<and> rb_leds s' = rb_leds s"
  "robotFailover (robot_leds io l s) = robotFailover s
     \<and> failoverActive (robot_leds io l s) = failoverActive s
     \<and> ext (rb_comms (robot_leds io l s)) = ext (rb_comms s)
     \<and> rb_motors (robot_leds io l s) = rb_motors s \<and> rb_solenoids (robot_leds io l s) = rb_solenoids s"
  by (auto simp: robot_motor_values_def robot_motor_config_def robot_solenoids_def robot_leds_def
      split: prod.splits)

lemma robot_ok_motor_values:
  assumes "robot_ok s" and "robot_motor_values io l now s = (r, s')"
  shows "robot_ok s'"
proof -
  obtain r' n t mgr calls where run: "motor_values_run (io_parse_control io) l (mControlMode (rb_mode s) = DISABLED) now
      (io_currentMode io) (io_canOf io) (net (rb_comms s)) (rb_motor_timer s) (rb_motors s) (rb_talons s)
      = (r', n, t, mgr, calls)" using prod_cases5 by blast
  with assms(2) have "net (rb_comms s') = n" "rb_motors s' = mgr"
    by (auto simp: robot_motor_values_def)
  moreover have "motor_ok mgr" "network_ok n"
    using motor_values_task_ok[OF _ run] assms(1) by (auto simp: robot_ok_def)
  ultimately show ?thesis using assms(1) robot_task_frames(1)[OF assms(2)] by (simp add: robot_ok_def)
qed

lemma robot_ok_motor_config:
  assumes "robot_ok s" and "robot_motor_config io l s = (r, s')"
  shows "robot_ok s'"
proof -
  obtain r' n mgr calls where run: "motor_config_run (io_parse_config io) l (io_modeOf io) (io_motor_resp io)
      CKEncoderManager_new (net (rb_comms s)) (rb_motors s) (rb_motor_calls s) = (r', n, mgr, calls)"
    using prod_cases4 by blast
  with assms(2) have "net (rb_comms s') = n" "rb_motors s' = mgr"
    by (auto simp: robot_motor_config_def)
  moreover have "motor_ok mgr" "network_ok n"
    using motor_ok_config_task[OF _ run] assms(1)
      motor_config_task_network[of "io_parse_config io" l "io_modeOf io" "io_motor_resp io"
        CKEncoderManager_new "net (rb_comms s)" "rb_motors s" "rb_motor_calls s"] run
    by (auto simp: robot_ok_def)
  ultimately show ?thesis using assms(1) robot_task_frames(2)[OF assms(2)] by (simp add: robot_ok_def)
qed

lemma robot_ok_solenoids:
  assumes "robot_ok s" and "robot_solenoids io now s = (r, s')"
  shows "robot_ok s'"
proof -
  obtain r' es n mgr t where run: "solenoid_task_run (io_parse_solenoids io) (io_fits io) now
      (mControlMode (rb_mode s) = TELEOP) (net (rb_comms s), rb_solenoids s, rb_solenoid_task s) = (r', es, n, mgr, t)"
    using prod_cases5 by blast
  with assms(2) have "net (rb_comms s') = n" "rb_solenoids s' = mgr"
    by (auto simp: robot_solenoids_def)
  moreover have "solenoid_ok mgr" "network_ok n"
    using solenoid_task_ok[OF _ run] assms(1) by (auto simp: robot_ok_def)
  ultimately show ?thesis using assms(1) robot_task_frames(3)[OF assms(2)] by (simp add: robot_ok_def)
qed

lemma robot_ok_leds:
  assumes "robot_ok s"
  shows "robot_ok (robot_leds io l s)"
proof -
  obtain n st where run: "led_task_run (io_parse_led io) l (io_led_schema io) (io_led_resp io)
      (net (rb_comms s)) (rb_leds s) = (n, st)" by (rule prod.exhaust)
  have "net (rb_comms (robot_leds io l s)) = n" "rb_leds (robot_leds io l s) = st"
    by (simp_all add: robot_leds_def run)
  moreover have "candle_ok (fst st)" "network_ok n"
    using candle_ok_task[OF _ run] assms
      led_task_network[of "io_parse_led io" l "io_led_schema io" "io_led_resp io" "net (rb_comms s)" "rb_leds s"] run
    by (auto simp: robot_ok_def)
  ultimately show ?thesis using assms robot_task_frames(4)[of io l s] by (simp add: robot_ok_def)
qed

lemma robot_imu_config_frame [simp]:
  "robotFailover (robot_imu_config s) = robotFailover s"
  "failoverActive (robot_imu_config s) = failoverActive s"
  "ext (rb_comms (robot_imu_config s)) = ext (rb_comms s)"
  "net (rb_comms (robot_imu_config s)) = snd (getMessage ''imuconfig'' (net (rb_comms s)))"
  "rb_motors (robot_imu_config s) = rb_motors s"
  "rb_solenoids (robot_imu_config s) = rb_solenoids s"
  "rb_leds (robot_imu_config s) = rb_leds s"
  by (simp_all add: robot_imu_config_def)

lemma robot_ok_imu_config: "robot_ok s \<Longrightarrow> robot_ok (robot_imu_config s)"
  by (simp add: robot_ok_def)

lemma robot_ok_step:
  assumes "robot_step io s e s'" and "robot_ok s"
  shows "robot_ok s'"
  using assms
proof cases
  case (step_mode_init m)
  with assms(2) show ?thesis by (auto intro: robot_ok_cong)
next
  case (step_ds_status attached)
  with assms(2) show ?thesis by (auto simp: UpdateDSConnectionStatusTask_run_def intro: robot_ok_cong)
qed (use assms(2) in \<open>auto intro: robot_ok_periodic robot_ok_mode_periodic robot_ok_receive robot_ok_heartbeat
       robot_ok_motor_values robot_ok_motor_config robot_ok_solenoids robot_ok_leds robot_ok_imu_config\<close>)

lemma robot_ok_runs:
  assumes "robot_runs io s es s'" and "robot_ok s"
  shows "robot_ok s'"
  using assms by (induction rule: robot_runs.induct) (auto intro: robot_ok_step)

end
