(* ===== verification/Robot_Handover.thy ===== *)
theory Robot_Handover
  imports Robot
begin

text \<open>
  The composition of the robot: what holds in every reachable state, the hand-over between the
  external controller and the failover code in both directions, what one pass of the main loop
  publishes, and how the published commands reach the motors.
\<close>

section \<open>A concrete robot\<close>

text \<open>An environment and a robot for the examples: one byte per command, no device answers.\<close>

definition example_io :: robot_io where
  "example_io = \<lparr>
     io_serializers = \<lparr>sr_motorControl = \<lambda>cmds. map (\<lambda>c. word_of_int (mv_id c)) cmds,
       sr_solenoidControl = \<lambda>m. [2], sr_motorConfiguration = \<lambda>m. [3], sr_ledControl = \<lambda>m. [4]\<rparr>,
     io_lib = \<lparr>ToSwerveModuleStates = \<lambda>(x, y, z). [(x, 0), (x, 0), (x, 0), (x, 0)], Optimize = \<lambda>st a. st\<rparr>,
     io_parse_control = \<lambda>b. None, io_currentMode = \<lambda>calls i. PercentOutput, io_canOf = \<lambda>m. RIO_CANIVORE,
     io_parse_config = \<lambda>b. None, io_modeOf = \<lambda>i. MASTER, io_motor_resp = \<lambda>n. OK,
     io_parse_solenoids = \<lambda>b. (False, \<lparr>solenoids = [], compressor_is_enabled_for_auto = False\<rparr>),
     io_fits = \<lambda>s. True, io_parse_led = \<lambda>b. None,
     io_led_schema = \<lparr>ls_id = \<lambda>m. 0, ls_can_network = \<lambda>m. RIO_CANIVORE, ls_mode = OtherLedMode,
       ls_color = \<lambda>m. \<lparr>lc_rgbw = \<lparr>col_r = 0, col_g = 0, col_b = 0, col_w = 0\<rparr>, lc_start_index = 0, lc_num_leds = 0\<rparr>,
       ls_animation = \<lambda>v. \<lparr>an_slot = 0, an_type = AnimMorse, an_color = \<lparr>col_r = 0, col_g = 0, col_b = 0, col_w = 0\<rparr>,
         an_brightness = 0, an_speed = 0, an_num_led = 0, an_direction = 0, an_offset = 0\<rparr>\<rparr>,
     io_led_resp = \<lambda>n. OK\<rparr>"

definition example_task :: solenoid_task where
  "example_task = \<lparr>mPrevSolenoidMsg = \<lparr>solenoids = [], compressor_is_enabled_for_auto = False\<rparr>,
     sol_rtTimer = RTTimer_new 0, mCompressorCreated = False, mCompressorState = False\<rparr>"

abbreviation example_robot :: robot where
  "example_robot \<equiv> Robot_new example_names example_task (RTTimer_new 0)"

text \<open>The fourteen motor commands of the failover code, whatever their values, are serialized into at most
  the 16 KiB of \<open>failoverMessageBuffer\<close>.\<close>

definition failover_fits :: "serializers \<Rightarrow> bool" where
  "failover_fits sr \<longleftrightarrow> (\<forall>ds ss. length ds = 4 \<longrightarrow> length ss = 4 \<longrightarrow>
     length (sr_motorControl sr (failover_controls ds ss)) \<le> BUF_SIZE)"

lemma failover_controls_length [simp]:
  "length ds = 4 \<Longrightarrow> length ss = 4 \<Longrightarrow> length (failover_controls ds ss) = 14"
  by (simp add: failover_controls_def arm_controls_def)

lemma example_fits: "failover_fits (io_serializers example_io)"
  by (simp add: failover_fits_def example_io_def BUF_SIZE_def)

lemma failover_fits_layout:
  assumes "failover_fits sr" and "layout_ok fm"
  shows "length (sr_motorControl sr (fm_motorControl fm)) \<le> BUF_SIZE"
  using assms by (auto simp: failover_fits_def elim!: layout_controls)

lemma failover_entered_layout: "robot_ok s \<Longrightarrow> layout_ok (rf_msgs (failover_entered position s))"
  using failover_init_ok[of "robotFailover s"]
  by (auto simp: robot_ok_def failover_entered_def failover_ok_def)

section \<open>The dead-man counter along a run\<close>

definition speaks :: "robot_event \<Rightarrow> bool" where
  "speaks e = (case e of RunReceive queue \<Rightarrow> taken queue \<noteq> [] | _ \<Rightarrow> False)"

definition heartbeats :: "robot_event list \<Rightarrow> nat" where
  "heartbeats es = count_list es RunHeartbeat"

abbreviation link :: "robot \<Rightarrow> int" where
  "link s \<equiv> mLastConnectionTime (ext (rb_comms s))"

lemma heartbeats_replicate [simp]: "heartbeats (replicate n RunHeartbeat) = n"
  unfolding heartbeats_def by (induction n) simp_all

lemma isExternalControl_link: "isExternalControl s \<longleftrightarrow> link s > 0"
  by (simp add: isExternalControl_def isExternalControlConnected_def)

lemma link_periodic: "ext (rb_comms (RobotPeriodic io attached position s)) = ext (rb_comms s)"
  using RobotPeriodic_external(3) RobotPeriodic_failover(3) by (cases "isExternalControl s") simp_all

lemma link_mode_periodic: "ext (rb_comms (mode_periodic io js m s)) = ext (rb_comms s)"
  by (cases "m = kTeleop") (simp add: mode_periodic_def TeleopPeriodic_def, simp add: mode_periodic_frame)

lemma link_step:
  assumes "robot_step io s e s'"
  shows "link s' = (if speaks e then 50 else if e = RunHeartbeat then (if link s > 0 then link s - 1 else link s)
    else link s)"
  using assms
  by cases (auto simp: speaks_def link_periodic link_mode_periodic receive_comms pump_loop_ext
      externalControlMsgReceived_def ProcessHeartbeatTask_run_def external_processHeartbeat_def
      UpdateDSConnectionStatusTask_run_def robot_task_frames dest!: robot_task_frames(1,2,3))

lemma link_silent:
  assumes "robot_runs io s es s'" and "\<not> list_ex speaks es" and "0 \<le> link s"
  shows "link s' = max 0 (link s - int (heartbeats es))"
  using assms
proof (induction rule: robot_runs.induct)
  case (runs_cons s e s' es s'')
  then show ?case using link_step[OF runs_cons(1)] by (auto simp: heartbeats_def split: if_splits)
qed (simp add: heartbeats_def)

lemma link_lower:
  assumes "robot_runs io s es s'" and "0 \<le> link s" and "link s \<le> 50"
  shows "link s - int (heartbeats es) \<le> link s'"
  using assms
proof (induction rule: robot_runs.induct)
  case (runs_cons s e s' es s'')
  then show ?case using link_step[OF runs_cons(1)] by (auto simp: heartbeats_def split: if_splits)
qed (simp add: heartbeats_def)

section \<open>What every reachable state keeps\<close>

text \<open>Whatever messages arrive and however callbacks, tasks and faults that throw interleave, the
  tables of the motor, solenoid and CANdle registries stay consistent, the mailbox stays a map, the
  dead-man counter stays between 0 and 50, and the failover code keeps its invariant.\<close>

theorem robot_state_invariant:
  assumes "robot_runs io (Robot_new pn task timer) es s"
  shows "motor_ok (rb_motors s) \<and> solenoid_ok (rb_solenoids s) \<and> candle_ok (fst (rb_leds s))
    \<and> network_ok (net (rb_comms s)) \<and> external_ok (ext (rb_comms s)) \<and> failover_ok (robotFailover s)"
  using robot_ok_runs[OF assms robot_ok_new] by (simp add: robot_ok_def)

lemma run_one: "robot_step io s e s' \<Longrightarrow> robot_runs io s [e] s'"
  by (rule runs_cons[OF _ runs_nil])

theorem robot_state_invariant_witness:
  "motor_ok (rb_motors (ProcessHeartbeatTask_run example_robot))"
  using robot_state_invariant[OF run_one[OF step_heartbeat], of example_names example_task "RTTimer_new 0"] by blast

text \<open>C12. The failover code never moves the arm or the intake: in every reachable state its messages
  command motors 1 to 14 in order, the arm masters, the wrist and the intake at zero percent output,
  the arm followers only to follow their masters, and every solenoid off. While the failover code is
  not active its drive motors are commanded to stand still.\<close>

theorem failover_commands_harmless:
  assumes "robot_runs io (Robot_new pn task timer) es s"
  defines "fm \<equiv> rf_msgs (robotFailover s)"
  shows "map mv_id (fm_motorControl fm) = [1, 2, 3, 4, 5, 6, 7, 8, 9, 10, 11, 12, 13, 14]
    \<and> (\<forall>c \<in> set (fm_motorControl fm). mv_id c \<in> {9, 11, 13, 14} \<longrightarrow>
          mv_control_mode c = PercentOutput \<and> mv_output_value c = Finite 0)
    \<and> (\<forall>c \<in> set (fm_motorControl fm). mv_id c \<in> {10, 12} \<longrightarrow>
          mv_control_mode c = Follower \<and> mv_output_value c = Finite (of_int (mv_id c - 1)))
    \<and> (\<forall>m \<in> set (solenoids (fm_solenoidControl fm)). sm_output_value m = SOL_OFF)
    \<and> (\<not> failoverActive s \<longrightarrow> (\<forall>c \<in> set (fm_motorControl fm).
          mv_id c \<in> {1, 2, 3, 4} \<longrightarrow> mv_output_value c = Finite 0))"
proof -
  have ok: "robot_ok s" by (rule robot_ok_runs[OF assms(1) robot_ok_new])
  then have lay: "layout_ok fm" by (simp add: robot_ok_def failover_ok_def fm_def)
  then obtain ds ss where l: "length ds = 4" "length ss = 4" "fm_motorControl fm = failover_controls ds ss"
    by (rule layout_controls)
  obtain a b c d where ds: "ds = [a, b, c, d]" using length4[OF l(1)] by blast
  obtain e f g h where ss: "ss = [e, f, g, h]" using length4[OF l(2)] by blast
  have sol: "\<forall>m \<in> set (solenoids (fm_solenoidControl fm)). sm_output_value m = SOL_OFF"
    using lay by (auto simp: layout_ok_def failover_solenoids_def failover_solenoid_def)
  have z: "\<not> failoverActive s \<Longrightarrow> ds = [0, 0, 0, 0]"
    using ok drive_stopped_zeros[OF l] by (simp add: robot_ok_def fm_def)
  show ?thesis
    unfolding l(3) using sol z
    by (auto simp: ds ss failover_controls_def arm_controls_def failover_control_def)
qed

theorem failover_commands_harmless_witness:
  "map mv_id (fm_motorControl (rf_msgs (robotFailover example_robot)))
     = [1, 2, 3, 4, 5, 6, 7, 8, 9, 10, 11, 12, 13, 14]"
  using failover_commands_harmless[OF runs_nil] by blast

text \<open>The joystick object is created and deleted in step with the mode of control: exactly one
  exists while the failover code is active and none otherwise, so it neither leaks nor is used
  after it was deleted.\<close>

theorem failover_joystick_owned:
  assumes "robot_runs io (Robot_new pn task timer) es s"
  shows "sw_live (rf_swerve (robotFailover s)) = (if failoverActive s then 1 else 0)
    \<and> sw_mJoystick (rf_swerve (robotFailover s)) = failoverActive s"
  using robot_ok_runs[OF assms robot_ok_new] by (simp add: robot_ok_def failover_ok_def)

theorem failover_joystick_owned_witness:
  "sw_live (rf_swerve (robotFailover (RobotPeriodic example_io True (\<lambda>i. 0) example_robot))) = 1"
proof -
  have "\<not> isExternalControl example_robot"
    by (simp add: isExternalControl_link Robot_new_def ExternalControlManager_init_def)
  with failover_joystick_owned[OF run_one[OF step_periodic]] show ?thesis
    by (metis RobotPeriodic_failover(2))
qed

section \<open>Hand-over\<close>

lemma runs_heartbeats: "robot_runs io s (replicate n RunHeartbeat) ((ProcessHeartbeatTask_run ^^ n) s)"
proof (induction n arbitrary: s)
  case (Suc n)
  from runs_cons[OF step_heartbeat Suc] show ?case by (simp add: funpow_swap1)
qed (simp add: runs_nil)

lemma runs_append: "robot_runs io s es s' \<Longrightarrow> robot_runs io s' es' s'' \<Longrightarrow> robot_runs io s (es @ es') s''"
  by (induction rule: robot_runs.induct) (auto intro: runs_cons)

lemma publish_motorcontrol:
  "network_ok n \<Longrightarrow> waiting (snd (publishMessages sr fm n)) ''motorcontrol'' =
     (if length (sr_motorControl sr (fm_motorControl fm)) \<le> BUF_SIZE
      then Some (sr_motorControl sr (fm_motorControl fm)) else waiting n ''motorcontrol'')"
  by (simp add: publishMessages_def Let_def waiting_publish_bytes)

text \<open>What a periodic call of the active failover code leaves in the mailbox.\<close>

lemma periodic_publishes:
  assumes "robot_ok s" and "\<not> isExternalControl s"
    and "failover_fits (io_serializers io)"
  shows "waiting (net (rb_comms (RobotPeriodic io attached position s))) ''motorcontrol'' =
      Some (sr_motorControl (io_serializers io) (fm_motorControl (rf_msgs (failover_entered position s))))"
    and "fm_motorControl (rf_msgs (robotFailover (RobotPeriodic io attached position s))) =
      fm_motorControl (rf_msgs (failover_entered position s))"
  using assms RobotPeriodic_failover(1)[OF assms(2), of io attached position]
    failover_fits_layout[OF assms(3) failover_entered_layout[OF assms(1)]]
  by (auto simp: RobotFailoverPeriodic_def Let_def split_beta publish_motorcontrol robot_ok_def)

text \<open>C6. When the external controller falls silent the failover code takes over: after fifty
  heartbeats without a message, however the other events interleave with them, the next periodic
  call makes the failover code active and puts its commands into the mailbox, given that its fourteen
  motor commands, with whatever values, serialize into at most the 16 KiB of its buffer.\<close>

theorem failover_takes_over:
  fixes attached :: bool and position :: "u16 \<Rightarrow> real"
  assumes "robot_runs io (Robot_new pn task timer) es s"
    and "robot_runs io s es' s'" and "\<not> list_ex speaks es'" and "50 \<le> heartbeats es'"
    and "failover_fits (io_serializers io)"
  defines "s'' \<equiv> RobotPeriodic io attached position s'"
  shows "failoverActive s'' \<and> waiting (net (rb_comms s'')) ''motorcontrol'' =
    Some (sr_motorControl (io_serializers io) (fm_motorControl (rf_msgs (robotFailover s''))))"
proof -
  have ok: "robot_ok s" "robot_ok s'"
    using robot_ok_runs[OF assms(1) robot_ok_new] robot_ok_runs[OF assms(2)] by blast+
  then have "0 \<le> link s" "link s \<le> 50" by (simp_all add: robot_ok_def external_ok_def)
  with link_silent[OF assms(2,3)] assms(4) have n: "\<not> isExternalControl s'"
    by (simp add: isExternalControl_link)
  show ?thesis
    using periodic_publishes[OF ok(2) n assms(5), where attached = attached] RobotPeriodic_failover(2)[OF n]
    by (simp add: s''_def)
qed

theorem failover_takes_over_witness:
  "let io = example_io\<lparr>io_serializers := \<lparr>sr_motorControl = \<lambda>m. [1], sr_solenoidControl = \<lambda>m. [2],
               sr_motorConfiguration = \<lambda>m. [3], sr_ledControl = \<lambda>m. [4]\<rparr>\<rparr>;
       s = ReceiveMessagesTask_run [DishMessage ''motorcontrol'' [7]] example_robot;
       s' = (ProcessHeartbeatTask_run ^^ 50) s
   in waiting (net (rb_comms (RobotPeriodic io True (\<lambda>i. 0) s'))) ''motorcontrol'' = Some [1]"
  unfolding Let_def
  by (subst failover_takes_over[OF run_one[OF step_receive] runs_heartbeats, THEN conjunct2])
    (simp_all add: list_ex_iff speaks_def failover_fits_def BUF_SIZE_def)

text \<open>C7. When the external controller speaks the failover code lets go: at the first periodic call
  less than fifty heartbeats later it becomes inactive, its joystick is deleted, its drive commands
  are zero, and it leaves the mailbox alone.\<close>

theorem failover_releases:
  fixes attached :: bool and position :: "u16 \<Rightarrow> real"
  assumes "robot_runs io (Robot_new pn task timer) es s" and "taken queue \<noteq> []"
    and "robot_runs io (ReceiveMessagesTask_run queue s) es' s'" and "heartbeats es' < 50"
  defines "s'' \<equiv> RobotPeriodic io attached position s'"
  shows "\<not> failoverActive s'' \<and> rb_comms s'' = rb_comms s'
    \<and> sw_live (rf_swerve (robotFailover s'')) = 0 \<and> drive_stopped (rf_msgs (robotFailover s''))"
proof -
  let ?s = "ReceiveMessagesTask_run queue s"
  have "robot_ok s" by (rule robot_ok_runs[OF assms(1) robot_ok_new])
  then have ok: "robot_ok s'" by (intro robot_ok_runs[OF assms(3)] robot_ok_receive)
  have "link ?s = 50" using assms(2)
    by (simp add: receive_comms pump_loop_ext externalControlMsgReceived_def)
  with link_lower[OF assms(3)] assms(4) have x: "isExternalControl s'"
    by (simp add: isExternalControl_link)
  have "robot_ok s''" using ok by (simp add: s''_def robot_ok_periodic)
  then show ?thesis
    using RobotPeriodic_external(2,3)[OF x, of io attached position]
    by (simp add: s''_def robot_ok_def failover_ok_def)
qed

theorem failover_releases_witness:
  "let s = RobotPeriodic example_io True (\<lambda>i. 0) example_robot;
       s' = ReceiveMessagesTask_run [DishMessage ''motorcontrol'' [7]] s
   in \<not> failoverActive (RobotPeriodic example_io True (\<lambda>i. 0) s')"
  unfolding Let_def
  using failover_releases[OF run_one[OF step_periodic] _ runs_nil, of "[DishMessage ''motorcontrol'' [7]]"]
  by (simp add: heartbeats_def EAGAIN_def)

section \<open>What the failover code publishes\<close>

abbreviation drive_commands :: "robot \<Rightarrow> motor_control list" where
  "drive_commands s \<equiv> fm_motorControl (rf_msgs (robotFailover s))"

definition steers :: "robot_event \<Rightarrow> bool" where
  "steers e = (case e of RunModePeriodic m js \<Rightarrow> m = kTeleop | _ \<Rightarrow> False)"

lemma commands_step:
  assumes "robot_step io s e s'" and "failoverActive s" and "link s = 0"
    and "\<not> speaks e" and "\<not> steers e"
  shows "drive_commands s' = drive_commands s \<and> failoverActive s' \<and> link s' = 0"
proof -
  have "link s' = 0" using link_step[OF assms(1)] assms(3,4) by auto
  moreover have "drive_commands s' = drive_commands s \<and> failoverActive s'"
    using assms(1)
  proof cases
    case (step_periodic attached position)
    have n: "\<not> isExternalControl s" using assms(3) by (simp add: isExternalControl_link)
    show ?thesis
      using arg_cong[OF RobotPeriodic_failover(1)[OF n, of io attached position], of fst] step_periodic assms(2)
        RobotPeriodic_failover(2)[OF n]
      by (simp add: failover_entered_def RobotFailoverPeriodic_def Let_def split_beta)
  next
    case (step_mode_periodic m js)
    with assms(2,5) show ?thesis by (simp add: steers_def mode_periodic_frame)
  qed (use assms(2) in \<open>auto simp: ReceiveMessagesTask_run_def ProcessHeartbeatTask_run_def
         UpdateDSConnectionStatusTask_run_def robot_task_frames dest!: robot_task_frames(1,2,3)\<close>)
  ultimately show ?thesis by simp
qed

lemma commands_runs:
  assumes "robot_runs io s es s'" and "failoverActive s" and "link s = 0"
    and "\<not> list_ex speaks es" and "\<not> list_ex steers es"
  shows "drive_commands s' = drive_commands s \<and> failoverActive s' \<and> link s' = 0"
  using assms
proof (induction rule: robot_runs.induct)
  case (runs_cons s e s' es s'')
  then have "\<not> speaks e" "\<not> steers e" by simp_all
  with commands_step[OF runs_cons(1)] runs_cons show ?case by simp
qed simp

text \<open>C32. Only the teleoperated callback of the failover code sets drive commands, and nothing clears
  them while it stays active. So when the robot leaves the teleoperated mode with the joystick
  deflected, the last drive command is published at every periodic call for as long as the external
  controller is silent, through a disabled phase and into an autonomous one, given that the fourteen
  motor commands of the failover code serialize into at most the 16 KiB of its buffer.\<close>

theorem failover_stale_drive:
  fixes attached :: bool and position :: "u16 \<Rightarrow> real"
  assumes "robot_runs io (Robot_new pn task timer) es s" and "failoverActive s" and "\<not> isExternalControl s"
    and "robot_runs io s es' s'" and "\<not> list_ex speaks es'" and "\<not> list_ex steers es'"
    and "failover_fits (io_serializers io)"
  shows "waiting (net (rb_comms (RobotPeriodic io attached position s'))) ''motorcontrol'' =
    Some (sr_motorControl (io_serializers io) (fm_motorControl (rf_msgs (robotFailover s))))"
proof -
  have ok: "robot_ok s" "robot_ok s'"
    using robot_ok_runs[OF assms(1) robot_ok_new] robot_ok_runs[OF assms(4)] by blast+
  then have "link s = 0" using assms(3) by (simp add: robot_ok_def external_ok_def isExternalControl_link)
  from commands_runs[OF assms(4,2) this assms(5,6)]
  have c: "drive_commands s' = drive_commands s" "failoverActive s'" "\<not> isExternalControl s'"
    by (simp_all add: isExternalControl_link)
  show ?thesis
    using periodic_publishes(1)[OF ok(2) c(3) assms(7), where attached = attached] c
    by (simp add: failover_entered_def)
qed

text \<open>A loop of \<open>IterativeRobotBase\<close> as calls on the robot.\<close>

definition run_callback ::
  "robot_io \<Rightarrow> bool \<Rightarrow> (u16 \<Rightarrow> real) \<Rightarrow> joystick \<Rightarrow> loop_event \<Rightarrow> robot \<Rightarrow> robot" where
  "run_callback io attached position js e s =
     (case e of
        ModeInit m \<Rightarrow> mode_init m s
      | ModePeriodic m \<Rightarrow> mode_periodic io js m s
      | CallRobotPeriodic \<Rightarrow> RobotPeriodic io attached position s
      | _ \<Rightarrow> s)"

definition robot_loop ::
  "robot_io \<Rightarrow> bool \<Rightarrow> (u16 \<Rightarrow> real) \<Rightarrow> joystick \<Rightarrow> ds_control_word \<Rightarrow> iterative_robot \<times> robot
     \<Rightarrow> iterative_robot \<times> robot" where
  "robot_loop io attached position js w st =
     (let (es, it) = LoopFunc False w (fst st)
      in (it, fold (run_callback io attached position js) es (snd st)))"

text \<open>C31. In a teleoperated loop the failover code publishes the drive commands of the joystick read
  in the same loop: the mode callback runs before the periodic one. When it was not active yet it
  publishes zero drive commands, and so it does when the joystick is not connected. The fourteen
  motor commands of the failover code are assumed to serialize into at most the 16 KiB of its buffer,
  whatever their values.\<close>

theorem failover_teleop_loop:
  assumes "robot_runs io (Robot_new pn task timer) es s" and "\<not> isExternalControl s"
    and "\<not> IsDisabled w" "\<not> IsAutonomous w" "IsTeleop w"
    and "failover_fits (io_serializers io)"
    and "robot_loop io attached position js w (it, s) = (it', s')"
  shows "waiting (net (rb_comms s')) ''motorcontrol'' =
      Some (sr_motorControl (io_serializers io) (fm_motorControl (rf_msgs (robotFailover s'))))
    \<and> (failoverActive s \<longrightarrow> fm_motorControl (rf_msgs (robotFailover s')) =
        fm_motorControl (rf_msgs (TeleopFailoverPeriodic (io_lib io) js (robotFailover s))))
    \<and> (\<not> (failoverActive s \<and> js_connected js) \<longrightarrow> drive_stopped (rf_msgs (robotFailover s')))"
proof -
  define s1 where "s1 = TeleopPeriodic io js (if m_lastMode it \<noteq> kTeleop then mode_init kTeleop s else s)"
  have s': "s' = RobotPeriodic io attached position s1"
    using assms(7,3-5) unfolding s1_def
    by (cases "m_lastMode it")
      (auto simp: robot_loop_def LoopFunc_def mode_of_word_def Let_def run_callback_def mode_exit_events_def
        mode_init_events_def mode_periodic_events_def mode_periodic_def)
  have ok: "robot_ok s" by (rule robot_ok_runs[OF assms(1) robot_ok_new])
  have ok1: "robot_ok s1" unfolding s1_def using ok by (auto intro!: robot_ok_teleop intro: robot_ok_cong)
  have s1: "failoverActive s1 = failoverActive s" "\<not> isExternalControl s1"
    "robotFailover s1 = TeleopFailoverPeriodic (io_lib io) js (robotFailover s)"
    using assms(2) by (auto simp: s1_def TeleopPeriodic_def unless_external_def isExternalControl_def)
  note p = periodic_publishes[OF ok1 s1(2) assms(6), where attached = attached]
  have init: "drive_stopped (rf_msgs (RobotFailoverInit position (rb_motors s1) rf)) = drive_stopped (rf_msgs rf)"
    if "failover_ok rf" for rf
  proof -
    from that obtain ds ss where l: "length ds = 4" "length ss = 4" "fm_motorControl (rf_msgs rf) = failover_controls ds ss"
      by (auto simp: failover_ok_def elim: layout_controls)
    define xs where "xs = map (\<lambda>i. if motorExists i (rb_motors s1) then position i else 0) STEERING_IDS"
    have xs: "length xs = 4"
      "rf_msgs (RobotFailoverInit position (rb_motors s1) rf) = set_output_values [4, 5, 6, 7] xs (rf_msgs rf)"
      using that by (simp_all add: xs_def RobotFailoverInit_def swerve_init_def Let_def failover_ok_def
          pointers_ok_def STEERING_IDS_def)
    show ?thesis
      using drive_stopped_zeros[OF l] drive_stopped_zeros[OF l(1) xs(1) set_drive_values(2)[OF l xs(1)]] xs(2)
      by simp
  qed
  have stopped: "drive_stopped (rf_msgs (failover_entered position s1))" if "\<not> (failoverActive s \<and> js_connected js)"
    using teleop_stopped[of "robotFailover s" js "io_lib io"] that ok ok1 s1 init[of "robotFailover s1"]
    by (auto simp: failover_entered_def robot_ok_def)
  show ?thesis
    using p stopped drive_stopped_cong[OF p(2)] s1 by (auto simp: s' failover_entered_def)
qed

theorem failover_stale_drive_witness:
  "let s0 = RobotPeriodic example_io True (\<lambda>i. 0) example_robot;
       s = TeleopPeriodic example_io example_joystick s0;
       s' = mode_periodic example_io example_joystick kAutonomous (mode_init kAutonomous s)
   in waiting (net (rb_comms (RobotPeriodic example_io True (\<lambda>i. 0) s'))) ''motorcontrol'' =
     Some (sr_motorControl (io_serializers example_io) (fm_motorControl (rf_msgs (robotFailover s))))"
proof -
  let ?io = "example_io"
  let ?start = "RobotPeriodic ?io True (\<lambda>i. 0) example_robot"
  let ?s = "mode_periodic ?io example_joystick kTeleop ?start"
  have n0: "\<not> isExternalControl example_robot"
    by (simp add: isExternalControl_link Robot_new_def ExternalControlManager_init_def)
  have r: "robot_runs ?io example_robot [RunRobotPeriodic True (\<lambda>i. 0), RunModePeriodic kTeleop example_joystick] ?s"
    by (intro runs_cons[OF step_periodic] run_one step_mode_periodic)
  have a: "failoverActive ?s" "\<not> isExternalControl ?s"
    using RobotPeriodic_failover(2)[OF n0] n0 link_periodic
    by (simp_all add: mode_periodic_def TeleopPeriodic_def isExternalControl_def)
  have r': "robot_runs ?io ?s [RunModeInit kAutonomous, RunModePeriodic kAutonomous example_joystick]
      (mode_periodic ?io example_joystick kAutonomous (mode_init kAutonomous ?s))"
    by (intro runs_cons[OF step_mode_init] run_one step_mode_periodic)
  have "mode_periodic ?io example_joystick kTeleop ?start = TeleopPeriodic ?io example_joystick ?start" by (simp add: mode_periodic_def)
  with failover_stale_drive[OF r a r' _ _ example_fits, of True "\<lambda>i. 0"] show ?thesis
    by (simp add: Let_def speaks_def steers_def)
qed

theorem failover_teleop_loop_witness:
  "let w = \<lparr>IsDisabled = False, IsAutonomous = False, IsTeleop = True, IsTest = False\<rparr>;
       (it', s') = robot_loop example_io True (\<lambda>i. 0) example_joystick w (IterativeRobotBase_new, example_robot)
   in drive_stopped (rf_msgs (robotFailover s'))"
proof -
  let ?w = "\<lparr>IsDisabled = False, IsAutonomous = False, IsTeleop = True, IsTest = False\<rparr>"
  obtain it' s' where l: "robot_loop example_io True (\<lambda>i. 0) example_joystick ?w (IterativeRobotBase_new, example_robot) = (it', s')"
    by fastforce
  have n0: "\<not> isExternalControl example_robot"
    by (simp add: isExternalControl_link Robot_new_def ExternalControlManager_init_def)
  have "\<not> failoverActive example_robot" by (simp add: Robot_new_def)
  with failover_teleop_loop[OF runs_nil n0 _ _ _ example_fits l] l show ?thesis
    by (simp add: Let_def)
qed

section \<open>From the failover commands to the motors\<close>

lemma heartbeats_motors: "rb_motors ((ProcessHeartbeatTask_run ^^ n) s) =
    registry_run motor_register motor_processHeartbeat (replicate n Heartbeat) (rb_motors s)"
  by (induction n arbitrary: s) (simp_all add: ProcessHeartbeatTask_run_def funpow_swap1 registry_step_def)

lemma double_to_u16_master [simp]: "double_to_u16 (Finite 9) = Some 9" "double_to_u16 (Finite 11) = Some 11"
  by (simp_all add: double_to_u16_def trunc_real_def)

lemma failover_controls_legal:
  assumes "length ds = 4" "length ss = 4"
  shows "\<forall>m \<in> set (failover_controls ds ss). mv_control_mode m = Follower \<longrightarrow> double_to_u16 (mv_output_value m) \<noteq> None"
    and "i \<in> {1, 2, 3, 4, 5, 6, 7, 8, 9, 11, 13, 14} \<Longrightarrow>
      \<exists>m \<in> set (failover_controls ds ss). mv_key m = i \<and> mv_control_mode m \<noteq> Follower
        \<and> mv_controller_type m = TALON_FX"
proof -
  obtain a b c d where ds: "ds = [a, b, c, d]" using length4[OF assms(1)] by blast
  obtain e f g h where ss: "ss = [e, f, g, h]" using length4[OF assms(2)] by blast
  note controls = failover_controls_def arm_controls_def failover_control_def ds ss
  show "\<forall>m \<in> set (failover_controls ds ss). mv_control_mode m = Follower \<longrightarrow> double_to_u16 (mv_output_value m) \<noteq> None"
    by (simp add: controls)
  assume "i \<in> {1, 2, 3, 4, 5, 6, 7, 8, 9, 11, 13, 14}"
  then show "\<exists>m \<in> set (failover_controls ds ss). mv_key m = i \<and> mv_control_mode m \<noteq> Follower
        \<and> mv_controller_type m = TALON_FX"
    by (elim insertE emptyE) (simp_all add: controls mv_key_def)
qed

text \<open>The failover code keeps its motors alive: when the parser reads back the commands the
  serialiser wrote, a periodic call without the external controller followed by a run of
  the motor task ends without a fault, with every master motor of the robot that is configured
  registered, and it stays registered through the next 249 heartbeats.\<close>

theorem failover_keeps_motors:
  fixes attached :: bool and position :: "u16 \<Rightarrow> real"
  assumes "robot_runs io (Robot_new pn task timer) es s" and "\<not> isExternalControl s"
    and "failover_fits (io_serializers io)"
    and "io_parse_control io (sr_motorControl (io_serializers io)
          (fm_motorControl (rf_msgs (robotFailover (RobotPeriodic io attached position s)))))
        = Some (fm_motorControl (rf_msgs (robotFailover (RobotPeriodic io attached position s))))"
    and "i \<in> {1, 2, 3, 4, 5, 6, 7, 8, 9, 11, 13, 14}" and "sm_count (mMotorMsgs (motorConfigs (rb_motors s))) i"
    and "robot_motor_values io True now (RobotPeriodic io attached position s) = (r, s')"
  shows "r = None \<and> (motorExists i (rb_motors ((ProcessHeartbeatTask_run ^^ n) s')) \<longleftrightarrow> n < 250)"
proof -
  let ?s = "RobotPeriodic io attached position s"
  have "robot_ok s" by (rule robot_ok_runs[OF assms(1) robot_ok_new])
  then have ok: "robot_ok s" "robot_ok ?s" by (auto intro: robot_ok_periodic)
  note p = periodic_publishes[OF ok(1) assms(2,3), of attached position]
  obtain ds ss where l: "length ds = 4" "length ss = 4" "drive_commands ?s = failover_controls ds ss"
  proof (rule layout_controls)
    show "layout_ok (rf_msgs (robotFailover ?s))" using ok(2) by (simp add: robot_ok_def failover_ok_def)
  qed
  have w: "fst (getMessage ''motorcontrol'' (net (rb_comms ?s))) =
      Some (sr_motorControl (io_serializers io) (failover_controls ds ss))"
    using p l(3) by (simp add: getMessage_result)
  obtain n1 where g: "getMessage ''motorcontrol'' (net (rb_comms ?s)) =
      (Some (sr_motorControl (io_serializers io) (failover_controls ds ss)), n1)"
    using w by (cases "getMessage ''motorcontrol'' (net (rb_comms ?s))") simp
  obtain r1 mgr1 calls1 where a: "apply_motor_values (io_currentMode io) (io_canOf io) (failover_controls ds ss)
      (rb_motors ?s) (rb_talons ?s) = (r1, mgr1, calls1)" using prod_cases3 by blast
  have r1: "r1 = None"
    using motor_values_no_fault[OF failover_controls_legal(1)[OF l(1,2)],
        of "io_currentMode io" "io_canOf io" "rb_motors ?s" "rb_talons ?s"] a by simp
  obtain m where m: "m \<in> set (failover_controls ds ss)" "mv_key m = i" "mv_control_mode m \<noteq> Follower"
    "mv_controller_type m = TALON_FX"
    using failover_controls_legal(2)[OF l(1,2) assms(5)] by blast
  have "i < 64" using assms(5) by auto
  have mok: "motor_ok (rb_motors ?s)" using ok(2) by (simp add: robot_ok_def)
  have alive: "motorExists i mgr1" "sm_get (mRegisteredMotorHeartbeatList mgr1) i = Some kMaxHeartbeatTicks"
    using motor_values_reload[OF mok a[unfolded r1] m(1,3)] m(2,4) assms(6) \<open>i < 64\<close>
    by (simp_all add: RobotPeriodic_frame)
  have run: "r = None" "rb_motors s' = mgr1"
    using assms(7) g a r1 l(3) assms(4)
    by (auto simp: robot_motor_values_def motor_values_run_def Let_def)
  have beat: "rb_motors ((ProcessHeartbeatTask_run ^^ n) s') =
      registry_run motor_register motor_processHeartbeat (replicate n Heartbeat) mgr1" for n
    using heartbeats_motors[of n s'] run(2) by simp
  have "motor_ok mgr1" using apply_motor_values_frame[OF mok a] by blast
  then have "motorExists i (registry_run motor_register motor_processHeartbeat (replicate n Heartbeat) mgr1)
      \<longleftrightarrow> beats (replicate n Heartbeat :: motor_request registry_op list) < kMaxHeartbeatTicks"
    by (rule motors.silent_lifetime[OF _ alive])
      (simp_all add: kMaxHeartbeatTicks_def silent_def list_all_iff)
  then show ?thesis using run(1) by (simp add: beat beats_def kMaxHeartbeatTicks_def)
qed

text \<open>A robot that was sent the configuration of motor 3 and then nothing.\<close>

definition configured :: "robot_io \<Rightarrow> robot \<Rightarrow> robot" where
  "configured io s = (ProcessHeartbeatTask_run ^^ 50)
     (snd (robot_motor_config io True (ReceiveMessagesTask_run [DishMessage ''motorconfig'' [1]] s)))"

lemma configured_robot:
  fixes pn :: proto_names and task :: solenoid_task and timer :: rt_timer
  assumes "io_parse_config io = (\<lambda>b. Some [[(ID_FD, PInt 3)]])"
  defines "s \<equiv> configured io (Robot_new pn task timer)"
  shows "\<exists>es. robot_runs io (Robot_new pn task timer) es s" "\<not> isExternalControl s" "\<not> failoverActive s"
    "rb_motors s = MotorManager_new\<lparr>motorConfigs := \<lparr>mMotorMsgs = [(3, [(ID_FD, PInt 3)])], mPrevMotorMsgs = []\<rparr>\<rparr>"
    "robotFailover s = RobotFailover_new pn"
proof -
  let ?r = "ReceiveMessagesTask_run [DishMessage ''motorconfig'' [1]] (Robot_new pn task timer)"
  let ?mgr = "MotorManager_new\<lparr>motorConfigs := \<lparr>mMotorMsgs = [(3, [(ID_FD, PInt 3)])], mPrevMotorMsgs = []\<rparr>\<rparr> :: pmsg motor_manager"
  obtain r s1 where c: "robot_motor_config io True ?r = (r, s1)" by fastforce
  have box: "getMessage ''motorconfig'' (net (rb_comms ?r)) = (Some [1], net (rb_comms (Robot_new pn task timer)))"
    by (simp add: receive_comms Robot_new_def store_received_def getMessage_def NetworkManager_new_def EAGAIN_def
        sm_count_def sm_get_def sm_erase_def)
  have s1: "r = None" "rb_motors s1 = ?mgr"
    using c box assms(1)
    by (auto simp: robot_motor_config_def motor_config_run_def Let_def Robot_new_def ReceiveMessagesTask_run_def
        motorExists_def MotorManager_new_def setMotorsConfigMsg_def msg_id_def getInt_def sm_count_def sm_get_def)
  have s: "s = (ProcessHeartbeatTask_run ^^ 50) s1" by (simp add: s_def configured_def c)
  have beat: "motor_processHeartbeat ?mgr = ?mgr"
    by (simp add: motor_processHeartbeat_def heartbeat_loop_def MotorManager_new_def sm_keys_def)
  have frame: "rb_motors ((ProcessHeartbeatTask_run ^^ n) s1) = ?mgr
      \<and> robotFailover ((ProcessHeartbeatTask_run ^^ n) s1) = robotFailover s1
      \<and> failoverActive ((ProcessHeartbeatTask_run ^^ n) s1) = failoverActive s1" for n
    by (induction n) (simp_all add: s1(2) ProcessHeartbeatTask_run_def beat)
  have run: "robot_runs io (Robot_new pn task timer) [RunReceive [DishMessage ''motorconfig'' [1]], RunMotorConfig True] s1"
    by (intro runs_cons[OF step_receive] run_one step_motor_config[OF c]) (simp add: s1(1))
  show "\<exists>es. robot_runs io (Robot_new pn task timer) es s"
    using runs_append[OF run runs_heartbeats] s by blast
  have "robot_ok s1" by (rule robot_ok_runs[OF run robot_ok_new])
  then have "0 \<le> link s1" "link s1 \<le> 50" by (simp_all add: robot_ok_def external_ok_def)
  with link_silent[OF runs_heartbeats[of io s1 50]] show "\<not> isExternalControl s"
    by (simp add: s isExternalControl_link list_ex_iff speaks_def)
  show "\<not> failoverActive s" "robotFailover s = RobotFailover_new pn" "rb_motors s = ?mgr"
    using frame robot_task_frames(2)[OF c] by (simp_all add: s ReceiveMessagesTask_run_def Robot_new_def)
qed

theorem failover_keeps_motors_witness:
  "let io = example_io\<lparr>io_parse_control := \<lambda>b. Some (failover_controls [0, 0, 0, 0] [0, 0, 0, 0]),
             io_parse_config := \<lambda>b. Some [[(ID_FD, PInt 3)]]\<rparr>;
       s = RobotPeriodic io True (\<lambda>i. 0) (configured io example_robot)
   in motorExists 3 (rb_motors ((ProcessHeartbeatTask_run ^^ 249) (snd (robot_motor_values io True 0 s))))"
proof -
  let ?io = "example_io\<lparr>io_parse_control := \<lambda>b. Some (failover_controls [0, 0, 0, 0] [0, 0, 0, 0]),
             io_parse_config := \<lambda>b. Some [[(ID_FD, PInt 3)]]\<rparr>"
  let ?s = "configured ?io example_robot"
  have fits: "failover_fits (io_serializers ?io)"
    using example_fits by simp
  have "io_parse_config ?io = (\<lambda>b. Some [[(ID_FD, PInt 3)]])" by simp
  note conf = configured_robot[OF this, of example_names example_task "RTTimer_new 0"]
  obtain es where run: "robot_runs ?io example_robot es ?s" using conf(1) by blast
  obtain r' s' where v: "robot_motor_values ?io True 0 (RobotPeriodic ?io True (\<lambda>i. 0) ?s) = (r', s')" by fastforce
  have "failover_entered (\<lambda>i. 0) ?s = RobotFailoverInit (\<lambda>i. 0) (rb_motors ?s) (RobotFailover_new example_names)"
    using conf(3,5) by (simp add: failover_entered_def)
  moreover have "fm_motorControl (rf_msgs (RobotFailoverInit (\<lambda>i. 0) (rb_motors ?s) (RobotFailover_new example_names)))
      = failover_controls [0, 0, 0, 0] [0, 0, 0, 0]"
    using set_drive_values(2)[OF _ _ failover_new_ok(3), of "[0, 0, 0, 0]" example_names] failover_new_ok(1)[of example_names]
    by (simp add: RobotFailoverInit_def swerve_init_def Let_def STEERING_IDS_def conf(4) motorExists_def
        MotorManager_new_def sm_count_def sm_get_def failover_ok_def pointers_ok_def)
  moreover have "robot_ok ?s" by (rule robot_ok_runs[OF run robot_ok_new])
  ultimately have "drive_commands (RobotPeriodic ?io True (\<lambda>i. 0) ?s) = failover_controls [0, 0, 0, 0] [0, 0, 0, 0]"
    using periodic_publishes(2)[OF _ conf(2) fits] by simp
  moreover have "sm_count (mMotorMsgs (motorConfigs (rb_motors ?s))) 3"
    by (simp add: conf(4) sm_count_def sm_get_def)
  ultimately show ?thesis
    using failover_keeps_motors[OF run conf(2) fits _ _ _ v, of 3 249] v by (simp add: Let_def)
qed

end
