(* ===== verification/CAN_Device.thy ===== *)
theory CAN_Device
  imports CK_Prelude
begin

text \<open>
  \<open>utils/drivers/CKCANDevice\<close>, \<open>CKCANPacket\<close> and \<open>CKCANServer\<close>: the
  addressing of the team's own CAN devices, the packets sent to them, and the queue a
  thread of its own writes to the bus. The C++ \<open>int\<close> arguments are 32-bit words. Writing a packet
  appends it, with the status \<open>WritePacketNoError\<close> answers, to the log of the server; what the n-th
  write answers is the parameter \<open>status\<close>.
\<close>

section \<open>Addresses\<close>

record can_device =
  mDeviceID :: u32
  mDeviceType :: u32
  mManufacturerType :: u32

definition CKCANDevice_new :: "u32 \<Rightarrow> u32 \<Rightarrow> u32 \<Rightarrow> can_device" where
  "CKCANDevice_new deviceID deviceType manufacturerType =
     \<lparr>mDeviceID = deviceID, mDeviceType = deviceType, mManufacturerType = manufacturerType\<rparr>"

definition getDeviceIDBase :: "can_device \<Rightarrow> u32" where
  "getDeviceIDBase d = (push_bit 24 (mDeviceType d) AND 0x1F000000)
     OR (push_bit 16 (mManufacturerType d) AND 0x00FF0000) OR (mDeviceID d AND 0x0000003F)"

definition getAPIID :: "u32 \<Rightarrow> u32 \<Rightarrow> u32" where
  "getAPIID apiClass apiIndex = (push_bit 4 apiClass AND 0x3F0) OR (apiIndex AND 0x00F)"

definition getDeviceID :: "can_device \<Rightarrow> u32 \<Rightarrow> u32" where
  "getDeviceID d apiID = getDeviceIDBase d OR (push_bit 6 apiID AND 0x000003C0)"

text \<open>The masks as blocks of bits.\<close>

lemma mask_blocks:
  "(0x1F000000 :: u32) = push_bit 24 (mask 5)" "(0x00FF0000 :: u32) = push_bit 16 (mask 8)"
  "(0x0000003F :: u32) = mask 6" "(0x3F0 :: u32) = push_bit 4 (mask 6)" "(0x00F :: u32) = mask 4"
  "(0x000003C0 :: u32) = push_bit 6 (mask 4)" "(0xFF :: u32) = mask 8"
  by (simp_all add: mask_eq_exp_minus_1 push_bit_eq_mult)

text \<open>A device address carries its four parts: from the 29-bit identifier of a packet the device
  type, the manufacturer, the low four bits of the API id and the device number are read back, each
  reduced to the width of its field.\<close>

theorem can_address_roundtrip:
  "drop_bit 24 (getDeviceID d apiID) = take_bit 5 (mDeviceType d)
   \<and> drop_bit 16 (getDeviceID d apiID) AND 0xFF = take_bit 8 (mManufacturerType d)
   \<and> drop_bit 6 (getDeviceID d apiID) AND 0x00F = take_bit 4 apiID
   \<and> getDeviceID d apiID AND 0x3F = take_bit 6 (mDeviceID d)"
  unfolding getDeviceID_def getDeviceIDBase_def mask_blocks
  by (intro conjI; rule bit_word_eqI) (auto simp: bit_simps)

text \<open>The API class never reaches the identifier: \<open>getAPIID\<close> puts it above the four bits of the
  index and \<open>getDeviceID\<close> keeps only those four, so commands of two classes with the same index
  (setting the colour, the first Morse packet) share one identifier.\<close>

theorem can_device_id_drops_class:
  "getDeviceID d (getAPIID c i) = getDeviceID d (getAPIID c' i)"
  unfolding getDeviceID_def getAPIID_def mask_blocks
  by (rule bit_word_eqI) (auto simp: bit_simps)

section \<open>Packets and the server\<close>

record can_packet =
  canDev :: can_device
  apiID :: u32
  pk_data :: bytes

text \<open>\<open>can_locked\<close>: the send thread holds the mutex; \<open>can_writes\<close>: the packets the thread has tried to write,
  with the status of each write. Zero is success.\<close>

record can_server =
  mPacketList :: "can_packet list"
  can_locked :: bool
  can_writes :: "(can_packet \<times> int) list"

definition CKCANServer_new :: can_server where
  "CKCANServer_new = \<lparr>mPacketList = [], can_locked = False, can_writes = []\<rparr>"

definition on_bus :: "can_server \<Rightarrow> can_packet list" where
  "on_bus s = map fst (filter (\<lambda>w. snd w = 0) (can_writes s))"

definition sendPacket :: "can_packet \<Rightarrow> can_server \<Rightarrow> bool \<times> can_server" where
  "sendPacket p s =
     (let lockAcquired = \<not> can_locked s
      in (lockAcquired, if lockAcquired then s\<lparr>mPacketList := mPacketList s @ [p]\<rparr> else s))"

text \<open>The loop over the packets: each pass writes the front and erases the element at the iterator,
  which is the front again, whatever status the write answered. Taking the front of an empty payload
  is undefined behaviour.\<close>

fun can_write_all ::
  "(nat \<Rightarrow> int) \<Rightarrow> can_packet list \<Rightarrow> (can_packet \<times> int) list \<Rightarrow> fault + (can_packet \<times> int) list" where
  "can_write_all status [] writes = Inr writes"
| "can_write_all status (p # ps) writes =
     (if pk_data p = [] then Inl UndefinedBehaviour
      else can_write_all status ps (writes @ [(p, status (length writes))]))"

text \<open>One pass of \<open>runCANSendThread\<close> up to the rate control, which it enters with the lock held, and
  the end of the pass.\<close>

definition can_thread_pass :: "(nat \<Rightarrow> int) \<Rightarrow> can_server \<Rightarrow> fault + can_server" where
  "can_thread_pass status s =
     (case can_write_all status (mPacketList s) (can_writes s) of
        Inl f \<Rightarrow> Inl f
      | Inr writes \<Rightarrow> Inr (s\<lparr>can_locked := True, mPacketList := [], can_writes := writes\<rparr>))"

definition can_thread_release :: "can_server \<Rightarrow> can_server" where
  "can_thread_release s = s\<lparr>can_locked := False\<rparr>"

datatype can_event = SendPacket can_packet | ThreadPass | ThreadRelease

inductive can_step :: "(nat \<Rightarrow> int) \<Rightarrow> can_server \<Rightarrow> can_event \<Rightarrow> bool \<Rightarrow> can_server \<Rightarrow> bool" for status where
  can_send: "sendPacket p s = (accepted, s') \<Longrightarrow> can_step status s (SendPacket p) accepted s'"
| can_pass: "\<not> can_locked s \<Longrightarrow> can_thread_pass status s = Inr s' \<Longrightarrow> can_step status s ThreadPass True s'"
| can_release: "can_locked s \<Longrightarrow> can_step status s ThreadRelease True (can_thread_release s)"

text \<open>A run, with the packets that were accepted.\<close>

inductive can_runs ::
  "(nat \<Rightarrow> int) \<Rightarrow> can_server \<Rightarrow> can_event list \<Rightarrow> can_packet list \<Rightarrow> can_server \<Rightarrow> bool" for status where
  can_nil: "can_runs status s [] [] s"
| can_snoc: "can_runs status s es ps s' \<Longrightarrow> can_step status s' e ok s'' \<Longrightarrow>
    can_runs status s (es @ [e]) (ps @ (case e of SendPacket p \<Rightarrow> if ok then [p] else [] | _ \<Rightarrow> [])) s''"

lemma can_write_all_appends:
  assumes "can_write_all status ps writes = Inr writes'"
  shows "map fst writes' = map fst writes @ ps"
    and "map snd writes = map status [0..<length writes] \<Longrightarrow> map snd writes' = map status [0..<length writes']"
proof -
  have "map fst writes' = map fst writes @ ps \<and>
    (map snd writes = map status [0..<length writes] \<longrightarrow> map snd writes' = map status [0..<length writes'])"
    using assms
  proof (induction ps arbitrary: writes)
    case (Cons p ps)
    then have "can_write_all status ps (writes @ [(p, status (length writes))]) = Inr writes'" by (simp split: if_splits)
    from Cons.IH[OF this] show ?case by simp
  qed simp
  then show "map fst writes' = map fst writes @ ps"
    "map snd writes = map status [0..<length writes] \<Longrightarrow> map snd writes' = map status [0..<length writes']" by simp_all
qed

text \<open>The writes made are the accepted packets, in order and once each, with the statuses in order.\<close>

lemma can_runs_state:
  assumes "can_runs status s es ps s'" and "map snd (can_writes s) = map status [0..<length (can_writes s)]"
    and "can_locked s \<longrightarrow> mPacketList s = []"
  shows "map fst (can_writes s') @ mPacketList s' = map fst (can_writes s) @ mPacketList s @ ps
    \<and> map snd (can_writes s') = map status [0..<length (can_writes s')]
    \<and> (can_locked s' \<longrightarrow> mPacketList s' = [])"
  using assms
proof (induction rule: can_runs.induct)
  case (can_snoc s es ps s' e ok s'')
  note IH = can_snoc.IH[OF can_snoc.prems]
  from can_snoc(2) show ?case
  proof cases
    case (can_send p)
    with IH show ?thesis
      by (cases "can_locked s'") (auto simp: sendPacket_def Let_def simp flip: append_assoc)
  next
    case can_pass
    obtain w where w: "can_write_all status (mPacketList s') (can_writes s') = Inr w"
      "s'' = s'\<lparr>can_locked := True, mPacketList := [], can_writes := w\<rparr>"
      using can_pass by (auto simp: can_thread_pass_def split: sum.splits)
    show ?thesis using IH can_pass can_write_all_appends[OF w(1)] by (simp add: w(2) flip: append_assoc)
  next
    case can_release
    with IH show ?thesis by (auto simp: can_thread_release_def)
  qed
qed simp

text \<open>C36. Every packet the server accepts is written once, in the order of acceptance, and never again.
  Whatever sends and thread passes interleave, the writes made so far, followed by the packets still
  queued, are exactly the packets accepted; a write the driver refuses is not repeated, so what has
  reached the bus is a subsequence of them that leaves out every packet whose one write failed; and a
  server whose thread sleeps has nothing queued.\<close>

theorem can_server_fifo:
  assumes "can_runs status CKCANServer_new es ps s"
  shows "\<exists>n. map fst (can_writes s) = take n ps \<and> mPacketList s = drop n ps \<and> n \<le> length ps
    \<and> on_bus s = map (nth ps) (filter (\<lambda>k. status k = 0) [0..<n])
    \<and> (can_locked s \<longrightarrow> n = length ps)"
proof -
  have r: "map fst (can_writes s) @ mPacketList s = ps" "map snd (can_writes s) = map status [0..<length (can_writes s)]"
    "can_locked s \<longrightarrow> mPacketList s = []"
    using can_runs_state[OF assms] by (simp_all add: CKCANServer_new_def)
  let ?n = "length (can_writes s)"
  have n: "?n \<le> length ps" unfolding r(1)[symmetric] by simp
  have fst: "map fst (can_writes s) = take ?n ps" and rest: "mPacketList s = drop ?n ps"
    unfolding r(1)[symmetric] by simp_all
  have "can_writes s ! k = (ps ! k, status k)" if "k < ?n" for k
  proof -
    have "map fst (can_writes s) ! k = take ?n ps ! k" by (rule arg_cong[OF fst])
    moreover have "map snd (can_writes s) ! k = map status [0..<?n] ! k" by (rule arg_cong[OF r(2)])
    ultimately show ?thesis using that by (cases "can_writes s ! k") simp
  qed
  then have w: "can_writes s = map (\<lambda>k. (ps ! k, status k)) [0..<?n]" by (intro nth_equalityI) simp_all
  have "on_bus s = map fst (filter (\<lambda>w. snd w = 0) (map (\<lambda>k. (ps ! k, status k)) [0..<?n]))"
    unfolding on_bus_def by (rule arg_cong[OF w, of "\<lambda>ws. map fst (filter (\<lambda>w. snd w = 0) ws)"])
  also have "\<dots> = map (nth ps) (filter (\<lambda>k. status k = 0) [0..<?n])" by (simp add: filter_map comp_def)
  finally have "on_bus s = map (nth ps) (filter (\<lambda>k. status k = 0) [0..<?n])" .
  then show ?thesis using fst rest n r(3) by auto
qed

theorem can_server_fifo_witness:
  "let d = CKCANDevice_new 3 10 8; p = (\<lambda>b. \<lparr>canDev = d, apiID = 1, pk_data = [b]\<rparr>);
       status = (\<lambda>n. if n = 0 then -1 else 0)
   in \<exists>s. can_runs status CKCANServer_new [SendPacket (p 7), SendPacket (p 8), ThreadPass] [p 7, p 8] s
        \<and> mPacketList s = [] \<and> on_bus s = [p 8]"
proof -
  let ?p = "\<lambda>b. \<lparr>canDev = CKCANDevice_new 3 10 8, apiID = 1, pk_data = [b]\<rparr>"
  let ?status = "\<lambda>n :: nat. if n = 0 then -1 else 0 :: int"
  let ?q = "CKCANServer_new\<lparr>mPacketList := [?p 7]\<rparr>" and ?q2 = "CKCANServer_new\<lparr>mPacketList := [?p 7, ?p 8]\<rparr>"
  let ?s = "\<lparr>mPacketList = [], can_locked = True, can_writes = [(?p 7, -1), (?p 8, 0)]\<rparr>"
  have "can_runs ?status CKCANServer_new ([] @ [SendPacket (?p 7)]) ([] @ [?p 7]) ?q"
    using can_snoc[OF can_nil can_send[of "?p 7" CKCANServer_new True ?q]]
    by (simp add: sendPacket_def CKCANServer_new_def)
  from can_snoc[OF this can_send[of "?p 8" ?q True ?q2]]
  have "can_runs ?status CKCANServer_new [SendPacket (?p 7), SendPacket (?p 8)] [?p 7, ?p 8] ?q2"
    by (simp add: sendPacket_def CKCANServer_new_def)
  from can_snoc[OF this can_pass[of ?q2 ?status ?s]]
  have r: "can_runs ?status CKCANServer_new [SendPacket (?p 7), SendPacket (?p 8), ThreadPass] [?p 7, ?p 8] ?s"
    by (simp add: can_thread_pass_def CKCANServer_new_def)
  from can_server_fifo[OF r] obtain n where "mPacketList ?s = drop n [?p 7, ?p 8]" "can_locked ?s \<longrightarrow> n = length [?p 7, ?p 8]"
    "on_bus ?s = map (nth [?p 7, ?p 8]) (filter (\<lambda>k. ?status k = 0) [0..<n])" by blast
  then have "on_bus ?s = [?p 8]" by (simp add: upt_rec numeral_2_eq_2)
  with r show ?thesis unfolding Let_def by (intro exI[of _ ?s]) simp
qed

text \<open>The thread keeps the mutex through its rate control, and senders only try it: from the end of
  a pass to its release, which is nearly all the time, every packet is refused and lost.\<close>

theorem can_send_refused_while_sleeping:
  assumes "can_thread_pass status s = Inr s'"
  shows "sendPacket p s' = (False, s')"
  using assms by (auto simp: can_thread_pass_def sendPacket_def split: sum.splits)

theorem can_send_refused_while_sleeping_witness:
  "let s' = CKCANServer_new\<lparr>can_locked := True\<rparr>
   in sendPacket \<lparr>canDev = CKCANDevice_new 3 10 8, apiID = 1, pk_data = [7]\<rparr> s' = (False, s')"
  unfolding Let_def
  by (rule can_send_refused_while_sleeping[of "\<lambda>n. 0" CKCANServer_new])
    (simp add: can_thread_pass_def CKCANServer_new_def)

end
