(* ===== verification/LED_Controller.thy ===== *)
theory LED_Controller
  imports CAN_Device
begin

text \<open>
  \<open>utils/drivers/CKLEDController\<close>, \<open>RGBColor\<close> and \<open>utils/MorseCodeTranslator\<close>: the packets of the
  LED controller, the colours, and the translation of a text to Morse code. An operation takes the
  CAN server and returns it, with the errors it reports where it can report one.
\<close>

section \<open>Colours\<close>

record rgb_color =
  white :: u8
  red :: u8
  green :: u8
  blue :: u8

text \<open>The colour of a message: white, red, green, blue.\<close>

type_synonym proto_rgbw = "int \<times> int \<times> int \<times> int"

definition rgb_eq :: "rgb_color \<Rightarrow> rgb_color \<Rightarrow> bool" where
  "rgb_eq c other \<longleftrightarrow> white other = white c \<and> red other = red c \<and> green other = green c \<and> blue other = blue c"

definition rgb_eq_proto :: "rgb_color \<Rightarrow> proto_rgbw \<Rightarrow> bool" where
  "rgb_eq_proto c other =
     (case other of (w, r, g, b) \<Rightarrow>
        w = uint (white c) \<and> r = uint (red c) \<and> g = uint (green c) \<and> b = uint (blue c))"

definition rgb_assign :: "proto_rgbw \<Rightarrow> rgb_color" where
  "rgb_assign other =
     (case other of (w, r, g, b) \<Rightarrow>
        \<lparr>white = word_of_int w, red = word_of_int r, green = word_of_int g, blue = word_of_int b\<rparr>)"

text \<open>Assigning a colour message and comparing with it agree exactly when every component fits a
  byte; a component out of range is cut to eight bits and then compares as different.\<close>

theorem rgb_assign_roundtrip:
  "rgb_eq_proto (rgb_assign (w, r, g, b)) (w, r, g, b)
     \<longleftrightarrow> w \<in> {0..<256} \<and> r \<in> {0..<256} \<and> g \<in> {0..<256} \<and> b \<in> {0..<256}"
proof -
  have "x = uint (word_of_int x :: u8) \<longleftrightarrow> x \<in> {0..<256}" for x :: int
  proof
    assume x: "x = uint (word_of_int x :: u8)"
    have "uint (word_of_int x :: u8) < 2 ^ LENGTH(8)" by (rule unsigned_less)
    then show "x \<in> {0..<256}" using x uint_ge_0[of "word_of_int x :: u8"] by auto
  next
    assume "x \<in> {0..<256}"
    then show "x = uint (word_of_int x :: u8)" by (simp add: uint_word_of_int)
  qed
  then show ?thesis by (auto simp: rgb_eq_proto_def rgb_assign_def)
qed

section \<open>Commands\<close>

datatype APIClass = IDLE_CLASS | OFF_CLASS | FIXED_ON_CLASS | BLINK_CLASS | COMM_LOSS_CLASS
  | COMM_RESTORED_CLASS | MORSE_CLASS | DRIVER_SIGNAL_CLASS | ENDGAME_CLASS | FADE_CLASS

definition api_class :: "APIClass \<Rightarrow> u32" where
  "api_class c = (case c of IDLE_CLASS \<Rightarrow> 0 | OFF_CLASS \<Rightarrow> 1 | FIXED_ON_CLASS \<Rightarrow> 2 | BLINK_CLASS \<Rightarrow> 3
     | COMM_LOSS_CLASS \<Rightarrow> 4 | COMM_RESTORED_CLASS \<Rightarrow> 5 | MORSE_CLASS \<Rightarrow> 6 | DRIVER_SIGNAL_CLASS \<Rightarrow> 7
     | ENDGAME_CLASS \<Rightarrow> 8 | FADE_CLASS \<Rightarrow> 9)"

datatype APIIndex = DEFAULT_INDEX | SET_COLOR | SET_BRIGHTNESS | SET_BLINK | SET_DEFAULT_STATE | FLOAT_PIXEL

definition api_index :: "APIIndex \<Rightarrow> u32" where
  "api_index i = (case i of DEFAULT_INDEX \<Rightarrow> 0 | SET_COLOR \<Rightarrow> 1 | SET_BRIGHTNESS \<Rightarrow> 2 | SET_BLINK \<Rightarrow> 3
     | SET_DEFAULT_STATE \<Rightarrow> 4 | FLOAT_PIXEL \<Rightarrow> 5)"

datatype LEDState = STATE_OFF | STATE_FIXED_ON | STATE_BLINK | STATE_MORSE | STATE_FADE

definition led_state_code :: "LEDState \<Rightarrow> u8" where
  "led_state_code s = (case s of STATE_OFF \<Rightarrow> 0 | STATE_FIXED_ON \<Rightarrow> 1 | STATE_BLINK \<Rightarrow> 2
     | STATE_MORSE \<Rightarrow> 3 | STATE_FADE \<Rightarrow> 4)"

text \<open>The constructor, with the HAL's numbers for an IO breakout and for team use.\<close>

definition CKLEDController_new :: "u32 \<Rightarrow> can_device" where
  "CKLEDController_new deviceID = CKCANDevice_new deviceID 10 8"

definition led_send :: "can_device \<Rightarrow> u32 \<Rightarrow> bytes \<Rightarrow> can_server \<Rightarrow> can_server" where
  "led_send d api buf s = snd (sendPacket \<lparr>canDev = d, apiID = api, pk_data = buf\<rparr> s)"

definition led_setOn :: "can_device \<Rightarrow> can_server \<Rightarrow> can_server" where
  "led_setOn d = led_send d (getAPIID (api_class FIXED_ON_CLASS) (api_index DEFAULT_INDEX)) [0]"

definition led_setOff :: "can_device \<Rightarrow> can_server \<Rightarrow> can_server" where
  "led_setOff d = led_send d (getAPIID (api_class OFF_CLASS) (api_index DEFAULT_INDEX)) [0]"

definition led_setBlink :: "can_device \<Rightarrow> can_server \<Rightarrow> can_server" where
  "led_setBlink d = led_send d (getAPIID (api_class BLINK_CLASS) (api_index DEFAULT_INDEX)) [0]"

definition led_setCommLoss :: "can_device \<Rightarrow> can_server \<Rightarrow> can_server" where
  "led_setCommLoss d = led_send d (getAPIID (api_class COMM_LOSS_CLASS) (api_index DEFAULT_INDEX)) [0]"

definition led_setCommRestored :: "can_device \<Rightarrow> can_server \<Rightarrow> can_server" where
  "led_setCommRestored d = led_send d (getAPIID (api_class COMM_RESTORED_CLASS) (api_index DEFAULT_INDEX)) [0]"

definition led_setFade :: "can_device \<Rightarrow> can_server \<Rightarrow> can_server" where
  "led_setFade d = led_send d (getAPIID (api_class FADE_CLASS) (api_index DEFAULT_INDEX)) [0]"

text \<open>The two low bytes of a C++ \<open>int\<close>, the lower first.\<close>

definition low_bytes :: "u32 \<Rightarrow> bytes" where
  "low_bytes x = [ucast (x AND 0xFF), ucast (drop_bit 8 x AND 0xFF)]"

definition led_setFloatPixel :: "can_device \<Rightarrow> rgb_color \<Rightarrow> u32 \<Rightarrow> u32 \<Rightarrow> can_server \<Rightarrow> can_server" where
  "led_setFloatPixel d c pixelCount pixelRepeatSpacing =
     led_send d (getAPIID (api_class FIXED_ON_CLASS) (api_index FLOAT_PIXEL))
       ([white c, red c, green c, blue c] @ low_bytes pixelCount @ low_bytes pixelRepeatSpacing)"

definition led_setColor :: "can_device \<Rightarrow> rgb_color \<Rightarrow> can_server \<Rightarrow> can_server" where
  "led_setColor d c = led_send d (getAPIID (api_class IDLE_CLASS) (api_index SET_COLOR))
     [white c, red c, green c, blue c]"

definition led_setBrightness :: "can_device \<Rightarrow> u32 \<Rightarrow> can_server \<Rightarrow> can_server" where
  "led_setBrightness d brightness =
     led_send d (getAPIID (api_class IDLE_CLASS) (api_index SET_BRIGHTNESS)) [ucast brightness]"

definition led_setDefaultState :: "can_device \<Rightarrow> LEDState \<Rightarrow> can_server \<Rightarrow> can_server" where
  "led_setDefaultState d st =
     led_send d (getAPIID (api_class IDLE_CLASS) (api_index SET_DEFAULT_STATE)) [led_state_code st]"

definition led_configureBlink :: "can_device \<Rightarrow> u32 \<Rightarrow> u32 \<Rightarrow> can_server \<Rightarrow> can_server" where
  "led_configureBlink d blinkCount blinkRateMs =
     led_send d (getAPIID (api_class IDLE_CLASS) (api_index SET_BLINK))
       (low_bytes blinkRateMs @ [ucast (blinkCount AND 0xFF)])"

section \<open>Morse messages\<close>

definition char_byte :: "char \<Rightarrow> u8" where
  "char_byte c = word_of_nat (of_char c)"

definition byte_char :: "u8 \<Rightarrow> char" where
  "byte_char b = char_of (unat b)"

text \<open>\<open>std::isspace\<close> in the C locale.\<close>

definition isspace :: "char \<Rightarrow> bool" where
  "isspace c \<longleftrightarrow> (of_char c :: nat) \<in> {9, 10, 11, 12, 13, 32}"

definition MAX_MORSE_STRING_SIZE :: nat where
  "MAX_MORSE_STRING_SIZE = 32"

text \<open>The loop: up to eight characters leave the front of the message per packet, four packets at most.\<close>

function morse_loop :: "can_device \<Rightarrow> nat \<Rightarrow> string \<Rightarrow> can_server \<Rightarrow> can_server" where
  "morse_loop d msgCounter msg s =
     (if length msg > 0 \<and> msgCounter < 4 then
        (let msgLength = (if length msg \<ge> 8 then 8 else length msg);
             buf = map char_byte (take msgLength msg)
         in morse_loop d (msgCounter + 1) (drop msgLength msg)
              (led_send d (getAPIID (api_class MORSE_CLASS) (of_nat (msgCounter + 1))) buf s))
      else s)"
  by pat_completeness auto

termination by (relation "measure (\<lambda>(d, n, msg, s). 4 - n)") auto

declare morse_loop.simps [simp del]

definition led_setMorse :: "can_device \<Rightarrow> string \<Rightarrow> can_server \<Rightarrow> string list \<times> can_server" where
  "led_setMorse d msg s =
     (if msg = [] \<or> list_all isspace msg then ([''Morse code message is empty or whitespace!''], s)
      else if length msg > MAX_MORSE_STRING_SIZE then ([''Morse code message size is too long!''], s)
      else ([], morse_loop d 0 msg s))"

lemma byte_char_byte [simp]: "byte_char (char_byte c) = c"
proof -
  have "(of_char c :: nat) < 256" by (rule nat_of_char_less_256)
  then have "unat (word_of_nat (of_char c) :: u8) = of_char c" by (simp add: unsigned_of_nat take_bit_nat_eq_self_iff)
  then show ?thesis by (simp add: byte_char_def char_byte_def)
qed

lemma byte_char_comp [simp]: "byte_char \<circ> char_byte = id"
  by (rule ext) simp

text \<open>The packets the loop queues on a server whose mutex is free.\<close>

fun morse_chunks :: "nat \<Rightarrow> string \<Rightarrow> (u32 \<times> bytes) list" where
  "morse_chunks 0 msg = []"
| "morse_chunks (Suc n) msg =
     (if msg = [] then [] else (of_nat (4 - n), map char_byte (take 8 msg)) # morse_chunks n (drop 8 msg))"

definition morse_packet :: "can_device \<Rightarrow> u32 \<times> bytes \<Rightarrow> can_packet" where
  "morse_packet d c = \<lparr>canDev = d, apiID = getAPIID (api_class MORSE_CLASS) (fst c), pk_data = snd c\<rparr>"

lemma led_send_free: "\<not> can_locked s \<Longrightarrow>
    led_send d api buf s = s\<lparr>mPacketList := mPacketList s @ [\<lparr>canDev = d, apiID = api, pk_data = buf\<rparr>]\<rparr>"
  by (simp add: led_send_def sendPacket_def)

lemma morse_loop_free:
  assumes "\<not> can_locked s" and "n \<le> 4"
  shows "morse_loop d (4 - n) msg s = s\<lparr>mPacketList := mPacketList s @ map (morse_packet d) (morse_chunks n msg)\<rparr>"
  using assms
proof (induction n arbitrary: msg s)
  case 0
  then show ?case by (simp add: morse_loop.simps)
next
  case (Suc n)
  let ?buf = "map char_byte (take 8 msg)"
  let ?s = "s\<lparr>mPacketList := mPacketList s @ [morse_packet d (of_nat (4 - n), ?buf)]\<rparr>"
  have c: "4 - Suc n + 1 = 4 - n" "4 - Suc n < 4" using Suc.prems by auto
  have m: "take (if length msg \<ge> 8 then 8 else length msg) msg = take 8 msg"
    "drop (if length msg \<ge> 8 then 8 else length msg) msg = drop 8 msg" by auto
  show ?case
  proof (cases "msg = []")
    case True
    then show ?thesis by (simp add: morse_loop.simps)
  next
    case False
    then have "morse_loop d (4 - Suc n) msg s = morse_loop d (4 - n) (drop 8 msg) ?s"
      by (subst morse_loop.simps)
        (simp only: c m Let_def length_greater_0_conv led_send_free[OF Suc.prems(1)] morse_packet_def
          fst_conv snd_conv simp_thms if_True not_False_eq_True)
    also have "\<dots> = ?s\<lparr>mPacketList := mPacketList ?s @ map (morse_packet d) (morse_chunks n (drop 8 msg))\<rparr>"
      using Suc.IH[of ?s] Suc.prems by simp
    finally show ?thesis using False by simp
  qed
qed

lemma morse_chunks_concat:
  "length msg \<le> 8 * n \<Longrightarrow> concat (map snd (morse_chunks n msg)) = map char_byte msg"
proof (induction n arbitrary: msg)
  case (Suc n)
  then show ?case by (simp flip: map_append)
qed simp

lemma morse_chunks_shape:
  "n \<le> 4 \<Longrightarrow> length (morse_chunks n msg) \<le> n
   \<and> (\<forall>c \<in> set (morse_chunks n msg). snd c \<noteq> [] \<and> length (snd c) \<le> 8)
   \<and> map fst (morse_chunks n msg) = map of_nat (take (length (morse_chunks n msg)) [5 - n..<5])"
proof (induction n arbitrary: msg)
  case (Suc n)
  then have "[5 - Suc n..<5] = (4 - n) # [5 - n..<5]"
    using upt_conv_Cons[of "4 - n" 5] Suc_diff_le[of n 4] by (simp del: upt_Suc)
  then show ?case using Suc by auto
qed simp

text \<open>C26. A legal Morse message is sent whole. While the send thread does not hold the mutex, a message of
  at most 32 characters that is not blank is queued as at most four packets of the controller, each of
  one to eight bytes, with the Morse API ids 1, 2, ... in order, and the payloads concatenated read back
  as the message.\<close>

theorem led_morse_roundtrip:
  assumes "\<not> can_locked s" and "\<not> list_all isspace msg" and "length msg \<le> 32"
  shows "\<exists>cs. led_setMorse d msg s = ([], s\<lparr>mPacketList := mPacketList s @ map (morse_packet d) cs\<rparr>)
    \<and> concat (map (map byte_char \<circ> pk_data) (map (morse_packet d) cs)) = msg
    \<and> (\<forall>c \<in> set cs. snd c \<noteq> [] \<and> length (snd c) \<le> 8)
    \<and> map fst cs = take (length cs) [1, 2, 3, 4]"
proof (intro exI conjI)
  let ?cs = "morse_chunks 4 msg"
  have "led_setMorse d msg s = ([], morse_loop d (4 - 4) msg s)"
    using assms by (auto simp: led_setMorse_def MAX_MORSE_STRING_SIZE_def)
  then show "led_setMorse d msg s = ([], s\<lparr>mPacketList := mPacketList s @ map (morse_packet d) ?cs\<rparr>)"
    using morse_loop_free[OF assms(1), of 4] by simp
  have "concat (map (map byte_char \<circ> pk_data) (map (morse_packet d) ?cs))
      = map byte_char (concat (map snd ?cs))"
    by (simp add: map_concat morse_packet_def comp_def)
  also have "\<dots> = msg" using morse_chunks_concat[of msg 4] assms(3) by simp
  finally show "concat (map (map byte_char \<circ> pk_data) (map (morse_packet d) ?cs)) = msg" .
  show "\<forall>c \<in> set ?cs. snd c \<noteq> [] \<and> length (snd c) \<le> 8"
    using morse_chunks_shape[of 4 msg] by blast
  have "map of_nat [1..<5] = [1, 2, 3, 4 :: u32]" by (simp add: upt_rec)
  then show "map fst ?cs = take (length ?cs) [1, 2, 3, 4]"
    using morse_chunks_shape[of 4 msg] by (simp flip: take_map)
qed

theorem led_morse_roundtrip_witness:
  "\<exists>cs. led_setMorse (CKLEDController_new 3) ''SOS WE LOST COMMS'' CKCANServer_new
       = ([], CKCANServer_new\<lparr>mPacketList := mPacketList CKCANServer_new @ map (morse_packet (CKLEDController_new 3)) cs\<rparr>)
    \<and> concat (map (map byte_char \<circ> pk_data) (map (morse_packet (CKLEDController_new 3)) cs)) = ''SOS WE LOST COMMS''
    \<and> (\<forall>c \<in> set cs. snd c \<noteq> [] \<and> length (snd c) \<le> 8)
    \<and> map fst cs = take (length cs) [1, 2, 3, 4]"
  by (rule led_morse_roundtrip) (simp_all add: CKCANServer_new_def isspace_def)

text \<open>An illegal message reports one error and queues nothing.\<close>

lemma led_setMorse_rejects:
  "list_all isspace msg \<Longrightarrow> led_setMorse d msg s = ([''Morse code message is empty or whitespace!''], s)"
  "\<not> list_all isspace msg \<Longrightarrow> length msg > 32
     \<Longrightarrow> led_setMorse d msg s = ([''Morse code message size is too long!''], s)"
  by (auto simp: led_setMorse_def MAX_MORSE_STRING_SIZE_def)

section \<open>Blinking and the floating pixel\<close>

text \<open>What the receiver reads back of two bytes, the lower first.\<close>

definition join_bytes :: "bytes \<Rightarrow> u32" where
  "join_bytes bs = ucast (bs ! 0) OR push_bit 8 (ucast (bs ! 1))"

lemma join_low_bytes: "join_bytes (low_bytes x) = take_bit 16 x"
  unfolding join_bytes_def low_bytes_def
  by (rule bit_word_eqI) (auto simp: bit_simps mask_blocks)

lemma low_bytes_length [simp]: "length (low_bytes x) = 2"
  by (simp add: low_bytes_def)

text \<open>The blink packet carries the period modulo 65536 in its first two bytes and the count modulo
  256 in the third: a period of 65536 ms or a count of 256 reads back as zero.\<close>

theorem led_blink_roundtrip:
  assumes "\<not> can_locked s"
  shows "\<exists>p. led_configureBlink d blinkCount blinkRateMs s = s\<lparr>mPacketList := mPacketList s @ [p]\<rparr>
    \<and> length (pk_data p) = 3 \<and> join_bytes (take 2 (pk_data p)) = take_bit 16 blinkRateMs
    \<and> (ucast (pk_data p ! 2) :: u32) = take_bit 8 blinkCount"
proof -
  have "(ucast (ucast (blinkCount AND 0xFF) :: u8) :: u32) = take_bit 8 blinkCount"
    by (rule bit_word_eqI) (auto simp: bit_simps mask_blocks)
  then show ?thesis
    using assms
    by (intro exI[where x = "\<lparr>canDev = d, apiID = getAPIID (api_class IDLE_CLASS) (api_index SET_BLINK),
          pk_data = low_bytes blinkRateMs @ [ucast (blinkCount AND 0xFF)]\<rparr>"])
      (simp add: led_configureBlink_def led_send_free join_low_bytes nth_append)
qed

theorem led_blink_roundtrip_witness:
  "\<exists>p. led_configureBlink (CKLEDController_new 3) 5 1000 CKCANServer_new
      = CKCANServer_new\<lparr>mPacketList := mPacketList CKCANServer_new @ [p]\<rparr>
    \<and> length (pk_data p) = 3 \<and> join_bytes (take 2 (pk_data p)) = take_bit 16 1000
    \<and> (ucast (pk_data p ! 2) :: u32) = take_bit 8 5"
  by (rule led_blink_roundtrip) (simp add: CKCANServer_new_def)

section \<open>The Morse translation\<close>

definition morse_character_chart :: "(char \<times> string) list" where
  "morse_character_chart =
    [
     (CHR ''A'', ''.-''), (CHR ''B'', ''-...''), (CHR ''C'', ''-.-.''), (CHR ''D'', ''-..''), (CHR ''E'', ''.''),
     (CHR ''F'', ''..-.''), (CHR ''G'', ''--.''), (CHR ''H'', ''....''), (CHR ''I'', ''..''), (CHR ''J'', ''.---''),
     (CHR ''K'', ''-.-''), (CHR ''L'', ''.-..''), (CHR ''M'', ''--''), (CHR ''N'', ''-.''), (CHR ''O'', ''---''),
     (CHR ''P'', ''.--.''), (CHR ''Q'', ''--.-''), (CHR ''R'', ''.-.''), (CHR ''S'', ''...''), (CHR ''T'', ''-''),
     (CHR ''U'', ''..-''), (CHR ''V'', ''...-''), (CHR ''W'', ''.--''), (CHR ''X'', ''-..-''), (CHR ''Y'', ''-.--''),
     (CHR ''Z'', ''--..''), (CHR ''0'', ''-----''), (CHR ''1'', ''.----''), (CHR ''2'', ''..---''), (CHR ''3'', ''...--''),
     (CHR ''4'', ''....-''), (CHR ''5'', ''.....''), (CHR ''6'', ''-....''), (CHR ''7'', ''--...''), (CHR ''8'', ''---..''),
     (CHR ''9'', ''----.''), (CHR ''.'', ''.-.-.-''), (CHR '','', ''--..--''), (CHR ''?'', ''..--..''), (CHR 0x27, ''.----.''),
     (CHR ''!'', ''-.-.--''), (CHR ''/'', ''-..-.''), (CHR ''('', ''-.--.''), (CHR '')'', ''-.--.-''), (CHR ''&'', ''.-...''),
     (CHR '':'', ''---...''), (CHR '';'', ''-.-.-.''), (CHR ''='', ''-...-''), (CHR ''+'', ''.-.-.''), (CHR ''-'', ''-....-''),
     (CHR ''_'', ''..--.-''), (CHR 0x22, ''.-..-.''), (CHR ''$'', ''...-..-''), (CHR ''@'', ''.--.-.''), (CHR '' '', ''|'')]"

text \<open>\<open>getTranslatedMsg\<close> appends to the queue of its caller; a character without an entry is skipped.\<close>

fun getTranslatedMsg :: "string \<Rightarrow> string list \<Rightarrow> string list" where
  "getTranslatedMsg [] queue = queue"
| "getTranslatedMsg (c # cs) queue =
     getTranslatedMsg cs (case map_of morse_character_chart c of Some code \<Rightarrow> queue @ [code] | None \<Rightarrow> queue)"

text \<open>The reading of a code, by the chart.\<close>

definition morse_decode :: "string \<Rightarrow> char option" where
  "morse_decode code = map_of (map prod.swap morse_character_chart) code"

definition morse_known :: "char \<Rightarrow> bool" where
  "morse_known c \<longleftrightarrow> map_of morse_character_chart c \<noteq> None"

lemma morse_chart_codes_distinct: "distinct (map snd morse_character_chart)"
  by (simp add: morse_character_chart_def)

lemma morse_decode_code:
  assumes "map_of morse_character_chart c = Some code"
  shows "morse_decode code = Some c"
proof -
  have "(code, c) \<in> set (map prod.swap morse_character_chart)"
    using map_of_SomeD[OF assms] by force
  moreover have "distinct (map fst (map prod.swap morse_character_chart))"
    using morse_chart_codes_distinct by (simp add: comp_def)
  ultimately show ?thesis unfolding morse_decode_def by (rule map_of_is_SomeI[rotated])
qed

lemma getTranslatedMsg_append: "getTranslatedMsg msg queue = queue @ getTranslatedMsg msg []"
proof (induction msg arbitrary: queue)
  case (Cons c cs)
  show ?case
    by (cases "map_of morse_character_chart c") (simp_all add: Cons[of "queue @ _"] Cons[of "[_]"] Cons[of queue])
qed simp

text \<open>The translation loses nothing but the characters the chart does not know: every code of the
  translated message decodes, and the decoded characters are the known characters of the message in
  their order.\<close>

theorem morse_translation_roundtrip:
  "map morse_decode (getTranslatedMsg msg []) = map Some (filter morse_known msg)"
proof (induction msg)
  case (Cons c cs)
  then show ?case
    by (cases "map_of morse_character_chart c")
      (simp_all add: morse_known_def morse_decode_code getTranslatedMsg_append[of cs "[_]"])
qed simp

end
