(* ===== verification/Drivetrain_Failover.thy ===== *)
theory Drivetrain_Failover
  imports Failover_Subsystems Drive_Helper Value_Ramper
begin

text \<open>
  \<open>failover/subsystems/DrivetrainFailover\<close>: the tank drivetrain, the alternative to the swerve
  drivetrain \<open>RobotFailover\<close> creates. A run takes the joystick and the FPGA timestamps the two rampers
  read. The joystick pointer is a member of a static object and so null at the start.
\<close>

section \<open>State and constructor\<close>

record drivetrain_failover =
  dt_mJoystick :: bool
  dt_live :: nat
  mLeftMasterConfig :: nat
  mLeftFollowerConfig :: nat
  mRightMasterConfig :: nat
  mRightFollowerConfig :: nat
  mLeftMaster :: nat
  mLeftFollower :: nat
  mRightMaster :: nat
  mRightFollower :: nat
  mDriveHelper :: drive_helper
  mLeftValueRamper :: value_ramper
  mRightValueRamper :: value_ramper

definition LEFT_MASTER_MOTOR_ID :: int where "LEFT_MASTER_MOTOR_ID = 1"
definition LEFT_FOLLOWER_MOTOR_ID :: int where "LEFT_FOLLOWER_MOTOR_ID = 2"
definition RIGHT_MASTER_MOTOR_ID :: int where "RIGHT_MASTER_MOTOR_ID = 4"
definition RIGHT_FOLLOWER_MOTOR_ID :: int where "RIGHT_FOLLOWER_MOTOR_ID = 5"
definition TANK_JOYSTICK_DEADBAND :: real where "TANK_JOYSTICK_DEADBAND = 12 / 100"
definition DRIVE_ACCEL_RAMP :: real where "DRIVE_ACCEL_RAMP = 1 / 2"
definition DRIVE_DECEL_RAMP :: real where "DRIVE_DECEL_RAMP = 1 / 5"
definition DRIVE_ZERO_VAL :: real where "DRIVE_ZERO_VAL = 0"
definition DRIVE_MAX_VAL :: real where "DRIVE_MAX_VAL = 1"

lemmas tank_constants =
  LEFT_MASTER_MOTOR_ID_def LEFT_FOLLOWER_MOTOR_ID_def RIGHT_MASTER_MOTOR_ID_def
  RIGHT_FOLLOWER_MOTOR_ID_def TANK_JOYSTICK_DEADBAND_def DRIVE_ACCEL_RAMP_def DRIVE_DECEL_RAMP_def
  DRIVE_ZERO_VAL_def DRIVE_MAX_VAL_def

text \<open>The two blocks the constructor repeats for each of the four motors.\<close>

definition tank_config ::
  "proto_names \<Rightarrow> int \<Rightarrow> string \<Rightarrow> string \<Rightarrow> failover_messages \<Rightarrow> nat \<times> failover_messages" where
  "tank_config pn devId md invert fm =
     (let (p, fm) = addMotorConfig fm
      in (p, on_config p (set_fields
            [(ID_FD, PInt devId),
             (CONTROLLER_MODE_FD, PInt (pn_enum pn md)),
             (INVERT_TYPE_FD, PInt (pn_enum pn invert)),
             (CONTROLLER_TYPE_FD, PInt (pn_enum pn ''ControllerType_TALON_FX'')),
             (NEUTRAL_MODE_FD, PInt (pn_enum pn ''NeutralMode_Coast'')),
             (VOLTAGE_COMPENSATION_SATURATION_FD, PNum 12),
             (VOLTAGE_COMPENSATION_ENABLED_FD, PBool True),
             (OPEN_LOOP_RAMP_FD, PNum (15 / 100)),
             (FORWARD_LIMIT_SWITCH_SOURCE_FD, PInt (pn_enum pn ''LimitSwitchSource_Deactivated'')),
             (FORWARD_LIMIT_SWITCH_NORMAL_FD, PInt (pn_enum pn ''LimitSwitchNormal_Disabled'')),
             (REVERSE_LIMIT_SWITCH_SOURCE_FD, PInt (pn_enum pn ''LimitSwitchSource_Deactivated'')),
             (REVERSE_LIMIT_SWITCH_NORMAL_FD, PInt (pn_enum pn ''LimitSwitchNormal_Disabled'')),
             (SUPPLY_CURRENT_LIMIT_CONFIG_FD, PMsg (pn_current_limit pn True 40 0 0)),
             (CAN_NETWORK_FD, PInt (pn_enum pn ''RIO_CANIVORE''))]) fm))"

definition tank_control :: "int \<Rightarrow> control_mode \<Rightarrow> real \<Rightarrow> failover_messages \<Rightarrow> nat \<times> failover_messages" where
  "tank_control devId md x fm =
     (let (p, fm) = addMotorControl fm
      in (p, on_control p (\<lambda>c. c\<lparr>mv_id := devId, mv_arbitrary_feedforward := Finite 0,
                mv_controller_type := TALON_FX, mv_control_mode := md,
                mv_output_value := Finite x\<rparr>) fm))"

definition DrivetrainFailover_new :: "proto_names \<Rightarrow> failover_messages \<Rightarrow> drivetrain_failover \<times> failover_messages" where
  "DrivetrainFailover_new pn fm =
     (let (lmc, fm) = tank_config pn LEFT_MASTER_MOTOR_ID ''ControllerMode_FAST_MASTER'' ''InvertType_None'' fm;
          (lm, fm) = tank_control LEFT_MASTER_MOTOR_ID PercentOutput 0 fm;
          (lfc, fm) = tank_config pn LEFT_FOLLOWER_MOTOR_ID ''ControllerMode_SLAVE'' ''InvertType_FollowMaster'' fm;
          (lf, fm) = tank_control LEFT_FOLLOWER_MOTOR_ID Follower (of_int LEFT_MASTER_MOTOR_ID) fm;
          (rmc, fm) = tank_config pn RIGHT_MASTER_MOTOR_ID ''ControllerMode_FAST_MASTER''
             ''InvertType_InvertMotorOutput'' fm;
          (rm, fm) = tank_control RIGHT_MASTER_MOTOR_ID PercentOutput 0 fm;
          (rfc, fm) = tank_config pn RIGHT_FOLLOWER_MOTOR_ID ''ControllerMode_SLAVE'' ''InvertType_FollowMaster'' fm;
          (rf, fm) = tank_control RIGHT_FOLLOWER_MOTOR_ID Follower (of_int RIGHT_MASTER_MOTOR_ID) fm;
          ramper = ValueRamper_new DRIVE_ACCEL_RAMP DRIVE_DECEL_RAMP DRIVE_ZERO_VAL DRIVE_MAX_VAL
      in (\<lparr>dt_mJoystick = False, dt_live = 0,
           mLeftMasterConfig = lmc, mLeftFollowerConfig = lfc,
           mRightMasterConfig = rmc, mRightFollowerConfig = rfc,
           mLeftMaster = lm, mLeftFollower = lf, mRightMaster = rm, mRightFollower = rf,
           mDriveHelper = DriveHelper_new, mLeftValueRamper = ramper, mRightValueRamper = ramper\<rparr>, fm))"

section \<open>Operations\<close>

definition drivetrain_init :: "drivetrain_failover \<Rightarrow> drivetrain_failover" where
  "drivetrain_init d = d\<lparr>dt_mJoystick := True, dt_live := dt_live d + 1\<rparr>"

definition drivetrain_stop :: "drivetrain_failover \<Rightarrow> failover_messages \<Rightarrow> failover_messages" where
  "drivetrain_stop d fm = set_output_value (mRightMaster d) 0 (set_output_value (mLeftMaster d) 0 fm)"

definition drivetrain_uninit :: "drivetrain_failover \<times> failover_messages \<Rightarrow> drivetrain_failover \<times> failover_messages" where
  "drivetrain_uninit st =
     (case st of (d, fm) \<Rightarrow>
       (if dt_mJoystick d then d\<lparr>dt_mJoystick := False, dt_live := dt_live d - 1\<rparr> else d,
        drivetrain_stop d fm))"

definition drivetrain_neutral :: "proto_names \<Rightarrow> string \<Rightarrow> drivetrain_failover \<Rightarrow> failover_messages \<Rightarrow> failover_messages" where
  "drivetrain_neutral pn v d fm =
     fold (\<lambda>p. on_config p (set_fields [(NEUTRAL_MODE_FD, PInt (pn_enum pn v))]))
       [mLeftMasterConfig d, mLeftFollowerConfig d, mRightMasterConfig d, mRightFollowerConfig d] fm"

definition drivetrain_run ::
  "proto_names \<Rightarrow> joystick \<Rightarrow> real \<Rightarrow> real \<Rightarrow> drivetrain_failover \<times> failover_messages
     \<Rightarrow> drivetrain_failover \<times> failover_messages" where
  "drivetrain_run pn js timeL timeR st =
     (case st of (d, fm) \<Rightarrow>
       (if dt_mJoystick d \<and> js_connected js then
          (let wheel = normalizeWithDeadband (js_axis js 0) TANK_JOYSTICK_DEADBAND;
               throttle = - normalizeWithDeadband (js_axis js 1) TANK_JOYSTICK_DEADBAND;
               (dv, dh) = drive_calculateOutput throttle wheel (js_button js 7) True (mDriveHelper d);
               (left, lr) = ramp_calculateOutput timeL (fst dv) (mLeftValueRamper d);
               (right, rr) = ramp_calculateOutput timeR (snd dv) (mRightValueRamper d);
               fm = set_output_value (mRightMaster d) right (set_output_value (mLeftMaster d) left fm);
               fm = drivetrain_neutral pn
                      (if js_button js 8 then ''NeutralMode_Brake'' else ''NeutralMode_Coast'') d fm
           in (d\<lparr>mDriveHelper := dh, mLeftValueRamper := lr, mRightValueRamper := rr\<rparr>, fm))
        else (d, drivetrain_stop d fm)))"

text \<open>What the robot may call, in any order.\<close>

datatype drive_event = DriveInit | DriveUninit | DriveRun joystick real real

fun drivetrain_event ::
  "proto_names \<Rightarrow> drive_event \<Rightarrow> drivetrain_failover \<times> failover_messages \<Rightarrow> drivetrain_failover \<times> failover_messages" where
  "drivetrain_event pn DriveInit st = (drivetrain_init (fst st), snd st)"
| "drivetrain_event pn DriveUninit st = drivetrain_uninit st"
| "drivetrain_event pn (DriveRun js timeL timeR) st = drivetrain_run pn js timeL timeR st"

fun drive_times :: "drive_event list \<Rightarrow> real list" where
  "drive_times [] = []"
| "drive_times (DriveRun js timeL timeR # es) = timeL # timeR # drive_times es"
| "drive_times (e # es) = drive_times es"

section \<open>Outputs\<close>

lemma tank_config_effect [simp]:
  "fst (tank_config pn i md invert fm) = length (fm_motorConfiguration fm)"
  "fm_motorControl (snd (tank_config pn i md invert fm)) = fm_motorControl fm"
  "length (fm_motorConfiguration (snd (tank_config pn i md invert fm))) = Suc (length (fm_motorConfiguration fm))"
  by (simp_all add: tank_config_def addMotorConfig_def)

lemma tank_control_effect [simp]:
  "fst (tank_control i md x fm) = length (fm_motorControl fm)"
  "fm_motorControl (snd (tank_control i md x fm)) = fm_motorControl fm @ [failover_control i md x]"
  "fm_motorConfiguration (snd (tank_control i md x fm)) = fm_motorConfiguration fm"
  by (simp_all add: tank_control_def addMotorControl_def failover_control_def)

lemma drivetrain_neutral_controls [simp]:
  "fm_motorControl (drivetrain_neutral pn v d fm) = fm_motorControl fm"
  by (simp add: drivetrain_neutral_def)

definition tank_controls :: "real \<Rightarrow> real \<Rightarrow> motor_control list" where
  "tank_controls l r = [failover_control 1 PercentOutput l, failover_control 2 Follower 1,
     failover_control 4 PercentOutput r, failover_control 5 Follower 4]"

lemma set_tank_left:
  "fm_motorControl fm = cs @ tank_controls l r \<Longrightarrow>
     fm_motorControl (set_output_value (length cs) x fm) = cs @ tank_controls x r"
  by (simp add: set_output_value_def tank_controls_def failover_control_def)

lemma set_tank_right:
  "fm_motorControl fm = cs @ tank_controls l r \<Longrightarrow>
     fm_motorControl (set_output_value (length cs + 2) x fm) = cs @ tank_controls l x"
  by (simp add: set_output_value_def tank_controls_def failover_control_def nth_append list_update_append)

text \<open>A ramper that has run until \<open>now\<close>.\<close>

definition ramper_until :: "real \<Rightarrow> value_ramper \<Rightarrow> bool" where
  "ramper_until now r \<longleftrightarrow> mAccelRampRate r = DRIVE_ACCEL_RAMP \<and> mDecelRampRate r = DRIVE_DECEL_RAMP
     \<and> mZeroValue r = DRIVE_ZERO_VAL \<and> mMaxValue r = DRIVE_MAX_VAL
     \<and> \<bar>mPrevValue r\<bar> \<le> 1 \<and> (mPrevTime r = 0 \<or> mPrevTime r \<le> now)"

lemma ramper_until_ok: "ramper_until now r \<Longrightarrow> ramper_ok r"
  by (simp add: ramper_until_def ramper_ok_def tank_constants)

lemma ramper_until_mono: "ramper_until now r \<Longrightarrow> now \<le> t \<Longrightarrow> ramper_until t r"
  by (auto simp: ramper_until_def)

lemma ramper_until_step:
  assumes "ramper_until t r" and "\<bar>x\<bar> \<le> 1" and "ramp_calculateOutput t x r = (out, r')"
  shows "ramper_until t r' \<and> \<bar>out\<bar> \<le> 1"
proof (cases "mPrevTime r = 0")
  case True
  then show ?thesis using assms by (auto simp: ramp_calculateOutput_def ramper_until_def)
next
  case False
  then have *: "mPrevTime r \<noteq> 0" "ramper_ok r" "mPrevTime r \<le> t" "\<bar>mPrevValue r\<bar> \<le> 1"
    using assms(1) ramper_until_ok[OF assms(1)] by (auto simp: ramper_until_def)
  from *(1-3) assms(3) have o: "out = mPrevValue r' \<and> \<bar>out\<bar> \<le> 1"
    by (rule ramp_output_cases) (use *(4) assms(2) in \<open>auto simp: min_def max_def abs_le_iff split: if_splits\<close>)
  then show ?thesis
    using ramp_keeps[OF assms(3)] assms(1) by (auto simp: ramper_until_def)
qed

definition tank_within :: "motor_control list \<Rightarrow> motor_control list \<Rightarrow> bool" where
  "tank_within cs ms \<longleftrightarrow> (\<exists>l r. ms = cs @ tank_controls l r \<and> \<bar>l\<bar> \<le> 1 \<and> \<bar>r\<bar> \<le> 1)"

lemma tank_within_intro [simp]: "\<bar>l\<bar> \<le> 1 \<Longrightarrow> \<bar>r\<bar> \<le> 1 \<Longrightarrow> tank_within cs (cs @ tank_controls l r)"
  by (auto simp: tank_within_def)

definition tank_ok :: "motor_control list \<Rightarrow> real \<Rightarrow> drivetrain_failover \<times> failover_messages \<Rightarrow> bool" where
  "tank_ok cs now st \<longleftrightarrow> (case st of (d, fm) \<Rightarrow>
     mLeftMaster d = length cs \<and> mRightMaster d = length cs + 2
     \<and> tank_within cs (fm_motorControl fm)
     \<and> ramper_until now (mLeftValueRamper d) \<and> ramper_until now (mRightValueRamper d)
     \<and> dt_live d \<ge> of_bool (dt_mJoystick d))"

lemma tank_ok_new: "tank_ok (fm_motorControl fm) now (DrivetrainFailover_new pn fm)"
proof -
  have "ramper_until now (ValueRamper_new DRIVE_ACCEL_RAMP DRIVE_DECEL_RAMP DRIVE_ZERO_VAL DRIVE_MAX_VAL)"
    by (simp add: ramper_until_def ValueRamper_new_def)
  moreover have "tank_within (fm_motorControl fm) (fm_motorControl fm @ tank_controls 0 0)" by simp
  ultimately show ?thesis
    by (simp add: tank_ok_def DrivetrainFailover_new_def split_beta Let_def tank_controls_def
        LEFT_MASTER_MOTOR_ID_def LEFT_FOLLOWER_MOTOR_ID_def RIGHT_MASTER_MOTOR_ID_def
        RIGHT_FOLLOWER_MOTOR_ID_def)
qed

lemma tank_ok_mono: "tank_ok cs now st \<Longrightarrow> now \<le> t \<Longrightarrow> tank_ok cs t st"
  by (auto simp: tank_ok_def intro: ramper_until_mono)

lemma drivetrain_stop_controls:
  assumes "tank_ok cs now (d, fm)"
  shows "fm_motorControl (drivetrain_stop d fm) = cs @ tank_controls 0 0"
  using assms set_tank_right[OF set_tank_left] by (auto simp: tank_ok_def tank_within_def drivetrain_stop_def)

lemma tank_ok_stop:
  assumes "tank_ok cs now (d, fm)"
  shows "tank_ok cs now (d, drivetrain_stop d fm)"
  using assms drivetrain_stop_controls[OF assms]
  by (simp add: tank_ok_def)

definition tank_mix :: "joystick \<Rightarrow> drive_helper \<Rightarrow> (real \<times> real) \<times> drive_helper" where
  "tank_mix js dh = drive_calculateOutput (- normalizeWithDeadband (js_axis js 1) TANK_JOYSTICK_DEADBAND)
     (normalizeWithDeadband (js_axis js 0) TANK_JOYSTICK_DEADBAND) (js_button js 7) True dh"

lemma tank_mix_bounded: "\<bar>fst (fst (tank_mix js dh))\<bar> \<le> 1" "\<bar>snd (fst (tank_mix js dh))\<bar> \<le> 1"
  using drive_output_bounded[OF surjective_pairing] by (auto simp: tank_mix_def)

text \<open>A connected run, given what the two rampers return.\<close>

lemma drivetrain_run_connected:
  assumes "dt_mJoystick d" and "js_connected js"
    and "ramp_calculateOutput timeL (fst (fst (tank_mix js (mDriveHelper d)))) (mLeftValueRamper d) = (left, lr)"
    and "ramp_calculateOutput timeR (snd (fst (tank_mix js (mDriveHelper d)))) (mRightValueRamper d) = (right, rr)"
    and "mLeftMaster d = length cs" and "mRightMaster d = length cs + 2"
    and "fm_motorControl fm = cs @ tank_controls x y"
  shows "fst (drivetrain_run pn js timeL timeR (d, fm)) =
      d\<lparr>mDriveHelper := snd (tank_mix js (mDriveHelper d)), mLeftValueRamper := lr, mRightValueRamper := rr\<rparr>"
    and "fm_motorControl (snd (drivetrain_run pn js timeL timeR (d, fm))) = cs @ tank_controls left right"
  using assms(1-4) set_tank_right[OF set_tank_left[OF assms(7)], of right left]
  unfolding drivetrain_run_def tank_mix_def Let_def split_beta prod.case
  by (simp_all add: assms(5,6))

lemma drivetrain_run_idle:
  "\<not> (dt_mJoystick d \<and> js_connected js) \<Longrightarrow>
     drivetrain_run pn js timeL timeR (d, fm) = (d, drivetrain_stop d fm)"
  by (simp only: drivetrain_run_def prod.case if_False)

lemma tank_ok_run:
  assumes ok: "tank_ok cs timeL (d, fm)" and t: "timeL \<le> timeR"
  shows "tank_ok cs timeR (drivetrain_run pn js timeL timeR (d, fm))"
proof (cases "dt_mJoystick d \<and> js_connected js")
  case False
  then show ?thesis
    by (simp only: drivetrain_run_idle[OF False] tank_ok_mono[OF tank_ok_stop[OF ok] t])
next
  case True
  let ?mix = "fst (tank_mix js (mDriveHelper d))"
  obtain left lr where l: "ramp_calculateOutput timeL (fst ?mix) (mLeftValueRamper d) = (left, lr)" by fastforce
  obtain right rr where r: "ramp_calculateOutput timeR (snd ?mix) (mRightValueRamper d) = (right, rr)" by fastforce
  have u: "ramper_until timeL (mLeftValueRamper d)" "ramper_until timeR (mRightValueRamper d)"
    using ok t by (auto simp: tank_ok_def intro: ramper_until_mono)
  have lr: "ramper_until timeR lr" "\<bar>left\<bar> \<le> 1" and rr: "ramper_until timeR rr" "\<bar>right\<bar> \<le> 1"
    using ramper_until_step[OF u(1) tank_mix_bounded(1) l] ramper_until_step[OF u(2) tank_mix_bounded(2) r] t
    by (auto intro: ramper_until_mono)
  obtain x y where p: "mLeftMaster d = length cs" "mRightMaster d = length cs + 2"
    and xy: "fm_motorControl fm = cs @ tank_controls x y" using ok by (auto simp: tank_ok_def tank_within_def)
  show ?thesis
    using drivetrain_run_connected[OF _ _ l r p xy, of pn] True ok lr rr
    by (auto simp: tank_ok_def split: prod.splits)
qed

lemma tank_ok_idle:
  assumes "tank_ok cs now (d, fm)"
  shows "tank_ok cs now (drivetrain_event pn DriveInit (d, fm))"
    "tank_ok cs now (drivetrain_event pn DriveUninit (d, fm))"
  using assms tank_ok_stop[OF assms]
  by (auto simp: tank_ok_def drivetrain_uninit_def drivetrain_init_def)

lemma tank_ok_events:
  assumes "tank_ok cs now st" and "sorted (now # drive_times es)"
  shows "tank_ok cs (last (now # drive_times es)) (fold (drivetrain_event pn) es st)"
  using assms
proof (induction es arbitrary: now st)
  case (Cons e es)
  obtain d fm where st: "st = (d, fm)" by (cases st)
  show ?case
  proof (cases e)
    case (DriveRun js timeL timeR)
    then have "tank_ok cs timeL st" "timeL \<le> timeR" "sorted (timeR # drive_times es)"
      using Cons.prems by (auto intro: tank_ok_mono)
    then show ?thesis using Cons.IH[OF tank_ok_run] DriveRun st by simp
  qed (use Cons st tank_ok_idle in \<open>auto simp del: drivetrain_event.simps\<close>)
qed simp

text \<open>C28. Whatever the robot and the driver do with the tank drivetrain, at nondecreasing timestamps, its
  four commands stay where they were created and in their modes, the masters' outputs stay within
  [-1, 1], the followers keep naming their masters, and no command of another subsystem changes.\<close>

theorem drivetrain_commands_bounded:
  assumes "sorted (drive_times es)"
    and "fold (drivetrain_event pn) es (DrivetrainFailover_new pn fm) = (d, fm')"
  shows "\<exists>l r. fm_motorControl fm' = fm_motorControl fm @
      [failover_control 1 PercentOutput l, failover_control 2 Follower 1,
       failover_control 4 PercentOutput r, failover_control 5 Follower 4]
    \<and> \<bar>l\<bar> \<le> 1 \<and> \<bar>r\<bar> \<le> 1"
proof -
  obtain now where "sorted (now # drive_times es)"
    using assms(1) by (cases "drive_times es") (auto intro: that[of 0] that[of "hd (drive_times es)"])
  from tank_ok_events[OF tank_ok_new this, of fm pn pn] assms(2) show ?thesis
    by (auto simp: tank_ok_def tank_within_def tank_controls_def)
qed

section \<open>Reconnection\<close>

lemma ramp_reaches:
  assumes u: "ramper_until t r" and "mPrevTime r \<noteq> 0" and "mPrevTime r + 1 \<le> t" and "\<bar>x\<bar> \<le> 1"
  shows "fst (ramp_calculateOutput t x r) = x"
proof -
  obtain out r' where o: "ramp_calculateOutput t x r = (out, r')" by fastforce
  have e: "mAccelRampRate r = DRIVE_ACCEL_RAMP" "mDecelRampRate r = DRIVE_DECEL_RAMP"
    "mZeroValue r = DRIVE_ZERO_VAL" "mMaxValue r = DRIVE_MAX_VAL"
    and s: "\<bar>mPrevValue r\<bar> \<le> 1" using u by (simp_all add: ramper_until_def)
  have f: "2 \<le> slow_step r (t - mPrevTime r)"
    using assms(3) by (simp add: slow_step_def ramp_step_def e tank_constants)
  have "mPrevTime r \<le> t" using assms(3) by simp
  from assms(2) ramper_until_ok[OF u] this o have "out = x"
    by (rule ramp_output_cases) (use assms(4) s f in \<open>auto simp: min_def max_def abs_le_iff split: if_splits\<close>)
  then show ?thesis using o by simp
qed

lemma sorted_from:
  fixes u :: real
  assumes "sorted ts" and "\<forall>t \<in> set ts. t \<le> u"
  shows "\<exists>now. sorted (now # ts) \<and> last (now # ts) \<le> u"
  using assms by (cases ts) (auto intro: exI[where x = u] exI[where x = "hd ts"])

lemma disconnected_runs:
  assumes "\<forall>e \<in> set es. \<exists>js a b. e = DriveRun js a b \<and> \<not> js_connected js"
  shows "fst (fold (drivetrain_event pn) es (d, fm)) = d"
  using assms
proof (induction es arbitrary: fm)
  case (Cons e es)
  then obtain js a b where "e = DriveRun js a b" "\<not> js_connected js" by auto
  then show ?case using Cons by (simp add: drivetrain_run_idle)
qed simp

text \<open>The ramps do not protect a reconnection. While the joystick is disconnected the outputs are
  set to 0 but the rampers are not called, so they keep the last value and time of the connected
  phase; when the joystick comes back a second or more after their last call, the first run commands
  exactly what the drive helper asks for, from standstill and without any ramp.\<close>

theorem drivetrain_reconnect_unramped:
  assumes "fold (drivetrain_event pn) before (DrivetrainFailover_new pn fm) = (d, fm1)"
    and "\<forall>e \<in> set gap. \<exists>js a b. e = DriveRun js a b \<and> \<not> js_connected js"
    and "sorted (drive_times before @ drive_times gap @ [timeL, timeR])"
    and "mPrevTime (mLeftValueRamper d) \<noteq> 0" and "mPrevTime (mRightValueRamper d) \<noteq> 0"
    and "mPrevTime (mLeftValueRamper d) + 1 \<le> timeL" and "mPrevTime (mRightValueRamper d) + 1 \<le> timeR"
    and "dt_mJoystick d" and "js_connected js"
    and "fold (drivetrain_event pn) (gap @ [DriveRun js timeL timeR]) (d, fm1) = (d', fm')"
  shows "fm_motorControl fm' = fm_motorControl fm @
      (let (l, r) = fst (drive_calculateOutput
             (- normalizeWithDeadband (js_axis js 1) (12 / 100))
             (normalizeWithDeadband (js_axis js 0) (12 / 100))
             (js_button js 7) True (mDriveHelper d))
       in [failover_control 1 PercentOutput l, failover_control 2 Follower 1,
           failover_control 4 PercentOutput r, failover_control 5 Follower 4])"
proof -
  let ?cs = "fm_motorControl fm"
  obtain fm2 where gap: "fold (drivetrain_event pn) gap (d, fm1) = (d, fm2)"
    using disconnected_runs[OF assms(2), of pn d fm1] by (metis prod.collapse)
  have times: "drive_times (before @ gap) = drive_times before @ drive_times gap"
    by (induction before rule: drive_times.induct) simp_all
  have runs: "fold (drivetrain_event pn) (before @ gap) (DrivetrainFailover_new pn fm) = (d, fm2)"
    using assms(1) gap by simp
  have "sorted (drive_times (before @ gap))" "\<forall>t \<in> set (drive_times (before @ gap)). t \<le> timeL"
    using assms(3) unfolding times by (auto simp: sorted_append)
  from sorted_from[OF this]
  obtain now where now: "sorted (now # drive_times (before @ gap))" "last (now # drive_times (before @ gap)) \<le> timeL"
    by blast
  have ok: "tank_ok ?cs timeL (d, fm2)"
    using tank_ok_mono[OF tank_ok_events[OF tank_ok_new now(1), of fm pn pn] now(2)] runs by simp
  have t: "timeL \<le> timeR" using assms(3) by (simp add: sorted_append)
  let ?mix = "fst (tank_mix js (mDriveHelper d))"
  have u: "ramper_until timeL (mLeftValueRamper d)" "ramper_until timeR (mRightValueRamper d)"
    using ok t by (auto simp: tank_ok_def intro: ramper_until_mono)
  obtain lr rr where
    l: "ramp_calculateOutput timeL (fst ?mix) (mLeftValueRamper d) = (fst ?mix, lr)" and
    r: "ramp_calculateOutput timeR (snd ?mix) (mRightValueRamper d) = (snd ?mix, rr)"
    using ramp_reaches[OF u(1) assms(4,6) tank_mix_bounded(1)] ramp_reaches[OF u(2) assms(5,7) tank_mix_bounded(2)]
    by (metis prod.collapse)
  obtain x y where p: "mLeftMaster d = length ?cs" "mRightMaster d = length ?cs + 2"
    and xy: "fm_motorControl fm2 = ?cs @ tank_controls x y" using ok by (auto simp: tank_ok_def tank_within_def)
  have "fm' = snd (drivetrain_run pn js timeL timeR (d, fm2))" using assms(10) gap by simp
  with drivetrain_run_connected(2)[OF assms(8,9) l r p xy, of pn] show ?thesis
    unfolding tank_mix_def by (simp add: tank_controls_def TANK_JOYSTICK_DEADBAND_def split_beta Let_def)
qed

section \<open>Concrete runs\<close>

theorem drivetrain_commands_bounded_witness:
  "\<exists>l r. fm_motorControl (snd (fold (drivetrain_event example_names)
        [DriveInit, DriveRun example_joystick 1 1, DriveRun example_joystick 2 2, DriveUninit]
        (DrivetrainFailover_new example_names FailoverMessageManager_new))) =
      fm_motorControl FailoverMessageManager_new @
      [failover_control 1 PercentOutput l, failover_control 2 Follower 1,
       failover_control 4 PercentOutput r, failover_control 5 Follower 4]
    \<and> \<bar>l\<bar> \<le> 1 \<and> \<bar>r\<bar> \<le> 1"
  by (rule drivetrain_commands_bounded[OF _ surjective_pairing]) simp

lemma first_run_times:
  assumes "fold (drivetrain_event pn) [DriveInit, DriveRun js 1 1] (DrivetrainFailover_new pn fm) = (d, fm1)"
    and "js_connected js"
  shows "mPrevTime (mLeftValueRamper d) = 1" "mPrevTime (mRightValueRamper d) = 1" "dt_mJoystick d"
  using assms
  by (auto simp: DrivetrainFailover_new_def drivetrain_init_def drivetrain_run_def Let_def split_beta
      ramp_calculateOutput_def ValueRamper_new_def)

theorem drivetrain_reconnect_unramped_witness:
  "let ev = drivetrain_event example_names;
       st = fold ev [DriveInit, DriveRun example_joystick 1 1]
              (DrivetrainFailover_new example_names FailoverMessageManager_new);
       st' = fold ev ([DriveRun (example_joystick\<lparr>js_connected := False\<rparr>) 2 2] @ [DriveRun example_joystick 3 3]) st
   in fm_motorControl (snd st') = fm_motorControl FailoverMessageManager_new @
      (let (l, r) = fst (drive_calculateOutput
             (- normalizeWithDeadband (js_axis example_joystick 1) (12 / 100))
             (normalizeWithDeadband (js_axis example_joystick 0) (12 / 100))
             (js_button example_joystick 7) True (mDriveHelper (fst st)))
       in [failover_control 1 PercentOutput l, failover_control 2 Follower 1,
           failover_control 4 PercentOutput r, failover_control 5 Follower 4])"
proof -
  let ?new = "DrivetrainFailover_new example_names FailoverMessageManager_new"
  let ?before = "[DriveInit, DriveRun example_joystick 1 1]"
  let ?gap = "[DriveRun (example_joystick\<lparr>js_connected := False\<rparr>) 2 2]"
  obtain d fm1 where b: "fold (drivetrain_event example_names) ?before ?new = (d, fm1)" by fastforce
  obtain d' fm' where g: "fold (drivetrain_event example_names) (?gap @ [DriveRun example_joystick 3 3]) (d, fm1) = (d', fm')"
    by fastforce
  have c: "js_connected example_joystick" by (simp add: example_joystick_def)
  note t = first_run_times[OF b c]
  show ?thesis
    unfolding Let_def[where s = "drivetrain_event example_names"] Let_def[where s = "fold _ ?before _"]
      Let_def[where s = "fold _ (_ @ _) _"] b g fst_conv snd_conv
    by (rule drivetrain_reconnect_unramped[OF b _ _ _ _ _ _ _ c g]) (use t in simp_all)
qed

end
