(* ===== verification/Sensor_Config.thy ===== *)
theory Sensor_Config
  imports Sensor_Managers Network_Manager Proto_Diff
begin

text \<open>
  \<open>tasks/ApplyIMUConfigTask\<close> and \<open>tasks/ApplyEncoderConfigTask\<close>: registering the sensors a message
  names and configuring those whose message differs from the last one applied. A message is a
  \<open>pmsg\<close> without default-valued fields, so that \<open>MessageDifferencer::Equivalent\<close> is equality; its
  accessors are parameters, as the message definitions are not part of the repository. What the two
  loops share is the locale \<open>config_step\<close>.
\<close>

section \<open>The IMU task\<close>

record imu_schema =
  is_id :: "pmsg \<Rightarrow> u16"
  is_imu_type :: "pmsg \<Rightarrow> imu_type"
  is_can_network :: "pmsg \<Rightarrow> can_interface"
  is_forward :: "pmsg \<Rightarrow> int"
  is_up :: "pmsg \<Rightarrow> int"

text \<open>The manager, the log of the sensor library, and the member of the task.\<close>

record imu_config_state =
  imu_mgr :: imu_manager
  imu_calls :: "sensor_call list"
  mPrevIMUMsg :: "(u16, pmsg) std_map"

definition configure_imu ::
  "imu_schema \<Rightarrow> (nat \<Rightarrow> error_code) \<Rightarrow> pmsg \<Rightarrow> u16 \<Rightarrow> ck_pigeon2 \<Rightarrow> imu_type \<Rightarrow> bool \<times> sensor_call list
     \<Rightarrow> ck_pigeon2 \<times> bool \<times> sensor_call list" where
  "configure_imu sch resp m i imu ty w =
     (let (ok, calls) = pigeon_configMountPose resp (is_forward sch m) (is_up sch m) (snd w)
      in (imu, fst w \<and> ok, calls))"

definition imu_config_step ::
  "imu_schema \<Rightarrow> (nat \<Rightarrow> error_code) \<Rightarrow> pmsg \<Rightarrow> imu_config_state \<Rightarrow> imu_config_state" where
  "imu_config_step sch resp m st =
     (let i = is_id sch m;
          (mgr, calls) = registerIMU resp (imu_calls st) i (is_imu_type sch m) (is_can_network sch m) (imu_mgr st);
          (prev, prevs) = sm_at [] i (mPrevIMUMsg st);
          (mgr, success, calls) =
            (if m \<noteq> prev then onIMU i (configure_imu sch resp m) (mgr, True, calls) else (mgr, True, calls))
      in \<lparr>imu_mgr = mgr, imu_calls = calls, mPrevIMUMsg = (if success then sm_put i m prevs else prevs)\<rparr>)"

definition imu_config_run ::
  "(bytes \<Rightarrow> pmsg list option) \<Rightarrow> imu_schema \<Rightarrow> (nat \<Rightarrow> error_code) \<Rightarrow> network \<Rightarrow> imu_config_state
     \<Rightarrow> network \<times> imu_config_state" where
  "imu_config_run parse sch resp n st =
     (case getMessage ''imuconfig'' n of
        (None, n1) \<Rightarrow> (n1, st)
      | (Some buf, n1) \<Rightarrow>
          (case parse buf of
             None \<Rightarrow> (n1, st)
           | Some ms \<Rightarrow> (n1, fold (imu_config_step sch resp) ms st)))"

section \<open>The encoder task\<close>

record encoder_schema =
  es_id :: "pmsg \<Rightarrow> u16"
  es_encoder_type :: "pmsg \<Rightarrow> encoder_type"
  es_can_network :: "pmsg \<Rightarrow> can_interface"
  es_sensor_source :: "pmsg \<Rightarrow> encoder_sensor_source"
  es_initialization_strategy :: "pmsg \<Rightarrow> int"
  es_magnetic_offset :: "pmsg \<Rightarrow> real"

record encoder_config_state =
  enc_mgr :: encoder_manager
  enc_calls :: "sensor_call list"
  mPrevEncoderMsg :: "(u16, pmsg) std_map"

text \<open>The answer of \<open>ConfigMagnetOffset\<close> is not looked at.\<close>

definition configure_encoder ::
  "encoder_schema \<Rightarrow> (nat \<Rightarrow> error_code) \<Rightarrow> pmsg \<Rightarrow> u16 \<Rightarrow> ck_cancoder \<Rightarrow> encoder_type \<Rightarrow> bool \<times> sensor_call list
     \<Rightarrow> ck_cancoder \<times> bool \<times> sensor_call list" where
  "configure_encoder sch resp m i encoder ty w =
     (let (ok1, encoder) = cancoder_configSensorSource (es_sensor_source sch m) encoder;
          success = (fst w \<and> ok1);
          (ok2, calls) = cancoder_configInitializationStrategy resp (es_initialization_strategy sch m) (snd w);
          success = (success \<and> ok2)
      in (encoder, success,
          case ty of
            CANCoder \<Rightarrow> snd (phoenix_call resp (ConfigMagnetOffset (es_magnetic_offset sch m)) calls)
          | OtherEncoderType _ \<Rightarrow> calls))"

definition encoder_config_step ::
  "encoder_schema \<Rightarrow> (nat \<Rightarrow> error_code) \<Rightarrow> pmsg \<Rightarrow> encoder_config_state \<Rightarrow> encoder_config_state" where
  "encoder_config_step sch resp m st =
     (let i = es_id sch m;
          mgr = registerEncoder i (es_encoder_type sch m) (es_can_network sch m) (enc_mgr st);
          (prev, prevs) = sm_at [] i (mPrevEncoderMsg st);
          (mgr, success, calls) =
            (if m \<noteq> prev then onEncoder i (configure_encoder sch resp m) (mgr, True, enc_calls st)
             else (mgr, True, enc_calls st))
      in \<lparr>enc_mgr = mgr, enc_calls = calls, mPrevEncoderMsg = (if success then sm_put i m prevs else prevs)\<rparr>)"

definition encoder_config_run ::
  "(bytes \<Rightarrow> pmsg list option) \<Rightarrow> encoder_schema \<Rightarrow> (nat \<Rightarrow> error_code) \<Rightarrow> network \<Rightarrow> encoder_config_state
     \<Rightarrow> network \<times> encoder_config_state" where
  "encoder_config_run parse sch resp n st =
     (case getMessage ''encoderconfig'' n of
        (None, n1) \<Rightarrow> (n1, st)
      | (Some buf, n1) \<Rightarrow>
          (case parse buf of
             None \<Rightarrow> (n1, st)
           | Some ms \<Rightarrow> (n1, fold (encoder_config_step sch resp) ms st)))"

section \<open>What the two tasks share\<close>

text \<open>
  \<open>apply_msg m s\<close> processes a message, \<open>remembered s k\<close> is the last message applied for a device,
  \<open>device s k\<close> the driver of it and \<open>log s\<close> the calls so far. A message that is remembered costs nothing.
\<close>

locale config_step =
  fixes apply_msg :: "pmsg \<Rightarrow> 's \<Rightarrow> 's"
    and key :: "pmsg \<Rightarrow> u16"
    and remembered :: "'s \<Rightarrow> u16 \<Rightarrow> pmsg"
    and device :: "'s \<Rightarrow> u16 \<Rightarrow> 'd option"
    and calls_of :: "'s \<Rightarrow> sensor_call list"
    and inv :: "'s \<Rightarrow> bool"
    and healthy :: "pmsg \<Rightarrow> bool"
  assumes inv_apply: "inv s \<Longrightarrow> inv (apply_msg m s)"
    and other_remembered: "inv s \<Longrightarrow> k \<noteq> key m \<Longrightarrow> remembered (apply_msg m s) k = remembered s k"
    and other_device: "inv s \<Longrightarrow> k \<noteq> key m \<Longrightarrow> device (apply_msg m s) k = device s k"
    and same_nothing: "inv s \<Longrightarrow> remembered s (key m) = m \<Longrightarrow> device s (key m) \<noteq> None \<Longrightarrow>
          calls_of (apply_msg m s) = calls_of s \<and> remembered (apply_msg m s) (key m) = m
          \<and> device (apply_msg m s) (key m) = device s (key m)"
    and healthy_applied: "inv s \<Longrightarrow> healthy m \<Longrightarrow>
          remembered (apply_msg m s) (key m) = m \<and> device (apply_msg m s) (key m) \<noteq> None"
begin

definition settled :: "pmsg list \<Rightarrow> 's \<Rightarrow> bool" where
  "settled ms s \<longleftrightarrow> (\<forall>m \<in> set ms. remembered s (key m) = m \<and> device s (key m) \<noteq> None)"

lemma run_inv: "inv s \<Longrightarrow> inv (fold apply_msg ms s)"
  by (induction ms arbitrary: s) (simp_all add: inv_apply)

lemma run_other:
  "inv s \<Longrightarrow> k \<notin> key ` set ms \<Longrightarrow>
     remembered (fold apply_msg ms s) k = remembered s k \<and> device (fold apply_msg ms s) k = device s k"
  by (induction ms arbitrary: s) (simp_all add: inv_apply other_remembered other_device)

lemma run_settles:
  assumes "inv s" and "\<forall>m \<in> set ms. healthy m" and "distinct (map key ms)"
  shows "settled ms (fold apply_msg ms s)"
  using assms
proof (induction ms arbitrary: s)
  case (Cons m ms)
  then have "key m \<notin> key ` set ms" "inv (apply_msg m s)" by (auto simp: inv_apply)
  then show ?case
    using Cons run_other[of "apply_msg m s" "key m" ms] healthy_applied[of s m] by (simp add: settled_def)
qed (simp add: settled_def)

lemma settled_step:
  assumes "inv s" and "settled ms s" and "m \<in> set ms"
  shows "settled ms (apply_msg m s) \<and> calls_of (apply_msg m s) = calls_of s
    \<and> device (apply_msg m s) k = device s k"
proof -
  have m: "calls_of (apply_msg m s) = calls_of s" "remembered (apply_msg m s) (key m) = m"
    "device (apply_msg m s) (key m) = device s (key m)"
    using same_nothing[OF assms(1), of m] assms by (auto simp: settled_def)
  have "remembered (apply_msg m s) (key m') = m' \<and> device (apply_msg m s) (key m') \<noteq> None" if "m' \<in> set ms" for m'
  proof (cases "key m' = key m")
    case True
    then have "m' = m" using that assms(2,3) unfolding settled_def by metis
    then show ?thesis using m assms(2,3) by (auto simp: settled_def)
  next
    case False
    then show ?thesis
      using that assms other_remembered[of s "key m'" m] other_device[of s "key m'" m] by (auto simp: settled_def)
  qed
  then show ?thesis using m other_device[OF assms(1), of k m] by (cases "k = key m") (auto simp: settled_def)
qed

lemma settled_quiet:
  assumes "inv s" and "settled ms s" and "set ms' \<subseteq> set ms"
  shows "calls_of (fold apply_msg ms' s) = calls_of s \<and> device (fold apply_msg ms' s) k = device s k"
  using assms
proof (induction ms' arbitrary: s)
  case (Cons m ms')
  then show ?case using settled_step[of s ms m] inv_apply[of s m] by auto
qed simp

text \<open>The contract: applying a message with healthy devices once is enough.\<close>

lemma applied_once:
  assumes "inv s" and "\<forall>m \<in> set ms. healthy m" and "distinct (map key ms)"
  shows "calls_of (fold apply_msg ms (fold apply_msg ms s)) = calls_of (fold apply_msg ms s)
    \<and> device (fold apply_msg ms (fold apply_msg ms s)) k = device (fold apply_msg ms s) k"
  using settled_quiet[OF run_inv[OF assms(1)] run_settles[OF assms]] by simp

end

section \<open>The two tasks as instances\<close>

definition remembered_msg :: "(u16, pmsg) std_map \<Rightarrow> u16 \<Rightarrow> pmsg" where
  "remembered_msg prevs k = (case sm_get prevs k of Some m \<Rightarrow> m | None \<Rightarrow> [])"

lemma sm_at_remembered: "fst (sm_at [] i prevs) = remembered_msg prevs i"
  by (simp add: sm_at_fst remembered_msg_def)

lemma remembered_simps [simp]:
  "sm_ok prevs \<Longrightarrow> remembered_msg (sm_put i m prevs) k = (if k = i then m else remembered_msg prevs k)"
  "sm_ok prevs \<Longrightarrow> remembered_msg (snd (sm_at [] i prevs)) k = remembered_msg prevs k"
  by (auto simp: remembered_msg_def sm_get_at sm_at_fst)

lemma sensor_retry_eq:
  "sensor_retry resp c calls =
     ((\<exists>i < 3. resp (length calls + i) = OK), calls @ replicate (attempts resp (length calls) 4) c)"
  by (simp add: sensor_retry_def phoenix_retry_outcome Let_def)

lemma sensor_retry_all_ok: "\<forall>n. resp n = OK \<Longrightarrow> fst (sensor_retry resp c calls)"
  by (auto simp: sensor_retry_eq intro: exI[where x = 0])

definition imu_config_ok :: "imu_config_state \<Rightarrow> bool" where
  "imu_config_ok st \<longleftrightarrow> imu_ok (imu_mgr st) \<and> sm_ok (mPrevIMUMsg st)"

lemma onIMU_eq:
  "onIMU i func (s, w) =
     (case sm_get (mRegisteredIMUList s) i of None \<Rightarrow> (s, w)
      | Some dev \<Rightarrow>
          (let ty = fst (sm_at PIGEON2 i (mRegisteredIMUTypeList s))
           in (s\<lparr>mRegisteredIMUList := sm_put i (fst (func i dev ty w)) (mRegisteredIMUList s),
                 mRegisteredIMUTypeList := snd (sm_at PIGEON2 i (mRegisteredIMUTypeList s))\<rparr>,
               snd (func i dev ty w))))"
  by (simp add: onIMU_def split_beta Let_def split: option.split)

lemma registerIMU_device:
  assumes "imu_ok s"
  shows "sm_get (mRegisteredIMUList (fst (registerIMU resp calls i t c s))) k =
     (if k = i \<and> \<not> imuExists i s \<and> t = PIGEON2
      then Some \<lparr>pg_deviceNumber = uint i, pg_canbus = getCANInterfaceName c, m_yaw_angle_offset = 0\<rparr>
      else sm_get (mRegisteredIMUList s) k)"
    and "imuExists i s \<Longrightarrow> snd (registerIMU resp calls i t c s) = calls"
  using imu_ok_maps[OF assms]
  by (auto simp: registerIMU_def imuExists_def CKPigeon2_new_def Let_def split: imu_type.split)

text \<open>Handing a registered IMU to the configuration changes no IMU and keeps the invariant.\<close>

lemma onIMU_configure:
  assumes "imu_ok s"
  shows "imu_ok (fst (onIMU i (configure_imu sch resp m) (s, w)))"
    and "sm_get (mRegisteredIMUList (fst (onIMU i (configure_imu sch resp m) (s, w)))) k = sm_get (mRegisteredIMUList s) k"
proof -
  note maps = imu_ok_maps[OF assms]
  show "sm_get (mRegisteredIMUList (fst (onIMU i (configure_imu sch resp m) (s, w)))) k = sm_get (mRegisteredIMUList s) k"
    using maps by (simp add: onIMU_eq configure_imu_def split_beta Let_def split: option.split)
  let ?s = "fst (onIMU i (configure_imu sch resp m) (s, w))"
  have "case sm_get (mRegisteredIMUHeartbeatList ?s) j of
       None \<Rightarrow> sm_get (mRegisteredIMUList ?s) j = None \<and> sm_get (mRegisteredIMUTypeList ?s) j = None
     | Some n \<Rightarrow> 1 \<le> n \<and> n \<le> kMaxHeartbeatTicks \<and> sm_get (mRegisteredIMUTypeList ?s) j \<noteq> None" for j
    using imu_ok_entry[OF assms, of j] imu_ok_entry[OF assms, of i] maps
    by (auto simp: onIMU_eq Let_def sm_get_at split: option.splits)
  moreover have "sm_ok (mRegisteredIMUList ?s) \<and> sm_ok (mRegisteredIMUTypeList ?s) \<and> sm_ok (mRegisteredIMUHeartbeatList ?s)"
    using maps by (auto simp: onIMU_eq Let_def split: option.splits)
  ultimately show "imu_ok ?s" unfolding imu_ok_def[of ?s] by blast
qed

definition imu_step_result ::
  "imu_schema \<Rightarrow> (nat \<Rightarrow> error_code) \<Rightarrow> pmsg \<Rightarrow> imu_config_state \<Rightarrow> imu_manager \<times> bool \<times> sensor_call list" where
  "imu_step_result sch resp m st =
     (let r = registerIMU resp (imu_calls st) (is_id sch m) (is_imu_type sch m) (is_can_network sch m) (imu_mgr st)
      in if m \<noteq> remembered_msg (mPrevIMUMsg st) (is_id sch m)
         then onIMU (is_id sch m) (configure_imu sch resp m) (fst r, True, snd r) else (fst r, True, snd r))"

lemma imu_config_step_eq:
  "imu_config_step sch resp m st =
     (let r = imu_step_result sch resp m st; prevs = snd (sm_at [] (is_id sch m) (mPrevIMUMsg st))
      in \<lparr>imu_mgr = fst r, imu_calls = snd (snd r),
          mPrevIMUMsg = (if fst (snd r) then sm_put (is_id sch m) m prevs else prevs)\<rparr>)"
  by (simp add: imu_config_step_def imu_step_result_def split_beta Let_def sm_at_remembered)

lemma imu_step_result_mgr:
  assumes "imu_ok (imu_mgr st)"
  shows "imu_ok (fst (imu_step_result sch resp m st))"
    and "sm_get (mRegisteredIMUList (fst (imu_step_result sch resp m st))) k =
      sm_get (mRegisteredIMUList (fst (registerIMU resp (imu_calls st) (is_id sch m) (is_imu_type sch m)
         (is_can_network sch m) (imu_mgr st)))) k"
  using imu_ok_register[OF assms] onIMU_configure by (simp_all add: imu_step_result_def Let_def)

interpretation imu_config: config_step
  "imu_config_step sch resp" "is_id sch" "\<lambda>st. remembered_msg (mPrevIMUMsg st)"
  "\<lambda>st. sm_get (mRegisteredIMUList (imu_mgr st))" imu_calls imu_config_ok
  "\<lambda>m. is_imu_type sch m = PIGEON2 \<and> (\<forall>n. resp n = OK)"
  for sch resp
proof unfold_locales
  fix st :: imu_config_state and m k
  assume ok: "imu_config_ok st"
  then have mgr: "imu_ok (imu_mgr st)" and prevs: "sm_ok (mPrevIMUMsg st)" by (simp_all add: imu_config_ok_def)
  note dev = imu_step_result_mgr(2)[OF mgr] registerIMU_device(1)[OF mgr]
  show "imu_config_ok (imu_config_step sch resp m st)"
    using imu_step_result_mgr(1)[OF mgr] prevs by (simp add: imu_config_ok_def imu_config_step_eq Let_def)
  show "k \<noteq> is_id sch m \<Longrightarrow> remembered_msg (mPrevIMUMsg (imu_config_step sch resp m st)) k
      = remembered_msg (mPrevIMUMsg st) k"
    using prevs by (simp add: imu_config_step_eq Let_def)
  show "k \<noteq> is_id sch m \<Longrightarrow> sm_get (mRegisteredIMUList (imu_mgr (imu_config_step sch resp m st))) k
      = sm_get (mRegisteredIMUList (imu_mgr st)) k"
    by (simp add: imu_config_step_eq Let_def dev)
  show "remembered_msg (mPrevIMUMsg st) (is_id sch m) = m \<Longrightarrow>
      sm_get (mRegisteredIMUList (imu_mgr st)) (is_id sch m) \<noteq> None \<Longrightarrow>
      imu_calls (imu_config_step sch resp m st) = imu_calls st
      \<and> remembered_msg (mPrevIMUMsg (imu_config_step sch resp m st)) (is_id sch m) = m
      \<and> sm_get (mRegisteredIMUList (imu_mgr (imu_config_step sch resp m st))) (is_id sch m)
         = sm_get (mRegisteredIMUList (imu_mgr st)) (is_id sch m)"
    using prevs registerIMU_device(2)[OF mgr]
    by (simp add: imu_config_step_eq Let_def dev imu_step_result_def imuExists_def sm_count_def)
  assume "is_imu_type sch m = PIGEON2 \<and> (\<forall>n. resp n = OK)"
  then have h: "is_imu_type sch m = PIGEON2" "\<forall>n. resp n = OK" by simp_all
  have "sm_get (mRegisteredIMUList (imu_mgr (imu_config_step sch resp m st))) (is_id sch m) \<noteq> None"
    using h by (simp add: imu_config_step_eq Let_def dev imuExists_def sm_count_def)
  moreover have "remembered_msg (mPrevIMUMsg (imu_config_step sch resp m st)) (is_id sch m) = m"
    using prevs sensor_retry_all_ok[OF h(2)]
    by (simp add: imu_config_step_eq Let_def imu_step_result_def onIMU_eq configure_imu_def
        pigeon_configMountPose_def split_beta split: option.split)
  ultimately show "remembered_msg (mPrevIMUMsg (imu_config_step sch resp m st)) (is_id sch m) = m
      \<and> sm_get (mRegisteredIMUList (imu_mgr (imu_config_step sch resp m st))) (is_id sch m) \<noteq> None"
    by simp
qed

section \<open>The encoder task as an instance\<close>

definition encoder_config_ok :: "encoder_config_state \<Rightarrow> bool" where
  "encoder_config_ok st \<longleftrightarrow> encoder_ok (enc_mgr st) \<and> sm_ok (mPrevEncoderMsg st)"

lemma onEncoder_eq:
  "onEncoder i func (s, w) =
     (case sm_get (mRegisteredEncoderList s) i of None \<Rightarrow> (s, w)
      | Some dev \<Rightarrow>
          (let ty = fst (sm_at CANCoder i (mRegisteredEncoderTypeList s))
           in (s\<lparr>mRegisteredEncoderList := sm_put i (fst (func i dev ty w)) (mRegisteredEncoderList s),
                 mRegisteredEncoderTypeList := snd (sm_at CANCoder i (mRegisteredEncoderTypeList s))\<rparr>,
               snd (func i dev ty w))))"
  by (simp add: onEncoder_def split_beta Let_def split: option.split)

lemma registerEncoder_device:
  assumes "encoder_ok s"
  shows "sm_get (mRegisteredEncoderList (registerEncoder i t c s)) k =
     (if k = i \<and> \<not> encoderExists i s \<and> t = CANCoder
      then Some (CKCANCoder_new (uint i) (getCANInterfaceName c))
      else sm_get (mRegisteredEncoderList s) k)"
    and "sm_get (mRegisteredEncoderTypeList (registerEncoder i t c s)) i = Some t"
  using encoder_ok_maps[OF assms]
  by (auto simp: registerEncoder_def encoderExists_def Let_def split: encoder_type.split)

lemma configure_encoder_eq:
  "configure_encoder sch resp m i encoder ty w =
     (let r = sensor_retry resp (ConfigSensorInitializationStrategy (es_initialization_strategy sch m)) (snd w)
      in (encoder\<lparr>m_sensor_source := es_sensor_source sch m\<rparr>, fst w \<and> fst r,
          case ty of CANCoder \<Rightarrow> snd r @ [ConfigMagnetOffset (es_magnetic_offset sch m)]
          | OtherEncoderType _ \<Rightarrow> snd r))"
  by (simp add: configure_encoder_def cancoder_configSensorSource_def cancoder_configInitializationStrategy_def
      phoenix_call_def split_beta Let_def split: encoder_type.split)

lemma onEncoder_configure:
  assumes "encoder_ok s"
  shows "encoder_ok (fst (onEncoder i (configure_encoder sch resp m) (s, w)))"
    and "sm_get (mRegisteredEncoderList (fst (onEncoder i (configure_encoder sch resp m) (s, w)))) k =
      (if k = i then map_option (\<lambda>d. d\<lparr>m_sensor_source := es_sensor_source sch m\<rparr>) (sm_get (mRegisteredEncoderList s) k)
       else sm_get (mRegisteredEncoderList s) k)"
proof -
  note maps = encoder_ok_maps[OF assms]
  show "sm_get (mRegisteredEncoderList (fst (onEncoder i (configure_encoder sch resp m) (s, w)))) k =
      (if k = i then map_option (\<lambda>d. d\<lparr>m_sensor_source := es_sensor_source sch m\<rparr>) (sm_get (mRegisteredEncoderList s) k)
       else sm_get (mRegisteredEncoderList s) k)"
    using maps by (simp add: onEncoder_eq configure_encoder_eq Let_def split: option.split)
  let ?s = "fst (onEncoder i (configure_encoder sch resp m) (s, w))"
  have "case sm_get (mRegisteredEncoderHeartbeatList ?s) j of
       None \<Rightarrow> sm_get (mRegisteredEncoderList ?s) j = None \<and> sm_get (mRegisteredEncoderTypeList ?s) j = None
     | Some n \<Rightarrow> 1 \<le> n \<and> n \<le> kMaxHeartbeatTicks \<and> sm_get (mRegisteredEncoderTypeList ?s) j \<noteq> None" for j
    using encoder_ok_entry[OF assms, of j] encoder_ok_entry[OF assms, of i] maps
    by (auto simp: onEncoder_eq Let_def sm_get_at split: option.splits)
  moreover have "sm_ok (mRegisteredEncoderList ?s) \<and> sm_ok (mRegisteredEncoderTypeList ?s)
      \<and> sm_ok (mRegisteredEncoderHeartbeatList ?s)"
    using maps by (auto simp: onEncoder_eq Let_def split: option.splits)
  ultimately show "encoder_ok ?s" unfolding encoder_ok_def[of ?s] by blast
qed

definition encoder_registered :: "encoder_schema \<Rightarrow> pmsg \<Rightarrow> encoder_config_state \<Rightarrow> encoder_manager" where
  "encoder_registered sch m st =
     registerEncoder (es_id sch m) (es_encoder_type sch m) (es_can_network sch m) (enc_mgr st)"

definition encoder_step_result ::
  "encoder_schema \<Rightarrow> (nat \<Rightarrow> error_code) \<Rightarrow> pmsg \<Rightarrow> encoder_config_state \<Rightarrow> encoder_manager \<times> bool \<times> sensor_call list" where
  "encoder_step_result sch resp m st =
     (if m \<noteq> remembered_msg (mPrevEncoderMsg st) (es_id sch m)
      then onEncoder (es_id sch m) (configure_encoder sch resp m) (encoder_registered sch m st, True, enc_calls st)
      else (encoder_registered sch m st, True, enc_calls st))"

lemma encoder_config_step_eq:
  "encoder_config_step sch resp m st =
     (let r = encoder_step_result sch resp m st; prevs = snd (sm_at [] (es_id sch m) (mPrevEncoderMsg st))
      in \<lparr>enc_mgr = fst r, enc_calls = snd (snd r),
          mPrevEncoderMsg = (if fst (snd r) then sm_put (es_id sch m) m prevs else prevs)\<rparr>)"
  by (simp add: encoder_config_step_def encoder_step_result_def encoder_registered_def split_beta Let_def
      sm_at_remembered)

lemma encoder_step_result_mgr:
  assumes "encoder_ok (enc_mgr st)"
  shows "encoder_ok (fst (encoder_step_result sch resp m st))"
    and "sm_get (mRegisteredEncoderList (fst (encoder_step_result sch resp m st))) k =
      (if k = es_id sch m \<and> m \<noteq> remembered_msg (mPrevEncoderMsg st) (es_id sch m)
       then map_option (\<lambda>d. d\<lparr>m_sensor_source := es_sensor_source sch m\<rparr>)
              (sm_get (mRegisteredEncoderList (encoder_registered sch m st)) k)
       else sm_get (mRegisteredEncoderList (encoder_registered sch m st)) k)"
proof -
  have "encoder_ok (encoder_registered sch m st)"
    unfolding encoder_registered_def by (rule encoder_ok_register[OF assms])
  note cfg = onEncoder_configure[OF this]
  show "encoder_ok (fst (encoder_step_result sch resp m st))"
    using cfg(1) encoder_ok_register[OF assms] by (simp add: encoder_step_result_def encoder_registered_def)
  show "sm_get (mRegisteredEncoderList (fst (encoder_step_result sch resp m st))) k =
      (if k = es_id sch m \<and> m \<noteq> remembered_msg (mPrevEncoderMsg st) (es_id sch m)
       then map_option (\<lambda>d. d\<lparr>m_sensor_source := es_sensor_source sch m\<rparr>)
              (sm_get (mRegisteredEncoderList (encoder_registered sch m st)) k)
       else sm_get (mRegisteredEncoderList (encoder_registered sch m st)) k)"
    using cfg(2) by (simp add: encoder_step_result_def)
qed

interpretation encoder_config: config_step
  "encoder_config_step sch resp" "es_id sch" "\<lambda>st. remembered_msg (mPrevEncoderMsg st)"
  "\<lambda>st. sm_get (mRegisteredEncoderList (enc_mgr st))" enc_calls encoder_config_ok
  "\<lambda>m. es_encoder_type sch m = CANCoder \<and> (\<forall>n. resp n = OK)"
  for sch resp
proof unfold_locales
  fix st :: encoder_config_state and m k
  assume ok: "encoder_config_ok st"
  then have mgr: "encoder_ok (enc_mgr st)" and prevs: "sm_ok (mPrevEncoderMsg st)" by (simp_all add: encoder_config_ok_def)
  note dev = encoder_step_result_mgr(2)[OF mgr] registerEncoder_device(1)[OF mgr]
  show "encoder_config_ok (encoder_config_step sch resp m st)"
    using encoder_step_result_mgr(1)[OF mgr] prevs by (simp add: encoder_config_ok_def encoder_config_step_eq Let_def)
  show "k \<noteq> es_id sch m \<Longrightarrow> remembered_msg (mPrevEncoderMsg (encoder_config_step sch resp m st)) k
      = remembered_msg (mPrevEncoderMsg st) k"
    using prevs by (simp add: encoder_config_step_eq Let_def)
  show "k \<noteq> es_id sch m \<Longrightarrow> sm_get (mRegisteredEncoderList (enc_mgr (encoder_config_step sch resp m st))) k
      = sm_get (mRegisteredEncoderList (enc_mgr st)) k"
    by (simp add: encoder_config_step_eq Let_def dev encoder_registered_def)
  show "remembered_msg (mPrevEncoderMsg st) (es_id sch m) = m \<Longrightarrow>
      sm_get (mRegisteredEncoderList (enc_mgr st)) (es_id sch m) \<noteq> None \<Longrightarrow>
      enc_calls (encoder_config_step sch resp m st) = enc_calls st
      \<and> remembered_msg (mPrevEncoderMsg (encoder_config_step sch resp m st)) (es_id sch m) = m
      \<and> sm_get (mRegisteredEncoderList (enc_mgr (encoder_config_step sch resp m st))) (es_id sch m)
         = sm_get (mRegisteredEncoderList (enc_mgr st)) (es_id sch m)"
    using prevs by (simp add: encoder_config_step_eq Let_def dev encoder_registered_def encoder_step_result_def
        encoderExists_def sm_count_def)
  assume "es_encoder_type sch m = CANCoder \<and> (\<forall>n. resp n = OK)"
  then have h: "es_encoder_type sch m = CANCoder" "\<forall>n. resp n = OK" by simp_all
  have "sm_get (mRegisteredEncoderList (enc_mgr (encoder_config_step sch resp m st))) (es_id sch m) \<noteq> None"
    using h by (simp add: encoder_config_step_eq Let_def dev encoder_registered_def encoderExists_def sm_count_def)
  moreover have "remembered_msg (mPrevEncoderMsg (encoder_config_step sch resp m st)) (es_id sch m) = m"
    using prevs sensor_retry_all_ok[OF h(2)]
    by (simp add: encoder_config_step_eq Let_def encoder_step_result_def onEncoder_eq configure_encoder_eq
        split: option.split)
  ultimately show "remembered_msg (mPrevEncoderMsg (encoder_config_step sch resp m st)) (es_id sch m) = m
      \<and> sm_get (mRegisteredEncoderList (enc_mgr (encoder_config_step sch resp m st))) (es_id sch m) \<noteq> None"
    by simp
qed

section \<open>Properties\<close>

text \<open>C29. A configuration is applied once. When the sensor library answers OK, processing a list of IMU
  configurations and one of encoder configurations a second time makes no further call and changes
  no driver, from any state in which the invariants of the two tasks hold. The lists name no id twice, and
  only types the code knows, Pigeon2 and CANCoder; an id named twice with different settings would be
  applied anew every time.\<close>

theorem sensor_config_applied_once:
  assumes "imu_config_ok si" and "encoder_config_ok se" and "\<forall>n. resp n = OK"
    and "\<forall>m \<in> set ims. is_imu_type isch m = PIGEON2" and "distinct (map (is_id isch) ims)"
    and "\<forall>m \<in> set ems. es_encoder_type esch m = CANCoder" and "distinct (map (es_id esch) ems)"
  shows "let si1 = fold (imu_config_step isch resp) ims si; si2 = fold (imu_config_step isch resp) ims si1;
             se1 = fold (encoder_config_step esch resp) ems se; se2 = fold (encoder_config_step esch resp) ems se1
    in imu_calls si2 = imu_calls si1 \<and> enc_calls se2 = enc_calls se1
      \<and> sm_get (mRegisteredIMUList (imu_mgr si2)) k = sm_get (mRegisteredIMUList (imu_mgr si1)) k
      \<and> sm_get (mRegisteredEncoderList (enc_mgr se2)) k = sm_get (mRegisteredEncoderList (enc_mgr se1)) k"
  using imu_config.applied_once[of si ims isch resp k] encoder_config.applied_once[of se ems esch resp k] assms
  by (simp add: Let_def)

definition example_imu_schema :: imu_schema where
  "example_imu_schema = \<lparr>is_id = \<lambda>m. word_of_int (getInt m 1), is_imu_type = \<lambda>m. PIGEON2,
     is_can_network = \<lambda>m. RIO_CANIVORE, is_forward = \<lambda>m. getInt m 2, is_up = \<lambda>m. getInt m 3\<rparr>"

definition example_encoder_schema :: encoder_schema where
  "example_encoder_schema = \<lparr>es_id = \<lambda>m. word_of_int (getInt m 1), es_encoder_type = \<lambda>m. CANCoder,
     es_can_network = \<lambda>m. RIO_CANIVORE, es_sensor_source = \<lambda>m. if getInt m 2 = 1 then ABSOLUTE else RELATIVE,
     es_initialization_strategy = \<lambda>m. getInt m 3, es_magnetic_offset = \<lambda>m. getNum m 4\<rparr>"

lemmas example_sensor_schemas = example_imu_schema_def example_encoder_schema_def

abbreviation example_imu_state :: imu_config_state where
  "example_imu_state \<equiv> \<lparr>imu_mgr = CKIMUManager_new, imu_calls = [], mPrevIMUMsg = []\<rparr>"

abbreviation example_encoder_state :: encoder_config_state where
  "example_encoder_state \<equiv> \<lparr>enc_mgr = CKEncoderManager_new, enc_calls = [], mPrevEncoderMsg = []\<rparr>"

lemma sensor_states_ok: "imu_config_ok example_imu_state" "encoder_config_ok example_encoder_state"
  by (simp_all add: imu_config_ok_def encoder_config_ok_def imu_ok_new encoder_ok_new)

theorem sensor_config_applied_once_witness:
  "let ims = [[(1, PInt 20), (2, PInt 3)]]; ems = [[(1, PInt 25), (2, PInt 1)], [(1, PInt 26)]];
       resp = \<lambda>n::nat. OK;
       si1 = fold (imu_config_step example_imu_schema resp) ims example_imu_state;
       si2 = fold (imu_config_step example_imu_schema resp) ims si1;
       se1 = fold (encoder_config_step example_encoder_schema resp) ems example_encoder_state;
       se2 = fold (encoder_config_step example_encoder_schema resp) ems se1
   in imu_calls si2 = imu_calls si1 \<and> enc_calls se2 = enc_calls se1
      \<and> sm_get (mRegisteredIMUList (imu_mgr si2)) 20 = sm_get (mRegisteredIMUList (imu_mgr si1)) 20
      \<and> sm_get (mRegisteredEncoderList (enc_mgr se2)) 20 = sm_get (mRegisteredEncoderList (enc_mgr se1)) 20"
  unfolding Let_def
  by (rule sensor_config_applied_once[unfolded Let_def])
    (simp_all add: sensor_states_ok example_sensor_schemas getInt_def sm_get_def)

text \<open>What one changed encoder message does.\<close>

lemma encoder_step_changed:
  assumes "encoder_config_ok st" and "es_encoder_type sch m = CANCoder"
    and "m \<noteq> remembered_msg (mPrevEncoderMsg st) (es_id sch m)"
  shows "enc_calls (encoder_config_step sch resp m st) = enc_calls st
      @ replicate (attempts resp (length (enc_calls st)) 4)
          (ConfigSensorInitializationStrategy (es_initialization_strategy sch m))
      @ [ConfigMagnetOffset (es_magnetic_offset sch m)]"
    and "remembered_msg (mPrevEncoderMsg (encoder_config_step sch resp m st)) (es_id sch m) =
      (if \<exists>k < 3. resp (length (enc_calls st) + k) = OK then m
       else remembered_msg (mPrevEncoderMsg st) (es_id sch m))"
    and "\<exists>d. sm_get (mRegisteredEncoderList (enc_mgr (encoder_config_step sch resp m st))) (es_id sch m) = Some d
      \<and> m_sensor_source d = es_sensor_source sch m"
proof -
  have mgr: "encoder_ok (enc_mgr st)" and prevs: "sm_ok (mPrevEncoderMsg st)"
    using assms(1) by (simp_all add: encoder_config_ok_def)
  note dev = encoder_step_result_mgr(2)[OF mgr] registerEncoder_device[OF mgr]
  obtain d where d: "sm_get (mRegisteredEncoderList (encoder_registered sch m st)) (es_id sch m) = Some d"
    by (cases "encoderExists (es_id sch m) (enc_mgr st)")
      (auto simp: encoder_registered_def dev assms(2) encoderExists_def sm_count_def)
  have ty: "sm_get (mRegisteredEncoderTypeList (encoder_registered sch m st)) (es_id sch m) = Some CANCoder"
    by (simp add: encoder_registered_def dev assms(2))
  have r: "snd (encoder_step_result sch resp m st) =
     ((\<exists>k < 3. resp (length (enc_calls st) + k) = OK),
      enc_calls st @ replicate (attempts resp (length (enc_calls st)) 4)
          (ConfigSensorInitializationStrategy (es_initialization_strategy sch m))
        @ [ConfigMagnetOffset (es_magnetic_offset sch m)])"
    using assms(3) d ty
    by (simp add: encoder_step_result_def onEncoder_eq configure_encoder_eq sm_at_fst sensor_retry_eq Let_def)
  show "enc_calls (encoder_config_step sch resp m st) = enc_calls st
      @ replicate (attempts resp (length (enc_calls st)) 4)
          (ConfigSensorInitializationStrategy (es_initialization_strategy sch m))
      @ [ConfigMagnetOffset (es_magnetic_offset sch m)]"
    by (simp add: encoder_config_step_eq Let_def r)
  show "remembered_msg (mPrevEncoderMsg (encoder_config_step sch resp m st)) (es_id sch m) =
      (if \<exists>k < 3. resp (length (enc_calls st) + k) = OK then m
       else remembered_msg (mPrevEncoderMsg st) (es_id sch m))"
    using prevs by (auto simp: encoder_config_step_eq Let_def r)
  show "\<exists>d. sm_get (mRegisteredEncoderList (enc_mgr (encoder_config_step sch resp m st))) (es_id sch m) = Some d
      \<and> m_sensor_source d = es_sensor_source sch m"
    using assms(3) d by (simp add: encoder_config_step_eq Let_def dev)
qed

text \<open>A failed encoder configuration is not undone and not noticed. The sensor source is switched
  before the library call that can fail; when that call fails three times the message is not
  remembered, but going back to the previous configuration is then taken for no change: no call is
  made and the encoder keeps reading from the source of the rejected message.\<close>

theorem encoder_failed_update_sticks:
  assumes "encoder_config_ok st" and "es_id sch new = es_id sch old"
    and "remembered_msg (mPrevEncoderMsg st) (es_id sch old) = old" and "new \<noteq> old"
    and "es_encoder_type sch new = CANCoder"
    and "\<forall>k < 3. resp (length (enc_calls st) + k) \<noteq> OK"
  shows "let st1 = encoder_config_step sch resp new st; st2 = encoder_config_step sch resp old st1
    in enc_calls st2 = enc_calls st1 \<and> remembered_msg (mPrevEncoderMsg st2) (es_id sch old) = old
      \<and> (\<exists>d. sm_get (mRegisteredEncoderList (enc_mgr st2)) (es_id sch old) = Some d
            \<and> m_sensor_source d = es_sensor_source sch new)"
proof -
  have ne: "new \<noteq> remembered_msg (mPrevEncoderMsg st) (es_id sch new)" using assms(2-4) by simp
  note s = encoder_step_changed[OF assms(1,5) ne, of resp, unfolded assms(2)]
  have ok: "encoder_config_ok (encoder_config_step sch resp new st)" using assms(1) by (rule encoder_config.inv_apply)
  have rem: "remembered_msg (mPrevEncoderMsg (encoder_config_step sch resp new st)) (es_id sch old) = old"
    using s(2) assms(3,6) by auto
  obtain d where d: "sm_get (mRegisteredEncoderList (enc_mgr (encoder_config_step sch resp new st))) (es_id sch old) = Some d"
    "m_sensor_source d = es_sensor_source sch new" using s(3) by blast
  show ?thesis using encoder_config.same_nothing[OF ok rem, of resp] d by (simp add: Let_def)
qed

theorem encoder_failed_update_sticks_witness:
  "let sch = example_encoder_schema; resp = \<lambda>n. if n < 2 then OK else ErrorCode 1;
       old = [(1, PInt 25)]; new = [(1, PInt 25), (2, PInt 1)];
       st = encoder_config_step sch resp old example_encoder_state;
       st1 = encoder_config_step sch resp new st; st2 = encoder_config_step sch resp old st1
   in enc_calls st2 = enc_calls st1 \<and> remembered_msg (mPrevEncoderMsg st2) 25 = old
      \<and> (\<exists>d. sm_get (mRegisteredEncoderList (enc_mgr st2)) 25 = Some d \<and> m_sensor_source d = ABSOLUTE)"
proof -
  let ?resp = "\<lambda>n::nat. if n < 2 then OK else ErrorCode 1"
  let ?old = "[(1, PInt 25)] :: pmsg" and ?new = "[(1, PInt 25), (2, PInt 1)] :: pmsg"
  let ?st = "encoder_config_step example_encoder_schema ?resp ?old example_encoder_state"
  note sch = example_encoder_schema_def getInt_def sm_get_def
  have ids: "es_id example_encoder_schema ?old = 25" "es_id example_encoder_schema ?new = 25"
    "es_sensor_source example_encoder_schema ?new = ABSOLUTE"
    "\<And>m. es_encoder_type example_encoder_schema m = CANCoder"
    by (simp_all add: sch)
  have "?old \<noteq> remembered_msg (mPrevEncoderMsg example_encoder_state) (es_id example_encoder_schema ?old)"
    by (simp add: remembered_msg_def)
  note first = encoder_step_changed[OF sensor_states_ok(2) ids(4) this, of ?resp, unfolded ids]
  have calls: "length (enc_calls ?st) = 2" using first(1) by (simp add: eval_nat_numeral)
  have rem: "remembered_msg (mPrevEncoderMsg ?st) 25 = ?old"
    unfolding first(2) by (simp add: exI[where x = 0])
  have ok: "encoder_config_ok ?st" using sensor_states_ok(2) by (rule encoder_config.inv_apply)
  show ?thesis
    using encoder_failed_update_sticks[OF ok, of example_encoder_schema ?new ?old ?resp] rem
    unfolding ids Let_def calls by simp
qed

text \<open>A magnet offset that could not be set stays unset. Its answer is ignored: after a changed
  message whose initialization strategy was accepted, repeating the message makes no call, whatever
  \<open>ConfigMagnetOffset\<close> answered.\<close>

theorem encoder_offset_not_retried:
  assumes "encoder_config_ok st" and "es_encoder_type sch m = CANCoder"
    and "m \<noteq> remembered_msg (mPrevEncoderMsg st) (es_id sch m)"
    and "\<exists>k < 3. resp (length (enc_calls st) + k) = OK"
  shows "let st1 = encoder_config_step sch resp m st
    in last (enc_calls st1) = ConfigMagnetOffset (es_magnetic_offset sch m)
      \<and> enc_calls (encoder_config_step sch resp m st1) = enc_calls st1"
proof -
  note s = encoder_step_changed[OF assms(1-3), of resp]
  have "encoder_config_ok (encoder_config_step sch resp m st)" using assms(1) by (rule encoder_config.inv_apply)
  from encoder_config.same_nothing[OF this, of sch m resp] s assms(4) show ?thesis
    by (auto simp: Let_def)
qed

theorem encoder_offset_not_retried_witness:
  "let sch = example_encoder_schema; m = [(1, PInt 25), (4, PNum 90)];
       resp = \<lambda>n::nat. if n = 0 then OK else ErrorCode 1;
       st1 = encoder_config_step sch resp m example_encoder_state
   in last (enc_calls st1) = ConfigMagnetOffset 90
      \<and> enc_calls (encoder_config_step sch resp m st1) = enc_calls st1"
proof -
  let ?m = "[(1, PInt 25), (4, PNum 90)] :: pmsg"
  have "es_magnetic_offset example_encoder_schema ?m = 90" "es_encoder_type example_encoder_schema ?m = CANCoder"
    by (simp_all add: example_encoder_schema_def getNum_def sm_get_def)
  with encoder_offset_not_retried[OF sensor_states_ok(2), of example_encoder_schema ?m
      "\<lambda>n. if n = 0 then OK else ErrorCode 1"]
  show ?thesis by (auto simp: Let_def remembered_msg_def intro: exI[where x = 0])
qed

end
