(* ===== verification/Send_Tasks.thy ===== *)
theory Send_Tasks
  imports Robot_Handover
begin

text \<open>
  The tasks that report to the coprocessor, \<open>tasks/SendMotorDataTask\<close>, \<open>SendIMUDataTask\<close>,
  \<open>SendEncoderDataTask\<close>, \<open>SendSolenoidDataTask\<close>, \<open>SendJoystickDataTask\<close> and \<open>SendRobotDataTask\<close>, and
  \<open>RobotDataHelper\<close>, which polls the driver station for the last one. A message is a record of the
  fields the task sets, a field not set having its default; what a device answers and the bytes
  protobuf makes of a message are parameters.
\<close>

section \<open>Sending through a fixed buffer\<close>

definition STATUS_MESSAGE_SIZE :: nat where
  "STATUS_MESSAGE_SIZE = 1500"

definition INT_MAX :: nat where
  "INT_MAX = 2 ^ 31 - 1"

text \<open>
  \<open>SerializeToArray(buf, ByteSizeLong())\<close>: protobuf refuses a message that does not fit the size it
  is told, which is the message's own size, or one above \<open>INT_MAX\<close>; it writes the message into the
  1500 bytes the task has allocated. The result: the sockets tried and whether all took it, with
  the lines printed.
\<close>

type_synonym send_outcome = "fault + (string list \<times> bool) option \<times> string list"

type_synonym radio = "string \<Rightarrow> string \<Rightarrow> bytes \<Rightarrow> send_result"

definition SerializeToArray :: "bytes \<Rightarrow> nat \<Rightarrow> nat \<Rightarrow> fault + bool" where
  "SerializeToArray msg capacity given =
     (if length msg > INT_MAX \<or> length msg > given then Inr False
      else if length msg > capacity then Inl BufferOverflow
      else Inr True)"

definition send_status :: "string \<Rightarrow> string \<Rightarrow> radio \<Rightarrow> network \<Rightarrow> bytes \<Rightarrow> send_outcome" where
  "send_status grp failure radio n msg =
     (case SerializeToArray msg STATUS_MESSAGE_SIZE (length msg) of
        Inl f \<Rightarrow> Inl f
      | Inr True \<Rightarrow> Inr (Some (sendMessage radio grp msg n), [])
      | Inr False \<Rightarrow> Inr (None, [failure]))"

section \<open>SendMotorDataTask\<close>

datatype ctre_control_mode = CtrePercentOutput | CtrePosition | CtreVelocity | CtreCurrent
  | CtreFollower | CtreMotionProfile | CtreMotionMagic | CtreMotionProfileArc | CtreMusicTone
  | CtreDisabled | CtreOtherMode int

record talon_reading =
  tr_sensor_position :: real
  tr_sensor_velocity :: real
  tr_control_mode :: ctre_control_mode
  tr_output_percent :: real
  tr_traj_arbff :: real
  tr_traj_position :: real
  tr_traj_velocity :: real
  tr_closed_loop_target :: real
  tr_closed_loop_error :: real
  tr_integral_accum :: real
  tr_error_derivative :: real
  tr_bus_voltage :: real
  tr_supply_current :: real
  tr_stator_current :: real
  tr_faults :: int
  tr_sticky_faults :: int
  tr_fwd_closed :: bool
  tr_rev_closed :: bool

record motor_status =
  ms_id :: u16
  ms_sensor_position :: real
  ms_sensor_velocity :: real
  ms_control_mode :: ctre_control_mode
  ms_commanded_output :: real
  ms_traj_arbff :: real
  ms_traj_position :: real
  ms_traj_velocity :: real
  ms_closed_loop_error :: real
  ms_integral_accum :: real
  ms_error_derivative :: real
  ms_raw_output_percent :: real
  ms_bus_voltage :: real
  ms_bus_current :: real
  ms_stator_current :: real
  ms_faults :: int
  ms_sticky_faults :: int
  ms_forward_limit_closed :: bool
  ms_reverse_limit_closed :: bool

definition motor_status_new :: "u16 \<Rightarrow> motor_status" where
  "motor_status_new i = \<lparr>ms_id = i, ms_sensor_position = 0, ms_sensor_velocity = 0,
     ms_control_mode = CtrePercentOutput, ms_commanded_output = 0, ms_traj_arbff = 0,
     ms_traj_position = 0, ms_traj_velocity = 0, ms_closed_loop_error = 0, ms_integral_accum = 0,
     ms_error_derivative = 0, ms_raw_output_percent = 0, ms_bus_voltage = 0, ms_bus_current = 0,
     ms_stator_current = 0, ms_faults = 0, ms_sticky_faults = 0, ms_forward_limit_closed = False,
     ms_reverse_limit_closed = False\<rparr>"

text \<open>The switch over the control mode; the profile modes fall through to the closed-loop ones.\<close>

definition status_closed_loop :: "talon_reading \<Rightarrow> motor_status \<Rightarrow> motor_status" where
  "status_closed_loop r m = m\<lparr>ms_commanded_output := tr_closed_loop_target r,
     ms_closed_loop_error := tr_closed_loop_error r, ms_integral_accum := tr_integral_accum r,
     ms_error_derivative := tr_error_derivative r\<rparr>"

definition status_by_mode :: "talon_reading \<Rightarrow> motor_status \<Rightarrow> motor_status" where
  "status_by_mode r m =
     (let trajectory = (\<lambda>m. m\<lparr>ms_traj_arbff := tr_traj_arbff r, ms_traj_position := tr_traj_position r,
                            ms_traj_velocity := tr_traj_velocity r\<rparr>)
      in case tr_control_mode r of
           CtrePercentOutput \<Rightarrow> m\<lparr>ms_commanded_output := tr_output_percent r\<rparr>
         | CtreMotionProfile \<Rightarrow> status_closed_loop r (trajectory m)
         | CtreMotionMagic \<Rightarrow> status_closed_loop r (trajectory m)
         | CtreMotionProfileArc \<Rightarrow> status_closed_loop r (trajectory m)
         | CtrePosition \<Rightarrow> status_closed_loop r m
         | CtreVelocity \<Rightarrow> status_closed_loop r m
         | CtreCurrent \<Rightarrow> status_closed_loop r m
         | CtreFollower \<Rightarrow> m
         | CtreMusicTone \<Rightarrow> m
         | CtreDisabled \<Rightarrow> m
         | CtreOtherMode _ \<Rightarrow> m)"

text \<open>The downcasts by the registered type; a failed one is dereferenced.\<close>

definition status_limits :: "talon_reading \<Rightarrow> talon \<Rightarrow> motor_type \<Rightarrow> motor_status \<Rightarrow> fault + motor_status" where
  "status_limits r dev mType m =
     (let limits = m\<lparr>ms_forward_limit_closed := tr_fwd_closed r, ms_reverse_limit_closed := tr_rev_closed r\<rparr>
      in case mType of
           TALON_FX \<Rightarrow> (case dev of TalonFX _ _ \<Rightarrow> Inr limits | TalonSRX _ \<Rightarrow> Inl NullDereference)
         | TALON_SRX \<Rightarrow> (case dev of TalonSRX _ \<Rightarrow> Inr limits | TalonFX _ _ \<Rightarrow> Inl NullDereference)
         | OtherMotorType _ \<Rightarrow> Inr m)"

definition motor_status_of :: "talon_reading \<Rightarrow> u16 \<Rightarrow> talon \<Rightarrow> motor_type \<Rightarrow> fault + motor_status" where
  "motor_status_of r i dev mType =
     (let m = (motor_status_new i)\<lparr>ms_sensor_position := tr_sensor_position r,
                ms_sensor_velocity := tr_sensor_velocity r, ms_control_mode := tr_control_mode r\<rparr>;
          m = (status_by_mode r m)\<lparr>ms_raw_output_percent := tr_output_percent r,
                ms_bus_voltage := tr_bus_voltage r, ms_bus_current := tr_supply_current r,
                ms_stator_current := tr_stator_current r, ms_faults := tr_faults r,
                ms_sticky_faults := tr_sticky_faults r\<rparr>
      in status_limits r dev mType m)"

definition add_motor_status ::
  "(u16 \<Rightarrow> talon_reading) \<Rightarrow> u16 \<Rightarrow> talon \<Rightarrow> motor_type \<Rightarrow> fault + motor_status list \<Rightarrow> fault + motor_status list" where
  "add_motor_status reading i dev mType w =
     (case w of
        Inl f \<Rightarrow> Inl f
      | Inr ms \<Rightarrow> (case motor_status_of (reading i) i dev mType of Inl f \<Rightarrow> Inl f | Inr m \<Rightarrow> Inr (ms @ [m])))"

definition SendMotorDataTask_run ::
  "(motor_status list \<Rightarrow> bytes) \<Rightarrow> (u16 \<Rightarrow> talon_reading) \<Rightarrow> radio \<Rightarrow> 'm motor_manager \<Rightarrow> network \<Rightarrow> send_outcome" where
  "SendMotorDataTask_run ser reading radio mgr n =
     (case motor_forEach mgr (add_motor_status reading) (Inr []) of
        Inl f \<Rightarrow> Inl f
      | Inr msg \<Rightarrow>
          (case send_status ''motorstatus'' ''Motor status message failed to serialize. Message probably too large or invalid.''
                  radio n (ser msg) of
             Inr (Some (socks, False), logs) \<Rightarrow>
               Inr (Some (socks, False), logs @ [''Failed to send motor status message msg''])
           | r \<Rightarrow> r))"

section \<open>SendIMUDataTask and SendEncoderDataTask\<close>

record imu_status =
  ims_id :: u16
  ims_quaternion :: "real \<times> real \<times> real \<times> real"
  ims_rps :: "real \<times> real \<times> real"

definition imu_status_of ::
  "error_code \<times> real \<times> real \<times> real \<times> real \<Rightarrow> ypr_reading \<Rightarrow> u16 \<Rightarrow> imu_status" where
  "imu_status_of quat rates i =
     \<lparr>ims_id = i,
      ims_quaternion = (case pigeon_getQuaternion quat of Some q \<Rightarrow> q | None \<Rightarrow> (0, 0, 0, 0)),
      ims_rps = (case pigeon_getYPRRPS rates of Some r \<Rightarrow> r | None \<Rightarrow> (0, 0, 0))\<rparr>"

definition SendIMUDataTask_run ::
  "(imu_status list \<Rightarrow> bytes) \<Rightarrow> (u16 \<Rightarrow> error_code \<times> real \<times> real \<times> real \<times> real) \<Rightarrow> (u16 \<Rightarrow> ypr_reading)
     \<Rightarrow> radio \<Rightarrow> imu_manager \<Rightarrow> network \<Rightarrow> imu_manager \<times> send_outcome" where
  "SendIMUDataTask_run ser quats rates radio mgr n =
     (let (mgr', msg) = imu_forEach (\<lambda>i dev ty msg. (dev, msg @ [imu_status_of (quats i) (rates i) i])) (mgr, [])
      in (mgr', send_status ''imudata'' ''IMU data message failed to serialize. Message probably too large or invalid.''
                  radio n (ser msg)))"

record encoder_status =
  ecs_id :: u16
  ecs_absolute_position :: real

definition SendEncoderDataTask_run ::
  "(encoder_status list \<Rightarrow> bytes) \<Rightarrow> (u16 \<Rightarrow> real) \<Rightarrow> radio \<Rightarrow> encoder_manager \<Rightarrow> network
     \<Rightarrow> encoder_manager \<times> send_outcome" where
  "SendEncoderDataTask_run ser positions radio mgr n =
     (let (mgr', msg) = encoder_forEach
            (\<lambda>i dev ty msg. (dev, msg @ [\<lparr>ecs_id = i, ecs_absolute_position = positions i\<rparr>])) (mgr, [])
      in (mgr', send_status ''encoderdata'' ''Encoder data message failed to serialize. Message probably too large or invalid.''
                  radio n (ser msg)))"

section \<open>SendSolenoidDataTask\<close>

definition solenoid_forEach ::
  "solenoid_manager \<Rightarrow> (u32 \<Rightarrow> ck_solenoid \<Rightarrow> sol_type \<Rightarrow> 'w \<Rightarrow> 'w) \<Rightarrow> 'w \<Rightarrow> 'w" where
  "solenoid_forEach s func w =
     fold (\<lambda>(i, c). func i c (fst (sm_at SINGLE i (mRegisteredSolenoidTypeList s)))) (mRegisteredSolenoidList s) w"

record solenoid_status =
  ss_id :: u32
  ss_solenoid_value :: sol_value

text \<open>The callback takes the id as a \<open>uint16_t\<close>.\<close>

definition add_solenoid_status :: "u16 \<Rightarrow> ck_solenoid \<Rightarrow> solenoid_status list \<Rightarrow> solenoid_status list" where
  "add_solenoid_status i c msg = msg @ [\<lparr>ss_id = ucast i, ss_solenoid_value = cs_value c\<rparr>]"

definition SendSolenoidDataTask_run ::
  "(solenoid_status list \<Rightarrow> bytes) \<Rightarrow> radio \<Rightarrow> solenoid_manager \<Rightarrow> network \<Rightarrow> send_outcome" where
  "SendSolenoidDataTask_run ser radio mgr n =
     send_status ''solenoidstatus'' ''Solenoid status message failed to serialize. Message probably too large or invalid.''
       radio n (ser (solenoid_forEach mgr (\<lambda>i c ty. add_solenoid_status (ucast i) c) []))"

section \<open>SendJoystickDataTask\<close>

record joystick_reading =
  jr_axes :: "real list"
  jr_button_count :: nat
  jr_buttons :: u32
  jr_povs :: "int list"

record joystick_status =
  jss_index :: nat
  jss_axes :: "real list"
  jss_buttons :: u32
  jss_povs :: "int list"

definition MAX_NUM_JOYSTICKS :: nat where
  "MAX_NUM_JOYSTICKS = 6"

definition joystick_status_of :: "joystick_reading \<Rightarrow> nat \<Rightarrow> joystick_status" where
  "joystick_status_of r i =
     \<lparr>jss_index = i, jss_axes = fold (\<lambda>a axes. axes @ [a]) (jr_axes r) [],
      jss_buttons = fold (\<lambda>j b. jr_buttons r) [0..<jr_button_count r] 0,
      jss_povs = fold (\<lambda>p povs. povs @ [p]) (jr_povs r) []\<rparr>"

definition joystick_message :: "(nat \<Rightarrow> joystick_reading option) \<Rightarrow> joystick_status list" where
  "joystick_message ds =
     fold (\<lambda>i msg. case ds i of Some r \<Rightarrow> msg @ [joystick_status_of r i] | None \<Rightarrow> msg)
       [0..<MAX_NUM_JOYSTICKS] []"

definition SendJoystickDataTask_run ::
  "(joystick_status list \<Rightarrow> bytes) \<Rightarrow> (nat \<Rightarrow> joystick_reading option) \<Rightarrow> radio \<Rightarrow> network \<Rightarrow> send_outcome" where
  "SendJoystickDataTask_run ser ds radio n =
     send_status ''joystickstatus'' ''Joystick status message failed to serialize. Message probably too large or invalid.''
       radio n (ser (joystick_message ds))"

section \<open>RobotDataHelper and SendRobotDataTask\<close>

datatype alliance = kRed | kBlue | kInvalid

text \<open>What a call of the driver station ends in: a value, a \<open>std::exception\<close>, another exception.\<close>

datatype 'a ds_read = DSValue 'a | StdException string | OtherException

record robot_data =
  mAlliance :: alliance
  mMatchTime :: real
  mGameSpecificMsg :: string

definition RobotDataHelper_new :: robot_data where
  "RobotDataHelper_new = \<lparr>mAlliance = kInvalid, mMatchTime = 0, mGameSpecificMsg = ''''\<rparr>"

text \<open>One pass of \<open>runThread\<close>, with the errors it reports.\<close>

definition robot_data_pass ::
  "alliance ds_read \<Rightarrow> real ds_read \<Rightarrow> robot_data \<Rightarrow> robot_data \<times> string list" where
  "robot_data_pass al time d =
     (let std = (\<lambda>e d. (d\<lparr>mAlliance := kInvalid, mMatchTime := -1, mGameSpecificMsg := ''''\<rparr>,
                       [''Failed to get DS data'', e]));
          other = (\<lambda>d. (d, [''Unknown Exception from DS Data'']))
      in case al of
           StdException e \<Rightarrow> std e d
         | OtherException \<Rightarrow> other d
         | DSValue a \<Rightarrow>
             (let d1 = d\<lparr>mAlliance := a\<rparr>
              in case time of
                   StdException e \<Rightarrow> std e d1
                 | OtherException \<Rightarrow> other d1
                 | DSValue t \<Rightarrow> (d1\<lparr>mMatchTime := t, mGameSpecificMsg := ''''\<rparr>, [])))"

definition control_mode_code :: "CONTROL_MODE \<Rightarrow> int" where
  "control_mode_code md = (case md of DISABLED \<Rightarrow> 0 | TELEOP \<Rightarrow> 1 | AUTONOMOUS \<Rightarrow> 2 | TEST \<Rightarrow> 3 | INVALID \<Rightarrow> 4)"

datatype status_alliance = STATUS_RED | STATUS_BLUE

record robot_status =
  rs_robot_state :: int
  rs_alliance :: status_alliance
  rs_match_time :: real
  rs_game_data :: string
  rs_is_connected :: bool

definition robot_status_of :: "mode_helper \<Rightarrow> robot_data \<Rightarrow> bool \<Rightarrow> robot_status" where
  "robot_status_of h d dsConnected =
     \<lparr>rs_robot_state = control_mode_code (mControlMode h),
      rs_alliance = (if mAlliance d = kRed then STATUS_RED else STATUS_BLUE),
      rs_match_time = mMatchTime d, rs_game_data = mGameSpecificMsg d, rs_is_connected = dsConnected\<rparr>"

definition sendRobotStatusMessage ::
  "(robot_status \<Rightarrow> bytes) \<Rightarrow> mode_helper \<Rightarrow> robot_data \<Rightarrow> bool \<Rightarrow> radio \<Rightarrow> network \<Rightarrow> send_outcome" where
  "sendRobotStatusMessage ser h d dsConnected radio n =
     send_status ''robotstatus'' ''Robot status message failed to serialize. Message probably too large or invalid.''
       radio n (ser (robot_status_of h d dsConnected))"

section \<open>The buffers\<close>

lemma send_status_outcome:
  "length msg \<le> INT_MAX \<Longrightarrow> send_status grp failure radio n msg =
     (if length msg \<le> 1500 then Inr (Some (sendSockets n, list_all (send_to_socket radio grp msg) (sendSockets n)), [])
      else Inl BufferOverflow)"
  by (simp add: send_status_def SerializeToArray_def STATUS_MESSAGE_SIZE_def network_send_all)

text \<open>The contract of a reporting task: what it sends is fixed by its state, and goes through the buffer.\<close>

locale reporting_task =
  fixes report :: "'s \<Rightarrow> radio \<Rightarrow> network \<Rightarrow> send_outcome"
    and message :: "'s \<Rightarrow> bytes"
    and grp :: string
    and failure :: string
  assumes report_sends: "report s radio n = send_status grp failure radio n (message s)"
begin

lemma overflow_iff: "report s radio n = Inl BufferOverflow \<longleftrightarrow> 1500 < length (message s) \<and> length (message s) \<le> INT_MAX"
  by (auto simp: report_sends send_status_def SerializeToArray_def STATUS_MESSAGE_SIZE_def INT_MAX_def)

lemma sent_whole:
  "length (message s) \<le> 1500 \<Longrightarrow>
     report s radio n = Inr (Some (sendSockets n, list_all (send_to_socket radio grp (message s)) (sendSockets n)), [])"
  by (simp add: report_sends send_status_outcome INT_MAX_def)

lemma refuses_only_huge:
  "report s radio n = Inr (None, [failure]) \<longleftrightarrow> INT_MAX < length (message s)"
  by (auto simp: report_sends send_status_def SerializeToArray_def)

end

definition solenoid_status_message :: "solenoid_manager \<Rightarrow> solenoid_status list" where
  "solenoid_status_message mgr = solenoid_forEach mgr (\<lambda>i c ty. add_solenoid_status (ucast i) c) []"

definition imu_status_message ::
  "(u16 \<Rightarrow> error_code \<times> real \<times> real \<times> real \<times> real) \<Rightarrow> (u16 \<Rightarrow> ypr_reading) \<Rightarrow> imu_manager \<Rightarrow> imu_status list" where
  "imu_status_message quats rates mgr =
     snd (imu_forEach (\<lambda>i dev ty msg. (dev, msg @ [imu_status_of (quats i) (rates i) i])) (mgr, []))"

definition encoder_status_message :: "(u16 \<Rightarrow> real) \<Rightarrow> encoder_manager \<Rightarrow> encoder_status list" where
  "encoder_status_message positions mgr =
     snd (encoder_forEach (\<lambda>i dev ty msg. (dev, msg @ [\<lparr>ecs_id = i, ecs_absolute_position = positions i\<rparr>])) (mgr, []))"

interpretation solenoid_report: reporting_task
  "\<lambda>mgr radio n. SendSolenoidDataTask_run ser radio mgr n" "\<lambda>mgr. ser (solenoid_status_message mgr)"
  "''solenoidstatus''" "''Solenoid status message failed to serialize. Message probably too large or invalid.''"
  for ser
  by unfold_locales (simp add: SendSolenoidDataTask_run_def solenoid_status_message_def)

interpretation imu_report: reporting_task
  "\<lambda>mgr radio n. snd (SendIMUDataTask_run ser quats rates radio mgr n)"
  "\<lambda>mgr. ser (imu_status_message quats rates mgr)"
  "''imudata''" "''IMU data message failed to serialize. Message probably too large or invalid.''"
  for ser quats rates
  by unfold_locales (simp add: SendIMUDataTask_run_def imu_status_message_def split_beta Let_def)

interpretation encoder_report: reporting_task
  "\<lambda>mgr radio n. snd (SendEncoderDataTask_run ser positions radio mgr n)"
  "\<lambda>mgr. ser (encoder_status_message positions mgr)"
  "''encoderdata''" "''Encoder data message failed to serialize. Message probably too large or invalid.''"
  for ser positions
  by unfold_locales (simp add: SendEncoderDataTask_run_def encoder_status_message_def split_beta Let_def)

interpretation joystick_report: reporting_task
  "\<lambda>ds radio n. SendJoystickDataTask_run ser ds radio n" "\<lambda>ds. ser (joystick_message ds)"
  "''joystickstatus''" "''Joystick status message failed to serialize. Message probably too large or invalid.''"
  for ser
  by unfold_locales (simp add: SendJoystickDataTask_run_def)

interpretation robot_report: reporting_task
  "\<lambda>(h, d, dsConnected) radio n. sendRobotStatusMessage ser h d dsConnected radio n"
  "\<lambda>(h, d, dsConnected). ser (robot_status_of h d dsConnected)"
  "''robotstatus''" "''Robot status message failed to serialize. Message probably too large or invalid.''"
  for ser
  by unfold_locales (simp add: sendRobotStatusMessage_def split_beta)

text \<open>A message of 1501 bytes up to the largest protobuf serialises is written past the end of the
  1500-byte buffer, in each of the IMU, encoder, solenoid, joystick and robot reporting tasks.\<close>

theorem status_buffer_overflow:
  "(snd (SendIMUDataTask_run iser quats rates radio imgr n) = Inl BufferOverflow
      \<longleftrightarrow> length (iser (imu_status_message quats rates imgr)) \<in> {1501 .. INT_MAX})
   \<and> (snd (SendEncoderDataTask_run eser positions radio emgr n) = Inl BufferOverflow
      \<longleftrightarrow> length (eser (encoder_status_message positions emgr)) \<in> {1501 .. INT_MAX})
   \<and> (SendSolenoidDataTask_run sser radio smgr n = Inl BufferOverflow
      \<longleftrightarrow> length (sser (solenoid_status_message smgr)) \<in> {1501 .. INT_MAX})
   \<and> (SendJoystickDataTask_run jser ds radio n = Inl BufferOverflow
      \<longleftrightarrow> length (jser (joystick_message ds)) \<in> {1501 .. INT_MAX})
   \<and> (sendRobotStatusMessage rser h d dsConnected radio n = Inl BufferOverflow
      \<longleftrightarrow> length (rser (robot_status_of h d dsConnected)) \<in> {1501 .. INT_MAX})"
proof -
  have r: "x \<in> {1501 .. INT_MAX} \<longleftrightarrow> 1500 < x \<and> x \<le> INT_MAX" for x
    by (simp add: Suc_le_eq[symmetric])
  show ?thesis
    unfolding r
    by (intro conjI imu_report.overflow_iff encoder_report.overflow_iff solenoid_report.overflow_iff
        joystick_report.overflow_iff
        robot_report.overflow_iff[where s = "(h, d, dsConnected)", unfolded prod.case])
qed

section \<open>Motor status\<close>

lemma motor_status_typed:
  "\<exists>m. motor_status_of r i dev (type_of_talon dev) = Inr m \<and> ms_id m = i"
  by (cases dev) (auto simp: motor_status_of_def status_limits_def status_by_mode_def
      status_closed_loop_def motor_status_new_def Let_def split: ctre_control_mode.split)

lemma add_statuses:
  assumes "\<forall>(i, dev) \<in> set devs. types i = type_of_talon dev"
  shows "\<exists>msg. fold (\<lambda>(i, dev). add_motor_status reading i dev (types i)) devs (Inr msg0) = Inr (msg0 @ msg)
    \<and> map ms_id msg = map fst devs"
  using assms
proof (induction devs arbitrary: msg0)
  case (Cons e devs)
  obtain i dev where e: "e = (i, dev)" by (cases e)
  obtain m where m: "motor_status_of (reading i) i dev (types i) = Inr m" "ms_id m = i"
    using motor_status_typed[of "reading i" i dev] Cons.prems e by auto
  have "add_motor_status reading i dev (types i) (Inr msg0) = Inr (msg0 @ [m])"
    by (simp add: add_motor_status_def m)
  then show ?case using Cons.IH[of "msg0 @ [m]"] Cons.prems e m(2) by auto
qed simp

lemma motor_report_outcome:
  assumes "motor_forEach mgr (add_motor_status reading) (Inr []) = Inr msg"
  shows "SendMotorDataTask_run ser reading radio mgr n \<noteq> Inl NullDereference"
    and "SendMotorDataTask_run ser reading radio mgr n = Inl BufferOverflow
      \<longleftrightarrow> 1500 < length (ser msg) \<and> length (ser msg) \<le> INT_MAX"
  using assms
  by (auto simp: SendMotorDataTask_run_def send_status_def SerializeToArray_def STATUS_MESSAGE_SIZE_def
      split: sum.splits bool.splits option.splits prod.splits if_splits)

text \<open>C27. The downcasts of the motor report are type-safe and the report is complete: in every state the
  robot can reach, however messages, callbacks and tasks interleave (also when one id is registered
  under different types), the stored type of a talon is the class it was built with, so the report
  never dereferences a failed cast and holds exactly one status for each registered motor, in the
  order of their ids.\<close>

theorem motor_report_type_safe:
  assumes "robot_runs io (Robot_new pn task timer) es s"
  shows "\<exists>msg. motor_forEach (rb_motors s) (add_motor_status reading) (Inr []) = Inr msg
    \<and> map ms_id msg = sm_keys (mRegisteredMotorList (rb_motors s))
    \<and> SendMotorDataTask_run ser reading radio (rb_motors s) (net (rb_comms s)) \<noteq> Inl NullDereference"
proof -
  let ?mgr = "rb_motors s"
  have ok: "motor_ok ?mgr" using robot_ok_runs[OF assms robot_ok_new] by (simp add: robot_ok_def)
  have "\<forall>(i, dev) \<in> set (mRegisteredMotorList ?mgr).
      fst (sm_at TALON_FX i (mRegisteredMotorTypeList ?mgr)) = type_of_talon dev"
    using motor_ok_type[OF ok] motor_ok_maps[OF ok] by (auto simp: sm_at_fst sm_get_in_set[symmetric])
  from add_statuses[OF this, of reading "[]"]
  obtain msg where msg: "motor_forEach ?mgr (add_motor_status reading) (Inr []) = Inr msg"
    "map ms_id msg = sm_keys (mRegisteredMotorList ?mgr)"
    by (auto simp: motor_forEach_def sm_keys_def)
  show ?thesis using msg motor_report_outcome(1)[OF msg(1)] by blast
qed

theorem motor_report_type_safe_witness:
  "let io = example_io\<lparr>io_parse_control := \<lambda>b. Some [failover_control 3 PercentOutput 0],
             io_parse_config := \<lambda>b. Some [[(ID_FD, PInt 3)]]\<rparr>;
       s = ReceiveMessagesTask_run [DishMessage ''motorcontrol'' [7]] (configured io example_robot)
   in \<forall>reading. \<exists>msg. motor_forEach (rb_motors (snd (robot_motor_values io True 0 s))) (add_motor_status reading) (Inr [])
        = Inr msg \<and> 3 \<in> set (map ms_id msg)"
proof -
  let ?m = "failover_control 3 PercentOutput 0"
  let ?io = "example_io\<lparr>io_parse_control := \<lambda>b. Some [?m], io_parse_config := \<lambda>b. Some [[(ID_FD, PInt 3)]]\<rparr>"
  let ?s = "ReceiveMessagesTask_run [DishMessage ''motorcontrol'' [7]] (configured ?io example_robot)"
  have "io_parse_config ?io = (\<lambda>b. Some [[(ID_FD, PInt 3)]])" by simp
  note conf = configured_robot[OF this, of example_names example_task "RTTimer_new 0"]
  obtain es where run: "robot_runs ?io example_robot (es @ [RunReceive [DishMessage ''motorcontrol'' [7]]]) ?s"
    using conf(1) runs_append[OF _ run_one[OF step_receive]] by blast
  then have ok: "motor_ok (rb_motors ?s)" "network_ok (net (rb_comms (configured ?io example_robot)))"
    using robot_ok_runs[OF _ robot_ok_new] conf(1) unfolding robot_ok_def by blast+
  have motors: "rb_motors ?s = rb_motors (configured ?io example_robot)" by (simp add: ReceiveMessagesTask_run_def)
  have "waiting (net (rb_comms ?s)) ''motorcontrol'' = Some [7]"
    by (simp add: receive_comms EAGAIN_def ok(2))
  then obtain n1 where box: "getMessage ''motorcontrol'' (net (rb_comms ?s)) = (Some [7], n1)"
    by (metis getMessage_result prod.collapse)
  obtain r mgr calls where a: "apply_motor_values (io_currentMode ?io) (io_canOf ?io) [?m] (rb_motors ?s) (rb_talons ?s)
      = (r, mgr, calls)" using prod_cases3 by blast
  have r: "r = None"
    using motor_values_no_fault[of "[?m]" "io_currentMode ?io" "io_canOf ?io" "rb_motors ?s" "rb_talons ?s"] a
    by (simp add: failover_control_def)
  have key: "mv_key ?m = 3" "mv_control_mode ?m = PercentOutput" "mv_controller_type ?m = TALON_FX"
    by (simp_all add: failover_control_def mv_key_def)
  have "sm_count (mMotorMsgs (motorConfigs (rb_motors ?s))) 3"
    unfolding motors conf(4) by (simp add: sm_count_def sm_get_def)
  then have alive: "motorExists 3 mgr"
    using motor_values_reload[OF ok(1) a[unfolded r], of ?m] key by simp
  obtain r' s' where v: "robot_motor_values ?io True 0 ?s = (r', s')" by fastforce
  then have s': "rb_motors s' = mgr" "r' = None"
    using box a r by (auto simp: robot_motor_values_def motor_values_run_def Let_def)
  have "robot_runs ?io example_robot ((es @ [RunReceive [DishMessage ''motorcontrol'' [7]]]) @ [RunMotorValues True 0]) s'"
    by (rule runs_append[OF run run_one[OF step_motor_values[OF v]]]) (simp add: s'(2))
  note report = motor_report_type_safe[OF this, unfolded s'(1)]
  have "3 \<in> set (sm_keys (mRegisteredMotorList mgr))"
    using alive by (auto simp: motorExists_def sm_count_def sm_get_def sm_keys_def map_of_eq_None_iff)
  then have "\<exists>msg. motor_forEach mgr (add_motor_status reading) (Inr []) = Inr msg \<and> 3 \<in> set (map ms_id msg)"
    for reading using report[of reading] by metis
  then show ?thesis unfolding Let_def v snd_conv s'(1) by blast
qed

section \<open>Solenoid status\<close>

lemma solenoid_status_message_eq:
  "solenoid_status_message mgr =
     map (\<lambda>(i, c). \<lparr>ss_id = ucast (ucast i :: u16), ss_solenoid_value = cs_value c\<rparr>) (mRegisteredSolenoidList mgr)"
proof -
  have "fold (\<lambda>(i, c). add_solenoid_status (ucast i) c) es msg =
      msg @ map (\<lambda>(i, c). \<lparr>ss_id = ucast (ucast i :: u16), ss_solenoid_value = cs_value c\<rparr>) es"
    for es :: "(u32 \<times> ck_solenoid) list" and msg
    by (induction es arbitrary: msg) (auto simp: add_solenoid_status_def)
  then show ?thesis by (simp add: solenoid_status_message_def solenoid_forEach_def)
qed

lemma ucast_low16: "(ucast (ucast (i :: u32) :: u16) :: u32) = take_bit 16 i"
  by (rule bit_word_eqI) (auto simp: bit_simps)

text \<open>The status report cannot tell the solenoids of different modules apart. The module number is
  in the upper half of a solenoid's id, and the report keeps the lower half only: its entries are the
  registered solenoids in the order of their ids, each under its channel alone, so two solenoids on
  the same channel of two modules are reported under the same id, which is neither's when both
  module numbers are positive.\<close>

theorem solenoid_status_drops_module:
  "map ss_id (solenoid_status_message mgr) = map (take_bit 16) (sm_keys (mRegisteredSolenoidList mgr))
   \<and> map ss_solenoid_value (solenoid_status_message mgr) = map (cs_value \<circ> snd) (mRegisteredSolenoidList mgr)"
  by (auto simp: solenoid_status_message_eq ucast_low16 sm_keys_def)

section \<open>Joystick and robot status\<close>

lemma fold_append: "fold (\<lambda>x xs. xs @ [x]) xs ys = ys @ xs"
  by (induction xs arbitrary: ys) auto

lemma fold_filter_append:
  "fold (\<lambda>i msg. case ds i of Some r \<Rightarrow> msg @ [g r i] | None \<Rightarrow> msg) is msg =
     msg @ concat (map (\<lambda>i. case ds i of Some r \<Rightarrow> [g r i] | None \<Rightarrow> []) is)"
  by (induction "is" arbitrary: msg) (auto split: option.split)

lemma fold_const_nonempty: "fold (\<lambda>j b. x) js b = (if js = [] then b else x)"
  by (induction js arbitrary: b) auto

text \<open>The joystick report holds the connected ones of the six joysticks, in port order, each with all
  of its axes and POVs in order and its button mask, which is zero when it has no buttons.\<close>

theorem joystick_report_faithful:
  "joystick_message ds =
     [\<lparr>jss_index = i, jss_axes = jr_axes (the (ds i)),
       jss_buttons = (if jr_button_count (the (ds i)) = 0 then 0 else jr_buttons (the (ds i))),
       jss_povs = jr_povs (the (ds i))\<rparr>. i \<leftarrow> [0, 1, 2, 3, 4, 5], ds i \<noteq> None]"
proof -
  have ports: "[0..<MAX_NUM_JOYSTICKS] = [0, 1, 2, 3, 4, 5]" by (simp add: MAX_NUM_JOYSTICKS_def upt_rec)
  have each: "(\<lambda>i. case ds i of Some r \<Rightarrow> [joystick_status_of r i] | None \<Rightarrow> []) =
    (\<lambda>i. if ds i \<noteq> None then [\<lparr>jss_index = i, jss_axes = jr_axes (the (ds i)),
       jss_buttons = (if jr_button_count (the (ds i)) = 0 then 0 else jr_buttons (the (ds i))),
       jss_povs = jr_povs (the (ds i))\<rparr>] else [])"
    by (rule ext) (simp add: joystick_status_of_def fold_append fold_const_nonempty upt_eq_Nil_conv split: option.split)
  show ?thesis unfolding joystick_message_def fold_filter_append ports each by simp
qed

text \<open>Without a driver station the robot reports a blue alliance. Any failed read resets the alliance
  to invalid, and the report has only two values: every alliance but red is reported as blue.\<close>

theorem robot_status_alliance:
  assumes "robot_data_pass al time d = (d', errors)"
  shows "rs_alliance (robot_status_of h d' dsConnected) =
      (if al = DSValue kRed \<and> (\<forall>e. time \<noteq> StdException e) \<or> al = OtherException \<and> mAlliance d = kRed
       then STATUS_RED else STATUS_BLUE)
    \<and> (errors = [] \<longleftrightarrow> (\<exists>a t. al = DSValue a \<and> time = DSValue t \<and> mAlliance d' = a \<and> mMatchTime d' = t))"
  using assms by (auto simp: robot_data_pass_def robot_status_of_def Let_def split: ds_read.splits)

theorem robot_status_alliance_witness:
  "rs_alliance (robot_status_of RobotControlModeHelper_new
     (fst (robot_data_pass (StdException ''no DS'') (DSValue 0) (RobotDataHelper_new\<lparr>mAlliance := kRed\<rparr>))) False) = STATUS_BLUE"
proof -
  obtain d' errors where p: "robot_data_pass (StdException ''no DS'') (DSValue 0) (RobotDataHelper_new\<lparr>mAlliance := kRed\<rparr>) = (d', errors)"
    by fastforce
  from robot_status_alliance[OF p] show ?thesis by (simp add: p)
qed

end
