(* ===== verification/Robot_Loop.thy ===== *)
theory Robot_Loop
  imports Task_Scheduler Iterative_Robot "HOL-Library.Multiset"
begin

text \<open>
  \<open>utils/ckrobot/TimedRobot\<close>, the main loop, and the tasks \<open>Robot::RobotInit\<close> schedules. Times in
  seconds are reals; the conversion to microseconds is \<open>static_cast<uint64_t>(t * 1e6)\<close>. The priority
  queue is a list by expiration time, where C++ leaves the order of equal times open. A callback is
  named; running it is an entry of the log (\<open>LoopFunc\<close> of \<open>Iterative_Robot\<close> for the first).
\<close>

section \<open>Callbacks\<close>

record periodic =
  pc_name :: string
  pc_period :: real
  pc_expiration :: real

text \<open>\<open>fpga_now\<close> is the timestamp the constructor reads.\<close>

definition Callback_new :: "string \<Rightarrow> real \<Rightarrow> real \<Rightarrow> real \<Rightarrow> real \<Rightarrow> periodic" where
  "Callback_new func startTime period offset fpga_now =
     \<lparr>pc_name = func, pc_period = period,
      pc_expiration = startTime + offset + of_int \<lfloor>(fpga_now - startTime) / period\<rfloor> * period + period\<rparr>"

fun queue_push :: "periodic \<Rightarrow> periodic list \<Rightarrow> periodic list" where
  "queue_push cb [] = [cb]"
| "queue_push cb (x # q) = (if pc_expiration cb < pc_expiration x then cb # x # q else x # queue_push cb q)"

record timed_robot =
  tm_startTime :: real
  tm_callbacks :: "periodic list"

definition AddPeriodic :: "string \<Rightarrow> real \<Rightarrow> real \<Rightarrow> real \<Rightarrow> timed_robot \<Rightarrow> timed_robot" where
  "AddPeriodic callback period offset fpga_now r =
     r\<lparr>tm_callbacks := queue_push (Callback_new callback (tm_startTime r) period offset fpga_now) (tm_callbacks r)\<rparr>"

definition TimedRobot_new :: "real \<Rightarrow> real \<Rightarrow> real \<Rightarrow> timed_robot" where
  "TimedRobot_new period startTime fpga_now =
     AddPeriodic ''LoopFunc'' period 0 fpga_now \<lparr>tm_startTime = startTime, tm_callbacks = []\<rparr>"

section \<open>The loop\<close>

definition micros :: "real \<Rightarrow> nat" where
  "micros t = nat \<lfloor>t * 1000000\<rfloor>"

definition reschedule :: "periodic \<Rightarrow> periodic" where
  "reschedule cb = cb\<lparr>pc_expiration := pc_expiration cb + pc_period cb\<rparr>"

text \<open>The inner loop: the callbacks due by \<open>curTime\<close>. It need not end, hence the option; the top of an
  empty queue is undefined behaviour.\<close>

partial_function (option) due_loop ::
  "nat \<Rightarrow> periodic list \<Rightarrow> string list \<Rightarrow> (fault + periodic list \<times> string list) option" where
  "due_loop curTime q called =
     (case q of
        [] \<Rightarrow> Some (Inl UndefinedBehaviour)
      | cb # rest \<Rightarrow>
          (if micros (pc_expiration cb) \<le> curTime
           then due_loop curTime (queue_push (reschedule cb) rest) (called @ [pc_name cb])
           else Some (Inr (q, called))))"

text \<open>One iteration of \<open>StartCompetition\<close>: the alarm it sets, and what it does with the time the wait
  returns; \<open>0\<close> or an error ends the loop.\<close>

definition competition_alarm :: "periodic list \<Rightarrow> fault + nat" where
  "competition_alarm q = (case q of [] \<Rightarrow> Inl UndefinedBehaviour | cb # rest \<Rightarrow> Inr (micros (pc_expiration cb)))"

datatype competition_end = Stopped | Faulted fault | Iterated "periodic list" "string list"

definition competition_pass :: "nat \<Rightarrow> bool \<Rightarrow> periodic list \<Rightarrow> competition_end option" where
  "competition_pass curTime failed q =
     (case q of
        [] \<Rightarrow> Some (Faulted UndefinedBehaviour)
      | cb # rest \<Rightarrow>
          (if curTime = 0 \<or> failed then Some Stopped
           else (case due_loop curTime (queue_push (reschedule cb) rest) [pc_name cb] of
                   None \<Rightarrow> None
                 | Some (Inl f) \<Rightarrow> Some (Faulted f)
                 | Some (Inr (q', called)) \<Rightarrow> Some (Iterated q' called))))"

section \<open>The tasks of the robot\<close>

definition RobotInit_tasks :: "sched_task list" where
  "RobotInit_tasks = fold scheduleTask
     [Task_new 2 ''ReceiveMessagesTask'', Task_new 100 ''ApplyIMUConfigTask'',
      Task_new 5 ''ApplyMotorValuesTask'', Task_new 100 ''ApplyMotorConfigTask'',
      Task_new 20 ''ApplySolenoidValuesTask'', Task_new 10 ''SendRobotDataTask'',
      Task_new 10 ''SendIMUDataTask'', Task_new 10 ''SendMotorDataTask'',
      Task_new 20 ''SendJoystickDataTask'', Task_new 100 ''ApplyLEDControlTask'',
      Task_new 20 ''ProcessHeartbeatTask'', Task_new 1000 ''UpdateDSConnectionStatusTask''] []"

lemma RobotInit_tasks_eq: "RobotInit_tasks = map (\<lambda>(rate, name). Task_new rate name)
   [(2, ''ReceiveMessagesTask''), (100, ''ApplyIMUConfigTask''),
    (5, ''ApplyMotorValuesTask''), (100, ''ApplyMotorConfigTask''),
    (20, ''ApplySolenoidValuesTask''), (10, ''SendRobotDataTask''),
    (10, ''SendIMUDataTask''), (10, ''SendMotorDataTask''),
    (20, ''SendJoystickDataTask''), (100, ''ApplyLEDControlTask''),
    (20, ''ProcessHeartbeatTask''), (1000, ''UpdateDSConnectionStatusTask'')]"
  by (simp add: RobotInit_tasks_def scheduleTask_def)



section \<open>The loop ends\<close>

text \<open>How far the queue is behind \<open>curTime\<close>, in numbers of periods.\<close>

definition periods_left :: "nat \<Rightarrow> periodic \<Rightarrow> nat" where
  "periods_left curTime cb = nat (\<lfloor>((real curTime + 1) / 1000000 - pc_expiration cb) / pc_period cb\<rfloor> + 1)"

lemma micros_le: "micros t \<le> curTime \<longleftrightarrow> t < (real curTime + 1) / 1000000"
proof -
  have "micros t \<le> curTime \<longleftrightarrow> \<lfloor>t * 1000000\<rfloor> \<le> int curTime" by (simp add: micros_def nat_le_iff)
  also have "\<dots> \<longleftrightarrow> t * 1000000 < real curTime + 1" by (simp add: floor_le_iff)
  finally show ?thesis by (simp add: field_simps)
qed

lemma periods_left_reschedule:
  assumes "0 < pc_period cb" and "micros (pc_expiration cb) \<le> curTime"
  shows "periods_left curTime (reschedule cb) < periods_left curTime cb"
proof -
  let ?x = "((real curTime + 1) / 1000000 - pc_expiration cb) / pc_period cb"
  have "0 < ?x" using assms by (simp add: micros_le)
  then have "0 \<le> \<lfloor>?x\<rfloor>" by simp
  moreover have "((real curTime + 1) / 1000000 - pc_expiration (reschedule cb)) / pc_period (reschedule cb) = ?x - 1"
    using assms(1) by (simp add: reschedule_def field_simps)
  moreover have "\<lfloor>?x - 1\<rfloor> = \<lfloor>?x\<rfloor> - 1" by linarith
  ultimately show ?thesis by (simp add: periods_left_def)
qed

definition lag :: "nat \<Rightarrow> periodic list \<Rightarrow> nat" where
  "lag curTime q = sum_list (map (periods_left curTime) q)"

lemma queue_push_mset: "mset (queue_push cb q) = add_mset cb (mset q)"
  by (induction q) auto

lemma queue_push_set: "set (queue_push cb q) = insert cb (set q)"
  by (induction q) auto

lemma queue_push_not_Nil [simp]: "queue_push cb q \<noteq> []"
  by (cases q) auto

lemma lag_push: "lag curTime (queue_push cb q) = periods_left curTime cb + lag curTime q"
  by (induction q) (auto simp: lag_def)

text \<open>What the loop leaves: the callbacks it ran have moved along their grids, and none is due.\<close>

definition moved :: "periodic list \<Rightarrow> string list \<Rightarrow> periodic list \<Rightarrow> bool" where
  "moved q called q' \<longleftrightarrow> (\<forall>cb' \<in> set q'. \<exists>cb \<in> set q. pc_name cb' = pc_name cb \<and> pc_period cb' = pc_period cb
     \<and> pc_expiration cb' = pc_expiration cb + real (count_list called (pc_name cb)) * pc_period cb)"

lemma moved_reschedule:
  assumes q: "q = cb # rest" and m: "moved (queue_push (reschedule cb) rest) called q'"
    and d: "distinct (map pc_name q)"
  shows "moved q (pc_name cb # called) q'"
  unfolding moved_def
proof
  fix y assume "y \<in> set q'"
  with m obtain x where x: "x \<in> insert (reschedule cb) (set rest)" "pc_name y = pc_name x"
    "pc_period y = pc_period x"
    "pc_expiration y = pc_expiration x + real (count_list called (pc_name x)) * pc_period x"
    by (auto simp: moved_def queue_push_set)
  show "\<exists>z \<in> set q. pc_name y = pc_name z \<and> pc_period y = pc_period z
     \<and> pc_expiration y = pc_expiration z + real (count_list (pc_name cb # called) (pc_name z)) * pc_period z"
  proof (cases "x = reschedule cb")
    case True
    then show ?thesis using x q
      by (intro bexI[where x = cb]) (auto simp: reschedule_def algebra_simps)
  next
    case False
    then have rest: "x \<in> set rest" using x by simp
    have "pc_name cb \<notin> pc_name ` set rest" using d q by simp
    then have "pc_name x \<noteq> pc_name cb" using imageI[OF rest, of pc_name] by metis
    then show ?thesis using x q rest by (intro bexI[where x = x]) auto
  qed
qed

lemma sorted_queue_push:
  "sorted (map pc_expiration q) \<Longrightarrow> sorted (map pc_expiration (queue_push cb q))"
  by (induction q) (auto simp: queue_push_set)

lemma due_loop_Cons:
  "due_loop curTime (cb # rest) called =
     (if micros (pc_expiration cb) \<le> curTime
      then due_loop curTime (queue_push (reschedule cb) rest) (called @ [pc_name cb])
      else Some (Inr (cb # rest, called)))"
  by (subst due_loop.simps) simp

lemma due_loop_steps:
  assumes "q \<noteq> []" and "\<forall>cb \<in> set q. 0 < pc_period cb" and "sorted (map pc_expiration q)"
    and "distinct (map pc_name q)"
  shows "\<exists>q' called'. due_loop curTime q called = Some (Inr (q', called @ called')) \<and> q' \<noteq> []
    \<and> (\<forall>cb \<in> set q'. curTime < micros (pc_expiration cb)) \<and> sorted (map pc_expiration q')
    \<and> mset (map pc_name q') = mset (map pc_name q) \<and> moved q called' q'"
  using assms
proof (induction "lag curTime q" arbitrary: q called rule: less_induct)
  case less
  obtain cb rest where q: "q = cb # rest" using less.prems(1) by (cases q) auto
  show ?case
  proof (cases "micros (pc_expiration cb) \<le> curTime")
    case False
    have "curTime < micros (pc_expiration x)" if "x \<in> set q" for x
    proof -
      have "pc_expiration cb \<le> pc_expiration x" using that less.prems(3) q by auto
      then show ?thesis using False by (simp add: micros_le flip: not_le)
    qed
    moreover have "due_loop curTime q called = Some (Inr (q, called))"
      using False q by (simp add: due_loop_Cons)
    ultimately show ?thesis
      using less.prems by (intro exI[where x = q] exI[where x = "[]"]) (auto simp: moved_def)
  next
    case True
    let ?q = "queue_push (reschedule cb) rest"
    have eq: "due_loop curTime q called = due_loop curTime ?q (called @ [pc_name cb])"
      using True q by (simp add: due_loop_Cons)
    have name: "pc_name (reschedule cb) = pc_name cb" "pc_period (reschedule cb) = pc_period cb"
      by (simp_all add: reschedule_def)
    have names: "mset (map pc_name ?q) = mset (map pc_name q)"
      by (simp add: queue_push_mset q name)
    have "lag curTime ?q < lag curTime q"
      using periods_left_reschedule[OF _ True] less.prems(2) q by (simp add: lag_push) (simp add: lag_def)
    moreover have "\<forall>x \<in> set ?q. 0 < pc_period x" using less.prems(2) q name by (auto simp: queue_push_set)
    moreover have "sorted (map pc_expiration ?q)"
      using less.prems(3) q by (intro sorted_queue_push) simp
    moreover have "distinct (map pc_name ?q)"
      using less.prems(4) names by (metis mset_eq_imp_distinct_iff)
    ultimately obtain q' called' where IH: "due_loop curTime ?q (called @ [pc_name cb]) = Some (Inr (q', (called @ [pc_name cb]) @ called'))"
      "q' \<noteq> []" "\<forall>cb \<in> set q'. curTime < micros (pc_expiration cb)" "sorted (map pc_expiration q')"
      "mset (map pc_name q') = mset (map pc_name ?q)" "moved ?q called' q'"
      using less.hyps[of ?q "called @ [pc_name cb]"] by auto
    have "moved q (pc_name cb # called') q'"
      by (rule moved_reschedule[OF q IH(6) less.prems(4)])
    then show ?thesis using IH eq names
      by (intro exI[where x = q'] exI[where x = "pc_name cb # called'"]) simp
  qed
qed

text \<open>C24. Every iteration of the main loop ends. With positive periods, an iteration runs the callback it
  waited for and then every callback that is due, stops with all of them due later than the time it
  was woken, and leaves each callback on its own grid: its expiration has moved by exactly one period per call, so late
  iterations are made up for and nothing drifts.\<close>

theorem competition_pass_ends:
  assumes "\<forall>cb \<in> set q. 0 < pc_period cb" and "sorted (map pc_expiration q)" and "distinct (map pc_name q)"
    and "q \<noteq> []" and "curTime \<noteq> 0"
  shows "\<exists>q' called. competition_pass curTime False q = Some (Iterated q' called)
    \<and> called \<noteq> [] \<and> hd called = pc_name (hd q)
    \<and> (\<forall>cb \<in> set q'. curTime < micros (pc_expiration cb))
    \<and> sorted (map pc_expiration q') \<and> mset (map pc_name q') = mset (map pc_name q)
    \<and> (\<forall>cb' \<in> set q'. \<exists>cb \<in> set q. pc_name cb' = pc_name cb \<and> pc_period cb' = pc_period cb
         \<and> pc_expiration cb' = pc_expiration cb + real (count_list called (pc_name cb)) * pc_period cb)"
proof -
  obtain cb rest where q: "q = cb # rest" using assms(4) by (cases q) auto
  let ?q = "queue_push (reschedule cb) rest"
  have name: "pc_name (reschedule cb) = pc_name cb" "pc_period (reschedule cb) = pc_period cb"
    by (simp_all add: reschedule_def)
  have names: "mset (map pc_name ?q) = mset (map pc_name q)" by (simp add: queue_push_mset q name)
  have "\<forall>x \<in> set ?q. 0 < pc_period x" using assms(1) q name by (auto simp: queue_push_set)
  moreover have "sorted (map pc_expiration ?q)" using assms(2) q by (intro sorted_queue_push) simp
  moreover have "distinct (map pc_name ?q)" using assms(3) names by (metis mset_eq_imp_distinct_iff)
  ultimately obtain q' called' where r: "due_loop curTime ?q [pc_name cb] = Some (Inr (q', [pc_name cb] @ called'))"
    "\<forall>cb \<in> set q'. curTime < micros (pc_expiration cb)" "sorted (map pc_expiration q')"
    "mset (map pc_name q') = mset (map pc_name ?q)" "moved ?q called' q'"
    using due_loop_steps[of ?q curTime "[pc_name cb]"] by auto
  have "moved q (pc_name cb # called') q'"
    by (rule moved_reschedule[OF q r(5) assms(3)])
  with r names assms(5) q show ?thesis
    by (intro exI[where x = q'] exI[where x = "pc_name cb # called'"])
      (simp add: competition_pass_def moved_def)
qed

theorem competition_pass_ends_witness:
  "\<exists>q' called. competition_pass 70000 False (tm_callbacks (TimedRobot_new (1 / 50) 0 (1 / 100)))
      = Some (Iterated q' called) \<and> called \<noteq> [] \<and> hd called = ''LoopFunc''"
proof -
  have q: "tm_callbacks (TimedRobot_new (1 / 50) 0 (1 / 100)) =
      [\<lparr>pc_name = ''LoopFunc'', pc_period = 1 / 50, pc_expiration = 1 / 50\<rparr>]"
    by (simp add: TimedRobot_new_def AddPeriodic_def Callback_new_def)
  from competition_pass_ends[of "tm_callbacks (TimedRobot_new (1 / 50) 0 (1 / 100))" 70000]
  show ?thesis unfolding q by auto
qed

end
