(* ===== verification/CK_Logger.thy ===== *)
theory CK_Logger
  imports Std_Map "HOL-Library.List_Lexorder" "HOL-Library.Char_ord"
begin

text \<open>
  \<open>utils/CKLogger\<close>, as compiled with \<open>CONSOLE_REPORTING\<close>: messages wait in a map until the logger
  thread prints them, once a second. The map is unordered in C++; here the messages of a pump come
  in the order of the keys.
\<close>

section \<open>Operations\<close>

datatype LogLevel = DEBUG | INFO | WARNING | ERROR

fun log_level_code :: "LogLevel \<Rightarrow> int" where
  "log_level_code DEBUG = 0"
| "log_level_code INFO = 1"
| "log_level_code WARNING = 2"
| "log_level_code ERROR = 3"

record ck_logger =
  messageMap :: "(string, LogLevel) std_map"
  currLogLevel :: LogLevel
  console :: "string list"

definition ck_logger_start :: ck_logger where
  "ck_logger_start = \<lparr>messageMap = [], currLogLevel = INFO, console = []\<rparr>"

definition ck_log :: "string \<Rightarrow> LogLevel \<Rightarrow> ck_logger \<Rightarrow> ck_logger" where
  "ck_log msg logLevel s = s\<lparr>messageMap := sm_put msg logLevel (messageMap s)\<rparr>"

definition set_log_level :: "LogLevel \<Rightarrow> ck_logger \<Rightarrow> ck_logger" where
  "set_log_level logLevel s = s\<lparr>currLogLevel := logLevel\<rparr>"

text \<open>The loop of the pump over the map, with the erase of each element.\<close>

fun pump_messages :: "LogLevel \<Rightarrow> (string, LogLevel) std_map \<Rightarrow> string list \<Rightarrow> string list" where
  "pump_messages cur [] out = out"
| "pump_messages cur ((msg, level) # rest) out =
     pump_messages cur rest (if log_level_code level \<ge> log_level_code cur then out @ [msg] else out)"

definition log_pump :: "ck_logger \<Rightarrow> ck_logger" where
  "log_pump s = s\<lparr>console := pump_messages (currLogLevel s) (messageMap s) (console s), messageMap := []\<rparr>"

section \<open>What is printed\<close>

lemma pump_messages_eq:
  "pump_messages cur m out = out @ map fst (filter (\<lambda>(msg, level). log_level_code cur \<le> log_level_code level) m)"
  by (induction m arbitrary: out) auto

lemma ck_logs_map:
  "sm_ok (messageMap s) \<Longrightarrow>
     sm_ok (messageMap (fold (\<lambda>(msg, level). ck_log msg level) events s))
     \<and> currLogLevel (fold (\<lambda>(msg, level). ck_log msg level) events s) = currLogLevel s
     \<and> console (fold (\<lambda>(msg, level). ck_log msg level) events s) = console s
     \<and> sm_get (messageMap (fold (\<lambda>(msg, level). ck_log msg level) events s)) msg
        = (case map_of (rev events) msg of Some level \<Rightarrow> Some level | None \<Rightarrow> sm_get (messageMap s) msg)"
proof (induction events rule: rev_induct)
  case (snoc e events)
  then show ?case by (cases e) (auto simp: ck_log_def)
qed simp

text \<open>Between two pumps the log coalesces: a pump prints each message at most once, however often it
  was logged, and exactly those whose last logged level reaches the current level, so that a message
  logged as an error and again at a lower level is not printed at all; the log is empty afterwards.\<close>

theorem log_pump_coalesces:
  assumes "messageMap s = []" and "s' = log_pump (fold (\<lambda>(msg, level). ck_log msg level) events s)"
  shows "\<exists>printed. console s' = console s @ printed \<and> distinct printed
    \<and> (msg \<in> set printed \<longleftrightarrow>
        (\<exists>level. map_of (rev events) msg = Some level \<and> log_level_code (currLogLevel s) \<le> log_level_code level))
    \<and> messageMap s' = []"
proof -
  let ?t = "fold (\<lambda>(msg, level). ck_log msg level) events s"
  have t: "sm_ok (messageMap ?t)" "currLogLevel ?t = currLogLevel s" "console ?t = console s"
    "\<And>m. sm_get (messageMap ?t) m = map_of (rev events) m"
    using ck_logs_map[of s events] assms(1) by (auto split: option.splits)
  let ?p = "map fst (filter (\<lambda>(msg, level). log_level_code (currLogLevel s) \<le> log_level_code level) (messageMap ?t))"
  have "console s' = console s @ ?p" "messageMap s' = []"
    by (simp_all add: assms(2) log_pump_def pump_messages_eq t)
  moreover have "distinct ?p"
    using sm_ok_distinct[OF t(1)] by (simp add: sm_keys_def distinct_map_filter)
  moreover have "msg \<in> set ?p \<longleftrightarrow>
      (\<exists>level. map_of (rev events) msg = Some level \<and> log_level_code (currLogLevel s) \<le> log_level_code level)"
    using sm_get_in_set[OF t(1), of msg] t(4)[of msg] by force
  ultimately show ?thesis by blast
qed

theorem log_pump_coalesces_witness:
  "\<exists>printed. console (log_pump (fold (\<lambda>(msg, level). ck_log msg level)
        [(''bus off'', ERROR), (''x'', INFO), (''bus off'', DEBUG), (''x'', INFO)] ck_logger_start)) = [] @ printed
    \<and> distinct printed \<and> ''bus off'' \<notin> set printed"
  using log_pump_coalesces[OF _ refl, of ck_logger_start
      "[(''bus off'', ERROR), (''x'', INFO), (''bus off'', DEBUG), (''x'', INFO)]" "''bus off''"]
  by (auto simp: ck_logger_start_def)

end
