(* ===== verification/Motor_Handover.thy ===== *)
theory Motor_Handover
  imports Robot_Handover
begin

text \<open>
  The motors across the hand-over: a registered motor survives every run of fewer heartbeats than its
  counter, whatever else happens, and the failover code, once it drives, reloads the counters of the
  motors it finds. What the tasks other than the heartbeat do to the motors is the relation
  \<open>motor_kept\<close>.
\<close>

section \<open>What the tasks keep\<close>

definition motor_ticks :: "u16 \<Rightarrow> 'm motor_manager \<Rightarrow> int" where
  "motor_ticks i mgr = (case sm_get (mRegisteredMotorHeartbeatList mgr) i of Some n \<Rightarrow> n | None \<Rightarrow> 0)"

definition motor_kept :: "'m motor_manager \<Rightarrow> 'm motor_manager \<Rightarrow> bool" where
  "motor_kept a b \<longleftrightarrow> (\<forall>i dev. getMotor i a = Some dev \<longrightarrow> getMotor i b = Some dev)
     \<and> (\<forall>i. motor_ticks i a \<le> motor_ticks i b)"

text \<open>A motor that exists has a configuration message.\<close>

definition motor_configured :: "'m motor_manager \<Rightarrow> bool" where
  "motor_configured mgr \<longleftrightarrow> (\<forall>i. motorExists i mgr \<longrightarrow> sm_count (mMotorMsgs (motorConfigs mgr)) i)"

lemma motor_kept_refl [simp]: "motor_kept a a"
  by (simp add: motor_kept_def)

lemma motor_kept_trans: "motor_kept a b \<Longrightarrow> motor_kept b c \<Longrightarrow> motor_kept a c"
  unfolding motor_kept_def by (meson order_trans)

lemma motor_ticks_le:
  assumes "motor_ok mgr" shows "motor_ticks i mgr \<le> kMaxHeartbeatTicks"
  using motor_ok_entry[OF assms, of i]
  by (auto simp: motor_ticks_def kMaxHeartbeatTicks_def split: option.splits)

lemma motor_kept_register:
  assumes "motor_ok mgr" shows "motor_kept mgr (registerMotor i t c mgr)"
  using getMotor_register[OF assms] ticks_registerMotor[OF assms] motor_ticks_le[OF assms]
  by (simp add: motor_kept_def motor_ticks_def)

lemma motor_values_kept:
  assumes "motor_ok mgr" and "motor_configured mgr"
    and "apply_motor_values currentMode canOf ms mgr calls = (r, mgr', calls')"
  shows "motor_kept mgr mgr' \<and> motor_configured mgr'"
  using assms
proof (induction ms arbitrary: mgr calls)
  case (Cons m ms)
  show ?case
    using Cons.prems(3)
  proof (cases rule: apply_motor_values_cases)
    case (applied config mgr1)
    have ok1: "motor_ok mgr1" using Cons.prems(1) applied(3) by (simp add: motor_ok_register)
    have "motor_configured mgr1"
      using Cons.prems(1,2) applied(1,3) by (auto simp: motor_configured_def motorExists_register sm_count_def)
    then show ?thesis
      using Cons.IH[OF ok1 _ applied(4)] motor_kept_register[OF Cons.prems(1)] applied(3) motor_kept_trans by blast
  qed (use Cons in auto)
qed simp

text \<open>The configuration task touches the configuration messages only.\<close>

lemma motor_config_loop_frame:
  assumes "motor_config_loop modeOf resp enc n ms mgr calls = (r, mgr', calls')"
  shows "mRegisteredMotorList mgr' = mRegisteredMotorList mgr
    \<and> mRegisteredMotorHeartbeatList mgr' = mRegisteredMotorHeartbeatList mgr
    \<and> mMotorMsgs (motorConfigs mgr') = mMotorMsgs (motorConfigs mgr)"
  using assms
proof (induction ms arbitrary: mgr calls)
  case (Cons m ms)
  let ?store = "\<lambda>mgr. mgr\<lparr>motorConfigs := setPrevMotorConfigMsg (msg_id m) m (motorConfigs mgr)\<rparr>"
  let ?at = "sm_at [] (msg_id m) (mPrevMotorMsgs (motorConfigs mgr))"
  let ?mgr1 = "mgr\<lparr>motorConfigs := (motorConfigs mgr)\<lparr>mPrevMotorMsgs := snd ?at\<rparr>\<rparr>"
  from Cons.prems consider "mgr' = ?mgr1"
    | calls1 where "motor_config_loop modeOf resp enc n ms (?store ?mgr1) calls1 = (r, mgr', calls')"
    | calls1 where "motor_config_loop modeOf resp enc n ms (?store mgr) calls1 = (r, mgr', calls')"
    | calls1 where "motor_config_loop modeOf resp enc n ms mgr calls1 = (r, mgr', calls')"
    by (auto simp: Let_def split_beta split: if_splits option.splits prod.splits)
  then show ?case
    by cases (use Cons.IH in \<open>force simp: setPrevMotorConfigMsg_def\<close>)+
qed simp

lemma setMotorsConfigMsg_count:
  "sm_ok (mMotorMsgs c) \<Longrightarrow> sm_count (mMotorMsgs c) i \<Longrightarrow> sm_count (mMotorMsgs (setMotorsConfigMsg f ms c)) i"
  unfolding setMotorsConfigMsg_def
  by (simp, rule conjunct2[where P = "sm_ok (fold (\<lambda>m. sm_put (f m) m) ms (mMotorMsgs c))"],
      rule fold_invariant_list) (auto simp: sm_count_def)

lemma motor_config_task_kept:
  assumes "motor_ok mgr" and "motor_configured mgr"
    and "motor_config_run parse l modeOf resp enc n mgr calls = (r, n', mgr', calls')"
  shows "motor_kept mgr mgr' \<and> motor_configured mgr'"
proof -
  have "mRegisteredMotorList mgr' = mRegisteredMotorList mgr
      \<and> mRegisteredMotorHeartbeatList mgr' = mRegisteredMotorHeartbeatList mgr
      \<and> (\<exists>ms. mMotorMsgs (motorConfigs mgr') = mMotorMsgs (setMotorsConfigMsg msg_id ms (motorConfigs mgr))
          \<or> mMotorMsgs (motorConfigs mgr') = mMotorMsgs (motorConfigs mgr))"
    using assms(3)
    by (auto simp: motor_config_run_def Let_def split: prod.splits option.splits if_splits
        dest!: motor_config_loop_frame)
  then show ?thesis
    using assms(2) motor_ok_maps[OF assms(1)]
    by (auto simp: motor_kept_def getMotor_def motor_ticks_def motor_configured_def motorExists_def
        intro!: setMotorsConfigMsg_count)
qed

lemma motor_beat_kept:
  assumes "motor_ok mgr"
  shows "getMotor i mgr = Some dev \<Longrightarrow> 1 < motor_ticks i mgr \<Longrightarrow> getMotor i (motor_processHeartbeat mgr) = Some dev"
    and "motor_ticks i mgr - 1 \<le> motor_ticks i (motor_processHeartbeat mgr)"
    and "motor_configured mgr \<Longrightarrow> motor_configured (motor_processHeartbeat mgr)"
proof -
  note tables = motor_beat_list[OF assms] motor_beat_ticks[OF assms] motor_beat_msgs[OF assms]
  show "getMotor i mgr = Some dev \<Longrightarrow> 1 < motor_ticks i mgr \<Longrightarrow> getMotor i (motor_processHeartbeat mgr) = Some dev"
    using tables(1)[of i] by (auto simp: getMotor_def motor_ticks_def sm_count_def split: option.splits if_splits)
  show "motor_ticks i mgr - 1 \<le> motor_ticks i (motor_processHeartbeat mgr)"
    using tables(2)[of i] by (auto simp: motor_ticks_def split: option.splits)
  show "motor_configured mgr \<Longrightarrow> motor_configured (motor_processHeartbeat mgr)"
    using tables(1,3) by (auto simp: motor_configured_def motorExists_def sm_count_def split: option.splits)
qed

section \<open>Runs of the robot\<close>

lemma motors_step:
  assumes "robot_step io s e s'" and "robot_ok s" and "motor_configured (rb_motors s)"
  shows "motor_configured (rb_motors s')"
    and "e \<noteq> RunHeartbeat \<Longrightarrow> motor_kept (rb_motors s) (rb_motors s')"
    and "e = RunHeartbeat \<Longrightarrow> rb_motors s' = motor_processHeartbeat (rb_motors s)"
proof -
  have ok: "motor_ok (rb_motors s)" using assms(2) by (simp add: robot_ok_def)
  have frame: "rb_motors (mode_periodic io js m s) = rb_motors s" for js m
    by (cases "m = kTeleop") (simp add: mode_periodic_def TeleopPeriodic_def, simp add: mode_periodic_frame)
  have "motor_configured (rb_motors s') \<and> (e \<noteq> RunHeartbeat \<longrightarrow> motor_kept (rb_motors s) (rb_motors s'))"
    using assms(1)
  proof cases
    case (step_motor_values l now r)
    then show ?thesis
      using motor_values_kept[OF ok assms(3)] assms(3)
      by (fastforce simp: robot_motor_values_def motor_values_run_def Let_def
          split: prod.splits option.splits if_splits)
  next
    case (step_motor_config l r)
    then show ?thesis
      using motor_config_task_kept[OF ok assms(3)] by (fastforce simp: robot_motor_config_def split: prod.splits)
  qed (use assms(3) frame motor_beat_kept(3)[OF ok] in
        \<open>auto simp: RobotPeriodic_frame ReceiveMessagesTask_run_def ProcessHeartbeatTask_run_def
           UpdateDSConnectionStatusTask_run_def robot_task_frames dest!: robot_task_frames(3)\<close>)
  then show "motor_configured (rb_motors s')" "e \<noteq> RunHeartbeat \<Longrightarrow> motor_kept (rb_motors s) (rb_motors s')"
    by simp_all
  show "e = RunHeartbeat \<Longrightarrow> rb_motors s' = motor_processHeartbeat (rb_motors s)"
    using assms(1) by (auto simp: robot_step_simps ProcessHeartbeatTask_run_def)
qed

lemma motors_configured:
  assumes "robot_runs io (Robot_new pn task timer) es s" shows "motor_configured (rb_motors s)"
proof -
  have "motor_configured (rb_motors s')" if "robot_runs io s es s'" "robot_ok s" "motor_configured (rb_motors s)" for s s'
    using that
    by (induction rule: robot_runs.induct) (auto dest: motors_step(1) robot_ok_step)
  moreover have "motor_configured (rb_motors (Robot_new pn task timer))"
    by (simp add: motor_configured_def Robot_new_def MotorManager_new_def motorExists_def)
  ultimately show ?thesis using assms robot_ok_new by blast
qed

text \<open>The lifetime of a motor in the running robot.\<close>

lemma motor_survives:
  assumes "robot_runs io s es s'" and "robot_ok s" and "motor_configured (rb_motors s)"
    and "getMotor i (rb_motors s) = Some dev" and "int (heartbeats es) < motor_ticks i (rb_motors s)"
  shows "getMotor i (rb_motors s') = Some dev
    \<and> motor_ticks i (rb_motors s) - int (heartbeats es) \<le> motor_ticks i (rb_motors s')"
  using assms
proof (induction rule: robot_runs.induct)
  case (runs_cons s e s' es s'')
  have ok: "motor_ok (rb_motors s)" using runs_cons.prems(1) by (simp add: robot_ok_def)
  have ok': "robot_ok s'" by (rule robot_ok_step[OF runs_cons.hyps(1) runs_cons.prems(1)])
  note step = motors_step[OF runs_cons.hyps(1) runs_cons.prems(1,2)]
  show ?case
  proof (cases "e = RunHeartbeat")
    case True
    then show ?thesis
      using runs_cons.IH[OF ok' step(1)] runs_cons.prems(3,4) motor_beat_kept(1,2)[OF ok, of i] step(3)
      by (force simp: heartbeats_def)
  next
    case False
    then have "motor_ticks i (rb_motors s) \<le> motor_ticks i (rb_motors s')"
      "getMotor i (rb_motors s') = Some dev" "heartbeats (e # es) = heartbeats es"
      using step(2) runs_cons.prems(3) by (auto simp: motor_kept_def heartbeats_def)
    then show ?thesis using runs_cons.IH[OF ok' step(1)] runs_cons.prems(4) by simp
  qed
qed simp_all

section \<open>The failover code keeps the motors it finds\<close>

text \<open>The parser reads back, from every motor command message of the failover code, the ids, controller
  types and control modes it was written with, and the masters of the followers.\<close>

definition same_target :: "motor_control \<Rightarrow> motor_control \<Rightarrow> bool" where
  "same_target c m \<longleftrightarrow> mv_id m = mv_id c \<and> mv_controller_type m = mv_controller_type c
     \<and> mv_control_mode m = mv_control_mode c \<and> (mv_control_mode c = Follower \<longrightarrow> mv_output_value m = mv_output_value c)"

definition reads_back :: "robot_io \<Rightarrow> bool" where
  "reads_back io \<longleftrightarrow> (\<forall>ds ss. length ds = 4 \<longrightarrow> length ss = 4 \<longrightarrow>
     (\<exists>ms. io_parse_control io (sr_motorControl (io_serializers io) (failover_controls ds ss)) = Some ms
        \<and> list_all2 same_target (failover_controls ds ss) ms))"

text \<open>A stretch of a run in which the main loop publishes and the motor task then takes the message.\<close>

definition takes_values :: "robot_event \<Rightarrow> bool" where
  "takes_values e = (case e of RunMotorValues l now \<Rightarrow> True | _ \<Rightarrow> False)"

definition motor_pass :: "robot_event list \<Rightarrow> bool" where
  "motor_pass es \<longleftrightarrow> (\<exists>before attached position mid now.
     es = before @ RunRobotPeriodic attached position # mid @ [RunMotorValues True now] \<and> \<not> list_ex takes_values mid)"

definition failover_message_waits :: "robot_io \<Rightarrow> robot \<Rightarrow> bool" where
  "failover_message_waits io s \<longleftrightarrow> (\<exists>ds ss. length ds = 4 \<and> length ss = 4
     \<and> waiting (net (rb_comms s)) ''motorcontrol'' = Some (sr_motorControl (io_serializers io) (failover_controls ds ss)))"

lemma periodic_message_waits:
  assumes "robot_ok s" and "link s = 0" and "failover_fits (io_serializers io)"
  shows "failover_message_waits io (RobotPeriodic io attached position s)"
proof -
  have n: "\<not> isExternalControl s" using assms(2) by (simp add: isExternalControl_link)
  have "layout_ok (rf_msgs (robotFailover (RobotPeriodic io attached position s)))"
    using robot_ok_periodic[OF assms(1)] by (simp add: robot_ok_def failover_ok_def)
  then obtain ds ss where "length ds = 4" "length ss = 4"
    "drive_commands (RobotPeriodic io attached position s) = failover_controls ds ss"
    by (rule layout_controls)
  then show ?thesis
    using periodic_publishes[OF assms(1) n assms(3), of attached position]
    unfolding failover_message_waits_def by (metis (no_types))
qed

text \<open>The message waits until the motor task takes it, or a newer one of the failover code does.\<close>

lemma message_waits_step:
  assumes "robot_step io s e s'" and "robot_ok s" and "link s = 0" and "\<not> speaks e" and "\<not> takes_values e"
    and "failover_fits (io_serializers io)"
    and "failover_message_waits io s"
  shows "failover_message_waits io s'"
  using assms(1)
proof cases
  case (step_periodic attached position)
  then show ?thesis using periodic_message_waits[OF assms(2,3,6)] by simp
next
  case (step_mode_periodic m js)
  have "net (rb_comms (mode_periodic io js m s)) = net (rb_comms s)"
    by (cases "m = kTeleop") (simp add: mode_periodic_def TeleopPeriodic_def, simp add: mode_periodic_frame)
  then show ?thesis using step_mode_periodic assms(7) by (simp add: failover_message_waits_def)
next
  case (step_receive queue)
  then have "taken queue = []" using assms(4) by (simp add: speaks_def)
  then have "waiting (net (rb_comms s')) g = waiting (net (rb_comms s)) g" for g
    using step_receive assms(2) by (simp add: receive_comms pump_loop_waiting robot_ok_def)
  then show ?thesis using assms(7) by (simp add: failover_message_waits_def)
next
  case (step_motor_config l r)
  have "net (rb_comms s') = snd (getMessage ''motorconfig'' (net (rb_comms s)))"
    using step_motor_config(2) motor_config_task_network[of "io_parse_config io" l "io_modeOf io" "io_motor_resp io"
        CKEncoderManager_new "net (rb_comms s)" "rb_motors s" "rb_motor_calls s"]
    by (auto simp: robot_motor_config_def split: prod.splits)
  then show ?thesis using assms(7) by (simp add: failover_message_waits_def)
next
  case (step_solenoids now r)
  have "net (rb_comms s') = snd (getMessage ''solenoidcontrol'' (net (rb_comms s)))"
    using step_solenoids(2) solenoid_task_ok(2) assms(2)
    by (fastforce simp: robot_solenoids_def robot_ok_def split: prod.splits)
  then show ?thesis using assms(7) by (simp add: failover_message_waits_def)
next
  case (step_leds l)
  have "net (rb_comms s') = snd (getMessage ''ledcontrol'' (net (rb_comms s)))"
    using step_leds led_task_network[of "io_parse_led io" l "io_led_schema io" "io_led_resp io" "net (rb_comms s)" "rb_leds s"]
    by (auto simp: robot_leds_def split: prod.splits)
  then show ?thesis using assms(7) by (simp add: failover_message_waits_def)
qed (use assms(5,7) in \<open>auto simp: failover_message_waits_def takes_values_def ProcessHeartbeatTask_run_def
      UpdateDSConnectionStatusTask_run_def\<close>)

lemma message_waits_runs:
  assumes "robot_runs io s es s'" and "robot_ok s" and "link s = 0" and "\<not> list_ex speaks es"
    and "\<not> list_ex takes_values es" and "failover_fits (io_serializers io)"
    and "failover_message_waits io s"
  shows "failover_message_waits io s'"
  using assms(1-5,7)
proof (induction rule: robot_runs.induct)
  case (runs_cons s e s' es s'')
  have e: "\<not> speaks e" "\<not> takes_values e" using runs_cons.prems(3,4) by simp_all
  have "link s' = 0" using link_step[OF runs_cons.hyps(1)] e(1) runs_cons.prems(2) by auto
  moreover have "robot_ok s'" by (rule robot_ok_step[OF runs_cons.hyps(1) runs_cons.prems(1)])
  moreover have "failover_message_waits io s'"
    by (rule message_waits_step[OF runs_cons.hyps(1) runs_cons.prems(1,2) e assms(6) runs_cons.prems(5)])
  ultimately show ?case using runs_cons.IH runs_cons.prems(3,4) by simp
qed simp

lemma same_target_ids: "list_all2 same_target cs ms \<Longrightarrow> m \<in> set ms \<Longrightarrow> \<exists>c \<in> set cs. same_target c m"
  "list_all2 same_target cs ms \<Longrightarrow> c \<in> set cs \<Longrightarrow> \<exists>m \<in> set ms. same_target c m"
  by (induction rule: list_all2_induct) auto

text \<open>The master motors of the robot: the drive, the arm and wrist masters, the intake.\<close>

definition MASTER_IDS :: "u16 list" where
  "MASTER_IDS = [1, 2, 3, 4, 5, 6, 7, 8, 9, 11, 13, 14]"

lemma master_id_small: "i \<in> set MASTER_IDS \<Longrightarrow> i < 64"
  by (auto simp: MASTER_IDS_def)

lemma motor_values_reloads:
  assumes "robot_motor_values io True now s = (r', s')" and "robot_ok s" and "failover_message_waits io s"
    and "reads_back io" and "i \<in> set MASTER_IDS" and "sm_count (mMotorMsgs (motorConfigs (rb_motors s))) i"
  shows "r' = None \<and> motorExists i (rb_motors s') \<and> motor_ticks i (rb_motors s') = kMaxHeartbeatTicks"
proof -
  let ?mgr = "rb_motors s"
  obtain ds ss where l: "length ds = 4" "length ss = 4"
    and w: "waiting (net (rb_comms s)) ''motorcontrol'' = Some (sr_motorControl (io_serializers io) (failover_controls ds ss))"
    using assms(3) by (auto simp: failover_message_waits_def)
  obtain ms where ms: "io_parse_control io (sr_motorControl (io_serializers io) (failover_controls ds ss)) = Some ms"
    "list_all2 same_target (failover_controls ds ss) ms"
    using assms(4) l unfolding reads_back_def by blast
  obtain n1 where g: "getMessage ''motorcontrol'' (net (rb_comms s)) =
      (Some (sr_motorControl (io_serializers io) (failover_controls ds ss)), n1)"
    using w getMessage_result[of "''motorcontrol''" "net (rb_comms s)"]
    by (cases "getMessage ''motorcontrol'' (net (rb_comms s))") simp
  obtain r mgr calls where a: "apply_motor_values (io_currentMode io) (io_canOf io) ms ?mgr (rb_talons s) = (r, mgr, calls)"
    using prod_cases3 by blast
  have "\<forall>m \<in> set ms. mv_control_mode m = Follower \<longrightarrow> double_to_u16 (mv_output_value m) \<noteq> None"
  proof
    fix m assume "m \<in> set ms"
    with same_target_ids(1)[OF ms(2)] obtain c where "c \<in> set (failover_controls ds ss)" "same_target c m" by blast
    with failover_controls_legal(1)[OF l] show "mv_control_mode m = Follower \<longrightarrow> double_to_u16 (mv_output_value m) \<noteq> None"
      by (auto simp: same_target_def)
  qed
  from motor_values_no_fault[OF this, of "io_currentMode io" "io_canOf io" ?mgr "rb_talons s"] a
  have r: "r = None" by simp
  have "i \<in> {1, 2, 3, 4, 5, 6, 7, 8, 9, 11, 13, 14}" using assms(5) by (simp add: MASTER_IDS_def)
  from failover_controls_legal(2)[OF l this] obtain c where "c \<in> set (failover_controls ds ss)" "mv_key c = i"
    "mv_control_mode c \<noteq> Follower" "mv_controller_type c = TALON_FX" by blast
  then obtain m where m: "m \<in> set ms" "mv_key m = i" "mv_control_mode m \<noteq> Follower" "mv_controller_type m = TALON_FX"
    using same_target_ids(2)[OF ms(2)] by (force simp: same_target_def mv_key_def)
  have "motor_ok ?mgr" using assms(2) by (simp add: robot_ok_def)
  from motor_values_reload[OF this a[unfolded r] m(1,3)] m(2,4) assms(6) master_id_small[OF assms(5)]
  have "motorExists i mgr" "sm_get (mRegisteredMotorHeartbeatList mgr) i = Some kMaxHeartbeatTicks" by simp_all
  moreover have "rb_motors s' = mgr" "r' = None"
    using assms(1) g ms(1) a r by (auto simp: robot_motor_values_def motor_values_run_def Let_def)
  ultimately show ?thesis by (simp add: motor_ticks_def)
qed

lemma robot_runs_append:
  "robot_runs io s (es @ es') s'' \<longleftrightarrow> (\<exists>s'. robot_runs io s es s' \<and> robot_runs io s' es' s'')"
proof
  show "robot_runs io s (es @ es') s'' \<Longrightarrow> \<exists>s'. robot_runs io s es s' \<and> robot_runs io s' es' s''"
  proof (induction es arbitrary: s)
    case (Cons e es)
    from Cons.prems obtain s1 where "robot_step io s e s1" "robot_runs io s1 (es @ es') s''"
      by (auto elim: robot_runs_cons)
    with Cons.IH show ?case by (blast intro: runs_cons)
  qed (auto intro: runs_nil)
qed (auto intro: runs_append)

text \<open>What a silent run without the external controller keeps.\<close>

definition kept_state :: "u16 \<Rightarrow> talon \<Rightarrow> int \<Rightarrow> robot \<Rightarrow> bool" where
  "kept_state i dev n s \<longleftrightarrow> robot_ok s \<and> motor_configured (rb_motors s) \<and> link s = 0
     \<and> getMotor i (rb_motors s) = Some dev \<and> kMaxHeartbeatTicks - n \<le> motor_ticks i (rb_motors s)"

lemma motors_configured_runs:
  "robot_runs io s es s' \<Longrightarrow> robot_ok s \<Longrightarrow> motor_configured (rb_motors s) \<Longrightarrow> motor_configured (rb_motors s')"
  by (induction rule: robot_runs.induct) (auto dest: motors_step(1) robot_ok_step)

lemma kept_state_runs:
  assumes "robot_runs io s es s'" and "\<not> list_ex speaks es" and "kept_state i dev n s"
    and "n + int (heartbeats es) < kMaxHeartbeatTicks"
  shows "kept_state i dev (n + int (heartbeats es)) s'"
proof -
  have k: "robot_ok s" "motor_configured (rb_motors s)" "link s = 0" "getMotor i (rb_motors s) = Some dev"
    "kMaxHeartbeatTicks - n \<le> motor_ticks i (rb_motors s)"
    using assms(3) by (simp_all add: kept_state_def)
  have "int (heartbeats es) < motor_ticks i (rb_motors s)" using k(5) assms(4) by simp
  from motor_survives[OF assms(1) k(1,2,4) this]
  show ?thesis
    using link_silent[OF assms(1,2)] robot_ok_runs[OF assms(1) k(1)] motors_configured_runs[OF assms(1) k(1,2)] k(3,5)
    by (simp add: kept_state_def)
qed

lemma failover_stays:
  assumes "robot_runs io s es s'" and "\<not> list_ex speaks es" and "link s = 0" and "failoverActive s"
  shows "failoverActive s'"
  using assms
proof (induction rule: robot_runs.induct)
  case (runs_cons s e s' es s'')
  have silent: "\<not> speaks e" "\<not> list_ex speaks es" using runs_cons.prems(1) by simp_all
  have "link s' = 0" using link_step[OF runs_cons.hyps(1)] silent(1) runs_cons.prems(2) by auto
  moreover have "failoverActive s'"
    using runs_cons.hyps(1)
  proof cases
    case (step_periodic attached position)
    then show ?thesis using RobotPeriodic_failover(2)[of s] runs_cons.prems(2) by (simp add: isExternalControl_link)
  next
    case (step_mode_periodic m js)
    then show ?thesis
      using runs_cons.prems(3)
      by (cases "m = kTeleop") (simp add: mode_periodic_def TeleopPeriodic_def, simp add: mode_periodic_frame)
  qed (use runs_cons.prems(3) in \<open>auto simp: ReceiveMessagesTask_run_def ProcessHeartbeatTask_run_def
         UpdateDSConnectionStatusTask_run_def robot_task_frames dest!: robot_task_frames(1,2,3)\<close>)
  ultimately show ?case using runs_cons.IH silent(2) by blast
qed

lemma motor_pass_reloads:
  assumes "robot_runs io s es s'" and "motor_pass es" and "\<not> list_ex speaks es" and "kept_state i dev n s"
    and "n + int (heartbeats es) < kMaxHeartbeatTicks" and "i \<in> set MASTER_IDS" and "reads_back io"
    and "failover_fits (io_serializers io)"
  shows "kept_state i dev 0 s' \<and> failoverActive s'"
proof -
  obtain before attached position mid now where es: "es = before @ RunRobotPeriodic attached position # mid @ [RunMotorValues True now]"
    and mid: "\<not> list_ex takes_values mid"
    using assms(2) by (auto simp: motor_pass_def)
  obtain s1 s3 where r: "robot_runs io s before s1"
    "robot_runs io (RobotPeriodic io attached position s1) mid s3" "robot_step io s3 (RunMotorValues True now) s'"
    using assms(1) unfolding es
    by (auto simp: robot_runs_append robot_step_periodic elim!: robot_runs_cons robot_runs_nil)
  let ?s2 = "RobotPeriodic io attached position s1"
  have silent: "\<not> list_ex speaks before" "\<not> list_ex speaks mid" using assms(3) by (simp_all add: es)
  have beats: "heartbeats es = heartbeats before + heartbeats mid"
    by (simp add: es heartbeats_def)
  let ?n1 = "n + int (heartbeats before)" and ?n3 = "n + int (heartbeats es)"
  have k1: "kept_state i dev ?n1 s1"
    by (rule kept_state_runs[OF r(1) silent(1) assms(4)]) (use assms(5) beats in simp)
  have "robot_runs io s1 [RunRobotPeriodic attached position] ?s2" by (rule run_one[OF step_periodic])
  from kept_state_runs[OF this _ k1] have k2: "kept_state i dev ?n1 ?s2"
    using assms(5) beats by (simp add: heartbeats_def speaks_def)
  from kept_state_runs[OF r(2) silent(2) this] have k3: "kept_state i dev ?n3 s3"
    using assms(5) beats by (simp add: add.assoc)
  have l: "robot_ok s1" "link s1 = 0" "robot_ok ?s2" "link ?s2 = 0" "robot_ok s3" "motor_configured (rb_motors s3)"
    "getMotor i (rb_motors s3) = Some dev" "link s3 = 0"
    using k1 k2 k3 by (simp_all add: kept_state_def)
  have "failover_message_waits io s3"
    by (rule message_waits_runs[OF r(2) l(3,4) silent(2) mid assms(8) periodic_message_waits[OF l(1,2) assms(8)]])
  moreover obtain r where "robot_motor_values io True now s3 = (r, s')" using r(3) by cases
  moreover have "sm_count (mMotorMsgs (motorConfigs (rb_motors s3))) i"
    using l(6,7) by (simp add: motor_configured_def motorExists_getMotor)
  ultimately have ticks: "motor_ticks i (rb_motors s') = kMaxHeartbeatTicks"
    using motor_values_reloads[OF _ l(5) _ assms(7,6)] by blast
  have "kept_state i dev ?n3 s'"
    using kept_state_runs[OF run_one[OF r(3)] _ k3] assms(5) by (simp add: heartbeats_def speaks_def)
  moreover have "failoverActive s'"
    using failover_stays[OF run_one[OF r(3)] _ l(8)] failover_stays[OF r(2) silent(2) l(4)]
      RobotPeriodic_failover(2)[of s1 io attached position] l(2)
    by (simp add: isExternalControl_link speaks_def)
  ultimately show ?thesis using ticks by (simp add: kept_state_def)
qed

lemma motor_passes_reload:
  assumes "robot_runs io s (concat passes) s'" and "\<not> list_ex speaks (concat passes)" and "kept_state i dev n s"
    and "0 \<le> n" and "\<And>es. es \<in> set passes \<Longrightarrow> motor_pass es \<and> n + int (heartbeats es) < kMaxHeartbeatTicks"
    and "i \<in> set MASTER_IDS" and "reads_back io"
    and "failover_fits (io_serializers io)"
  shows "kept_state i dev n s' \<and> (passes \<noteq> [] \<longrightarrow> kept_state i dev 0 s' \<and> failoverActive s')"
  using assms(1-3,5)
proof (induction passes arbitrary: s)
  case Nil
  then show ?case by (auto elim: robot_runs_nil)
next
  case (Cons es passes)
  obtain s1 where r: "robot_runs io s es s1" "robot_runs io s1 (concat passes) s'"
    using Cons.prems(1) by (auto simp: robot_runs_append)
  have p: "motor_pass es" "n + int (heartbeats es) < kMaxHeartbeatTicks" using Cons.prems(4)[of es] by simp_all
  have silent: "\<not> list_ex speaks es" "\<not> list_ex speaks (concat passes)" using Cons.prems(2) by simp_all
  have k: "kept_state i dev 0 s1" "failoverActive s1"
    using motor_pass_reloads[OF r(1) p(1) silent(1) Cons.prems(3) p(2) assms(6-8)] by blast+
  then have "kept_state i dev n s1" using assms(4) by (simp add: kept_state_def)
  from Cons.IH[OF r(2) silent(2) this] Cons.prems(4)
  have IH: "kept_state i dev n s' \<and> (passes \<noteq> [] \<longrightarrow> kept_state i dev 0 s' \<and> failoverActive s')" by simp
  then show ?case using k r(2) by (cases "passes = []") (auto elim: robot_runs_nil)
qed

text \<open>No motor is lost in the hand-over. Take a master motor that has just been commanded and let the
  external controller fall silent. However the events interleave, when the failover code is given
  fifty heartbeats of silence to notice, and from then on the main loop and the motor task both run,
  in this order, within the heartbeats left of the 250, over and over, then the motor is the same
  device at every moment after, never deleted and never constructed anew, and the failover code is
  in control.\<close>

theorem handover_keeps_motors:
  assumes "robot_runs io (Robot_new pn task timer) es s" and "i \<in> set MASTER_IDS"
    and "getMotor i (rb_motors s) = Some dev" and "motor_ticks i (rb_motors s) = 250"
    and "robot_runs io s (quiet @ concat passes @ rest) s'" and "\<not> list_ex speaks (quiet @ concat passes @ rest)"
    and "50 \<le> heartbeats quiet" and "heartbeats quiet + heartbeats rest < 250"
    and "\<And>es. es \<in> set passes \<Longrightarrow> motor_pass es \<and> heartbeats quiet + heartbeats es < 250"
    and "reads_back io" and "failover_fits (io_serializers io)"
  shows "getMotor i (rb_motors s') = Some dev \<and> (passes \<noteq> [] \<longrightarrow> failoverActive s')"
proof -
  let ?n = "int (heartbeats quiet)"
  obtain s1 s2 where r: "robot_runs io s quiet s1" "robot_runs io s1 (concat passes) s2" "robot_runs io s2 rest s'"
    using assms(5) by (auto simp: robot_runs_append)
  have silent: "\<not> list_ex speaks quiet" "\<not> list_ex speaks (concat passes)" "\<not> list_ex speaks rest"
    using assms(6) by simp_all
  have ok: "robot_ok s" "motor_configured (rb_motors s)"
    using robot_ok_runs[OF assms(1) robot_ok_new] motors_configured[OF assms(1)] by simp_all
  have "0 \<le> link s" "link s \<le> 50" using ok(1) by (simp_all add: robot_ok_def external_ok_def)
  then have "link s1 = 0" using link_silent[OF r(1) silent(1)] assms(7) by simp
  moreover have "int (heartbeats quiet) < motor_ticks i (rb_motors s)" using assms(4,8) by simp
  note motor_survives[OF r(1) ok assms(3) this]
  ultimately have k1: "kept_state i dev ?n s1"
    using robot_ok_runs[OF r(1) ok(1)] motors_configured_runs[OF r(1) ok] assms(4)
    by (simp add: kept_state_def kMaxHeartbeatTicks_def)
  have k2: "kept_state i dev ?n s2 \<and> (passes \<noteq> [] \<longrightarrow> kept_state i dev 0 s2 \<and> failoverActive s2)"
    by (rule motor_passes_reload[OF r(2) silent(2) k1 _ _ assms(2,10,11)])
      (use assms(9) in \<open>force simp: kMaxHeartbeatTicks_def\<close>)+
  then have "kept_state i dev ?n s2" by blast
  from kept_state_runs[OF r(3) silent(3) this] assms(8)
  have "getMotor i (rb_motors s') = Some dev" by (simp add: kept_state_def kMaxHeartbeatTicks_def)
  moreover have "failoverActive s'" if "passes \<noteq> []"
    using failover_stays[OF r(3) silent(3)] k2 that by (simp add: kept_state_def)
  ultimately show ?thesis by blast
qed

text \<open>An environment whose parser reads back every failover message as one at rest, and a robot driven
  by the failover code with motor 3 configured.\<close>

definition resting_io :: robot_io where
  "resting_io = example_io\<lparr>io_parse_control := \<lambda>b. Some (failover_controls [0, 0, 0, 0] [0, 0, 0, 0]),
     io_parse_config := \<lambda>b. Some [[(ID_FD, PInt 3)]]\<rparr>"

definition driven :: "robot \<Rightarrow> robot" where
  "driven s = snd (robot_motor_values resting_io True 0 (RobotPeriodic resting_io True (\<lambda>i. 0) s))"

lemma resting_fits: "failover_fits (io_serializers resting_io)"
  using example_fits by (simp add: resting_io_def)

lemma resting_reads_back: "reads_back resting_io"
proof -
  have "list_all2 same_target (failover_controls ds ss) (failover_controls [0, 0, 0, 0] [0, 0, 0, 0])"
    if l: "length ds = 4" "length ss = 4" for ds ss
  proof -
    obtain a b c d where ds: "ds = [a, b, c, d]" using length4[OF l(1)] by blast
    obtain e f g h where ss: "ss = [e, f, g, h]" using length4[OF l(2)] by blast
    show ?thesis by (simp add: ds ss failover_controls_def arm_controls_def failover_control_def same_target_def)
  qed
  then show ?thesis by (simp add: reads_back_def resting_io_def)
qed

lemma driven_runs:
  assumes "robot_ok s" and "link s = 0" and "sm_count (mMotorMsgs (motorConfigs (rb_motors s))) i" and "i \<in> set MASTER_IDS"
  shows "robot_runs resting_io s [RunRobotPeriodic True (\<lambda>i. 0), RunMotorValues True 0] (driven s)"
    and "motorExists i (rb_motors (driven s))" and "motor_ticks i (rb_motors (driven s)) = 250"
proof -
  let ?s = "RobotPeriodic resting_io True (\<lambda>i. 0) s"
  obtain r s' where v: "robot_motor_values resting_io True 0 ?s = (r, s')" by fastforce
  have "robot_ok ?s" using assms(1) by (rule robot_ok_periodic)
  from motor_values_reloads[OF v this periodic_message_waits[OF assms(1,2) resting_fits] resting_reads_back assms(4)]
  have *: "r = None" "motorExists i (rb_motors s')" "motor_ticks i (rb_motors s') = kMaxHeartbeatTicks"
    using assms(3) by (simp_all add: RobotPeriodic_frame)
  have s': "driven s = s'" by (simp add: driven_def v)
  show "robot_runs resting_io s [RunRobotPeriodic True (\<lambda>i. 0), RunMotorValues True 0] (driven s)"
    by (intro runs_cons[OF step_periodic] run_one step_motor_values[OF v[folded s']]) (simp add: *(1))
  show "motorExists i (rb_motors (driven s))" "motor_ticks i (rb_motors (driven s)) = 250"
    using * by (simp_all add: s' kMaxHeartbeatTicks_def)
qed

lemma resting_robot:
  defines "s \<equiv> configured resting_io example_robot"
  shows "\<exists>es. robot_runs resting_io example_robot es (driven s)" "motorExists 3 (rb_motors (driven s))"
    "motor_ticks 3 (rb_motors (driven s)) = 250"
proof -
  have "io_parse_config resting_io = (\<lambda>b. Some [[(ID_FD, PInt 3)]])" by (simp add: resting_io_def)
  note conf = configured_robot[OF this, of example_names example_task "RTTimer_new 0", folded s_def]
  obtain es where run: "robot_runs resting_io example_robot es s" using conf(1) by blast
  then have ok: "robot_ok s" by (rule robot_ok_runs[OF _ robot_ok_new])
  then have "link s = 0" using conf(2) by (simp add: robot_ok_def external_ok_def isExternalControl_link)
  moreover have "sm_count (mMotorMsgs (motorConfigs (rb_motors s))) 3"
    by (simp add: conf(4) sm_count_def sm_get_def)
  moreover have "3 \<in> set MASTER_IDS" by (simp add: MASTER_IDS_def)
  ultimately have d: "robot_runs resting_io s [RunRobotPeriodic True (\<lambda>i. 0), RunMotorValues True 0] (driven s)"
    and m: "motorExists 3 (rb_motors (driven s))" "motor_ticks 3 (rb_motors (driven s)) = 250"
    using driven_runs[OF ok, of 3] by blast+
  show "\<exists>es. robot_runs resting_io example_robot es (driven s)" using runs_append[OF run d] by blast
  show "motorExists 3 (rb_motors (driven s))" "motor_ticks 3 (rb_motors (driven s)) = 250" by (fact m)+
qed

theorem handover_keeps_motors_witness:
  "let s = driven (configured resting_io example_robot); s1 = driven ((ProcessHeartbeatTask_run ^^ 50) s)
   in motorExists 3 (rb_motors ((ProcessHeartbeatTask_run ^^ 199) s1))"
proof -
  let ?s = "driven (configured resting_io example_robot)"
  let ?s1 = "(ProcessHeartbeatTask_run ^^ 50) ?s" and ?pass = "[RunRobotPeriodic True (\<lambda>i. 0), RunMotorValues True 0]"
  obtain es where run: "robot_runs resting_io example_robot es ?s" using resting_robot(1) by blast
  obtain dev where dev: "getMotor 3 (rb_motors ?s) = Some dev"
    using resting_robot(2) by (auto simp: motorExists_getMotor)
  have ok: "robot_ok ?s" by (rule robot_ok_runs[OF run robot_ok_new])
  note conf = motors_configured[OF run]
  have quiet: "robot_runs resting_io ?s (replicate 50 RunHeartbeat) ?s1" by (rule runs_heartbeats)
  have silent: "\<not> list_ex speaks (replicate n RunHeartbeat)" for n by (simp add: list_ex_iff speaks_def)
  have "getMotor 3 (rb_motors ?s1) = Some dev"
    using motor_survives[OF quiet ok conf dev] resting_robot(3) by simp
  then have "sm_count (mMotorMsgs (motorConfigs (rb_motors ?s1))) 3"
    using motors_configured_runs[OF quiet ok conf] by (simp add: motor_configured_def motorExists_getMotor)
  moreover have "0 \<le> link ?s" "link ?s \<le> 50" using ok by (simp_all add: robot_ok_def external_ok_def)
  then have "link ?s1 = 0" using link_silent[OF quiet silent] by simp
  moreover have m: "3 \<in> set MASTER_IDS" by (simp add: MASTER_IDS_def)
  ultimately have pass: "robot_runs resting_io ?s1 ?pass (driven ?s1)"
    using driven_runs(1)[OF robot_ok_runs[OF quiet ok]] by blast
  have "robot_runs resting_io ?s (replicate 50 RunHeartbeat @ concat [?pass] @ replicate 199 RunHeartbeat)
      ((ProcessHeartbeatTask_run ^^ 199) (driven ?s1))"
    using runs_append[OF quiet runs_append[OF pass runs_heartbeats[of resting_io "driven ?s1" 199]]] by simp
  note keeps = handover_keeps_motors[OF run m dev resting_robot(3) this _ _ _ _ resting_reads_back resting_fits]
  have "?pass = [] @ RunRobotPeriodic True (\<lambda>i. 0) # [] @ [RunMotorValues True 0]" by simp
  then have "motor_pass ?pass" unfolding motor_pass_def by (metis list_ex_iff empty_iff list.set(1))
  moreover have "heartbeats ?pass = 0" by (simp add: heartbeats_def)
  moreover have "\<not> list_ex speaks (replicate 50 RunHeartbeat @ concat [?pass] @ replicate 199 RunHeartbeat)"
    using silent by (simp add: speaks_def)
  ultimately have "getMotor 3 (rb_motors ((ProcessHeartbeatTask_run ^^ 199) (driven ?s1))) = Some dev"
    using keeps by auto
  then show ?thesis by (simp add: Let_def motorExists_getMotor)
qed

end
