(* ===== verification/Robot_Timing.thy ===== *)
theory Robot_Timing
  imports Motor_Handover Robot_Loop
begin

text \<open>
  The scheduler and the robot together: passes of \<open>TaskScheduler\<close> at readings of the FPGA clock run the
  tasks of the robot, and the callbacks of the main loop, a thread of its own, run in between. A pass
  is the clock reading and the events of the robot until the next pass. Any task but the heartbeat
  task, which calls nothing that throws, may end a pass with an exception. The tasks that only report
  do not touch the state of \<open>Robot\<close>, so they have no event here.
\<close>

section \<open>Runs of the program\<close>

fun event_task :: "robot_event \<Rightarrow> string option" where
  "event_task (RunReceive queue) = Some ''ReceiveMessagesTask''"
| "event_task RunHeartbeat = Some ''ProcessHeartbeatTask''"
| "event_task (RunDSStatus attached) = Some ''UpdateDSConnectionStatusTask''"
| "event_task (RunMotorValues l now) = Some ''ApplyMotorValuesTask''"
| "event_task (RunMotorConfig l) = Some ''ApplyMotorConfigTask''"
| "event_task (RunSolenoids now) = Some ''ApplySolenoidValuesTask''"
| "event_task (RunLEDs l) = Some ''ApplyLEDControlTask''"
| "event_task RunIMUConfig = Some ''ApplyIMUConfigTask''"
| "event_task (RunRobotPeriodic attached position) = None"
| "event_task (RunModeInit m) = None"
| "event_task (RunModePeriodic m js) = None"

definition robot_task_names :: "string list" where
  "robot_task_names = [''ReceiveMessagesTask'', ''ProcessHeartbeatTask'', ''UpdateDSConnectionStatusTask'',
     ''ApplyMotorValuesTask'', ''ApplyMotorConfigTask'', ''ApplySolenoidValuesTask'', ''ApplyLEDControlTask'',
     ''ApplyIMUConfigTask'']"

text \<open>The task runs among the events, in order, are those the scheduler makes.\<close>

definition pass_events :: "task_run list \<Rightarrow> robot_event list \<Rightarrow> bool" where
  "pass_events runs es \<longleftrightarrow>
     concat (map (\<lambda>e. case event_task e of Some n \<Rightarrow> [n] | None \<Rightarrow> []) es)
       = filter (\<lambda>n. n \<in> set robot_task_names) (map fst runs)"

type_synonym pass_log = "(u64 \<times> robot_event list) list"

inductive program_runs ::
  "robot_io \<Rightarrow> robot \<Rightarrow> sched_task list \<Rightarrow> pass_log \<Rightarrow> robot \<Rightarrow> sched_task list \<Rightarrow> bool" for io where
  program_start: "program_runs io s tasks [] s tasks"
| program_pass: "program_runs io s tasks ps s1 tasks1
    \<Longrightarrow> scheduler_pass throws now tasks1 = (tasks2, runs, alarm)
    \<Longrightarrow> (\<And>t. st_name t = ''ProcessHeartbeatTask'' \<Longrightarrow> \<not> throws t) \<Longrightarrow> pass_events runs es
    \<Longrightarrow> robot_runs io s1 es s2 \<Longrightarrow> program_runs io s tasks (ps @ [(now, es)]) s2 tasks2"

abbreviation pass_clocks :: "pass_log \<Rightarrow> u64 list" where
  "pass_clocks ps \<equiv> map fst ps"

abbreviation log_events :: "pass_log \<Rightarrow> robot_event list" where
  "log_events ps \<equiv> concat (map snd ps)"

section \<open>Heartbeats of a run\<close>

lemma runs_of_append: "runs_of (cs @ cs') t = runs_of cs t + runs_of cs' (fold after_pass cs t)"
  by (induction cs arbitrary: t) auto

lemma after_pass_name [simp]: "st_name (after_pass c t) = st_name t"
  by (simp add: after_pass_def)

lemma fold_after_pass_name [simp]: "st_name (fold after_pass cs t) = st_name t"
  by (induction cs arbitrary: t) simp_all

lemma count_filter_name:
  assumes "distinct (map st_name tasks)" and "t \<in> set tasks"
  shows "count_list (map st_name (filter P tasks)) (st_name t) = (if P t then 1 else 0)"
  using assms
proof (induction tasks)
  case (Cons u tasks)
  show ?case
  proof (cases "u = t")
    case True
    then have "st_name t \<notin> set (map st_name tasks)" using Cons.prems(1) by auto
    then have "st_name t \<notin> set (map st_name (filter P tasks))" by auto
    then show ?thesis using True by (simp add: count_notin)
  next
    case False
    then have "t \<in> set tasks" "st_name u \<noteq> st_name t" using Cons.prems by auto
    then show ?thesis using Cons by simp
  qed
qed simp

lemma count_event_tasks:
  "count_list (concat (map (\<lambda>e. case event_task e of Some n \<Rightarrow> [n] | None \<Rightarrow> []) es)) ''ProcessHeartbeatTask''
     = heartbeats es"
proof (induction es)
  case (Cons e es)
  have "event_task e = Some ''ProcessHeartbeatTask'' \<longleftrightarrow> e = RunHeartbeat" by (cases e) simp_all
  then show ?case using Cons by (cases "event_task e") (auto simp: heartbeats_def)
qed (simp add: heartbeats_def)

lemma heartbeats_append [simp]: "heartbeats (es @ es') = heartbeats es + heartbeats es'"
  by (simp add: heartbeats_def)

lemma count_filter_pass: "P x \<Longrightarrow> count_list (filter P xs) x = count_list xs x"
  by (induction xs) auto

lemma scheduler_pass_names:
  assumes "scheduler_pass (\<lambda>t. False) now tasks = (tasks', runs, alarm)"
  shows "tasks' = map (after_pass now) tasks" and "map fst runs = map st_name (filter (task_due now) tasks)"
  using assms scheduler_loop_ok[of tasks now "\<lambda>t. False" "- 1"]
  by (auto simp: scheduler_pass_def Let_def run_entry_def)

lemma named_task:
  assumes "distinct (map st_name tasks)" and "t \<in> set tasks" and "u \<in> set tasks" and "st_name u = st_name t"
  shows "u = t"
  using assms by (auto simp: distinct_map inj_on_def)

text \<open>What a pass, complete or not, does to the heartbeat task: it serves it or leaves it alone.\<close>

lemma pass_heartbeats:
  assumes "scheduler_pass throws now tasks = (tasks', runs, alarm)" and "distinct (map st_name tasks)"
    and "t \<in> set tasks" and "st_name t = ''ProcessHeartbeatTask''" and "\<not> throws t"
    and "pass_events runs es"
  shows "map st_name tasks' = map st_name tasks"
    and "\<exists>cs. set cs \<subseteq> {now} \<and> fold after_pass cs t \<in> set tasks' \<and> heartbeats es = runs_of cs t"
proof -
  obtain before rest where tasks: "tasks = before @ rest"
    and r: "pr_tasks (scheduler_loop throws now (- 1) tasks) = map (after_pass now) before @ rest"
      "pr_runs (scheduler_loop throws now (- 1) tasks) = map (run_entry now) (filter (task_due now) before @ take 1 rest)"
    and stop: "rest \<noteq> [] \<Longrightarrow> task_due now (hd rest) \<and> throws (hd rest)"
    by (rule scheduler_loop_cases[of tasks now throws "- 1"]) blast
  have tasks': "tasks' = map (after_pass now) before @ rest"
    and "runs = map (run_entry now) (filter (task_due now) before @ take 1 rest)"
    using assms(1) by (simp_all only: scheduler_pass_def Let_def r prod.inject)
  then have runs: "map fst runs = map st_name (filter (task_due now) before @ take 1 rest)"
    by (simp add: run_entry_def comp_def)
  show "map st_name tasks' = map st_name tasks" by (simp add: tasks tasks' comp_def)
  have beats: "heartbeats es = count_list (map fst runs) ''ProcessHeartbeatTask''"
    using assms(6) count_event_tasks[of es]
    by (simp add: pass_events_def count_filter_pass robot_task_names_def)
  have d: "distinct (map st_name before)" using assms(2) by (simp add: tasks)
  have rest: "st_name t \<notin> set (map st_name (take 1 rest))"
  proof (cases rest)
    case (Cons u rest')
    then have "u \<in> set tasks" "t \<noteq> u" using stop assms(5) by (auto simp: tasks)
    with named_task[OF assms(2) \<open>u \<in> set tasks\<close> assms(3)] Cons show ?thesis by auto
  qed simp
  show "\<exists>cs. set cs \<subseteq> {now} \<and> fold after_pass cs t \<in> set tasks' \<and> heartbeats es = runs_of cs t"
  proof (cases "t \<in> set before")
    case True
    have "heartbeats es = (if task_due now t then 1 else 0)"
      using count_filter_name[OF d True, of "task_due now"] rest assms(4)
      by (simp add: beats runs count_notin)
    then show ?thesis using True by (intro exI[where x = "[now]"]) (simp add: tasks')
  next
    case False
    then have "t \<in> set rest" using assms(3) by (simp add: tasks)
    then have "st_name t \<notin> set (map st_name before)" using assms(2) by (force simp: tasks)
    then have "st_name t \<notin> set (map fst runs)" using rest by (auto simp: runs)
    then have "heartbeats es = 0" by (simp add: beats count_notin assms(4) del: set_map)
    then show ?thesis using \<open>t \<in> set rest\<close> by (intro exI[where x = "[]"]) (simp add: tasks')
  qed
qed

lemma program_heartbeats:
  assumes "program_runs io s tasks ps s' tasks'" and "distinct (map st_name tasks)"
    and "t \<in> set tasks" and "st_name t = ''ProcessHeartbeatTask''"
  shows "robot_runs io s (log_events ps) s' \<and> map st_name tasks' = map st_name tasks
    \<and> (\<exists>cs. set cs \<subseteq> set (pass_clocks ps) \<and> fold after_pass cs t \<in> set tasks'
          \<and> heartbeats (log_events ps) = runs_of cs t)"
  using assms
proof (induction rule: program_runs.induct)
  case (program_start s tasks)
  then show ?case by (auto simp: runs_nil heartbeats_def intro: exI[where x = "[]"])
next
  case (program_pass s tasks ps s1 tasks1 throws now tasks2 runs alarm es s2)
  obtain cs where IH: "robot_runs io s (log_events ps) s1" "map st_name tasks1 = map st_name tasks"
    "set cs \<subseteq> set (pass_clocks ps)" "fold after_pass cs t \<in> set tasks1" "heartbeats (log_events ps) = runs_of cs t"
    using program_pass.IH[OF program_pass.prems] by auto
  let ?t = "fold after_pass cs t"
  have n: "st_name ?t = ''ProcessHeartbeatTask''" using program_pass.prems(3) by simp
  have d: "distinct (map st_name tasks1)" using program_pass.prems(1) by (simp only: IH(2))
  note pass = pass_heartbeats[OF program_pass.hyps(2) d IH(4) n program_pass.hyps(3)[OF n] program_pass.hyps(4)]
  obtain cs' where cs': "set cs' \<subseteq> {now}" "fold after_pass cs' ?t \<in> set tasks2" "heartbeats es = runs_of cs' ?t"
    using pass(2) by blast
  have "set (cs @ cs') \<subseteq> set (pass_clocks (ps @ [(now, es)])) \<and> fold after_pass (cs @ cs') t \<in> set tasks2
      \<and> heartbeats (log_events (ps @ [(now, es)])) = runs_of (cs @ cs') t"
    using IH(3,5) cs' by (auto simp: runs_of_append)
  moreover have "robot_runs io s (log_events (ps @ [(now, es)])) s2"
    using runs_append[OF IH(1) program_pass.hyps(5)] by simp
  ultimately show ?case using pass(1) IH(2) by metis
qed

lemma program_runs_append:
  assumes "program_runs io s tasks ps s1 tasks1" and "program_runs io s1 tasks1 ps' s2 tasks2"
  shows "program_runs io s tasks (ps @ ps') s2 tasks2"
  using assms(2,1)
proof (induction rule: program_runs.induct)
  case (program_pass s1 tasks1 ps' s2 tasks2 throws now tasks3 runs alarm es s3)
  then show ?case using program_runs.program_pass[OF program_pass.IH] by (simp del: append_assoc add: append_assoc[symmetric])
qed simp

section \<open>The timeout in real time\<close>

lemma program_ok:
  "program_runs io s tasks ps s' tasks' \<Longrightarrow> robot_ok s \<Longrightarrow> robot_ok s'"
  by (induction rule: program_runs.induct) (auto intro: robot_ok_runs)

lemma grid_runs_from:
  fixes k :: nat and hb :: sched_task
  assumes g: "at_grid k hb" "mTaskRateMs hb = 20"
    and clocks: "\<forall>c \<in> set clocks. T0 \<le> unat c \<and> unat c \<le> T1" and "T1 < 2 ^ 63"
  shows "runs_of clocks hb = 0 \<or> (k + runs_of clocks hb - 1) * 20000 \<le> T1"
    and "at_grid (k + runs_of clocks hb) (fold after_pass clocks hb)"
proof -
  have P: "period_us hb = 20000" by (simp add: period_us_def g(2))
  have "T1 + unat (period_us hb) < 2 ^ 64" using assms(4) by (simp add: P)
  from grid_runs[OF g(1) _ _ clocks this] show
    "runs_of clocks hb = 0 \<or> (k + runs_of clocks hb - 1) * 20000 \<le> T1"
    "at_grid (k + runs_of clocks hb) (fold after_pass clocks hb)"
    by (simp_all add: P g(2))
qed

text \<open>How many heartbeats fall between two clock readings: \<open>before\<close> are the passes until \<open>T0\<close>, \<open>ps\<close> those
  from then to \<open>T1\<close>, and the heartbeat task is at most one period behind at \<open>T0\<close>.\<close>

lemma heartbeats_real_time:
  assumes "distinct (map st_name tasks0)" and "Task_new 20 ''ProcessHeartbeatTask'' \<in> set tasks0"
    and "program_runs io s0 tasks0 before s tasks" and "program_runs io s tasks ps s' tasks'"
    and "\<forall>c \<in> set (pass_clocks before). unat c \<le> T0" and "\<forall>c \<in> set (pass_clocks ps). unat c \<le> T1"
    and "T0 < 2 ^ 63" and "T1 < 2 ^ 63"
    and "hb \<in> set tasks" and "st_name hb = ''ProcessHeartbeatTask''" and "T0 \<le> unat (timeNextUpdateuS hb) + 20000"
    and "hb' \<in> set tasks'" and "st_name hb' = ''ProcessHeartbeatTask''"
  shows "T1 < T0 + n * 20000 \<Longrightarrow> heartbeats (log_events ps) < n + 2"
    and "T0 + n * 20000 < T1 \<Longrightarrow> T1 \<le> unat (timeNextUpdateuS hb') \<Longrightarrow> n \<le> heartbeats (log_events ps)"
proof -
  let ?t = "Task_new 20 ''ProcessHeartbeatTask''" and ?n = "heartbeats (log_events ps)"
  have name: "st_name ?t = ''ProcessHeartbeatTask''" by (simp add: Task_new_def)
  obtain cs where cs: "map st_name tasks = map st_name tasks0" "set cs \<subseteq> set (pass_clocks before)"
    "fold after_pass cs ?t \<in> set tasks"
    using program_heartbeats[OF assms(3,1,2) name] by auto
  have d: "distinct (map st_name tasks)" using assms(1) by (simp only: cs(1))
  have hb: "hb = fold after_pass cs ?t"
    by (rule named_task[OF d cs(3) assms(9)]) (simp add: assms(10) name)
  obtain cs' where cs': "map st_name tasks' = map st_name tasks" "set cs' \<subseteq> set (pass_clocks ps)"
    "fold after_pass cs' hb \<in> set tasks'" "?n = runs_of cs' hb"
    using program_heartbeats[OF assms(4) d assms(9,10)] by auto
  have d': "distinct (map st_name tasks')" using d by (simp only: cs'(1))
  have hb': "hb' = fold after_pass cs' hb"
    by (rule named_task[OF d' cs'(3) assms(12)]) (simp add: assms(10,13))
  define k where "k = runs_of cs ?t"
  have "at_grid 0 ?t" "mTaskRateMs ?t = 20" by (simp_all add: at_grid_def Task_new_def)
  moreover have "\<forall>c \<in> set cs. 0 \<le> unat c \<and> unat c \<le> T0" using cs(2) assms(5) by auto
  ultimately have "at_grid (0 + k) hb" "k = 0 \<or> (0 + k - 1) * 20000 \<le> T0"
    using grid_runs_from[OF _ _ _ assms(7)] by (simp_all only: k_def hb)
  then have grid: "at_grid k hb" and k: "k = 0 \<or> (k - 1) * 20000 \<le> T0" by simp_all
  have rate: "mTaskRateMs hb = 20" by (simp add: hb Task_new_def)
  have "\<forall>c \<in> set cs'. 0 \<le> unat c \<and> unat c \<le> T1" using cs'(2) assms(6) by auto
  note after = grid_runs_from[OF grid rate this assms(8), folded cs'(4) hb']
  have due: "unat (timeNextUpdateuS hb) = k * 20000" "unat (timeNextUpdateuS hb') = (k + ?n) * 20000"
    using grid after(2) rate by (simp_all add: at_grid_def period_us_def hb')
  show "T1 < T0 + n * 20000 \<Longrightarrow> ?n < n + 2" using after(1) assms(11) due(1) by auto
  show "T0 + n * 20000 < T1 \<Longrightarrow> T1 \<le> unat (timeNextUpdateuS hb') \<Longrightarrow> n \<le> ?n"
    using k due(2) by auto
qed

lemma sorted_clocks:
  assumes "sorted (map unat (cs @ c # cs'))"
  shows "\<forall>x \<in> set cs. 0 \<le> unat x \<and> unat x \<le> unat c"
    and "\<forall>x \<in> set (c # cs'). 0 \<le> unat x \<and> unat x \<le> unat (last (c # cs'))"
proof -
  show "\<forall>x \<in> set cs. 0 \<le> unat x \<and> unat x \<le> unat c"
    using assms by (auto simp: sorted_append)
  have "sorted (map unat (c # cs'))" using assms by (simp add: sorted_append)
  then have "unat x \<le> unat (last (c # cs'))" if "x \<in> set (c # cs')" for x
    using that by (induction cs' arbitrary: c) auto
  then show "\<forall>x \<in> set (c # cs'). 0 \<le> unat x \<and> unat x \<le> unat (last (c # cs'))" by blast
qed

text \<open>C18. The failover timeout in real time is one second. Let a pass of the scheduler at the clock \<open>t0\<close>
  receive a message while the heartbeat task is at most one period behind, and let no message follow.
  Whatever the clocks of the passes, whichever other tasks throw and end their pass early, and however
  the callbacks interleave, the external controller stays connected while every pass is less than 0.96 s after \<open>t0\<close>; and when the
  last pass is more than 1 s after \<open>t0\<close> and has left the heartbeat task not overdue, it is disconnected
  and the next periodic call of the robot makes the failover code active.\<close>

theorem external_timeout_real_time:
  fixes attached :: bool and position :: "u16 \<Rightarrow> real"
  assumes "distinct (map st_name tasks0)" and "Task_new 20 ''ProcessHeartbeatTask'' \<in> set tasks0"
    and "program_runs io (Robot_new pn task timer) tasks0 before s tasks"
    and "program_runs io s tasks ((t0, RunReceive queue # es0) # ps) s' tasks'"
    and "taken queue \<noteq> []" and "\<not> list_ex speaks (es0 @ log_events ps)"
    and "sorted (map unat (pass_clocks before @ t0 # pass_clocks ps))"
    and "unat (last (t0 # pass_clocks ps)) < 2 ^ 63"
    and "hb \<in> set tasks" and "st_name hb = ''ProcessHeartbeatTask''"
    and "unat t0 \<le> unat (timeNextUpdateuS hb) + 20000"
    and "hb' \<in> set tasks'" and "st_name hb' = ''ProcessHeartbeatTask''"
  defines "now \<equiv> unat (last (t0 # pass_clocks ps))"
  shows "(now < unat t0 + 960000 \<longrightarrow> isExternalControl s')
    \<and> (unat t0 + 1000000 < now \<and> now \<le> unat (timeNextUpdateuS hb') \<longrightarrow>
          \<not> isExternalControl s' \<and> failoverActive (RobotPeriodic io attached position s'))"
proof -
  let ?ps = "(t0, RunReceive queue # es0) # ps"
  have ordered: "sorted (map unat (pass_clocks before @ t0 # pass_clocks ps))" using assms(7) by simp
  note clocks = sorted_clocks[OF ordered]
  have clocks': "\<forall>c \<in> set (pass_clocks before). unat c \<le> unat t0" "\<forall>c \<in> set (pass_clocks ?ps). unat c \<le> now"
    using clocks by (simp_all add: now_def)
  have now63: "now < 2 ^ 63" using assms(8) by (simp add: now_def)
  have "unat t0 < 2 ^ 63" using clocks'(2) now63 by auto
  note beats = heartbeats_real_time[OF assms(1-4) clocks' this now63 assms(9-13)]
  have d: "distinct (map st_name tasks)"
    using program_heartbeats[OF assms(3,1,2)] assms(1) by (simp add: Task_new_def)
  have run: "robot_runs io s (RunReceive queue # es0 @ log_events ps) s'"
    using program_heartbeats[OF assms(4) d assms(9,10)] by simp
  obtain s1 where s1: "robot_step io s (RunReceive queue) s1" "robot_runs io s1 (es0 @ log_events ps) s'"
    using run by (auto elim: robot_runs_cons)
  have "link s1 = 50" using link_step[OF s1(1)] assms(5) by (simp add: speaks_def)
  moreover have "heartbeats (log_events ?ps) = heartbeats (es0 @ log_events ps)" by (simp add: heartbeats_def)
  ultimately have connected: "isExternalControl s' \<longleftrightarrow> heartbeats (log_events ?ps) < 50"
    using link_silent[OF s1(2) assms(6)] by (auto simp: isExternalControl_link)
  have "now < unat t0 + 960000 \<Longrightarrow> isExternalControl s'"
    using beats(1)[of 48] connected by simp
  moreover have "unat t0 + 1000000 < now \<Longrightarrow> now \<le> unat (timeNextUpdateuS hb') \<Longrightarrow> \<not> isExternalControl s'"
    using beats(2)[of 50] connected by simp
  ultimately show ?thesis using RobotPeriodic_failover(2)[of s'] by blast
qed

text \<open>The hand-over has 3.96 seconds to spare. Let a motor have just been commanded at the clock \<open>T0\<close>,
  and let the external controller be silent from then on, whatever the passes, the callbacks and the
  exceptions of tasks do. The motor is the same device, never deleted in between, while every clock
  reading is less than 4.96 s after \<open>T0\<close>; and when the last one is more than 1 s after \<open>T0\<close> with the
  heartbeat task not overdue, the next periodic call makes the failover code active and puts its
  commands into the mailbox.\<close>

theorem handover_real_time:
  fixes attached :: bool and position :: "u16 \<Rightarrow> real"
  assumes "distinct (map st_name tasks0)" and "Task_new 20 ''ProcessHeartbeatTask'' \<in> set tasks0"
    and "program_runs io (Robot_new pn task timer) tasks0 before s tasks" and "program_runs io s tasks ps s' tasks'"
    and "\<forall>c \<in> set (pass_clocks before). unat c \<le> T0" and "\<forall>c \<in> set (pass_clocks ps). unat c \<le> now"
    and "T0 < 2 ^ 63" and "now < 2 ^ 63"
    and "hb \<in> set tasks" and "st_name hb = ''ProcessHeartbeatTask''" and "T0 \<le> unat (timeNextUpdateuS hb) + 20000"
    and "hb' \<in> set tasks'" and "st_name hb' = ''ProcessHeartbeatTask''"
    and "\<not> list_ex speaks (log_events ps)" and "getMotor i (rb_motors s) = Some dev" and "motor_ticks i (rb_motors s) = 250"
    and "failover_fits (io_serializers io)"
  defines "s'' \<equiv> RobotPeriodic io attached position s'"
  shows "(now < T0 + 4960000 \<longrightarrow> getMotor i (rb_motors s'') = Some dev)
    \<and> (T0 + 1000000 < now \<and> now \<le> unat (timeNextUpdateuS hb') \<longrightarrow> failoverActive s''
        \<and> waiting (net (rb_comms s'')) ''motorcontrol'' =
            Some (sr_motorControl (io_serializers io) (fm_motorControl (rf_msgs (robotFailover s'')))))"
proof -
  note beats = heartbeats_real_time[OF assms(1-13)]
  have named: "st_name (Task_new 20 ''ProcessHeartbeatTask'') = ''ProcessHeartbeatTask''" by (simp add: Task_new_def)
  have start: "robot_runs io (Robot_new pn task timer) (log_events before) s" and d: "distinct (map st_name tasks)"
    using program_heartbeats[OF assms(3,1,2) named] assms(1) by simp_all
  have run: "robot_runs io s (log_events ps) s'"
    using program_heartbeats[OF assms(4) d assms(9,10)] by simp
  have ok: "robot_ok s" "motor_configured (rb_motors s)"
    using robot_ok_runs[OF start robot_ok_new] motors_configured[OF start] by simp_all
  have "getMotor i (rb_motors s'') = Some dev" if "now < T0 + 4960000"
    using motor_survives[OF run ok assms(15)] beats(1)[of 248] that assms(16)
    by (simp add: s''_def RobotPeriodic_frame)
  moreover have "failoverActive s'' \<and> waiting (net (rb_comms s'')) ''motorcontrol'' =
      Some (sr_motorControl (io_serializers io) (fm_motorControl (rf_msgs (robotFailover s''))))"
    if "T0 + 1000000 < now" "now \<le> unat (timeNextUpdateuS hb')"
  proof -
    have "0 \<le> link s" "link s \<le> 50" using ok(1) by (simp_all add: robot_ok_def external_ok_def)
    with link_silent[OF run assms(14)] beats(2)[of 50] that have n: "\<not> isExternalControl s'"
      by (simp add: isExternalControl_link)
    show ?thesis
      using periodic_publishes[OF robot_ok_runs[OF run ok(1)] n assms(17), where attached = attached]
        RobotPeriodic_failover(2)[OF n]
      by (simp add: s''_def)
  qed
  ultimately show ?thesis by blast
qed

text \<open>The tasks \<open>RobotInit\<close> schedules meet the assumptions on the schedule.\<close>

lemma RobotInit_tasks_named:
  "distinct (map st_name RobotInit_tasks)" "Task_new 20 ''ProcessHeartbeatTask'' \<in> set RobotInit_tasks"
  by (simp_all add: RobotInit_tasks_eq Task_new_def)

text \<open>A schedule of 20 ms tasks with a pass every 20 ms.\<close>

definition example_schedule :: "string list \<Rightarrow> nat \<Rightarrow> sched_task list" where
  "example_schedule names n = map (\<lambda>name. \<lparr>st_name = name, mTaskRateMs = 20, timeNextUpdateuS = of_nat (20000 * n),
       timeLastUpdateuS = of_nat (20000 * (n - 1))\<rparr>) names"

definition example_clock :: "nat \<Rightarrow> u64" where
  "example_clock n = of_nat (20000 * n + 1)"

lemma unat_example_clock: "n < 100 \<Longrightarrow> unat (example_clock n) = 20000 * n + 1"
  by (simp only: example_clock_def unat_of_nat) simp

abbreviation event_names :: "robot_event list \<Rightarrow> string list" where
  "event_names es \<equiv> concat (map (\<lambda>e. case event_task e of Some n \<Rightarrow> [n] | None \<Rightarrow> []) es)"

lemma example_schedule_step:
  assumes "n < 100" and "program_runs io s tasks ps s1 (example_schedule names n)"
    and "set names \<subseteq> set robot_task_names" and "event_names es = names" and "robot_runs io s1 es s2"
  shows "program_runs io s tasks (ps @ [(example_clock n, es)]) s2 (example_schedule names (n + 1))"
proof -
  let ?now = "example_clock n"
  obtain tasks' runs alarm where p: "scheduler_pass (\<lambda>t. False) ?now (example_schedule names n) = (tasks', runs, alarm)"
    using prod_cases3 by blast
  have "unat (of_nat (20000 * n) :: u64) = 20000 * n" "unat ?now = 20000 * n + 1"
    using assms(1) by (simp_all only: unat_of_nat unat_example_clock) simp
  then have due: "task_due ?now t" if "t \<in> set (example_schedule names n)" for t
    using that by (auto simp: example_schedule_def task_due_def word_less_nat_alt)
  have next_time: "of_nat (20000 * (n + 1)) = of_nat (20000 * n) + (20000 :: u64)" by simp
  have "map (after_pass ?now) (example_schedule names n) = map advance_task (example_schedule names n)"
    by (rule map_cong[OF refl]) (simp only: after_pass_def due if_True)
  also have "\<dots> = example_schedule names (n + 1)"
    using next_time by (simp add: example_schedule_def advance_task_def period_us_def del: of_nat_mult of_nat_add)
  finally have "tasks' = example_schedule names (n + 1)" using scheduler_pass_names(1)[OF p] by simp
  moreover have "map fst runs = names"
    using scheduler_pass_names(2)[OF p] due by (simp add: filter_True) (simp add: example_schedule_def comp_def)
  then have "pass_events runs es"
    using assms(3) by (simp add: pass_events_def assms(4) filter_True subset_iff)
  ultimately show ?thesis using program_pass[OF assms(2) p _ _ assms(5)] by simp
qed

text \<open>The passes from the \<open>n\<close>-th on, each with the same events, from states that all satisfy \<open>P\<close>.\<close>

lemma example_schedule_runs:
  assumes "n + m \<le> 100" and "program_runs io s tasks ps s1 (example_schedule names n)" and "P s1"
    and "set names \<subseteq> set robot_task_names" and "event_names es = names"
    and "\<And>s. P s \<Longrightarrow> \<exists>s'. robot_runs io s es s' \<and> P s'"
  shows "\<exists>s2. program_runs io s1 (example_schedule names n) (map (\<lambda>k. (example_clock k, es)) [n..<n + m]) s2
      (example_schedule names (n + m)) \<and> P s2"
  using assms(1)
proof (induction m)
  case 0
  then show ?case using program_start assms(3) by force
next
  case (Suc m)
  then obtain s2 where r: "program_runs io s1 (example_schedule names n) (map (\<lambda>k. (example_clock k, es)) [n..<n + m]) s2
      (example_schedule names (n + m))" "P s2" by auto
  obtain s3 where "robot_runs io s2 es s3" "P s3" using assms(6)[OF r(2)] by blast
  then show ?case using example_schedule_step[OF _ r(1) assms(4,5)] Suc.prems by auto
qed

lemma example_clocks:
  assumes "0 < m" "m \<le> 100"
  shows "sorted (map unat (map example_clock [0..<m]))" and "unat (last (map example_clock [0..<m])) = 20000 * (m - 1) + 1"
    and "c \<in> set (map example_clock [0..<m]) \<Longrightarrow> unat c \<le> 20000 * (m - 1) + 1"
proof -
  have *: "map unat (map example_clock [0..<m]) = map (\<lambda>n. 20000 * n + 1) [0..<m]"
    using assms(2) by (simp add: unat_example_clock)
  have "sorted (map (\<lambda>n. 20000 * n + 1 :: nat) [0..<m])" by (intro sorted_map_mono) (simp_all add: mono_on_def)
  then show "sorted (map unat (map example_clock [0..<m]))" by (simp only: *)
  show "unat (last (map example_clock [0..<m])) = 20000 * (m - 1) + 1"
    using assms by (simp add: last_map unat_example_clock)
  show "c \<in> set (map example_clock [0..<m]) \<Longrightarrow> unat c \<le> 20000 * (m - 1) + 1"
    using assms by (auto simp: unat_example_clock)
qed

lemma example_heartbeat_task:
  fixes n :: nat
  defines "hb \<equiv> \<lparr>st_name = ''ProcessHeartbeatTask'', mTaskRateMs = 20, timeNextUpdateuS = of_nat (20000 * n),
       timeLastUpdateuS = of_nat (20000 * (n - 1))\<rparr>"
  assumes "''ProcessHeartbeatTask'' \<in> set names"
  shows "hb \<in> set (example_schedule names n)" and "st_name hb = ''ProcessHeartbeatTask''"
    and "n < 100 \<Longrightarrow> unat (timeNextUpdateuS hb) = 20000 * n"
proof -
  show "hb \<in> set (example_schedule names n)" "st_name hb = ''ProcessHeartbeatTask''"
    using assms(2) by (auto simp: hb_def example_schedule_def)
  have "n < 100 \<Longrightarrow> unat (of_nat (20000 * n) :: u64) = 20000 * n" by (simp only: unat_of_nat) simp
  then show "n < 100 \<Longrightarrow> unat (timeNextUpdateuS hb) = 20000 * n" by (simp only: hb_def sched_task.select_convs)
qed

theorem external_timeout_real_time_witness:
  "\<exists>s. program_runs example_io example_robot (example_schedule [''ReceiveMessagesTask'', ''ProcessHeartbeatTask''] 0)
      ((example_clock 0, [RunReceive [DishMessage ''motorcontrol'' [7]], RunHeartbeat])
        # map (\<lambda>k. (example_clock k, [RunReceive [], RunHeartbeat])) [1..<52]) s
      (example_schedule [''ReceiveMessagesTask'', ''ProcessHeartbeatTask''] 52)
    \<and> failoverActive (RobotPeriodic example_io True (\<lambda>i. 0) s)"
proof -
  let ?names = "[''ReceiveMessagesTask'', ''ProcessHeartbeatTask'']" and ?q = "[DishMessage ''motorcontrol'' [7]]"
  let ?es = "[RunReceive [], RunHeartbeat]" and ?ps = "map (\<lambda>k. (example_clock k, [RunReceive [], RunHeartbeat])) [1..<52]"
  let ?s1 = "ProcessHeartbeatTask_run (ReceiveMessagesTask_run ?q example_robot)"
  have receive: "robot_runs example_io s [RunReceive queue, RunHeartbeat] (ProcessHeartbeatTask_run (ReceiveMessagesTask_run queue s))"
    for queue s by (rule runs_cons[OF step_receive run_one[OF step_heartbeat]])
  have names: "set ?names \<subseteq> set robot_task_names" by (simp add: robot_task_names_def)
  have p0: "program_runs example_io example_robot (example_schedule ?names 0) [(example_clock 0, [RunReceive ?q, RunHeartbeat])]
      ?s1 (example_schedule ?names 1)"
    using example_schedule_step[OF _ program_start names _ receive[of example_robot ?q], of 0] by simp
  obtain s where "program_runs example_io ?s1 (example_schedule ?names 1) ?ps s (example_schedule ?names 52)"
    using example_schedule_runs[OF _ p0 _ names, where m = 51 and es = ?es and P = "\<lambda>s. True"] receive by auto
  from program_runs_append[OF p0 this]
  have run: "program_runs example_io example_robot (example_schedule ?names 0)
      ((example_clock 0, RunReceive ?q # [RunHeartbeat]) # ?ps) s (example_schedule ?names 52)" by simp
  have new: "Task_new 20 ''ProcessHeartbeatTask'' \<in> set (example_schedule ?names 0)" "distinct (map st_name (example_schedule ?names 0))"
    by (simp_all add: example_schedule_def Task_new_def)
  have quiet: "\<not> list_ex speaks ([RunHeartbeat] @ log_events ?ps)"
    by (auto simp: list_ex_iff speaks_def)
  have clocks: "example_clock 0 # pass_clocks ?ps = map example_clock [0..<52]"
    by (simp add: comp_def upt_conv_Cons)
  have "''ProcessHeartbeatTask'' \<in> set ?names" by simp
  note hb = example_heartbeat_task[OF this]
  have ordered: "sorted (map unat (pass_clocks [] @ example_clock 0 # pass_clocks ?ps))"
    by (simp only: clocks list.map(1) append_Nil example_clocks(1))
  have last: "unat (last (example_clock 0 # pass_clocks ?ps)) = 1020001"
    by (simp only: clocks example_clocks(2))
  from external_timeout_real_time[OF new(2,1) program_start run _ quiet ordered _ hb(1,2)[of 0] _ hb(1,2)[of 52], of True "\<lambda>i. 0",
      unfolded last]
  have "failoverActive (RobotPeriodic example_io True (\<lambda>i. 0) s)"
    using hb(3)[of 0] hb(3)[of 52] unat_example_clock[of 0] by (simp add: EAGAIN_def)
  with run show ?thesis by auto
qed

text \<open>Tasks that find no message.\<close>

lemma robot_motor_config_idle:
  assumes "waiting (net (rb_comms s)) ''motorconfig'' = None"
  shows "robot_motor_config io l s = (None, s)"
  using assms
  by (simp add: robot_motor_config_def motor_config_run_def getMessage_def sm_count_def waiting_def)

lemma robot_motor_values_idle:
  assumes "waiting (net (rb_comms s)) ''motorcontrol'' = None"
  shows "fst (robot_motor_values io l now s) = None"
    and "rb_comms (snd (robot_motor_values io l now s)) = rb_comms s"
  using assms
  by (simp_all add: robot_motor_values_def motor_values_run_def getMessage_def sm_count_def waiting_def split_beta)

text \<open>One message commands motor 3, and then the external controller is silent for a second.\<close>

definition commanding_queue :: "dish_event list" where
  "commanding_queue = [DishMessage ''motorconfig'' [1], DishMessage ''motorcontrol''
     (sr_motorControl (io_serializers resting_io) (failover_controls [0, 0, 0, 0] [0, 0, 0, 0]))]"

definition motor_tasks :: "dish_event list \<Rightarrow> robot_event list" where
  "motor_tasks queue = [RunReceive queue, RunHeartbeat, RunMotorConfig True, RunMotorValues True 0]"

lemma commanded_robot:
  "\<exists>s. robot_runs resting_io example_robot (motor_tasks commanding_queue) s \<and> motorExists 3 (rb_motors s)
     \<and> motor_ticks 3 (rb_motors s) = 250
     \<and> waiting (net (rb_comms s)) ''motorconfig'' = None \<and> waiting (net (rb_comms s)) ''motorcontrol'' = None"
proof -
  let ?w = "sr_motorControl (io_serializers resting_io) (failover_controls [0, 0, 0, 0] [0, 0, 0, 0])"
  let ?s1 = "ReceiveMessagesTask_run commanding_queue example_robot"
  let ?s2 = "ProcessHeartbeatTask_run ?s1"
  obtain r3 s3 where c: "robot_motor_config resting_io True ?s2 = (r3, s3)" by fastforce
  obtain r4 s4 where v: "robot_motor_values resting_io True 0 s3 = (r4, s4)" by fastforce
  have len: "length ?w = 14"
    by (simp add: resting_io_def example_io_def failover_controls_def arm_controls_def)
  have new: "network_ok (net (rb_comms example_robot))"
    using robot_ok_new[of example_names example_task "RTTimer_new 0"] by (simp add: robot_ok_def)
  have "waiting (net (rb_comms ?s1)) g = (if g = ''motorcontrol'' then Some ?w
      else if g = ''motorconfig'' then Some [1] else waiting (net (rb_comms example_robot)) g)" for g
    using pump_loop_waiting[OF new, of commanding_queue g]
    by (simp add: receive_comms commanding_queue_def EAGAIN_def len)
  then have w2: "waiting (net (rb_comms ?s2)) ''motorcontrol'' = Some ?w" "waiting (net (rb_comms ?s2)) ''motorconfig'' = Some [1]"
    by (simp_all add: ProcessHeartbeatTask_run_def)
  obtain n1 where box: "getMessage ''motorconfig'' (net (rb_comms ?s2)) = (Some [1], n1)"
    using w2(2) getMessage_result[of "''motorconfig''" "net (rb_comms ?s2)"]
    by (cases "getMessage ''motorconfig'' (net (rb_comms ?s2))") simp
  have motors: "rb_motors ?s2 = MotorManager_new"
    by (simp add: ProcessHeartbeatTask_run_def ReceiveMessagesTask_run_def Robot_new_def motor_processHeartbeat_def
        heartbeat_loop_def MotorManager_new_def sm_keys_def)
  have net3: "net (rb_comms s3) = snd (getMessage ''motorconfig'' (net (rb_comms ?s2)))"
    using c motor_config_task_network[of "io_parse_config resting_io" True "io_modeOf resting_io" "io_motor_resp resting_io"
        CKEncoderManager_new "net (rb_comms ?s2)" "rb_motors ?s2" "rb_motor_calls ?s2"]
    by (auto simp: robot_motor_config_def split: prod.splits)
  have "r3 = None" "mMotorMsgs (motorConfigs (rb_motors s3)) = [(3, [(ID_FD, PInt 3)])]"
    using c by (auto simp: robot_motor_config_def motor_config_run_def box motors resting_io_def motorExists_def
        MotorManager_new_def setMotorsConfigMsg_def msg_id_def getInt_def sm_count_def sm_get_def Let_def)
  then have conf: "r3 = None" "sm_count (mMotorMsgs (motorConfigs (rb_motors s3))) 3"
    by (simp_all add: sm_count_def sm_get_def)
  have run: "robot_runs resting_io example_robot [RunReceive commanding_queue, RunHeartbeat, RunMotorConfig True] s3"
    by (intro runs_cons[OF step_receive] runs_cons[OF step_heartbeat] run_one step_motor_config[OF c]) (simp add: conf(1))
  then have ok: "robot_ok s3" by (rule robot_ok_runs[OF _ robot_ok_new])
  have "failover_message_waits resting_io s3"
    unfolding failover_message_waits_def using w2(1)
    by (intro exI[where x = "[0, 0, 0, 0]"]) (simp add: net3)
  from motor_values_reloads[OF v ok this resting_reads_back _ conf(2)]
  have m: "r4 = None" "motorExists 3 (rb_motors s4)" "motor_ticks 3 (rb_motors s4) = 250"
    by (simp_all add: MASTER_IDS_def kMaxHeartbeatTicks_def)
  have net4: "net (rb_comms s4) = snd (getMessage ''motorcontrol'' (net (rb_comms s3)))"
    using v motor_values_task_ok(2) ok by (fastforce simp: robot_motor_values_def robot_ok_def split: prod.splits)
  have "robot_runs resting_io example_robot (motor_tasks commanding_queue) s4"
    using runs_append[OF run run_one[OF step_motor_values[OF v]]] m(1) by (simp add: motor_tasks_def)
  then show ?thesis using m net3 net4 by auto
qed

theorem handover_real_time_witness:
  "\<exists>s1 s tasks tasks'. robot_runs resting_io example_robot (motor_tasks commanding_queue) s1
    \<and> program_runs resting_io s1 tasks (map (\<lambda>k. (example_clock k, motor_tasks [])) [1..<52]) s tasks'
    \<and> getMotor 3 (rb_motors (RobotPeriodic resting_io True (\<lambda>i. 0) s)) = getMotor 3 (rb_motors s1)
    \<and> motorExists 3 (rb_motors s1) \<and> failoverActive (RobotPeriodic resting_io True (\<lambda>i. 0) s)"
proof -
  let ?names = "[''ReceiveMessagesTask'', ''ProcessHeartbeatTask'', ''ApplyMotorConfigTask'', ''ApplyMotorValuesTask'']"
  let ?tasks = "example_schedule ?names" and ?ps = "map (\<lambda>k. (example_clock k, motor_tasks [])) [1..<52]"
  define idle where "idle s \<longleftrightarrow> network_ok (net (rb_comms s)) \<and> waiting (net (rb_comms s)) ''motorconfig'' = None
    \<and> waiting (net (rb_comms s)) ''motorcontrol'' = None" for s :: robot
  obtain s1 where s1: "robot_runs resting_io example_robot (motor_tasks commanding_queue) s1"
    "motorExists 3 (rb_motors s1)" "motor_ticks 3 (rb_motors s1) = 250"
    "waiting (net (rb_comms s1)) ''motorconfig'' = None" "waiting (net (rb_comms s1)) ''motorcontrol'' = None"
    using commanded_robot by blast
  then have idle: "idle s1" using robot_ok_runs[OF s1(1) robot_ok_new] by (simp add: idle_def robot_ok_def)
  have step: "\<exists>s'. robot_runs resting_io s (motor_tasks []) s' \<and> idle s'" if "idle s" for s
  proof -
    let ?s = "ProcessHeartbeatTask_run (ReceiveMessagesTask_run [] s)"
    have i: "idle ?s" using that by (simp add: idle_def ProcessHeartbeatTask_run_def receive_comms)
    obtain r s' where v: "robot_motor_values resting_io True 0 ?s = (r, s')" by fastforce
    have r: "r = None" "idle s'"
      using robot_motor_values_idle[of ?s resting_io True 0] i v by (simp_all add: idle_def)
    have c: "robot_motor_config resting_io True ?s = (None, ?s)"
      using robot_motor_config_idle i by (simp add: idle_def)
    have "robot_runs resting_io s (motor_tasks []) s'"
      unfolding motor_tasks_def
      by (intro runs_cons[OF step_receive] runs_cons[OF step_heartbeat] runs_cons[OF step_motor_config[OF c]]
          run_one step_motor_values[OF v]) (simp_all add: r(1))
    then show ?thesis using r(2) by blast
  qed
  have names: "set ?names \<subseteq> set robot_task_names" "event_names (motor_tasks queue) = ?names" for queue
    by (simp_all add: robot_task_names_def motor_tasks_def)
  have p0: "program_runs resting_io example_robot (?tasks 0) [(example_clock 0, motor_tasks commanding_queue)] s1 (?tasks 1)"
    using example_schedule_step[OF _ program_start names(1,2) s1(1), of 0] by simp
  obtain s where run: "program_runs resting_io s1 (?tasks 1) ?ps s (?tasks 52)"
    using example_schedule_runs[OF _ p0 idle names(1,2) step, where m = 51] by auto
  obtain dev where dev: "getMotor 3 (rb_motors s1) = Some dev" using s1(2) by (auto simp: motorExists_getMotor)
  have new: "distinct (map st_name (?tasks 0))" "Task_new 20 ''ProcessHeartbeatTask'' \<in> set (?tasks 0)"
    by (simp_all add: example_schedule_def Task_new_def)
  have "''ProcessHeartbeatTask'' \<in> set ?names" by simp
  note hb = example_heartbeat_task[OF this]
  have clocks: "\<forall>c \<in> set (pass_clocks [(example_clock 0, motor_tasks commanding_queue)]). unat c \<le> 1"
    "\<forall>c \<in> set (pass_clocks ?ps). unat c \<le> 1020001"
    using example_clocks(3)[of 52] by (auto simp: unat_example_clock)
  have quiet: "\<not> list_ex speaks (log_events ?ps)" by (auto simp: list_ex_iff speaks_def motor_tasks_def)
  from handover_real_time[OF new p0 run clocks _ _ hb(1,2)[of 1] _ hb(1,2)[of 52] quiet dev s1(3) resting_fits, of True "\<lambda>i. 0"]
  have "getMotor 3 (rb_motors (RobotPeriodic resting_io True (\<lambda>i. 0) s)) = Some dev"
    "failoverActive (RobotPeriodic resting_io True (\<lambda>i. 0) s)"
    using hb(3)[of 52] by simp_all
  then show ?thesis using s1(1,2) run dev by metis
qed

end
