(* ===== verification/Robot_System.thy ===== *)
theory Robot_System
  imports Robot_Timing Send_Tasks Sensor_Config
begin

text \<open>
  The whole program: the state of the robot with the sensors, the match data and the reports sent;
  the twelve tasks \<open>Robot::RobotInit\<close> schedules, run by name on that state; a pass of
  \<open>TaskScheduler::run\<close> that runs them for real, so that an exception of a task is what ends the
  pass; and the calls of the other threads, the main loop and \<open>RobotDataHelper\<close>, in between. A pass
  also yields the events of the robot it made, which ties it to the step relation of \<open>Robot\<close> and to
  the schedule of \<open>Robot_Timing\<close>.
\<close>

section \<open>State\<close>

text \<open>What the program cannot change: the parts of protobuf and of the sensor library the tasks use.\<close>

record system_io =
  sio_robot :: robot_io
  sio_parse_imu :: "bytes \<Rightarrow> pmsg list option"
  sio_imu_schema :: imu_schema
  sio_imu_resp :: "nat \<Rightarrow> error_code"
  sio_ser_robot :: "robot_status \<Rightarrow> bytes"
  sio_ser_imu :: "imu_status list \<Rightarrow> bytes"
  sio_ser_motor :: "motor_status list \<Rightarrow> bytes"
  sio_ser_joystick :: "joystick_status list \<Rightarrow> bytes"

text \<open>\<open>sy_sent\<close>: the reports sent; \<open>sy_errors\<close>: what the scheduler and \<open>RobotDataHelper\<close> report to the
  driver station.\<close>

type_synonym sent_report = "(string list \<times> bool) option \<times> string list"

record system =
  sy_robot :: robot
  sy_imus :: imu_config_state
  sy_data :: robot_data
  sy_sent :: "sent_report list"
  sy_errors :: "string list"

definition System_new :: "proto_names \<Rightarrow> solenoid_task \<Rightarrow> rt_timer \<Rightarrow> system" where
  "System_new pn task timer = \<lparr>sy_robot = Robot_new pn task timer,
     sy_imus = \<lparr>imu_mgr = CKIMUManager_new, imu_calls = [], mPrevIMUMsg = []\<rparr>,
     sy_data = RobotDataHelper_new, sy_sent = [], sy_errors = []\<rparr>"

text \<open>A call of another thread: the callbacks of the main loop, and a pass of \<open>RobotDataHelper::runThread\<close>.\<close>

datatype thread_call =
    CallRobotPeriodic bool "u16 \<Rightarrow> real"
  | CallModeInit mode
  | CallModePeriodic mode joystick
  | CallDataPass "alliance ds_read" "real ds_read"

text \<open>What the tasks of one pass meet: the messages on the socket, whether a lock is free, the clocks
  the tasks read, what the devices and the driver station answer, what the radio does, and the calls
  other threads make before a task and after the last one.\<close>

record pass_env =
  pe_queue :: "dish_event list"
  pe_motor_lock :: bool
  pe_config_lock :: bool
  pe_led_lock :: bool
  pe_motor_clock :: u64
  pe_solenoid_clock :: u64
  pe_attached :: bool
  pe_radio :: radio
  pe_quats :: "u16 \<Rightarrow> error_code \<times> real \<times> real \<times> real \<times> real"
  pe_rates :: "u16 \<Rightarrow> ypr_reading"
  pe_talons :: "u16 \<Rightarrow> talon_reading"
  pe_joysticks :: "nat \<Rightarrow> joystick_reading option"
  pe_calls :: "string \<Rightarrow> thread_call list"
  pe_last_calls :: "thread_call list"

section \<open>The tasks on the state\<close>

text \<open>An event of the robot as a function, with the fault that ends it.\<close>

fun robot_event_result :: "robot_io \<Rightarrow> robot_event \<Rightarrow> robot \<Rightarrow> fault option \<times> robot" where
  "robot_event_result io (RunRobotPeriodic attached position) s = (None, RobotPeriodic io attached position s)"
| "robot_event_result io (RunModeInit m) s = (None, mode_init m s)"
| "robot_event_result io (RunModePeriodic m js) s = (None, mode_periodic io js m s)"
| "robot_event_result io (RunReceive queue) s = (None, ReceiveMessagesTask_run queue s)"
| "robot_event_result io RunHeartbeat s = (None, ProcessHeartbeatTask_run s)"
| "robot_event_result io (RunDSStatus attached) s = (None, UpdateDSConnectionStatusTask_run attached s)"
| "robot_event_result io (RunMotorValues l now) s = robot_motor_values io l now s"
| "robot_event_result io (RunMotorConfig l) s = robot_motor_config io l s"
| "robot_event_result io (RunSolenoids now) s = robot_solenoids io now s"
| "robot_event_result io (RunLEDs l) s = (None, robot_leds io l s)"
| "robot_event_result io RunIMUConfig s = (None, robot_imu_config s)"

text \<open>The event a task is, for the eight tasks that work on the state of the robot.\<close>

definition task_event :: "pass_env \<Rightarrow> string \<Rightarrow> robot_event option" where
  "task_event env name =
     (if name = ''ReceiveMessagesTask'' then Some (RunReceive (pe_queue env))
      else if name = ''ApplyMotorValuesTask'' then Some (RunMotorValues (pe_motor_lock env) (pe_motor_clock env))
      else if name = ''ApplyMotorConfigTask'' then Some (RunMotorConfig (pe_config_lock env))
      else if name = ''ApplySolenoidValuesTask'' then Some (RunSolenoids (pe_solenoid_clock env))
      else if name = ''ApplyLEDControlTask'' then Some (RunLEDs (pe_led_lock env))
      else if name = ''ProcessHeartbeatTask'' then Some RunHeartbeat
      else if name = ''UpdateDSConnectionStatusTask'' then Some (RunDSStatus (pe_attached env))
      else if name = ''ApplyIMUConfigTask'' then Some RunIMUConfig
      else None)"

definition sent :: "send_outcome \<Rightarrow> system \<Rightarrow> fault option \<times> system" where
  "sent outcome sy =
     (case outcome of Inl f \<Rightarrow> (Some f, sy) | Inr r \<Rightarrow> (None, sy\<lparr>sy_sent := sy_sent sy @ [r]\<rparr>))"

definition set_net :: "network \<Rightarrow> system \<Rightarrow> system" where
  "set_net n sy = sy\<lparr>sy_robot := (sy_robot sy)\<lparr>rb_comms := (rb_comms (sy_robot sy))\<lparr>net := n\<rparr>\<rparr>\<rparr>"

definition run_task :: "system_io \<Rightarrow> pass_env \<Rightarrow> string \<Rightarrow> system \<Rightarrow> fault option \<times> system" where
  "run_task sio env name sy =
     (let s = sy_robot sy; n = net (rb_comms s)
      in if name = ''ApplyIMUConfigTask'' then
           (case imu_config_run (sio_parse_imu sio) (sio_imu_schema sio) (sio_imu_resp sio) n (sy_imus sy) of
              (n', st) \<Rightarrow> (None, set_net n' (sy\<lparr>sy_imus := st\<rparr>)))
         else if name = ''SendRobotDataTask'' then
           sent (sendRobotStatusMessage (sio_ser_robot sio) (rb_mode s) (sy_data sy) (hasConnection s) (pe_radio env) n) sy
         else if name = ''SendIMUDataTask'' then
           (case SendIMUDataTask_run (sio_ser_imu sio) (pe_quats env) (pe_rates env) (pe_radio env)
                   (imu_mgr (sy_imus sy)) n of
              (mgr, outcome) \<Rightarrow> sent outcome (sy\<lparr>sy_imus := (sy_imus sy)\<lparr>imu_mgr := mgr\<rparr>\<rparr>))
         else if name = ''SendMotorDataTask'' then
           sent (SendMotorDataTask_run (sio_ser_motor sio) (pe_talons env) (pe_radio env) (rb_motors s) n) sy
         else if name = ''SendJoystickDataTask'' then
           sent (SendJoystickDataTask_run (sio_ser_joystick sio) (pe_joysticks env) (pe_radio env) n) sy
         else
           (case task_event env name of
              Some e \<Rightarrow> (case robot_event_result (sio_robot sio) e s of (r, s') \<Rightarrow> (r, sy\<lparr>sy_robot := s'\<rparr>))
            | None \<Rightarrow> (None, sy)))"

section \<open>The other threads\<close>

fun call_event :: "thread_call \<Rightarrow> robot_event option" where
  "call_event (CallRobotPeriodic attached position) = Some (RunRobotPeriodic attached position)"
| "call_event (CallModeInit m) = Some (RunModeInit m)"
| "call_event (CallModePeriodic m js) = Some (RunModePeriodic m js)"
| "call_event (CallDataPass al time) = None"

definition run_call :: "system_io \<Rightarrow> thread_call \<Rightarrow> system \<Rightarrow> system" where
  "run_call sio c sy =
     (case c of
        CallDataPass al time \<Rightarrow>
          (case robot_data_pass al time (sy_data sy) of
             (d, errors) \<Rightarrow> sy\<lparr>sy_data := d, sy_errors := sy_errors sy @ errors\<rparr>)
      | _ \<Rightarrow> (case call_event c of
                Some e \<Rightarrow> sy\<lparr>sy_robot := snd (robot_event_result (sio_robot sio) e (sy_robot sy))\<rparr>
              | None \<Rightarrow> sy))"

definition run_calls :: "system_io \<Rightarrow> thread_call list \<Rightarrow> system \<Rightarrow> system" where
  "run_calls sio cs sy = fold (run_call sio) cs sy"

definition call_events :: "thread_call list \<Rightarrow> robot_event list" where
  "call_events cs = concat (map (\<lambda>c. case call_event c of Some e \<Rightarrow> [e] | None \<Rightarrow> []) cs)"

section \<open>A pass of the scheduler\<close>

text \<open>The loop over the task list: the tasks and the log of the scheduler, the events of the robot, the
  fault that ended the loop, and the state.\<close>

fun pass_loop ::
  "system_io \<Rightarrow> pass_env \<Rightarrow> u64 \<Rightarrow> u64 \<Rightarrow> sched_task list \<Rightarrow> system
     \<Rightarrow> pass_result \<times> robot_event list \<times> fault option \<times> system" where
  "pass_loop sio env timeNow nextWakeTime [] sy =
     (\<lparr>pr_tasks = [], pr_runs = [], pr_wake = nextWakeTime, pr_aborted = False\<rparr>, [], None, sy)"
| "pass_loop sio env timeNow nextWakeTime (t # ts) sy0 =
     (let calls = pe_calls env (st_name t); sy = run_calls sio calls sy0; ces = call_events calls
      in if mTaskRateMs t = 0 then
           (case pass_loop sio env timeNow nextWakeTime ts sy of
              (r, es, f, sy') \<Rightarrow> (r\<lparr>pr_tasks := t # pr_tasks r\<rparr>, ces @ es, f, sy'))
         else if task_due timeNow t then
           (let tes = (case task_event env (st_name t) of Some e \<Rightarrow> [e] | None \<Rightarrow> [])
            in case run_task sio env (st_name t) sy of
                 (Some f, sy') \<Rightarrow>
                   (\<lparr>pr_tasks = t # ts, pr_runs = [run_entry timeNow t], pr_wake = nextWakeTime,
                     pr_aborted = True\<rparr>, ces @ tes, Some f, sy')
               | (None, sy1) \<Rightarrow>
                   (let t' = advance_task t
                    in case pass_loop sio env timeNow
                              (if timeNextUpdateuS t' < nextWakeTime then timeNextUpdateuS t' else nextWakeTime) ts sy1 of
                         (r, es, f, sy') \<Rightarrow>
                           (r\<lparr>pr_tasks := t' # pr_tasks r, pr_runs := run_entry timeNow t # pr_runs r\<rparr>,
                            ces @ tes @ es, f, sy')))
         else
           (case pass_loop sio env timeNow
                   (if timeNextUpdateuS t < nextWakeTime then timeNextUpdateuS t else nextWakeTime) ts sy of
              (r, es, f, sy') \<Rightarrow> (r\<lparr>pr_tasks := t # pr_tasks r\<rparr>, ces @ es, f, sy')))"

text \<open>What \<open>run\<close> catches: an exception, whose text it reports. Any other fault is undefined behaviour,
  after which nothing is known of the program.\<close>

fun survives :: "fault \<Rightarrow> bool" where
  "survives (ThrownException e) = True"
| "survives _ = False"

definition report_fault :: "fault option \<Rightarrow> system \<Rightarrow> system" where
  "report_fault f sy =
     (case f of Some (ThrownException e) \<Rightarrow> sy\<lparr>sy_errors := sy_errors sy @ [e]\<rparr> | _ \<Rightarrow> sy)"

record pass_outcome =
  po_tasks :: "sched_task list"
  po_runs :: "task_run list"
  po_alarm :: "u64 option"
  po_events :: "robot_event list"
  po_system :: system

definition system_pass ::
  "system_io \<Rightarrow> pass_env \<Rightarrow> u64 \<Rightarrow> sched_task list \<Rightarrow> system \<Rightarrow> fault + pass_outcome" where
  "system_pass sio env timeNow taskList sy =
     (case pass_loop sio env timeNow (- 1) taskList sy of
        (r, es, f, sy') \<Rightarrow>
          (case f of
             Some flt \<Rightarrow>
               (if survives flt then
                  Inr \<lparr>po_tasks = pr_tasks r, po_runs = pr_runs r, po_alarm = None,
                       po_events = es @ call_events (pe_last_calls env),
                       po_system = run_calls sio (pe_last_calls env) (report_fault f sy')\<rparr>
                else Inl flt)
           | None \<Rightarrow>
               Inr \<lparr>po_tasks = pr_tasks r, po_runs = pr_runs r, po_alarm = Some (pr_wake r),
                    po_events = es @ call_events (pe_last_calls env),
                    po_system = run_calls sio (pe_last_calls env) sy'\<rparr>))"

text \<open>Passes at the given clock readings, with the log of their events, or the fault that ended the
  program.\<close>

fun system_run ::
  "system_io \<Rightarrow> (u64 \<times> pass_env) list \<Rightarrow> sched_task list \<Rightarrow> system
     \<Rightarrow> fault + (pass_log \<times> sched_task list \<times> system)" where
  "system_run sio [] tasks sy = Inr ([], tasks, sy)"
| "system_run sio ((now, env) # passes) tasks sy =
     (case system_pass sio env now tasks sy of
        Inl f \<Rightarrow> Inl f
      | Inr p \<Rightarrow>
          (case system_run sio passes (po_tasks p) (po_system p) of
             Inl f \<Rightarrow> Inl f
           | Inr (ps, tasks', sy') \<Rightarrow> Inr ((now, po_events p) # ps, tasks', sy')))"

section \<open>The program refines the robot and its schedule\<close>

lemma robot_event_result_step:
  "robot_event_result io e s = (r, s') \<Longrightarrow> r \<noteq> Some UndefinedBehaviour \<Longrightarrow> robot_step io s e s'"
  by (cases e) (auto intro: robot_step.intros)

lemma imu_config_run_network:
  "fst (imu_config_run parse sch resp n st) = snd (getMessage ''imuconfig'' n)"
  by (simp add: imu_config_run_def split: prod.split option.split)

lemma sent_frame [simp]:
  "sy_robot (snd (sent outcome sy)) = sy_robot sy" "sy_imus (snd (sent outcome sy)) = sy_imus sy"
  by (simp_all add: sent_def split: sum.split)

lemma run_task_imu:
  "run_task sio env ''ApplyIMUConfigTask'' sy =
     (let r = imu_config_run (sio_parse_imu sio) (sio_imu_schema sio) (sio_imu_resp sio)
                (net (rb_comms (sy_robot sy))) (sy_imus sy)
      in (None, set_net (fst r) (sy\<lparr>sy_imus := snd r\<rparr>)))"
  by (simp add: run_task_def Let_def split_beta)

text \<open>The four tasks that report change the reports and, for the IMU types, the IMU registry.\<close>

lemma run_task_reports:
  "run_task sio env ''SendRobotDataTask'' sy = sent (sendRobotStatusMessage (sio_ser_robot sio) (rb_mode (sy_robot sy))
     (sy_data sy) (hasConnection (sy_robot sy)) (pe_radio env) (net (rb_comms (sy_robot sy)))) sy"
  "run_task sio env ''SendIMUDataTask'' sy =
     (let r = SendIMUDataTask_run (sio_ser_imu sio) (pe_quats env) (pe_rates env) (pe_radio env)
                (imu_mgr (sy_imus sy)) (net (rb_comms (sy_robot sy)))
      in sent (snd r) (sy\<lparr>sy_imus := (sy_imus sy)\<lparr>imu_mgr := fst r\<rparr>\<rparr>))"
  "run_task sio env ''SendMotorDataTask'' sy = sent (SendMotorDataTask_run (sio_ser_motor sio) (pe_talons env)
     (pe_radio env) (rb_motors (sy_robot sy)) (net (rb_comms (sy_robot sy)))) sy"
  "run_task sio env ''SendJoystickDataTask'' sy = sent (SendJoystickDataTask_run (sio_ser_joystick sio)
     (pe_joysticks env) (pe_radio env) (net (rb_comms (sy_robot sy)))) sy"
  by (simp_all add: run_task_def Let_def split_beta)

definition report_names :: "string list" where
  "report_names = [''SendRobotDataTask'', ''SendIMUDataTask'', ''SendMotorDataTask'', ''SendJoystickDataTask'']"

lemma run_task_report_frame:
  assumes "name \<in> set report_names"
  shows "sy_robot (snd (run_task sio env name sy)) = sy_robot sy"
  using assms unfolding report_names_def list.set
  by (elim insertE emptyE) (simp_all add: run_task_reports Let_def)

lemma report_not_event: "name \<in> set report_names \<Longrightarrow> task_event env name = None"
  unfolding report_names_def list.set by (elim insertE emptyE) (simp_all add: task_event_def)


lemma run_task_other:
  assumes "name \<notin> set report_names" and "name \<noteq> ''ApplyIMUConfigTask''"
  shows "run_task sio env name sy = (case task_event env name of
     Some e \<Rightarrow> (case robot_event_result (sio_robot sio) e (sy_robot sy) of (r, s') \<Rightarrow> (r, sy\<lparr>sy_robot := s'\<rparr>))
   | None \<Rightarrow> (None, sy))"
  using assms by (simp add: run_task_def Let_def report_names_def)

lemma run_task_robot:
  assumes "run_task sio env name sy = (f, sy')" and "f \<noteq> Some UndefinedBehaviour"
  shows "case task_event env name of Some e \<Rightarrow> robot_step (sio_robot sio) (sy_robot sy) e (sy_robot sy')
    | None \<Rightarrow> sy_robot sy' = sy_robot sy"
proof -
  let ?s = "sy_robot sy"
  consider (imu) "name = ''ApplyIMUConfigTask''" | (report) "name \<in> set report_names"
    | (other) "name \<noteq> ''ApplyIMUConfigTask''" "name \<notin> set report_names"
    by blast
  then show ?thesis
  proof cases
    case imu
    have "sy_robot sy' = robot_imu_config ?s"
      using arg_cong[OF assms(1), of snd] unfolding imu run_task_imu
      by (auto simp: Let_def set_net_def robot_imu_config_def imu_config_run_network)
    then show ?thesis using step_imu_config by (simp add: imu task_event_def)
  next
    case report
    then show ?thesis using report_not_event[OF report] run_task_report_frame[OF report, of sio env sy] assms(1) by simp
  next
    case other
    then show ?thesis
      using assms robot_event_result_step[of "sio_robot sio" _ ?s]
      by (auto simp: run_task_other split: option.splits prod.splits)
  qed
qed

lemma run_calls_robot:
  "robot_runs (sio_robot sio) (sy_robot sy) (call_events cs) (sy_robot (run_calls sio cs sy))"
proof (induction cs arbitrary: sy)
  case (Cons c cs)
  note IH = Cons.IH[of "run_call sio c sy"]
  show ?case
  proof (cases "call_event c")
    case None
    then have "sy_robot (run_call sio c sy) = sy_robot sy"
      by (cases c) (simp_all add: run_call_def split_beta)
    then show ?thesis using IH None by (simp add: run_calls_def call_events_def)
  next
    case (Some e)
    then have "sy_robot (run_call sio c sy) = snd (robot_event_result (sio_robot sio) e (sy_robot sy))"
      "fst (robot_event_result (sio_robot sio) e (sy_robot sy)) = None"
      by (cases c; auto simp: run_call_def)+
    then have "robot_step (sio_robot sio) (sy_robot sy) e (sy_robot (run_call sio c sy))"
      by (metis robot_event_result_step option.distinct(1) prod.collapse)
    then show ?thesis using IH Some by (simp add: run_calls_def call_events_def runs_cons)
  qed
qed (simp add: run_calls_def call_events_def runs_nil)

lemma event_task_cases:
  "task_event env name = Some e \<Longrightarrow> event_task e = Some name \<and> name \<in> set robot_task_names"
  "task_event env name = None \<Longrightarrow> name \<notin> set robot_task_names"
  by (auto simp: task_event_def robot_task_names_def split: if_splits)

lemma event_names_calls [simp]: "event_names (call_events cs) = []"
proof -
  have "event_task e = None" if "call_event c = Some e" for c e using that by (cases c) auto
  then show ?thesis by (induction cs) (auto simp: call_events_def split: option.split)
qed

lemma run_task_heartbeat: "fst (run_task sio env ''ProcessHeartbeatTask'' sy) = None"
  by (simp add: run_task_def task_event_def Let_def)

text \<open>A pass of the program is a pass of the scheduler for the tasks that throw in it, and makes a run
  of the robot.\<close>

lemma pass_loop_refines:
  assumes "pass_loop sio env now w tasks sy = (r, es, f, sy')" and "f \<noteq> Some UndefinedBehaviour"
    and "distinct (map st_name tasks)"
  shows "robot_runs (sio_robot sio) (sy_robot sy) es (sy_robot sy')
    \<and> (\<exists>name. r = scheduler_loop (\<lambda>t. f \<noteq> None \<and> st_name t = name) now w tasks
          \<and> (f \<noteq> None \<longrightarrow> name \<in> set (map st_name tasks) \<and> name \<noteq> ''ProcessHeartbeatTask''))
    \<and> event_names es = filter (\<lambda>n. n \<in> set robot_task_names) (map fst (pr_runs r))
    \<and> (pr_aborted r \<longleftrightarrow> f \<noteq> None)"
  using assms
proof (induction tasks arbitrary: w sy r es f)
  case Nil
  then show ?case by (auto intro: runs_nil)
next
  case (Cons t ts)
  define calls where "calls = pe_calls env (st_name t)"
  define sy1 where "sy1 = run_calls sio calls sy"
  have calls: "robot_runs (sio_robot sio) (sy_robot sy) (call_events calls) (sy_robot sy1)"
    unfolding sy1_def by (rule run_calls_robot)
  have d: "distinct (map st_name ts)" "st_name t \<notin> set (map st_name ts)" using Cons.prems(3) by simp_all
  show ?case
  proof (cases "task_due now t")
    case False
    let ?w = "if mTaskRateMs t = 0 then w else if timeNextUpdateuS t < w then timeNextUpdateuS t else w"
    obtain r1 es1 where l: "pass_loop sio env now ?w ts sy1 = (r1, es1, f, sy')" "es = call_events calls @ es1"
      "r = r1\<lparr>pr_tasks := t # pr_tasks r1\<rparr>"
      using Cons.prems(1) False by (auto simp: Let_def sy1_def calls_def split: prod.splits if_splits)
    from Cons.IH[OF l(1) Cons.prems(2) d(1)] obtain name where IH: "robot_runs (sio_robot sio) (sy_robot sy1) es1 (sy_robot sy')"
      "r1 = scheduler_loop (\<lambda>t. f \<noteq> None \<and> st_name t = name) now ?w ts"
      "f \<noteq> None \<Longrightarrow> name \<in> set (map st_name ts) \<and> name \<noteq> ''ProcessHeartbeatTask''"
      "event_names es1 = filter (\<lambda>n. n \<in> set robot_task_names) (map fst (pr_runs r1))" "pr_aborted r1 \<longleftrightarrow> f \<noteq> None"
      by blast
    have "r = scheduler_loop (\<lambda>t. f \<noteq> None \<and> st_name t = name) now w (t # ts)"
      using False by (simp add: l(3) IH(2) Let_def)
    moreover have "f \<noteq> None \<longrightarrow> name \<in> set (map st_name (t # ts)) \<and> name \<noteq> ''ProcessHeartbeatTask''"
      using IH(3) by simp
    moreover have "event_names es = filter (\<lambda>n. n \<in> set robot_task_names) (map fst (pr_runs r))" "pr_aborted r \<longleftrightarrow> f \<noteq> None"
      using IH(4,5) by (simp_all add: l(2,3))
    moreover have "robot_runs (sio_robot sio) (sy_robot sy) es (sy_robot sy')"
      using runs_append[OF calls IH(1)] by (simp add: l(2))
    ultimately show ?thesis by blast
  next
    case True
    then have rate: "mTaskRateMs t \<noteq> 0" by (simp add: task_due_def)
    define tes where "tes = (case task_event env (st_name t) of Some e \<Rightarrow> [e] | None \<Rightarrow> [])"
    obtain g sy2 where run: "run_task sio env (st_name t) sy1 = (g, sy2)" by fastforce
    have names: "event_names tes = filter (\<lambda>n. n \<in> set robot_task_names) [st_name t]"
      using event_task_cases by (auto simp: tes_def split: option.split)
    have step: "robot_runs (sio_robot sio) (sy_robot sy1) tes (sy_robot sy2)" if "g \<noteq> Some UndefinedBehaviour"
      using run_task_robot[OF run that] by (auto simp: tes_def split: option.splits intro: run_one runs_nil)
    show ?thesis
    proof (cases g)
      case (Some flt)
      then have l: "f = Some flt" "es = call_events calls @ tes" "sy' = sy2"
        "r = \<lparr>pr_tasks = t # ts, pr_runs = [run_entry now t], pr_wake = w, pr_aborted = True\<rparr>"
        using Cons.prems(1) True rate run by (simp_all add: Let_def sy1_def calls_def tes_def)
      have "st_name t \<noteq> ''ProcessHeartbeatTask''"
        using run run_task_heartbeat[of sio env sy1] Some by auto
      moreover have "r = scheduler_loop (\<lambda>u. f \<noteq> None \<and> st_name u = st_name t) now w (t # ts)"
        using True rate by (simp add: l)
      moreover have "robot_runs (sio_robot sio) (sy_robot sy) es (sy_robot sy')"
        using runs_append[OF calls step] Some Cons.prems(2) l by simp
      moreover have "event_names es = filter (\<lambda>n. n \<in> set robot_task_names) (map fst (pr_runs r))" "pr_aborted r \<longleftrightarrow> f \<noteq> None"
        using names by (simp_all add: l run_entry_def)
      moreover have "st_name t \<in> set (map st_name (t # ts))" by simp
      ultimately show ?thesis by blast
    next
      case None
      let ?t = "advance_task t"
      let ?w = "if timeNextUpdateuS ?t < w then timeNextUpdateuS ?t else w"
      obtain r1 es1 where l: "pass_loop sio env now ?w ts sy2 = (r1, es1, f, sy')" "es = call_events calls @ tes @ es1"
        "r = r1\<lparr>pr_tasks := ?t # pr_tasks r1, pr_runs := run_entry now t # pr_runs r1\<rparr>"
        using Cons.prems(1) True rate run None
        by (auto simp: Let_def sy1_def calls_def tes_def split: prod.splits)
      from Cons.IH[OF l(1) Cons.prems(2) d(1)] obtain name where IH: "robot_runs (sio_robot sio) (sy_robot sy2) es1 (sy_robot sy')"
        "r1 = scheduler_loop (\<lambda>t. f \<noteq> None \<and> st_name t = name) now ?w ts"
        "f \<noteq> None \<Longrightarrow> name \<in> set (map st_name ts) \<and> name \<noteq> ''ProcessHeartbeatTask''"
        "event_names es1 = filter (\<lambda>n. n \<in> set robot_task_names) (map fst (pr_runs r1))" "pr_aborted r1 \<longleftrightarrow> f \<noteq> None"
        by blast
      have "\<not> (f \<noteq> None \<and> st_name t = name)" using IH(3) d(2) by auto
      then have "r = scheduler_loop (\<lambda>t. f \<noteq> None \<and> st_name t = name) now w (t # ts)"
        using True rate by (auto simp: l(3) IH(2) Let_def)
      moreover have "robot_runs (sio_robot sio) (sy_robot sy) es (sy_robot sy')"
        using runs_append[OF calls runs_append[OF step IH(1)]] None by (simp add: l(2))
      moreover have "f \<noteq> None \<longrightarrow> name \<in> set (map st_name (t # ts)) \<and> name \<noteq> ''ProcessHeartbeatTask''"
        using IH(3) by simp
      moreover have "event_names es = filter (\<lambda>n. n \<in> set robot_task_names) (map fst (pr_runs r))" "pr_aborted r \<longleftrightarrow> f \<noteq> None"
        using IH(4,5) names by (simp_all add: l(2,3) run_entry_def)
      ultimately show ?thesis by blast
    qed
  qed
qed

lemma report_fault_robot [simp]: "sy_robot (report_fault f sy) = sy_robot sy"
  by (simp add: report_fault_def split: option.split fault.split)

lemma survives_defined [simp]: "\<not> survives UndefinedBehaviour"
  by simp

lemma system_pass_refines:
  assumes "system_pass sio env now tasks sy = Inr p" and "distinct (map st_name tasks)"
  shows "\<exists>throws. scheduler_pass throws now tasks = (po_tasks p, po_runs p, po_alarm p)
      \<and> (\<forall>t. st_name t = ''ProcessHeartbeatTask'' \<longrightarrow> \<not> throws t)"
    and "pass_events (po_runs p) (po_events p)"
    and "robot_runs (sio_robot sio) (sy_robot sy) (po_events p) (sy_robot (po_system p))"
    and "map st_name (po_tasks p) = map st_name tasks"
proof -
  obtain r es f sy1 where l: "pass_loop sio env now (- 1) tasks sy = (r, es, f, sy1)" using prod_cases4 by blast
  let ?last = "pe_last_calls env"
  have f: "f \<noteq> Some UndefinedBehaviour" using assms(1) l by (auto simp: system_pass_def)
  have p: "po_tasks p = pr_tasks r" "po_runs p = pr_runs r" "po_events p = es @ call_events ?last"
    "po_alarm p = (if f \<noteq> None then None else Some (pr_wake r))"
    "po_system p = run_calls sio ?last (report_fault f sy1)"
    using assms(1) l by (auto simp: system_pass_def report_fault_def split: option.splits if_splits)
  from pass_loop_refines[OF l f assms(2)] obtain name where
    run: "robot_runs (sio_robot sio) (sy_robot sy) es (sy_robot sy1)"
    and r: "r = scheduler_loop (\<lambda>t. f \<noteq> None \<and> st_name t = name) now (- 1) tasks"
    and name: "f \<noteq> None \<longrightarrow> name \<in> set (map st_name tasks) \<and> name \<noteq> ''ProcessHeartbeatTask''"
    and events: "event_names es = filter (\<lambda>n. n \<in> set robot_task_names) (map fst (pr_runs r))"
    and aborted: "pr_aborted r \<longleftrightarrow> f \<noteq> None" by blast
  have pass: "scheduler_pass (\<lambda>t. f \<noteq> None \<and> st_name t = name) now tasks = (po_tasks p, po_runs p, po_alarm p)"
    unfolding scheduler_pass_def Let_def r[symmetric] using aborted by (simp add: p)
  then show "\<exists>throws. scheduler_pass throws now tasks = (po_tasks p, po_runs p, po_alarm p)
      \<and> (\<forall>t. st_name t = ''ProcessHeartbeatTask'' \<longrightarrow> \<not> throws t)"
    using name by blast
  show "pass_events (po_runs p) (po_events p)"
    by (simp add: pass_events_def p events)
  show "robot_runs (sio_robot sio) (sy_robot sy) (po_events p) (sy_robot (po_system p))"
    using runs_append[OF run] run_calls_robot[of sio "report_fault f sy1" ?last] by (simp add: p)
  obtain before rest where "tasks = before @ rest" "po_tasks p = map (after_pass now) before @ rest"
    using scheduler_loop_cases[of tasks now "\<lambda>t. f \<noteq> None \<and> st_name t = name" "- 1"] r p(1) by metis
  then show "map st_name (po_tasks p) = map st_name tasks" by (simp add: comp_def)
qed

lemma system_run_refines:
  assumes "system_run sio passes tasks sy = Inr (ps, tasks', sy')" and "distinct (map st_name tasks)"
  shows "program_runs (sio_robot sio) (sy_robot sy) tasks ps (sy_robot sy') tasks'
    \<and> pass_clocks ps = map fst passes \<and> robot_runs (sio_robot sio) (sy_robot sy) (log_events ps) (sy_robot sy')"
  using assms
proof (induction passes arbitrary: tasks sy ps)
  case Nil
  then show ?case by (auto intro: program_start runs_nil)
next
  case (Cons pass passes)
  obtain now env where pass: "pass = (now, env)" by (cases pass)
  obtain p ps1 where p: "system_pass sio env now tasks sy = Inr p"
    "system_run sio passes (po_tasks p) (po_system p) = Inr (ps1, tasks', sy')" "ps = (now, po_events p) # ps1"
    using Cons.prems(1) by (auto simp: pass split: sum.splits prod.splits)
  note step = system_pass_refines[OF p(1) Cons.prems(2)]
  obtain throws where throws: "scheduler_pass throws now tasks = (po_tasks p, po_runs p, po_alarm p)"
    "\<forall>t. st_name t = ''ProcessHeartbeatTask'' \<longrightarrow> \<not> throws t" using step(1) by blast
  have "distinct (map st_name (po_tasks p))" using Cons.prems(2) by (simp only: step(4))
  from Cons.IH[OF p(2) this]
  have IH: "program_runs (sio_robot sio) (sy_robot (po_system p)) (po_tasks p) ps1 (sy_robot sy') tasks'"
    "pass_clocks ps1 = map fst passes"
    "robot_runs (sio_robot sio) (sy_robot (po_system p)) (log_events ps1) (sy_robot sy')" by simp_all
  have "program_runs (sio_robot sio) (sy_robot sy) tasks ([] @ [(now, po_events p)]) (sy_robot (po_system p)) (po_tasks p)"
    by (rule program_pass[OF program_start throws(1) _ step(2,3)]) (use throws(2) in blast)
  from program_runs_append[OF this IH(1)] show ?case
    using IH(2) runs_append[OF step(3) IH(3)] by (simp add: p(3) pass)
qed

end
