(* ===== verification/System_Safety.thy ===== *)
theory System_Safety
  imports Robot_System
begin

text \<open>
  What the whole program cannot do. A message is acceptable when no task has undefined behaviour on
  it, whatever the state. While the coprocessor sends acceptable messages only, and with the messages
  the failover code itself publishes, two things are left that can crash the program: a report that
  outgrows its buffer, and a configuration that changes the remote encoder of a motor. An exception
  comes from the solenoid task, and at most as often as a solenoid message came.
\<close>

section \<open>Acceptable messages\<close>

text \<open>Every solenoid is named with one type, single or double, a valid id and a value its type has.\<close>

definition solenoid_acceptable :: "(u32 \<Rightarrow> sol_type) \<Rightarrow> solenoid_msg \<Rightarrow> bool" where
  "solenoid_acceptable layout m \<longleftrightarrow> sm_solenoid_type m = layout (sm_id m)
     \<and> \<not> solenoid_id_invalid \<lparr>cs_value = SOL_OFF, cs_moduleType = sm_module_type m, cs_solenoidId = sm_id m,
           cs_solenoidType = sm_solenoid_type m, cs_single = None, cs_double = None\<rparr>
     \<and> (case sm_solenoid_type m of
          SINGLE \<Rightarrow> sm_output_value m \<in> {SOL_ON, SOL_OFF}
        | DOUBLE \<Rightarrow> sm_output_value m \<in> {SOL_OFF, SOL_FORWARD, SOL_REVERSE}
        | OtherSolenoidType n \<Rightarrow> False)"

text \<open>The groups whose task can have undefined behaviour on a message by itself: a follower names a motor
  id, and the solenoids are as above. A motor configuration is never excluded.\<close>

definition acceptable :: "robot_io \<Rightarrow> (u32 \<Rightarrow> sol_type) \<Rightarrow> string \<Rightarrow> bytes \<Rightarrow> bool" where
  "acceptable io layout grp b \<longleftrightarrow>
     (grp = ''motorcontrol'' \<longrightarrow> (case io_parse_control io b of None \<Rightarrow> True
        | Some ms \<Rightarrow> \<forall>m \<in> set ms. mv_control_mode m = Follower \<longrightarrow> double_to_u16 (mv_output_value m) \<noteq> None))
   \<and> (grp = ''solenoidcontrol'' \<longrightarrow> (case io_parse_solenoids io b of (parsed, update) \<Rightarrow>
        parsed \<longrightarrow> (\<forall>m \<in> set (solenoids update). solenoid_acceptable layout m)))"

text \<open>What the failover code publishes is acceptable: proved below, when the parsers read its motor
  commands and its five solenoids back.\<close>

definition publishes_acceptable :: "robot_io \<Rightarrow> (u32 \<Rightarrow> sol_type) \<Rightarrow> bool" where
  "publishes_acceptable io layout \<longleftrightarrow> (\<forall>fm. layout_ok fm \<longrightarrow>
     acceptable io layout ''motorcontrol'' (sr_motorControl (io_serializers io) (fm_motorControl fm))
   \<and> acceptable io layout ''solenoidcontrol'' (sr_solenoidControl (io_serializers io) (fm_solenoidControl fm))
   \<and> acceptable io layout ''motorconfig'' (sr_motorConfiguration (io_serializers io) (fm_motorConfiguration fm))
   \<and> acceptable io layout ''ledcontrol'' (sr_ledControl (io_serializers io) (fm_ledControl fm)))"

definition mailbox_acceptable :: "robot_io \<Rightarrow> (u32 \<Rightarrow> sol_type) \<Rightarrow> network \<Rightarrow> bool" where
  "mailbox_acceptable io layout n \<longleftrightarrow> (\<forall>g b. waiting n g = Some b \<longrightarrow> acceptable io layout g b)"

text \<open>The solenoids that exist are built for the type of the layout.\<close>

definition solenoid_built :: "(u32 \<Rightarrow> sol_type) \<Rightarrow> u32 \<Rightarrow> ck_solenoid \<Rightarrow> bool" where
  "solenoid_built layout i c \<longleftrightarrow> cs_solenoidType c = layout i
     \<and> (layout i = SINGLE \<longrightarrow> cs_single c \<noteq> None) \<and> (layout i = DOUBLE \<longrightarrow> cs_double c \<noteq> None)
     \<and> layout i \<in> {SINGLE, DOUBLE}"

definition solenoids_built :: "(u32 \<Rightarrow> sol_type) \<Rightarrow> solenoid_manager \<Rightarrow> bool" where
  "solenoids_built layout mgr \<longleftrightarrow>
     (\<forall>i c. sm_get (mRegisteredSolenoidList mgr) i = Some c \<longrightarrow> solenoid_built layout i c)"

section \<open>What the failover code publishes is acceptable\<close>

definition reads_back_solenoids :: "robot_io \<Rightarrow> bool" where
  "reads_back_solenoids io \<longleftrightarrow> (\<forall>m. solenoids m = failover_solenoids \<longrightarrow>
     io_parse_solenoids io (sr_solenoidControl (io_serializers io) m) = (True, m))"

text \<open>The solenoids of the failover code are single ones.\<close>

definition failover_layout :: "(u32 \<Rightarrow> sol_type) \<Rightarrow> bool" where
  "failover_layout layout \<longleftrightarrow> list_all (\<lambda>m. layout (sm_id m) = SINGLE) failover_solenoids"

lemma failover_solenoids_acceptable:
  "failover_layout layout \<Longrightarrow> m \<in> set failover_solenoids \<Longrightarrow> solenoid_acceptable layout m"
  by (auto simp: failover_layout_def failover_solenoids_def failover_solenoid_def solenoid_acceptable_def
      solenoid_id_invalid_def getModuleId_def getSolenoidId_def word_le_nat_alt)

lemma failover_acceptable:
  assumes "reads_back io" and "reads_back_solenoids io" and "failover_layout layout"
  shows "publishes_acceptable io layout"
  unfolding publishes_acceptable_def
proof (intro allI impI conjI)
  fix fm assume lay: "layout_ok fm"
  then obtain ds ss where l: "length ds = 4" "length ss = 4" "fm_motorControl fm = failover_controls ds ss"
    by (rule layout_controls)
  then obtain ms where ms: "io_parse_control io (sr_motorControl (io_serializers io) (fm_motorControl fm)) = Some ms"
    "list_all2 same_target (failover_controls ds ss) ms" using assms(1) by (auto simp: reads_back_def)
  have "double_to_u16 (mv_output_value m) \<noteq> None" if m: "m \<in> set ms" "mv_control_mode m = Follower" for m
  proof -
    obtain c where "c \<in> set (failover_controls ds ss)" "same_target c m" using same_target_ids(1)[OF ms(2) m(1)] by blast
    then show ?thesis using failover_controls_legal(1)[OF l(1,2)] m(2) by (auto simp: same_target_def)
  qed
  then show "acceptable io layout ''motorcontrol'' (sr_motorControl (io_serializers io) (fm_motorControl fm))"
    using ms(1) by (simp add: acceptable_def)
  show "acceptable io layout ''solenoidcontrol'' (sr_solenoidControl (io_serializers io) (fm_solenoidControl fm))"
    using lay assms(2) failover_solenoids_acceptable[OF assms(3)]
    by (auto simp: acceptable_def layout_ok_def reads_back_solenoids_def split: prod.splits)
qed (simp_all add: acceptable_def)

section \<open>The tasks on acceptable messages\<close>

lemma CKSolenoid_new_built:
  assumes "solenoid_acceptable layout m"
    and "CKSolenoid_new fits (sm_module_type m) (sm_id m) (sm_solenoid_type m) = r"
  shows "case r of Inl f \<Rightarrow> survives f | Inr (es, c) \<Rightarrow> solenoid_built layout (sm_id m) c"
  using assms
  by (auto simp: CKSolenoid_new_def solenoid_acceptable_def solenoid_built_def Let_def split: sol_type.splits if_splits)

lemma CKSolenoid_set_built:
  assumes "solenoid_built layout i c" and "layout i = SINGLE \<Longrightarrow> v \<in> {SOL_ON, SOL_OFF}"
    and "layout i = DOUBLE \<Longrightarrow> v \<in> {SOL_OFF, SOL_FORWARD, SOL_REVERSE}"
  shows "\<exists>es c'. CKSolenoid_set v c = Inr (es, c') \<and> solenoid_built layout i c'"
  using assms by (auto simp: CKSolenoid_set_def solenoid_built_def Let_def split: sol_type.splits option.splits)

lemma apply_solenoids_acceptable:
  assumes "\<forall>m \<in> set ms. solenoid_acceptable layout m" and "solenoid_ok mgr" and "solenoids_built layout mgr"
    and "apply_solenoids fits ms mgr = (r, es, mgr')"
  shows "(\<forall>f. r = Some f \<longrightarrow> survives f) \<and> solenoids_built layout mgr'"
  using assms
proof (induction ms arbitrary: mgr r es mgr')
  case (Cons m ms)
  have m: "solenoid_acceptable layout m" using Cons.prems(1) by simp
  show ?case
  proof (cases "registerSolenoid fits (sm_module_type m) (sm_id m) (sm_solenoid_type m) mgr")
    case (Inl f)
    then have "survives f"
      using CKSolenoid_new_built[OF m refl, of fits] by (auto simp: registerSolenoid_def Let_def split: if_splits sum.splits)
    then show ?thesis using Cons.prems Inl by auto
  next
    case (Inr p)
    then obtain es1 s1 where r1: "registerSolenoid fits (sm_module_type m) (sm_id m) (sm_solenoid_type m) mgr = Inr (es1, s1)"
      by (cases p) auto
    have ok1: "solenoid_ok s1" by (rule solenoid_ok_register[OF Cons.prems(2) r1])
    have built: "solenoids_built layout s1"
      using r1 CKSolenoid_new_built[OF m refl, of fits] Cons.prems(3) solenoid_ok_maps[OF Cons.prems(2)]
      by (auto simp: registerSolenoid_def solenoids_built_def Let_def split: if_splits sum.splits)
    have "\<exists>es2 s2. onSolenoid_set (sm_id m) (sm_output_value m) s1 = Inr (es2, s2) \<and> solenoids_built layout s2"
    proof (cases "sm_get (mRegisteredSolenoidList s1) (sm_id m)")
      case None
      then show ?thesis using built by (simp add: onSolenoid_set_def)
    next
      case (Some c)
      then have "solenoid_built layout (sm_id m) c" using built by (simp add: solenoids_built_def)
      then obtain es2 c' where "CKSolenoid_set (sm_output_value m) c = Inr (es2, c')" "solenoid_built layout (sm_id m) c'"
        using CKSolenoid_set_built[of layout "sm_id m" c "sm_output_value m"] m
        by (auto simp: solenoid_acceptable_def split: sol_type.splits)
      then show ?thesis
        using Some built solenoid_ok_maps[OF ok1] by (auto simp: onSolenoid_set_def solenoids_built_def)
    qed
    then obtain es2 s2 where r2: "onSolenoid_set (sm_id m) (sm_output_value m) s1 = Inr (es2, s2)" "solenoids_built layout s2"
      by blast
    have "solenoid_ok s2" using solenoid_ok_set[OF ok1 r2(1)] by simp
    with Cons.IH[OF _ this r2(2)] show ?thesis
      using Cons.prems(1,4) r1 r2(1) by (auto split: prod.splits)
  qed
qed simp

text \<open>What can still crash the motor configuration: a registered motor whose new configuration has a
  remote encoder, with the field changed from the stored configuration, or from an earlier entry for the
  same motor in the message.\<close>

definition changes_encoder_of :: "pmsg motor_manager \<Rightarrow> pmsg list \<Rightarrow> pmsg \<Rightarrow> bool" where
  "changes_encoder_of mgr ms m \<longleftrightarrow> motorExists (msg_id m) mgr \<and> 0 < getInt m FEEDBACK_SENSOR_CAN_ID_FD
     \<and> list_ex (\<lambda>p. FEEDBACK_SENSOR_CAN_ID_FD \<in> set (differential_calls motor_registered p m))
         (remembered_msg (mPrevMotorMsgs (motorConfigs mgr)) (msg_id m) # filter (\<lambda>p. msg_id p = msg_id m) ms)"

definition changes_encoder :: "robot_io \<Rightarrow> robot \<Rightarrow> bool" where
  "changes_encoder io s =
     (case waiting (net (rb_comms s)) ''motorconfig'' of
        None \<Rightarrow> False
      | Some b \<Rightarrow>
          (case io_parse_config io b of
             None \<Rightarrow> False
           | Some ms \<Rightarrow> list_ex (changes_encoder_of (rb_motors s) ms) ms))"

lemma motor_update_fault:
  assumes "map_of motor_updates f = Some upd" and "upd mType enc m = Inl flt"
  shows "flt = NullDereference \<and> f = FEEDBACK_SENSOR_CAN_ID_FD \<and> 0 < getInt m FEEDBACK_SENSOR_CAN_ID_FD"
proof -
  have "list_all (\<lambda>(f', upd). \<forall>e. upd mType enc m = Inl e \<longrightarrow>
      e = NullDereference \<and> f' = FEEDBACK_SENSOR_CAN_ID_FD \<and> 0 < getInt m FEEDBACK_SENSOR_CAN_ID_FD) motor_updates"
    by (auto simp: motor_update_defs split: motor_type.split option.split if_splits)
  then show ?thesis using map_of_SomeD[OF assms(1)] assms(2) by (force simp: list_all_iff)
qed

lemma run_updates_fault_cause:
  "fst (run_updates resp enc m mgr fs calls) = Some flt \<Longrightarrow> flt = NullDereference
    \<and> FEEDBACK_SENSOR_CAN_ID_FD \<in> set fs \<and> 0 < getInt m FEEDBACK_SENSOR_CAN_ID_FD"
proof (induction fs arbitrary: calls)
  case (Cons f fs)
  then show ?case
    using motor_update_fault[of f _ _ enc m flt] by (auto split: option.splits sum.splits if_splits)
qed simp

lemma motor_config_loop_fault:
  assumes "motor_config_loop modeOf resp enc n ms mgr calls = (Some flt, mgr', calls')"
    and "sm_ok (mPrevMotorMsgs (motorConfigs mgr))"
  shows "flt = NullDereference \<and> list_ex (changes_encoder_of mgr ms) ms"
  using assms
proof (induction ms arbitrary: mgr calls)
  case (Cons m ms)
  let ?store = "\<lambda>mgr. mgr\<lparr>motorConfigs := setPrevMotorConfigMsg (msg_id m) m (motorConfigs mgr)\<rparr>"
  let ?prevs = "mPrevMotorMsgs (motorConfigs mgr)"
  let ?mgr1 = "mgr\<lparr>motorConfigs := (motorConfigs mgr)\<lparr>mPrevMotorMsgs := snd (sm_at [] (msg_id m) ?prevs)\<rparr>\<rparr>"
  have later: "flt = NullDereference \<and> list_ex (changes_encoder_of mgr (m # ms)) (m # ms)"
    if "flt = NullDereference \<and> list_ex (changes_encoder_of mgr1 ms) ms"
      "\<And>i. motorExists i mgr1 = motorExists i mgr"
      "\<And>i. remembered_msg (mPrevMotorMsgs (motorConfigs mgr1)) i = remembered_msg ?prevs i
          \<or> i = msg_id m \<and> remembered_msg (mPrevMotorMsgs (motorConfigs mgr1)) i = m"
    for mgr1 :: "pmsg motor_manager"
  proof -
    have "\<exists>m' \<in> set ms. changes_encoder_of mgr1 ms m'" using that(1) by (simp add: list_ex_iff)
    then obtain m' where m': "m' \<in> set ms" "changes_encoder_of mgr1 ms m'" by blast
    have "changes_encoder_of mgr (m # ms) m'"
      using m'(2) that(2) that(3)[of "msg_id m'"] by (auto simp: changes_encoder_of_def list_ex_iff)
    then show ?thesis using that(1) m'(1) by (auto simp: list_ex_iff)
  qed
  have prevs: "remembered_msg (mPrevMotorMsgs (motorConfigs (?store ?mgr1))) i = remembered_msg ?prevs i
      \<or> i = msg_id m \<and> remembered_msg (mPrevMotorMsgs (motorConfigs (?store ?mgr1))) i = m"
    "remembered_msg (mPrevMotorMsgs (motorConfigs (?store mgr))) i = remembered_msg ?prevs i
      \<or> i = msg_id m \<and> remembered_msg (mPrevMotorMsgs (motorConfigs (?store mgr))) i = m" for i
    using Cons.prems(2) by (auto simp: setPrevMotorConfigMsg_def)
  have ok: "sm_ok (mPrevMotorMsgs (motorConfigs (?store ?mgr1)))" "sm_ok (mPrevMotorMsgs (motorConfigs (?store mgr)))"
    using Cons.prems(2) by (simp_all add: setPrevMotorConfigMsg_def)
  from Cons.prems(1) consider
      (here) "motorExists (msg_id m) mgr"
        "fst (motor_differential resp enc (fst (sm_at [] (msg_id m) ?prevs)) m ?mgr1 calls) = Some flt"
    | (differential) calls1 where "motor_config_loop modeOf resp enc n ms (?store ?mgr1) calls1 = (Some flt, mgr', calls')"
    | (full) calls1 where "motor_config_loop modeOf resp enc n ms (?store mgr) calls1 = (Some flt, mgr', calls')"
    | (skip) calls1 where "motor_config_loop modeOf resp enc n ms mgr calls1 = (Some flt, mgr', calls')"
    by (auto simp: Let_def split_beta split: if_splits option.splits prod.splits)
  then show ?case
  proof cases
    case here
    then have "changes_encoder_of mgr (m # ms) m" "flt = NullDereference"
      using run_updates_fault_cause[of resp enc m ?mgr1 _ calls flt]
      by (auto simp: motor_differential_def changes_encoder_of_def sm_at_remembered)
    then show ?thesis by simp
  next
    case differential
    from later[OF Cons.IH[OF this ok(1)] _ prevs(1)] show ?thesis by (simp add: motorExists_def)
  next
    case full
    from later[OF Cons.IH[OF this ok(2)] _ prevs(2)] show ?thesis by (simp add: motorExists_def)
  next
    case skip
    from later[OF Cons.IH[OF this Cons.prems(2)]] show ?thesis by simp
  qed
qed simp

lemma robot_motor_config_fault:
  assumes "robot_motor_config io l s = (Some flt, s')" and "motor_ok (rb_motors s)"
  shows "flt = NullDereference \<and> changes_encoder io s"
proof -
  obtain b n1 ms calls' mgr' where g: "getMessage ''motorconfig'' (net (rb_comms s)) = (Some b, n1)"
    "io_parse_config io b = Some ms"
    "motor_config_loop (io_modeOf io) (io_motor_resp io) CKEncoderManager_new (length ms) ms
       ((rb_motors s)\<lparr>motorConfigs := setMotorsConfigMsg msg_id ms (motorConfigs (rb_motors s))\<rparr>) (rb_motor_calls s)
     = (Some flt, mgr', calls')"
    using assms(1)
    by (auto simp: robot_motor_config_def motor_config_run_def Let_def split: prod.splits option.splits if_splits)
  have w: "waiting (net (rb_comms s)) ''motorconfig'' = Some b"
    using g(1) getMessage_result[of "''motorconfig''" "net (rb_comms s)"] by simp
  have "sm_ok (mPrevMotorMsgs (motorConfigs (rb_motors s)))" using motor_ok_maps[OF assms(2)] by simp
  with motor_config_loop_fault[OF g(3)] show ?thesis
    by (simp add: changes_encoder_def w g(2) changes_encoder_of_def[abs_def] motorExists_def)
qed

section \<open>Every step stays acceptable\<close>

lemma mailbox_acceptable_get [simp]:
  "mailbox_acceptable io layout n \<Longrightarrow> mailbox_acceptable io layout (snd (getMessage g n))"
  by (simp add: mailbox_acceptable_def)

lemma mailbox_message:
  assumes "mailbox_acceptable io layout n" and "getMessage g n = (Some b, n')"
  shows "acceptable io layout g b"
  using assms getMessage_result[of g n] by (simp add: mailbox_acceptable_def)

lemma mailbox_acceptable_publish:
  assumes "network_ok n" and "mailbox_acceptable io layout n" and "acceptable io layout grp buf"
  shows "mailbox_acceptable io layout (publish_bytes grp buf n)"
  using assms by (simp add: mailbox_acceptable_def waiting_publish_bytes)

lemma mailbox_acceptable_periodic:
  assumes "robot_ok s" and "publishes_acceptable io layout" and "mailbox_acceptable io layout (net (rb_comms s))"
  shows "mailbox_acceptable io layout (net (rb_comms (RobotPeriodic io attached position s)))"
proof (cases "isExternalControl s")
  case True
  then show ?thesis using RobotPeriodic_external(3)[OF True] assms(3) by simp
next
  case False
  let ?fm = "rf_msgs (failover_entered position s)"
  have "failover_ok (failover_entered position s)"
    using assms(1) by (auto simp: robot_ok_def failover_entered_def intro!: failover_init_ok)
  then have "layout_ok ?fm" by (simp add: failover_ok_def)
  then have p: "acceptable io layout ''motorcontrol'' (sr_motorControl (io_serializers io) (fm_motorControl ?fm))"
    "acceptable io layout ''solenoidcontrol'' (sr_solenoidControl (io_serializers io) (fm_solenoidControl ?fm))"
    "acceptable io layout ''motorconfig'' (sr_motorConfiguration (io_serializers io) (fm_motorConfiguration ?fm))"
    "acceptable io layout ''ledcontrol'' (sr_ledControl (io_serializers io) (fm_ledControl ?fm))"
    using assms(2) unfolding publishes_acceptable_def by blast+
  have n: "network_ok (net (rb_comms s))" using assms(1) by (simp add: robot_ok_def)
  have "net (rb_comms (RobotPeriodic io attached position s)) = snd (publishMessages (io_serializers io) ?fm (net (rb_comms s)))"
    using arg_cong[OF RobotPeriodic_failover(1)[OF False, of io attached position], of snd]
    by (simp add: RobotFailoverPeriodic_def Let_def split_beta)
  also have "mailbox_acceptable io layout \<dots>"
    using n assms(3) p by (simp add: publishMessages_def Let_def mailbox_acceptable_publish)
  finally show ?thesis .
qed

lemma solenoids_built_beat:
  assumes "solenoid_ok mgr" and "solenoids_built layout mgr"
  shows "solenoids_built layout (solenoid_processHeartbeat mgr)"
  using assms(2) solenoid_beat_list[OF assms(1)]
  by (auto simp: solenoids_built_def split: option.splits if_splits)

definition calm :: "robot_io \<Rightarrow> (u32 \<Rightarrow> sol_type) \<Rightarrow> robot \<Rightarrow> bool" where
  "calm io layout s \<longleftrightarrow> robot_ok s \<and> mailbox_acceptable io layout (net (rb_comms s)) \<and> solenoids_built layout (rb_solenoids s)"

definition queue_acceptable :: "robot_io \<Rightarrow> (u32 \<Rightarrow> sol_type) \<Rightarrow> robot_event \<Rightarrow> bool" where
  "queue_acceptable io layout e \<longleftrightarrow> (\<forall>queue. e = RunReceive queue \<longrightarrow>
     (\<forall>(g, b) \<in> set (taken queue). acceptable io layout g b))"

lemma calm_motor_values:
  assumes "calm io layout s" and "robot_motor_values io l now s = (r, s')"
  shows "r = None \<and> mailbox_acceptable io layout (net (rb_comms s')) \<and> rb_solenoids s' = rb_solenoids s"
proof -
  obtain r' n t mgr calls where run: "motor_values_run (io_parse_control io) l (mControlMode (rb_mode s) = DISABLED) now
      (io_currentMode io) (io_canOf io) (net (rb_comms s)) (rb_motor_timer s) (rb_motors s) (rb_talons s)
      = (r', n, t, mgr, calls)" using prod_cases5 by blast
  with assms(2) have s': "r = r'" "net (rb_comms s') = n" "rb_solenoids s' = rb_solenoids s"
    by (auto simp: robot_motor_values_def)
  have c: "motor_ok (rb_motors s)" "mailbox_acceptable io layout (net (rb_comms s))"
    using assms(1) by (simp_all add: calm_def robot_ok_def)
  have n: "n = snd (getMessage ''motorcontrol'' (net (rb_comms s)))" by (rule motor_values_task_ok(2)[OF c(1) run])
  have "r' = None"
  proof (cases "fst (getMessage ''motorcontrol'' (net (rb_comms s)))")
    case None
    then show ?thesis using run by (auto simp: motor_values_run_def split: prod.splits)
  next
    case (Some b)
    then have g: "getMessage ''motorcontrol'' (net (rb_comms s)) = (Some b, n)" by (metis n prod.collapse)
    have "fst (apply_motor_values (io_currentMode io) (io_canOf io) ms (rb_motors s) (rb_talons s)) = None"
      if "io_parse_control io b = Some ms" for ms
      by (rule motor_values_no_fault) (use mailbox_message[OF c(2) g] that in \<open>simp add: acceptable_def\<close>)
    then have "\<not> (\<exists>ms f mgr calls. io_parse_control io b = Some ms
        \<and> apply_motor_values (io_currentMode io) (io_canOf io) ms (rb_motors s) (rb_talons s) = (Some f, mgr, calls))"
      by force
    then show ?thesis
      using run g by (auto simp: motor_values_run_def Let_def split: prod.splits option.splits if_splits)
  qed
  then show ?thesis using s' n c(2) by simp
qed

lemma calm_motor_config:
  assumes "calm io layout s" and "robot_motor_config io l s = (r, s')"
  shows "(\<forall>f. r = Some f \<longrightarrow> f = NullDereference \<and> changes_encoder io s)
    \<and> mailbox_acceptable io layout (net (rb_comms s')) \<and> rb_solenoids s' = rb_solenoids s"
proof -
  have "net (rb_comms s') = snd (getMessage ''motorconfig'' (net (rb_comms s)))" "rb_solenoids s' = rb_solenoids s"
    using assms(2) motor_config_task_network[of "io_parse_config io" l "io_modeOf io" "io_motor_resp io"
        CKEncoderManager_new "net (rb_comms s)" "rb_motors s" "rb_motor_calls s"]
    by (auto simp: robot_motor_config_def split: prod.splits)
  then show ?thesis
    using assms robot_motor_config_fault[of io l s _ s'] by (auto simp: calm_def robot_ok_def)
qed

lemma calm_solenoids:
  assumes "calm io layout s" and "robot_solenoids io now s = (r, s')"
  shows "(\<forall>f. r = Some f \<longrightarrow> survives f) \<and> mailbox_acceptable io layout (net (rb_comms s'))
    \<and> solenoids_built layout (rb_solenoids s')"
proof -
  obtain r' es n mgr t where run: "solenoid_task_run (io_parse_solenoids io) (io_fits io) now
      (mControlMode (rb_mode s) = TELEOP) (net (rb_comms s), rb_solenoids s, rb_solenoid_task s) = (r', es, n, mgr, t)"
    using prod_cases5 by blast
  with assms(2) have s': "r = r'" "net (rb_comms s') = n" "rb_solenoids s' = mgr"
    by (auto simp: robot_solenoids_def)
  have c: "mailbox_acceptable io layout (net (rb_comms s))" "solenoids_built layout (rb_solenoids s)" "solenoid_ok (rb_solenoids s)"
    using assms(1) by (simp_all add: calm_def robot_ok_def)
  have n: "n = snd (getMessage ''solenoidcontrol'' (net (rb_comms s)))"
    using solenoid_task_ok(2)[OF c(3) run] .
  have "(\<forall>f. r' = Some f \<longrightarrow> survives f) \<and> solenoids_built layout mgr"
  proof (cases "fst (getMessage ''solenoidcontrol'' (net (rb_comms s)))")
    case None
    then show ?thesis using run c(2) by (auto simp: solenoid_task_run_def split: prod.splits)
  next
    case (Some b)
    then have g: "getMessage ''solenoidcontrol'' (net (rb_comms s)) = (Some b, n)" by (metis n prod.collapse)
    obtain parsed update where p: "io_parse_solenoids io b = (parsed, update)" by fastforce
    have "parsed \<Longrightarrow> \<forall>m \<in> set (solenoids update). solenoid_acceptable layout m"
      using mailbox_message[OF c(1) g] p by (simp add: acceptable_def)
    note built = apply_solenoids_acceptable[OF this c(3,2)]
    then show ?thesis
      using run g p c(2)
      by (fastforce simp: solenoid_task_run_def Let_def split: prod.splits option.splits if_splits)
  qed
  then show ?thesis using s' n c(1) by simp
qed

text \<open>The faults that remain, by the event they come from.\<close>

definition fault_cause :: "robot_io \<Rightarrow> robot_event \<Rightarrow> robot \<Rightarrow> fault \<Rightarrow> bool" where
  "fault_cause io e s f \<longleftrightarrow> survives f \<or> f = NullDereference \<and> (\<exists>l. e = RunMotorConfig l) \<and> changes_encoder io s"

lemma robot_event_calm:
  assumes "robot_event_result io e s = (r, s')" and "calm io layout s" and "publishes_acceptable io layout"
    and "queue_acceptable io layout e"
  shows "(\<forall>f. r = Some f \<longrightarrow> fault_cause io e s f) \<and> calm io layout s'"
proof -
  have c: "robot_ok s" "mailbox_acceptable io layout (net (rb_comms s))" "solenoids_built layout (rb_solenoids s)"
    using assms(2) by (simp_all add: calm_def)
  have frame: "net (rb_comms (mode_periodic io js m s)) = net (rb_comms s)
      \<and> rb_solenoids (mode_periodic io js m s) = rb_solenoids s" for js m
    by (cases "m = kTeleop") (simp add: mode_periodic_def TeleopPeriodic_def, simp add: mode_periodic_frame)
  have *: "(\<forall>f. r = Some f \<longrightarrow> fault_cause io e s f) \<and> mailbox_acceptable io layout (net (rb_comms s'))
      \<and> solenoids_built layout (rb_solenoids s')"
  proof (cases e)
    case (RunRobotPeriodic attached position)
    then show ?thesis
      using assms(1) mailbox_acceptable_periodic[OF c(1) assms(3) c(2)] c by (auto simp: RobotPeriodic_frame)
  next
    case (RunReceive queue)
    have "mailbox_acceptable io layout (net (rb_comms (ReceiveMessagesTask_run queue s)))"
      using c(1,2) assms(4) RunReceive
      by (auto simp: mailbox_acceptable_def receive_comms pump_loop_waiting robot_ok_def queue_acceptable_def
          split: option.splits dest!: map_of_SomeD)
    then show ?thesis using assms(1) RunReceive c(3) by (auto simp: ReceiveMessagesTask_run_def)
  next
    case RunHeartbeat
    then show ?thesis
      using assms(1) c solenoids_built_beat[of "rb_solenoids s" layout]
      by (auto simp: ProcessHeartbeatTask_run_def robot_ok_def)
  next
    case (RunMotorValues l now)
    then show ?thesis using calm_motor_values[OF assms(2), of l now r s'] assms(1) c(3) by auto
  next
    case (RunMotorConfig l)
    then show ?thesis using calm_motor_config[OF assms(2), of l r s'] assms(1) c(3) by (auto simp: fault_cause_def)
  next
    case (RunSolenoids now)
    then show ?thesis using calm_solenoids[OF assms(2), of now r s'] assms(1) by (auto simp: fault_cause_def)
  next
    case (RunLEDs l)
    have "net (rb_comms (robot_leds io l s)) = snd (getMessage ''ledcontrol'' (net (rb_comms s)))"
      using led_task_network[of "io_parse_led io" l "io_led_schema io" "io_led_resp io" "net (rb_comms s)" "rb_leds s"]
      by (auto simp: robot_leds_def split: prod.splits)
    then show ?thesis using assms(1) RunLEDs c robot_task_frames(4)[of io l s] by auto
  qed (use assms(1) c frame in \<open>auto simp: UpdateDSConnectionStatusTask_run_def\<close>)
  then have "r \<noteq> Some UndefinedBehaviour" by (auto simp: fault_cause_def)
  with robot_event_result_step[OF assms(1)] c(1) have "robot_ok s'" by (blast intro: robot_ok_step)
  with * show ?thesis by (simp add: calm_def)
qed

section \<open>Crashes\<close>

lemma send_status_fault: "send_status grp failure radio n msg = Inl f \<Longrightarrow> f = BufferOverflow \<and> 1500 < length msg"
  by (auto simp: send_status_def SerializeToArray_def STATUS_MESSAGE_SIZE_def split: sum.splits bool.splits if_splits)

text \<open>The bytes a reporting task puts into its buffer.\<close>

definition report_bytes :: "system_io \<Rightarrow> pass_env \<Rightarrow> string \<Rightarrow> system \<Rightarrow> bytes" where
  "report_bytes sio env name sy =
     (let s = sy_robot sy
      in if name = ''SendRobotDataTask'' then sio_ser_robot sio (robot_status_of (rb_mode s) (sy_data sy) (hasConnection s))
         else if name = ''SendIMUDataTask'' then
           sio_ser_imu sio (imu_status_message (pe_quats env) (pe_rates env) (imu_mgr (sy_imus sy)))
         else if name = ''SendMotorDataTask'' then
           (case motor_forEach (rb_motors s) (add_motor_status (pe_talons env)) (Inr []) of
              Inl f \<Rightarrow> [] | Inr msg \<Rightarrow> sio_ser_motor sio msg)
         else sio_ser_joystick sio (joystick_message (pe_joysticks env)))"

lemma motor_report_fault:
  assumes "motor_ok mgr" and "SendMotorDataTask_run ser reading radio mgr n = Inl f"
  shows "f = BufferOverflow
    \<and> 1500 < length (case motor_forEach mgr (add_motor_status reading) (Inr []) of Inl f \<Rightarrow> [] | Inr msg \<Rightarrow> ser msg)"
proof -
  have "\<forall>(i, dev) \<in> set (mRegisteredMotorList mgr).
      fst (sm_at TALON_FX i (mRegisteredMotorTypeList mgr)) = type_of_talon dev"
    using motor_ok_type[OF assms(1)] motor_ok_maps[OF assms(1)] by (auto simp: sm_at_fst sm_get_in_set[symmetric])
  from add_statuses[OF this, of reading "[]"]
  obtain msg where msg: "motor_forEach mgr (add_motor_status reading) (Inr []) = Inr msg"
    by (auto simp: motor_forEach_def)
  then have "send_status ''motorstatus'' ''Motor status message failed to serialize. Message probably too large or invalid.''
      radio n (ser msg) = Inl f"
    using assms(2) by (auto simp: SendMotorDataTask_run_def split: sum.splits option.splits bool.splits prod.splits)
  from send_status_fault[OF this] show ?thesis by (simp add: msg)
qed

lemma sent_fault: "fst (sent outcome sy) = Some f \<longleftrightarrow> outcome = Inl f"
  by (auto simp: sent_def split: sum.split)

lemma run_task_report_fault:
  assumes "name \<in> set report_names" and "motor_ok (rb_motors (sy_robot sy))" and "fst (run_task sio env name sy) = Some f"
  shows "f = BufferOverflow \<and> 1500 < length (report_bytes sio env name sy)"
  using assms(1,3) unfolding report_names_def list.set
  by (elim insertE emptyE)
    (auto simp: run_task_reports Let_def sent_fault sendRobotStatusMessage_def SendIMUDataTask_run_def
      SendJoystickDataTask_run_def report_bytes_def imu_status_message_def split_beta
      dest!: send_status_fault motor_report_fault[OF assms(2)])

definition env_acceptable :: "robot_io \<Rightarrow> (u32 \<Rightarrow> sol_type) \<Rightarrow> pass_env \<Rightarrow> bool" where
  "env_acceptable io layout env \<longleftrightarrow> (\<forall>(g, b) \<in> set (taken (pe_queue env)). acceptable io layout g b)"

text \<open>What crashes the program: the task that runs, and the state it finds.\<close>

definition crash_cause :: "system_io \<Rightarrow> pass_env \<Rightarrow> string \<Rightarrow> system \<Rightarrow> fault \<Rightarrow> bool" where
  "crash_cause sio env name sy f \<longleftrightarrow>
     f = BufferOverflow \<and> name \<in> set report_names \<and> 1500 < length (report_bytes sio env name sy)
   \<or> f = NullDereference \<and> name = ''ApplyMotorConfigTask'' \<and> changes_encoder (sio_robot sio) (sy_robot sy)"

lemma run_task_calm:
  assumes "calm (sio_robot sio) layout (sy_robot sy)" and "publishes_acceptable (sio_robot sio) layout"
    and "env_acceptable (sio_robot sio) layout env" and "run_task sio env name sy = (f, sy')"
  shows "(\<forall>flt. f = Some flt \<longrightarrow> survives flt \<or> crash_cause sio env name sy flt)
    \<and> calm (sio_robot sio) layout (sy_robot sy')"
proof -
  have ok: "robot_ok (sy_robot sy)" "motor_ok (rb_motors (sy_robot sy))"
    using assms(1) by (simp_all add: calm_def robot_ok_def)
  consider (imu) "name = ''ApplyIMUConfigTask''" | (report) "name \<in> set report_names"
    | (other) "name \<noteq> ''ApplyIMUConfigTask''" "name \<notin> set report_names"
    by blast
  then show ?thesis
  proof cases
    case imu
    have "sy_robot sy' = robot_imu_config (sy_robot sy)" "f = None"
      using assms(4) unfolding imu run_task_imu
      by (auto simp: Let_def set_net_def robot_imu_config_def imu_config_run_network)
    then show ?thesis using assms(1) by (simp add: calm_def robot_ok_imu_config)
  next
    case report
    then show ?thesis
      using run_task_report_fault[OF report ok(2), of sio env] run_task_report_frame[OF report, of sio env sy] report assms(1,4)
      by (auto simp: crash_cause_def)
  next
    case other
    show ?thesis
    proof (cases "task_event env name")
      case None
      then show ?thesis using assms(1,4) other by (auto simp: run_task_other)
    next
      case (Some e)
      obtain r s' where e: "robot_event_result (sio_robot sio) e (sy_robot sy) = (r, s')" by fastforce
      have "queue_acceptable (sio_robot sio) layout e"
        using Some assms(3) by (auto simp: queue_acceptable_def env_acceptable_def task_event_def split: if_splits)
      moreover have "name = ''ApplyMotorConfigTask''" if "e = RunMotorConfig l" for l
        using Some that by (auto simp: task_event_def split: if_splits)
      ultimately show ?thesis
        using robot_event_calm[OF e assms(1,2)] assms(4) Some e other
        by (auto simp: run_task_other fault_cause_def crash_cause_def)
    qed
  qed
qed

lemma run_calls_calm:
  assumes "calm (sio_robot sio) layout (sy_robot sy)" and "publishes_acceptable (sio_robot sio) layout"
  shows "calm (sio_robot sio) layout (sy_robot (run_calls sio cs sy))"
  using assms(1)
proof (induction cs arbitrary: sy)
  case (Cons c cs)
  have "calm (sio_robot sio) layout (sy_robot (run_call sio c sy))"
  proof (cases "call_event c")
    case None
    then show ?thesis using Cons.prems by (cases c) (auto simp: run_call_def split_beta)
  next
    case (Some e)
    then have "sy_robot (run_call sio c sy) = snd (robot_event_result (sio_robot sio) e (sy_robot sy))"
      "queue_acceptable (sio_robot sio) layout e"
      by (cases c; auto simp: run_call_def queue_acceptable_def)+
    then show ?thesis
      using robot_event_calm[OF _ Cons.prems assms(2), of e] by (metis prod.collapse)
  qed
  then show ?case using Cons.IH by (simp add: run_calls_def)
qed (simp add: run_calls_def)

text \<open>The tasks a pass starts, with the state each finds; a task that ends in a fault is the last one.\<close>

fun loop_starts :: "system_io \<Rightarrow> pass_env \<Rightarrow> u64 \<Rightarrow> sched_task list \<Rightarrow> system \<Rightarrow> (string \<times> system) list" where
  "loop_starts sio env timeNow [] sy = []"
| "loop_starts sio env timeNow (t # ts) sy0 =
     (let sy = run_calls sio (pe_calls env (st_name t)) sy0
      in if task_due timeNow t then
           (st_name t, sy) #
             (case run_task sio env (st_name t) sy of
                (Some f, sy') \<Rightarrow> []
              | (None, sy1) \<Rightarrow> loop_starts sio env timeNow ts sy1)
         else loop_starts sio env timeNow ts sy)"

fun run_starts ::
  "system_io \<Rightarrow> (u64 \<times> pass_env) list \<Rightarrow> sched_task list \<Rightarrow> system \<Rightarrow> (pass_env \<times> string \<times> system) list" where
  "run_starts sio [] tasks sy = []"
| "run_starts sio ((now, env) # passes) tasks sy =
     map (Pair env) (loop_starts sio env now tasks sy) @
       (case system_pass sio env now tasks sy of
          Inl f \<Rightarrow> []
        | Inr p \<Rightarrow> run_starts sio passes (po_tasks p) (po_system p))"

text \<open>The last task started has ended in the fault \<open>f\<close>, with the cause above.\<close>

definition crashed :: "system_io \<Rightarrow> (pass_env \<times> string \<times> system) list \<Rightarrow> fault \<Rightarrow> bool" where
  "crashed sio starts f \<longleftrightarrow> starts \<noteq> [] \<and> (case last starts of (env, name, sy) \<Rightarrow>
     fst (run_task sio env name sy) = Some f \<and> crash_cause sio env name sy f)"

lemma crashed_later: "crashed sio starts f \<Longrightarrow> crashed sio (before @ starts) f"
  by (simp add: crashed_def)

lemma pass_loop_calm:
  assumes "calm (sio_robot sio) layout (sy_robot sy)" and "publishes_acceptable (sio_robot sio) layout"
    and "env_acceptable (sio_robot sio) layout env" and "pass_loop sio env now w tasks sy = (r, es, f, sy')"
  shows "(\<forall>flt. f = Some flt \<longrightarrow> survives flt \<or> crashed sio (map (Pair env) (loop_starts sio env now tasks sy)) flt)
    \<and> calm (sio_robot sio) layout (sy_robot sy')"
  using assms(1,4)
proof (induction tasks arbitrary: w sy r es)
  case (Cons t ts)
  let ?sy = "run_calls sio (pe_calls env (st_name t)) sy"
  have sy1: "calm (sio_robot sio) layout (sy_robot ?sy)" by (rule run_calls_calm[OF Cons.prems(1) assms(2)])
  obtain g sy2 where run: "run_task sio env (st_name t) ?sy = (g, sy2)" by fastforce
  note task = run_task_calm[OF sy1 assms(2,3) run]
  note rate = task_due_def
  from Cons.prems(2) consider (stop) flt where "task_due now t" "g = Some flt" "f = Some flt" "sy' = sy2"
    | (skip) w' r' es' where "\<not> task_due now t" "pass_loop sio env now w' ts ?sy = (r', es', f, sy')"
    | (go) w' r' es' where "task_due now t" "g = None" "pass_loop sio env now w' ts sy2 = (r', es', f, sy')"
    using run by (auto simp: Let_def rate split: if_splits prod.splits option.splits)
  then show ?case
  proof cases
    case stop
    then show ?thesis using task run by (auto simp: crashed_def)
  next
    case skip
    from Cons.IH[OF sy1 skip(2)] skip(1) show ?thesis by simp
  next
    case go
    from task have "calm (sio_robot sio) layout (sy_robot sy2)" by blast
    from Cons.IH[OF this go(3)] go(1,2) run show ?thesis
      using crashed_later[of sio _ _ "[(env, st_name t, ?sy)]"] by auto
  qed
qed simp

lemma system_pass_calm:
  assumes "calm (sio_robot sio) layout (sy_robot sy)" and "publishes_acceptable (sio_robot sio) layout"
    and "env_acceptable (sio_robot sio) layout env"
  shows "case system_pass sio env now tasks sy of
      Inl f \<Rightarrow> crashed sio (map (Pair env) (loop_starts sio env now tasks sy)) f
    | Inr p \<Rightarrow> calm (sio_robot sio) layout (sy_robot (po_system p))"
proof -
  obtain r es f sy1 where l: "pass_loop sio env now (- 1) tasks sy = (r, es, f, sy1)" using prod_cases4 by blast
  note c = pass_loop_calm[OF assms l]
  have "calm (sio_robot sio) layout (sy_robot (run_calls sio (pe_last_calls env) (report_fault f sy1)))"
    using c run_calls_calm[OF _ assms(2)] by simp
  then show ?thesis
    using l c by (cases f) (auto simp: system_pass_def report_fault_def split: if_splits)
qed

lemma System_new_calm: "calm io layout (sy_robot (System_new pn task timer))"
proof -
  have "waiting (net (rb_comms (Robot_new pn task timer))) g = None" for g
    by (simp add: Robot_new_def waiting_def NetworkManager_new_def sm_get_def)
  moreover have "sm_get (mRegisteredSolenoidList (rb_solenoids (Robot_new pn task timer))) i = None" for i
    by (simp add: Robot_new_def SolenoidManager_new_def sm_get_def)
  ultimately show ?thesis
    using robot_ok_new[of pn task timer] by (simp add: calm_def System_new_def mailbox_acceptable_def solenoids_built_def)
qed

lemma system_run_calm:
  assumes "calm (sio_robot sio) layout (sy_robot sy)" and "publishes_acceptable (sio_robot sio) layout"
    and "\<And>now env. (now, env) \<in> set passes \<Longrightarrow> env_acceptable (sio_robot sio) layout env"
  shows "(\<exists>ps tasks' sy'. system_run sio passes tasks sy = Inr (ps, tasks', sy'))
    \<or> (\<exists>f. system_run sio passes tasks sy = Inl f \<and> crashed sio (run_starts sio passes tasks sy) f)"
  using assms(1,3)
proof (induction passes arbitrary: tasks sy)
  case (Cons pass passes)
  obtain now env where pass: "pass = (now, env)" by (cases pass)
  have env: "env_acceptable (sio_robot sio) layout env" using Cons.prems(2)[of now env] by (simp add: pass)
  show ?case
  proof (cases "system_pass sio env now tasks sy")
    case (Inl f)
    then show ?thesis using system_pass_calm[OF Cons.prems(1) assms(2) env, of now tasks] by (auto simp: pass)
  next
    case (Inr p)
    then have "calm (sio_robot sio) layout (sy_robot (po_system p))"
      using system_pass_calm[OF Cons.prems(1) assms(2) env, of now tasks] by simp
    moreover have "env_acceptable (sio_robot sio) layout env" if "(now, env) \<in> set passes" for now env
      using Cons.prems(2)[of now env] that by simp
    ultimately show ?thesis
      using Cons.IH[of "po_system p" "po_tasks p"] Inr crashed_later[of sio "run_starts sio passes (po_tasks p) (po_system p)"]
      by (auto simp: pass)
  qed
qed simp

text \<open>C2. Two things only can crash the program. While no message from the coprocessor has a follower motor
  that names no motor id or a solenoid command that is wrong for the solenoid, with every solenoid of
  one type throughout and the failover code's own single, and the parsers read the failover code's motor
  and solenoid commands back, then however the devices answer, messages are lost or come in any order,
  sensors and motors come and go, callbacks come in between and tasks throw, the passes of the scheduler
  complete, or the last task started is one of these: a reporting task, on a report of more than 1500
  bytes, which it has written past the end of its buffer; or \<open>ApplyMotorConfigTask\<close>, which has
  dereferenced a null pointer, with a message waiting whose configuration of a registered motor has a
  remote encoder and changes that field, from the configuration stored for the motor or from an earlier
  one in the message. No configuration of motors is excluded, the failover code's own included.\<close>

theorem system_crash_causes:
  assumes "\<And>now env. (now, env) \<in> set passes \<Longrightarrow> env_acceptable (sio_robot sio) layout env"
    and "reads_back (sio_robot sio)" and "reads_back_solenoids (sio_robot sio)" and "failover_layout layout"
  shows "(\<exists>ps tasks' sy'. system_run sio passes tasks (System_new pn task timer) = Inr (ps, tasks', sy'))
    \<or> (\<exists>f. system_run sio passes tasks (System_new pn task timer) = Inl f
        \<and> crashed sio (run_starts sio passes tasks (System_new pn task timer)) f)"
  by (rule system_run_calm[OF System_new_calm failover_acceptable[OF assms(2-4)] assms(1)])

text \<open>An environment in which every answer is the same: no sensor, no driver station, empty reports.\<close>

definition quiet_io :: system_io where
  "quiet_io = \<lparr>sio_robot = resting_io, sio_parse_imu = \<lambda>b. None,
     sio_imu_schema = \<lparr>is_id = \<lambda>m. 0, is_imu_type = \<lambda>m. PIGEON2, is_can_network = \<lambda>m. RIO_CANIVORE,
       is_forward = \<lambda>m. 0, is_up = \<lambda>m. 0\<rparr>,
     sio_imu_resp = \<lambda>n. OK, sio_ser_robot = \<lambda>m. [], sio_ser_imu = \<lambda>m. [], sio_ser_motor = \<lambda>m. [],
     sio_ser_joystick = \<lambda>m. []\<rparr>"

definition talon_at_rest :: talon_reading where
  "talon_at_rest = \<lparr>tr_sensor_position = 0, tr_sensor_velocity = 0, tr_control_mode = CtrePercentOutput,
     tr_output_percent = 0, tr_traj_arbff = 0, tr_traj_position = 0, tr_traj_velocity = 0,
     tr_closed_loop_target = 0, tr_closed_loop_error = 0, tr_integral_accum = 0, tr_error_derivative = 0,
     tr_bus_voltage = 12, tr_supply_current = 0, tr_stator_current = 0, tr_faults = 0, tr_sticky_faults = 0,
     tr_fwd_closed = False, tr_rev_closed = False\<rparr>"

definition quiet_env :: "dish_event list \<Rightarrow> pass_env" where
  "quiet_env queue = \<lparr>pe_queue = queue, pe_motor_lock = True, pe_config_lock = True, pe_led_lock = True,
     pe_motor_clock = 0, pe_solenoid_clock = 0, pe_attached = False, pe_radio = \<lambda>sock grp b. SentBytes 1,
     pe_quats = \<lambda>i. (OK, 0, 0, 0, 0), pe_rates = \<lambda>i. (OK, 0, 0, 0), pe_talons = \<lambda>i. talon_at_rest, pe_joysticks = \<lambda>i. None,
     pe_calls = \<lambda>name. [], pe_last_calls = [CallRobotPeriodic True (\<lambda>i. 0)]\<rparr>"

lemma resting_acceptable: "acceptable resting_io layout g b"
proof -
  have "\<forall>m \<in> set (failover_controls [0, 0, 0, 0] [0, 0, 0, 0]). mv_control_mode m = Follower
      \<longrightarrow> double_to_u16 (mv_output_value m) \<noteq> None"
    by (rule failover_controls_legal(1)) simp_all
  then show ?thesis
    by (simp add: acceptable_def resting_io_def example_io_def)
qed

section \<open>A run that crashes\<close>

text \<open>A wire format for the example: three bytes a motor command, two a motor configuration, three a
  solenoid. The parsers read the commands of the failover code back, drive and steering outputs as
  whole numbers.\<close>

fun encode_control :: "motor_control \<Rightarrow> bytes" where
  "encode_control c = [word_of_int (mv_id c),
     (case mv_control_mode c of PercentOutput \<Rightarrow> 0 | Position \<Rightarrow> 1 | Velocity \<Rightarrow> 2 | Follower \<Rightarrow> 3 | OtherControlMode k \<Rightarrow> 4),
     (case mv_output_value c of Finite x \<Rightarrow> word_of_int \<lfloor>x\<rfloor> | _ \<Rightarrow> 0)]"

fun decode_controls :: "bytes \<Rightarrow> motor_control list" where
  "decode_controls (i # m # v # bs) =
     \<lparr>mv_id = uint i, mv_controller_type = TALON_FX,
       mv_control_mode = (if m = 0 then PercentOutput else if m = 1 then Position else if m = 2 then Velocity
         else if m = 3 then Follower else OtherControlMode (uint m)),
       mv_output_value = Finite (of_int (uint v)), mv_arbitrary_feedforward = Finite 0\<rparr> # decode_controls bs"
| "decode_controls bs = []"

fun decode_configs :: "bytes \<Rightarrow> pmsg list" where
  "decode_configs (i # e # bs) = [(ID_FD, PInt (uint i)), (FEEDBACK_SENSOR_CAN_ID_FD, PInt (uint e))] # decode_configs bs"
| "decode_configs bs = []"

definition encode_solenoids :: "solenoid_control \<Rightarrow> bytes" where
  "encode_solenoids m = (if compressor_is_enabled_for_auto m then 1 else 0) # concat (map (\<lambda>s.
     [ucast (drop_bit 16 (sm_id s)), ucast (sm_id s), if sm_output_value s = SOL_ON then 1 else 0]) (solenoids m))"

fun decode_solenoid_list :: "bytes \<Rightarrow> solenoid_msg list" where
  "decode_solenoid_list (h # c # v # bs) =
     \<lparr>sm_module_type = CTREPCM, sm_id = push_bit 16 (ucast h) OR ucast c, sm_solenoid_type = SINGLE,
       sm_output_value = (if v = 1 then SOL_ON else SOL_OFF)\<rparr> # decode_solenoid_list bs"
| "decode_solenoid_list bs = []"

definition decode_solenoids :: "bytes \<Rightarrow> bool \<times> solenoid_control" where
  "decode_solenoids bs = (bs \<noteq> [], \<lparr>solenoids = decode_solenoid_list (tl bs), compressor_is_enabled_for_auto = (hd bs = 1)\<rparr>)"

definition coded_io :: robot_io where
  "coded_io = example_io\<lparr>
     io_serializers := \<lparr>sr_motorControl = \<lambda>cmds. concat (map encode_control cmds), sr_solenoidControl = encode_solenoids,
       sr_motorConfiguration = \<lambda>ms. concat (map (\<lambda>m. [word_of_int (getInt m ID_FD), word_of_int (getInt m FEEDBACK_SENSOR_CAN_ID_FD)]) ms),
       sr_ledControl = \<lambda>m. [4]\<rparr>,
     io_parse_control := \<lambda>b. Some (decode_controls b), io_parse_config := \<lambda>b. Some (decode_configs b),
     io_parse_solenoids := decode_solenoids\<rparr>"

lemma coded_reads_back: "reads_back coded_io" "reads_back_solenoids coded_io"
proof -
  have "list_all2 same_target (failover_controls ds ss) (decode_controls (concat (map encode_control (failover_controls ds ss))))"
    if l: "length ds = 4" "length ss = 4" for ds ss
  proof -
    obtain a b c d where ds: "ds = [a, b, c, d]" using length4[OF l(1)] by blast
    obtain e f g h where ss: "ss = [e, f, g, h]" using length4[OF l(2)] by blast
    show ?thesis by (simp add: ds ss failover_controls_def arm_controls_def failover_control_def same_target_def)
  qed
  then show "reads_back coded_io" by (simp add: reads_back_def coded_io_def)
  have "decode_solenoids (encode_solenoids m) = (True, m)" if "solenoids m = failover_solenoids" for m
    using that by (cases m) (simp add: decode_solenoids_def encode_solenoids_def failover_solenoids_def failover_solenoid_def)
  then show "reads_back_solenoids coded_io" by (simp add: reads_back_solenoids_def coded_io_def)
qed

text \<open>The devices of \<open>quiet_io\<close> with this format.\<close>

definition coded_system :: system_io where
  "coded_system = quiet_io\<lparr>sio_robot := coded_io\<rparr>"


definition coding_env :: "dish_event list \<Rightarrow> pass_env" where
  "coding_env queue = (quiet_env queue)\<lparr>pe_last_calls := []\<rparr>"

text \<open>Motor 3 is configured with remote encoder 9 and registered, then configured again, in full, and then
  with remote encoder 25.\<close>

definition crash_tasks :: "sched_task list" where
  "crash_tasks = [Task_new 10 ''ReceiveMessagesTask'', Task_new 10 ''ApplyMotorConfigTask'', Task_new 10 ''ApplyMotorValuesTask'']"

definition crash_passes :: "(u64 \<times> pass_env) list" where
  "crash_passes = [(10000, coding_env [DishMessage ''motorconfig'' [3, 9], DishMessage ''motorcontrol'' [3, 0, 0]]),
     (20000, coding_env [DishMessage ''motorconfig'' [3, 9]]), (30000, coding_env [DishMessage ''motorconfig'' [3, 25]])]"

lemma coded_run_task:
  "run_task coded_system (coding_env q) ''ReceiveMessagesTask'' sy = (None, sy\<lparr>sy_robot := ReceiveMessagesTask_run q (sy_robot sy)\<rparr>)"
  "run_task coded_system (coding_env q) ''ApplyMotorConfigTask'' sy =
     (case robot_motor_config coded_io True (sy_robot sy) of (r, s) \<Rightarrow> (r, sy\<lparr>sy_robot := s\<rparr>))"
  "run_task coded_system (coding_env q) ''ApplyMotorValuesTask'' sy =
     (case robot_motor_values coded_io True 0 (sy_robot sy) of (r, s) \<Rightarrow> (r, sy\<lparr>sy_robot := s\<rparr>))"
  by (simp_all add: run_task_def task_event_def coding_env_def quiet_env_def coded_system_def)

lemma coded_calls: "pe_calls (coding_env q) name = []" "pe_last_calls (coding_env q) = []"
  by (simp_all add: coding_env_def quiet_env_def)

lemma coded_pass:
  assumes "list_all (task_due now) [a, b, c]" and "map st_name [a, b, c] = map st_name crash_tasks"
    and "robot_motor_config coded_io True (ReceiveMessagesTask_run q (sy_robot sy)) = (r, s1)"
  shows "r = Some NullDereference \<Longrightarrow> system_pass coded_system (coding_env q) now [a, b, c] sy = Inl NullDereference"
    and "r = None \<Longrightarrow> robot_motor_values coded_io True 0 s1 = (None, s2) \<Longrightarrow>
      \<exists>p. system_pass coded_system (coding_env q) now [a, b, c] sy = Inr p \<and> po_tasks p = map advance_task [a, b, c]
        \<and> sy_robot (po_system p) = s2"
  using assms
  by (auto simp: system_pass_def crash_tasks_def Task_new_def task_due_def coded_run_task coded_calls run_calls_def Let_def)

lemma coded_io_simps [simp]:
  "io_parse_config coded_io b = Some (decode_configs b)" "io_parse_control coded_io b = Some (decode_controls b)"
  "io_modeOf coded_io = (\<lambda>i. MASTER)" "io_canOf coded_io = (\<lambda>m. RIO_CANIVORE)"
  by (simp_all add: coded_io_def example_io_def)

lemmas map_defs = getMessage_def sm_count_def sm_get_def sm_erase_def Let_def
lemmas motor_defs = motorExists_def onMotor_def motor_fullUpdate_def
  setMotorsConfigMsg_def setPrevMotorConfigMsg_def msg_id_def getInt_def ID_FD_def FEEDBACK_SENSOR_CAN_ID_FD_def
  registerMotor_def mv_key_def motor_value_guard_def sm_at_def

text \<open>The configuration of motor 3 with remote encoder \<open>e\<close>, and the registries with it.\<close>

definition encoder_config :: "int \<Rightarrow> pmsg" where
  "encoder_config e = [(ID_FD, PInt 3), (FEEDBACK_SENSOR_CAN_ID_FD, PInt e)]"

definition crash_motors :: "(u16, pmsg) std_map \<Rightarrow> pmsg motor_manager" where
  "crash_motors prevs = \<lparr>mRegisteredMotorList = [(3, TalonFX 3 (getCANInterfaceName RIO_CANIVORE))], mRegisteredMotorTypeList = [(3, TALON_FX)],
     mRegisteredMotorHeartbeatList = [(3, 250)],
     motorConfigs = \<lparr>mMotorMsgs = [(3, encoder_config 9)], mPrevMotorMsgs = prevs\<rparr>\<rparr>"

lemma receive_one:
  "recvMsgMap (net (rb_comms (ReceiveMessagesTask_run [DishMessage g b] s))) = (if length b = 11 then recvMsgMap (net (rb_comms s)) else sm_put g b (recvMsgMap (net (rb_comms s))))"
  by (simp add: ReceiveMessagesTask_run_def receiveMessagePump_def store_received_def EAGAIN_def)

lemma config_first:
  assumes "recvMsgMap (net (rb_comms s)) = [(''motorconfig'', [3, 9]), (''motorcontrol'', [3, 0, 0])]" and "rb_motors s = MotorManager_new"
  shows "\<exists>s1. robot_motor_config coded_io True s = (None, s1) \<and> recvMsgMap (net (rb_comms s1)) = [(''motorcontrol'', [3, 0, 0])]
    \<and> rb_motors s1 = MotorManager_new\<lparr>motorConfigs := \<lparr>mMotorMsgs = [(3, encoder_config 9)], mPrevMotorMsgs = []\<rparr>\<rparr>"
  using assms by (simp add: robot_motor_config_def motor_config_run_def map_defs motor_defs MotorManager_new_def encoder_config_def)

lemma values_first:
  assumes "recvMsgMap (net (rb_comms s)) = [(''motorcontrol'', [3, 0, 0])]"
    and "rb_motors s = MotorManager_new\<lparr>motorConfigs := \<lparr>mMotorMsgs = [(3, encoder_config 9)], mPrevMotorMsgs = []\<rparr>\<rparr>"
  shows "\<exists>s1. robot_motor_values coded_io True 0 s = (None, s1) \<and> recvMsgMap (net (rb_comms s1)) = []
    \<and> rb_motors s1 = crash_motors []"
proof -
  have a: "\<exists>d. apply_motor_values cm (io_canOf coded_io) (decode_controls [3, 0, 0]) (rb_motors s) c = (None, crash_motors [], d)" for cm c
    using assms(2) by (simp add: apply_motor_values.simps map_defs motor_defs MotorManager_new_def crash_motors_def kMaxHeartbeatTicks_def)
  obtain d where "apply_motor_values (io_currentMode coded_io) (io_canOf coded_io) (decode_controls [3, 0, 0]) (rb_motors s) (rb_talons s)
      = (None, crash_motors [], d)" using a by blast
  then show ?thesis
    using assms(1) by (simp add: robot_motor_values_def motor_values_run_def map_defs)
qed

lemma config_full:
  assumes "recvMsgMap (net (rb_comms s)) = [(''motorconfig'', [3, 9])]" and "rb_motors s = crash_motors []"
  shows "\<exists>s1. robot_motor_config coded_io True s = (None, s1) \<and> recvMsgMap (net (rb_comms s1)) = []
    \<and> rb_motors s1 = crash_motors [(3, encoder_config 9)]"
  using assms
  by (simp add: robot_motor_config_def motor_config_run_def map_defs motor_defs crash_motors_def encoder_config_def)

lemma config_crash:
  assumes "recvMsgMap (net (rb_comms s)) = [(''motorconfig'', [3, 25])]" and "rb_motors s = crash_motors [(3, encoder_config 9)]"
  shows "\<exists>s1. robot_motor_config coded_io True s = (Some NullDereference, s1)"
proof -
  have "motor_registered 36"
    by (simp add: motor_registered_def motor_updates_def gain_updates_def closed_loop_updates_def
        soft_limit_updates_def drive_updates_def limit_updates_def motor_field_defs)
  moreover have "differential_calls motor_registered (encoder_config 9) (encoder_config 25)
      = filter (\<lambda>f. motor_registered f \<and> map_of (encoder_config 9) f \<noteq> map_of (encoder_config 25) f) (map fst (encoder_config 25))"
    unfolding differential_calls_def by (rule calls_fields) (simp_all add: msg_ok_def no_lists_def encoder_config_def ID_FD_def FEEDBACK_SENSOR_CAN_ID_FD_def)
  ultimately have "FEEDBACK_SENSOR_CAN_ID_FD \<in> set (differential_calls motor_registered (encoder_config 9) (encoder_config 25))"
    by (simp add: FEEDBACK_SENSOR_CAN_ID_FD_def ID_FD_def encoder_config_def)
  then have "fst (motor_differential (io_motor_resp coded_io) CKEncoderManager_new (encoder_config 9) (encoder_config 25) mgr calls)
      = Some NullDereference" if "motorExists 3 mgr" for mgr :: "pmsg motor_manager" and calls
    using that unfolding motor_differential_def
    by (intro run_updates_fault) (simp_all add: encoder_config_def msg_id_def getInt_def ID_FD_def motorExists_def
        FEEDBACK_SENSOR_CAN_ID_FD_def getEncoder_def CKEncoderManager_new_def sm_count_def sm_get_def)
  then have d: "\<exists>calls1. motor_differential (io_motor_resp coded_io) CKEncoderManager_new (encoder_config 9) (encoder_config 25) mgr calls
      = (Some NullDereference, calls1)" if "motorExists 3 mgr" for mgr :: "pmsg motor_manager" and calls
    using that by (metis prod.collapse)
  let ?mgr = "(crash_motors [(3, encoder_config 9)])\<lparr>motorConfigs := \<lparr>mMotorMsgs = [(3, encoder_config 25)], mPrevMotorMsgs = [(3, encoder_config 9)]\<rparr>\<rparr>"
  have id: "msg_id (encoder_config e) = 3" for e by (simp add: encoder_config_def msg_id_def getInt_def ID_FD_def)
  have "motorExists 3 ?mgr" by (simp add: crash_motors_def motorExists_def sm_count_def sm_get_def)
  with d obtain calls1 where "motor_differential (io_motor_resp coded_io) CKEncoderManager_new (encoder_config 9) (encoder_config 25)
      ?mgr (rb_motor_calls s) = (Some NullDereference, calls1)" by blast
  then have l: "motor_config_loop (io_modeOf coded_io) (io_motor_resp coded_io) CKEncoderManager_new 1 [encoder_config 25] ?mgr (rb_motor_calls s)
      = (Some NullDereference, ?mgr, calls1)"
    by (simp add: id crash_motors_def motorExists_def sm_count_def sm_get_def sm_at_def)
  have "decode_configs [3, 25] = [encoder_config 25]" by (simp add: encoder_config_def)
  moreover have "(rb_motors s)\<lparr>motorConfigs := setMotorsConfigMsg msg_id [encoder_config 25] (motorConfigs (rb_motors s))\<rparr> = ?mgr"
    by (simp add: assms(2) id setMotorsConfigMsg_def crash_motors_def)
  ultimately show ?thesis using assms(1) l by (simp add: robot_motor_config_def motor_config_run_def map_defs)
qed

lemma values_idle:
  assumes "recvMsgMap (net (rb_comms s)) = []"
  shows "\<exists>s1. robot_motor_values coded_io True 0 s = (None, s1) \<and> recvMsgMap (net (rb_comms s1)) = [] \<and> rb_motors s1 = rb_motors s"
  using assms by (simp add: robot_motor_values_def motor_values_run_def map_defs)

lemma Receive_motors: "rb_motors (ReceiveMessagesTask_run q s) = rb_motors s"
  by (simp add: ReceiveMessagesTask_run_def)

lemma crash_run: "system_run coded_system crash_passes crash_tasks (System_new pn task timer) = Inl NullDereference"
proof -
  let ?new = "System_new pn task timer" and ?q1 = "[DishMessage ''motorconfig'' [3, 9], DishMessage ''motorcontrol'' [3, 0, 0]]"
  obtain a b c where tasks: "crash_tasks = [a, b, c]" by (auto simp: crash_tasks_def)
  have due: "list_all (task_due 10000) [a, b, c]" "list_all (task_due 20000) (map advance_task [a, b, c])"
    "list_all (task_due 30000) (map advance_task (map advance_task [a, b, c]))"
    unfolding tasks[symmetric] by (simp_all add: crash_tasks_def task_due_def Task_new_def advance_task_def period_us_def)
  have name [simp]: "st_name (advance_task t) = st_name t" for t by (simp add: advance_task_def)
  have names: "[st_name a, st_name b, st_name c] = map st_name crash_tasks" by (simp add: tasks)
  have s1: "recvMsgMap (net (rb_comms (ReceiveMessagesTask_run ?q1 (sy_robot ?new)))) = [(''motorconfig'', [3, 9]), (''motorcontrol'', [3, 0, 0])]"
    "rb_motors (ReceiveMessagesTask_run ?q1 (sy_robot ?new)) = MotorManager_new"
    by (simp_all add: System_new_def Robot_new_def NetworkManager_new_def ReceiveMessagesTask_run_def receiveMessagePump_def
        store_received_def EAGAIN_def)
  obtain r1 r2 where one: "robot_motor_config coded_io True (ReceiveMessagesTask_run ?q1 (sy_robot ?new)) = (None, r1)"
    "robot_motor_values coded_io True 0 r1 = (None, r2)" "recvMsgMap (net (rb_comms r2)) = []" "rb_motors r2 = crash_motors []"
    using config_first[OF s1] values_first by blast
  obtain p1 where p1: "system_pass coded_system (coding_env ?q1) 10000 [a, b, c] ?new = Inr p1"
    "po_tasks p1 = map advance_task [a, b, c]" "sy_robot (po_system p1) = r2"
    using coded_pass(2)[OF due(1) _ one(1)] one(2) names by auto
  let ?q2 = "[DishMessage ''motorconfig'' [3, 9]]" and ?q3 = "[DishMessage ''motorconfig'' [3, 25]]"
  have s2: "recvMsgMap (net (rb_comms (ReceiveMessagesTask_run ?q2 r2))) = [(''motorconfig'', [3, 9])]"
    "rb_motors (ReceiveMessagesTask_run ?q2 r2) = crash_motors []"
    by (simp_all add: receive_one one(3,4) Receive_motors)
  obtain r3 where two: "robot_motor_config coded_io True (ReceiveMessagesTask_run ?q2 r2) = (None, r3)"
    "recvMsgMap (net (rb_comms r3)) = []" "rb_motors r3 = crash_motors [(3, encoder_config 9)]"
    using config_full[OF s2] by blast
  obtain r4 where four: "robot_motor_values coded_io True 0 r3 = (None, r4)" "recvMsgMap (net (rb_comms r4)) = []"
    "rb_motors r4 = crash_motors [(3, encoder_config 9)]"
    using values_idle[OF two(2)] two(3) by auto
  obtain p2 where p2: "system_pass coded_system (coding_env ?q2) 20000 (map advance_task [a, b, c]) (po_system p1) = Inr p2"
    "po_tasks p2 = map advance_task (map advance_task [a, b, c])" "sy_robot (po_system p2) = r4"
    using coded_pass(2)[of 20000 "advance_task a" "advance_task b" "advance_task c" ?q2 "po_system p1" None r3 r4]
      due(2) two(1) four(1) p1(3) names by auto
  have s3: "recvMsgMap (net (rb_comms (ReceiveMessagesTask_run ?q3 r4))) = [(''motorconfig'', [3, 25])]"
    "rb_motors (ReceiveMessagesTask_run ?q3 r4) = crash_motors [(3, encoder_config 9)]"
    by (simp_all add: receive_one four(2,3) Receive_motors)
  obtain r5 where "robot_motor_config coded_io True (ReceiveMessagesTask_run ?q3 r4) = (Some NullDereference, r5)"
    using config_crash[OF s3] by blast
  then have "system_pass coded_system (coding_env ?q3) 30000 (map advance_task (map advance_task [a, b, c])) (po_system p2) = Inl NullDereference"
    using coded_pass(1)[of 30000 "advance_task (advance_task a)" "advance_task (advance_task b)" "advance_task (advance_task c)" ?q3 "po_system p2"]
      due(3) p2(3) names by auto
  then show ?thesis using p1(1,2) p2(1,2) by (simp add: crash_passes_def tasks)
qed

theorem system_crash_causes_witness:
  "system_run coded_system crash_passes crash_tasks (System_new example_names example_task (RTTimer_new 0)) = Inl NullDereference
    \<and> crashed coded_system (run_starts coded_system crash_passes crash_tasks (System_new example_names example_task (RTTimer_new 0))) NullDereference"
proof -
  have io: "sio_robot coded_system = coded_io" by (simp add: coded_system_def)
  have "env_acceptable coded_io (\<lambda>i. SINGLE) env" if "(now, env) \<in> set crash_passes" for now env
    using that by (auto simp: crash_passes_def env_acceptable_def acceptable_def coding_env_def quiet_env_def EAGAIN_def)
  moreover have "failover_layout (\<lambda>i. SINGLE)" by (simp add: failover_layout_def list_all_iff)
  ultimately show ?thesis
    using system_crash_causes[where passes = crash_passes and sio = coded_system and layout = "\<lambda>i. SINGLE" and tasks = crash_tasks
          and pn = example_names and task = example_task and timer = "RTTimer_new 0"]
      coded_reads_back crash_run[of example_names example_task "RTTimer_new 0"] by (auto simp: io)
qed
section \<open>Exceptions\<close>

definition pending :: "robot \<Rightarrow> nat" where
  "pending s = (if waiting (net (rb_comms s)) ''solenoidcontrol'' = None then 0 else 1)"

text \<open>What puts a solenoid message into the mailbox: a periodic call while the failover code is in control,
  and a pump that receives one.\<close>

definition supplies :: "robot_event \<Rightarrow> robot \<Rightarrow> nat" where
  "supplies e s =
     (case e of
        RunRobotPeriodic attached position \<Rightarrow> (if isExternalControl s then 0 else 1)
      | RunReceive queue \<Rightarrow> (if ''solenoidcontrol'' \<in> fst ` set (taken queue) then 1 else 0)
      | _ \<Rightarrow> 0)"

lemma apply_motor_values_fault:
  assumes "apply_motor_values currentMode canOf ms mgr calls = (Some f, mgr', calls')"
  shows "f = UndefinedBehaviour"
  using assms
proof (induction ms arbitrary: mgr calls)
  case (Cons m ms)
  from Cons.prems show ?case
  proof (cases rule: apply_motor_values_cases)
    case (fault f')
    then show ?thesis
      by (auto simp: motor_value_guard_def split: if_splits option.splits)
  qed (use Cons.IH in blast)+
qed simp

lemma motor_values_no_exception:
  "robot_motor_values io l now s = (r, s') \<Longrightarrow> r \<noteq> Some (ThrownException e)"
  by (auto simp: robot_motor_values_def motor_values_run_def Let_def split: prod.splits option.splits if_splits
      dest: apply_motor_values_fault)

lemma motor_config_no_exception:
  "robot_motor_config io l s = (r, s') \<Longrightarrow> motor_ok (rb_motors s) \<Longrightarrow> r \<noteq> Some (ThrownException e)"
  using robot_motor_config_fault by blast

lemma publish_pending:
  assumes "network_ok n"
  shows "waiting (snd (publishMessages sr fm n)) g = None \<Longrightarrow> waiting n g = None"
  using assms by (auto simp: publishMessages_def Let_def waiting_publish_bytes split: if_splits)

lemma event_pending:
  assumes "robot_event_result io e s = (r, s')" and "robot_ok s" and "r = None \<or> r = Some (ThrownException x)"
  shows "(if r = None then 0 else 1) + pending s' \<le> pending s + supplies e s"
proof -
  have le1: "pending s \<le> 1" for s :: robot by (simp add: pending_def)
  have frame: "net (rb_comms (mode_periodic io js m s)) = net (rb_comms s)" for js m
    by (cases "m = kTeleop") (simp add: mode_periodic_def TeleopPeriodic_def, simp add: mode_periodic_frame)
  have get: "pending s' \<le> pending s" if "net (rb_comms s') = snd (getMessage g (net (rb_comms s)))" for g
    using that by (simp add: pending_def)
  show ?thesis
  proof (cases e)
    case (RunRobotPeriodic attached position)
    then show ?thesis
      using assms(1) le1[of s'] RobotPeriodic_external(3)[of s io attached position]
      by (auto simp: supplies_def pending_def)
  next
    case (RunReceive queue)
    let ?g = "''solenoidcontrol''"
    have w: "waiting (net (rb_comms s')) ?g =
        (case map_of (rev (taken queue)) ?g of Some p \<Rightarrow> Some p | None \<Rightarrow> waiting (net (rb_comms s)) ?g)"
      using assms(1,2) RunReceive by (auto simp: receive_comms pump_loop_waiting robot_ok_def)
    have "map_of (rev (taken queue)) ?g = None" if "?g \<notin> fst ` set (taken queue)"
      using that by (simp add: map_of_eq_None_iff)
    then show ?thesis
      using assms(1) RunReceive le1[of s'] w
      by (cases "?g \<in> fst ` set (taken queue)") (simp_all add: supplies_def pending_def)
  next
    case (RunMotorValues l now)
    then have v: "robot_motor_values io l now s = (r, s')" using assms(1) by simp
    have "net (rb_comms s') = snd (getMessage ''motorcontrol'' (net (rb_comms s)))"
      using v motor_values_task_ok(2) assms(2) by (fastforce simp: robot_motor_values_def robot_ok_def split: prod.splits)
    from get[OF this] show ?thesis using motor_values_no_exception[OF v] assms(3) by auto
  next
    case (RunMotorConfig l)
    then have v: "robot_motor_config io l s = (r, s')" using assms(1) by simp
    have "net (rb_comms s') = snd (getMessage ''motorconfig'' (net (rb_comms s)))"
      using v motor_config_task_network[of "io_parse_config io" l "io_modeOf io" "io_motor_resp io"
          CKEncoderManager_new "net (rb_comms s)" "rb_motors s" "rb_motor_calls s"]
      by (auto simp: robot_motor_config_def split: prod.splits)
    from get[OF this] show ?thesis using motor_config_no_exception[OF v] assms(2,3) by (auto simp: robot_ok_def)
  next
    case (RunSolenoids now)
    then have v: "robot_solenoids io now s = (r, s')" using assms(1) by simp
    have n: "net (rb_comms s') = snd (getMessage ''solenoidcontrol'' (net (rb_comms s)))"
      using v solenoid_task_ok(2) assms(2) by (fastforce simp: robot_solenoids_def robot_ok_def split: prod.splits)
    have "r = None" if "waiting (net (rb_comms s)) ''solenoidcontrol'' = None"
      using v that by (auto simp: robot_solenoids_def solenoid_task_run_def getMessage_def sm_count_def waiting_def)
    then show ?thesis using n by (auto simp: pending_def)
  next
    case (RunLEDs l)
    have "net (rb_comms (robot_leds io l s)) = snd (getMessage ''ledcontrol'' (net (rb_comms s)))"
      using led_task_network[of "io_parse_led io" l "io_led_schema io" "io_led_resp io" "net (rb_comms s)" "rb_leds s"]
      by (auto simp: robot_leds_def split: prod.splits)
    then show ?thesis using assms(1) RunLEDs get[of "''ledcontrol''"] by auto
  qed (use assms(1) frame in \<open>auto simp: pending_def UpdateDSConnectionStatusTask_run_def ProcessHeartbeatTask_run_def\<close>)
qed

text \<open>Along a list of events, each counted in the state it is handled in.\<close>

definition after_event :: "robot_io \<Rightarrow> robot_event \<Rightarrow> robot \<Rightarrow> robot" where
  "after_event io e s = snd (robot_event_result io e s)"

fun supplied :: "robot_io \<Rightarrow> robot_event list \<Rightarrow> robot \<Rightarrow> nat" where
  "supplied io [] s = 0"
| "supplied io (e # es) s = supplies e s + supplied io es (after_event io e s)"

lemma supplied_append [simp]:
  "supplied io (es @ es') s = supplied io es s + supplied io es' (fold (after_event io) es s)"
  by (induction es arbitrary: s) simp_all

abbreviation thrown :: "fault option \<Rightarrow> nat" where
  "thrown f \<equiv> (if f = None then 0 else 1)"

abbreviation task_events :: "pass_env \<Rightarrow> string \<Rightarrow> robot_event list" where
  "task_events env name \<equiv> (case task_event env name of Some e \<Rightarrow> [e] | None \<Rightarrow> [])"

text \<open>The events of a task and of the calls lead from state to state.\<close>

lemma run_task_after:
  "sy_robot (snd (run_task sio env name sy)) = fold (after_event (sio_robot sio)) (task_events env name) (sy_robot sy)"
proof -
  consider (imu) "name = ''ApplyIMUConfigTask''" | (report) "name \<in> set report_names"
    | (other) "name \<noteq> ''ApplyIMUConfigTask''" "name \<notin> set report_names"
    by blast
  then show ?thesis
  proof cases
    case imu
    have "sy_robot (snd (run_task sio env name sy)) = robot_imu_config (sy_robot sy)"
      unfolding imu run_task_imu by (simp add: Let_def set_net_def robot_imu_config_def imu_config_run_network)
    then show ?thesis by (simp add: imu task_event_def after_event_def)
  next
    case report
    then show ?thesis using report_not_event[OF report] run_task_report_frame[OF report] by simp
  next
    case other
    then show ?thesis by (simp add: run_task_other after_event_def split: option.split prod.split)
  qed
qed

lemma run_call_after:
  "sy_robot (run_call sio c sy) = fold (after_event (sio_robot sio)) (case call_event c of Some e \<Rightarrow> [e] | None \<Rightarrow> []) (sy_robot sy)"
  by (cases c) (simp_all add: run_call_def after_event_def split_beta)

lemma run_calls_after:
  "sy_robot (run_calls sio cs sy) = fold (after_event (sio_robot sio)) (call_events cs) (sy_robot sy)"
proof (induction cs arbitrary: sy)
  case (Cons c cs)
  then show ?case using run_call_after[of sio c sy] by (simp add: run_calls_def call_events_def)
qed (simp add: run_calls_def call_events_def)

text \<open>Only the solenoid task throws, on a message, which is gone then.\<close>

lemma event_throws:
  assumes "robot_event_result io e s = (Some (ThrownException x), s')" and "robot_ok s"
  shows "(\<exists>now. e = RunSolenoids now) \<and> pending s = 1 \<and> pending s' = 0"
proof (cases e)
  case (RunMotorValues l now)
  then show ?thesis using assms(1) motor_values_no_exception[of io l now s _ s' x] by auto
next
  case (RunMotorConfig l)
  then show ?thesis
    using assms motor_config_no_exception[of io l s _ s' x] by (auto simp: robot_ok_def)
next
  case (RunSolenoids now)
  then have v: "robot_solenoids io now s = (Some (ThrownException x), s')" using assms(1) by simp
  have "net (rb_comms s') = snd (getMessage ''solenoidcontrol'' (net (rb_comms s)))"
    using v solenoid_task_ok(2) assms(2) by (fastforce simp: robot_solenoids_def robot_ok_def split: prod.splits)
  moreover have "waiting (net (rb_comms s)) ''solenoidcontrol'' \<noteq> None"
  proof
    assume "waiting (net (rb_comms s)) ''solenoidcontrol'' = None"
    then show False
      using v by (auto simp: robot_solenoids_def solenoid_task_run_def getMessage_def sm_count_def waiting_def)
  qed
  ultimately show ?thesis using RunSolenoids by (simp add: pending_def)
qed (use assms(1) in auto)

lemma run_task_throws:
  assumes "run_task sio env name sy = (Some (ThrownException x), sy')" and "robot_ok (sy_robot sy)"
  shows "name = ''ApplySolenoidValuesTask'' \<and> pending (sy_robot sy) = 1 \<and> pending (sy_robot sy') = 0"
proof -
  have "name \<noteq> ''ApplyIMUConfigTask''" using assms(1) run_task_imu[of sio env sy] by (auto simp: Let_def)
  moreover have "name \<notin> set report_names"
    using run_task_report_fault[of name sy sio env] assms by (auto simp: robot_ok_def)
  ultimately obtain e s' where "task_event env name = Some e" "sy_robot sy' = s'"
    "robot_event_result (sio_robot sio) e (sy_robot sy) = (Some (ThrownException x), s')"
    using assms(1) by (auto simp: run_task_other split: option.splits prod.splits)
  with event_throws[OF this(3) assms(2)] show ?thesis by (auto simp: task_event_def split: if_splits)
qed

lemma run_task_pending:
  assumes "run_task sio env name sy = (f, sy')" and "robot_ok (sy_robot sy)" and "\<forall>flt. f = Some flt \<longrightarrow> survives flt"
  shows "robot_ok (sy_robot sy') \<and> thrown f + pending (sy_robot sy')
    \<le> pending (sy_robot sy) + supplied (sio_robot sio) (task_events env name) (sy_robot sy)"
proof -
  have f: "f = None \<or> (\<exists>x. f = Some (ThrownException x))"
    using assms(3) by (cases f) (auto elim: survives.elims)
  then have "f \<noteq> Some UndefinedBehaviour" by auto
  note step = run_task_robot[OF assms(1) this]
  have ok: "robot_ok (sy_robot sy')"
    using step assms(2) by (auto split: option.splits intro: robot_ok_step)
  show ?thesis
  proof (cases f)
    case (Some flt)
    then obtain x where "f = Some (ThrownException x)" using f by blast
    with run_task_throws[of sio env name sy x sy'] assms(1,2) ok show ?thesis by simp
  next
    case None
    have after: "sy_robot sy' = fold (after_event (sio_robot sio)) (task_events env name) (sy_robot sy)"
      using run_task_after[of sio env name sy] assms(1) by simp
    show ?thesis
    proof (cases "task_event env name")
      case None
      then show ?thesis using after \<open>f = None\<close> assms(2) by simp
    next
      case (Some e)
      obtain r s' where e: "robot_event_result (sio_robot sio) e (sy_robot sy) = (r, s')" by fastforce
      have "sy_robot sy' = s'" using after Some e by (simp add: after_event_def)
      moreover have "r = None"
      proof (cases "name = ''ApplyIMUConfigTask''")
        case True
        then show ?thesis using Some e by (auto simp: task_event_def)
      next
        case False
        moreover have "name \<notin> set report_names" using report_not_event Some by fastforce
        ultimately show ?thesis using assms(1) Some e \<open>f = None\<close> by (auto simp: run_task_other)
      qed
      ultimately show ?thesis using event_pending[OF e assms(2)] ok Some \<open>f = None\<close> by simp
    qed
  qed
qed

lemma run_calls_pending:
  assumes "robot_ok (sy_robot sy)"
  shows "robot_ok (sy_robot (run_calls sio cs sy)) \<and> pending (sy_robot (run_calls sio cs sy))
    \<le> pending (sy_robot sy) + supplied (sio_robot sio) (call_events cs) (sy_robot sy)"
  using assms
proof (induction cs arbitrary: sy)
  case (Cons c cs)
  let ?es = "case call_event c of Some e \<Rightarrow> [e] | None \<Rightarrow> []"
  have step: "robot_ok (sy_robot (run_call sio c sy)) \<and> pending (sy_robot (run_call sio c sy))
      \<le> pending (sy_robot sy) + supplied (sio_robot sio) ?es (sy_robot sy)"
  proof (cases "call_event c")
    case None
    then show ?thesis using Cons.prems run_call_after[of sio c sy] by simp
  next
    case (Some e)
    then have c: "robot_event_result (sio_robot sio) e (sy_robot sy) = (None, sy_robot (run_call sio c sy))"
      by (cases c) (auto simp: run_call_def)
    then have "robot_ok (sy_robot (run_call sio c sy))"
      using robot_event_result_step[OF c] Cons.prems robot_ok_step by blast
    then show ?thesis using event_pending[OF c Cons.prems] Some by simp
  qed
  have "call_events (c # cs) = ?es @ call_events cs" by (simp add: call_events_def)
  then show ?case
    using Cons.IH[of "run_call sio c sy"] step run_call_after[of sio c sy] by (simp add: run_calls_def)
qed (simp add: run_calls_def call_events_def)

lemma pass_loop_pending:
  assumes "pass_loop sio env now w tasks sy = (r, es, f, sy')" and "robot_ok (sy_robot sy)"
    and "\<forall>flt. f = Some flt \<longrightarrow> survives flt"
  shows "robot_ok (sy_robot sy') \<and> sy_robot sy' = fold (after_event (sio_robot sio)) es (sy_robot sy)
    \<and> thrown f + pending (sy_robot sy') \<le> pending (sy_robot sy) + supplied (sio_robot sio) es (sy_robot sy)"
  using assms(1,2)
proof (induction tasks arbitrary: w sy r es)
  case (Cons t ts)
  let ?calls = "pe_calls env (st_name t)"
  let ?sy = "run_calls sio ?calls sy" and ?tes = "task_events env (st_name t)"
  note calls = run_calls_pending[OF Cons.prems(2), of sio ?calls]
  obtain g sy2 where run: "run_task sio env (st_name t) ?sy = (g, sy2)" by fastforce
  note after = run_calls_after[of sio ?calls sy] run_task_after[of sio env "st_name t" ?sy, unfolded run snd_conv]
  from Cons.prems(1) consider (stop) "g \<noteq> None" "f = g" "sy' = sy2" "es = call_events ?calls @ ?tes"
    | (skip) w' r' es' where "pass_loop sio env now w' ts ?sy = (r', es', f, sy')" "es = call_events ?calls @ es'"
    | (go) w' r' es' where "g = None" "pass_loop sio env now w' ts sy2 = (r', es', f, sy')"
        "es = call_events ?calls @ ?tes @ es'"
    using run by (auto simp: Let_def split: if_splits prod.splits option.splits)
  then show ?case
  proof cases
    case stop
    then show ?thesis using run_task_pending[OF run conjunct1[OF calls]] calls assms(3) after by simp
  next
    case skip
    then show ?thesis using Cons.IH[OF skip(1) conjunct1[OF calls]] calls after(1) by auto
  next
    case go
    have two: "robot_ok (sy_robot sy2) \<and> pending (sy_robot sy2)
        \<le> pending (sy_robot ?sy) + supplied (sio_robot sio) ?tes (sy_robot ?sy)"
      using run_task_pending[OF run conjunct1[OF calls]] go(1) by simp
    note IH = Cons.IH[OF go(2) conjunct1[OF this]]
    have "supplied (sio_robot sio) es (sy_robot sy) = supplied (sio_robot sio) (call_events ?calls) (sy_robot sy)
        + supplied (sio_robot sio) ?tes (sy_robot ?sy) + supplied (sio_robot sio) es' (sy_robot sy2)"
      unfolding after go(3) by simp
    moreover have "sy_robot sy' = fold (after_event (sio_robot sio)) es (sy_robot sy)"
      using IH unfolding after go(3) by simp
    ultimately show ?thesis using IH two calls by linarith
  qed
qed simp

lemma system_pass_pending:
  assumes "system_pass sio env now tasks sy = Inr p" and "robot_ok (sy_robot sy)"
  shows "robot_ok (sy_robot (po_system p)) \<and> sy_robot (po_system p) = fold (after_event (sio_robot sio)) (po_events p) (sy_robot sy)
    \<and> (if po_alarm p = None then 1 else 0) + pending (sy_robot (po_system p))
      \<le> pending (sy_robot sy) + supplied (sio_robot sio) (po_events p) (sy_robot sy)"
proof -
  obtain r es f sy1 where l: "pass_loop sio env now (- 1) tasks sy = (r, es, f, sy1)" using prod_cases4 by blast
  have f: "\<forall>flt. f = Some flt \<longrightarrow> survives flt" using assms(1) l by (auto simp: system_pass_def split: if_splits)
  have p: "po_alarm p = (if f \<noteq> None then None else Some (pr_wake r))" "po_events p = es @ call_events (pe_last_calls env)"
    "po_system p = run_calls sio (pe_last_calls env) (report_fault f sy1)"
    using assms(1) l f by (auto simp: system_pass_def report_fault_def split: option.splits)
  show ?thesis
    using pass_loop_pending[OF l assms(2) f] run_calls_pending[of "report_fault f sy1" sio "pe_last_calls env"]
      run_calls_after[of sio "pe_last_calls env" "report_fault f sy1"]
    by (auto simp: p)
qed

text \<open>The passes a task leaves by an exception: they set no alarm.\<close>

fun exceptions :: "system_io \<Rightarrow> (u64 \<times> pass_env) list \<Rightarrow> sched_task list \<Rightarrow> system \<Rightarrow> nat" where
  "exceptions sio [] tasks sy = 0"
| "exceptions sio ((now, env) # passes) tasks sy =
     (case system_pass sio env now tasks sy of
        Inl f \<Rightarrow> 0
      | Inr p \<Rightarrow> (if po_alarm p = None then 1 else 0) + exceptions sio passes (po_tasks p) (po_system p))"

lemma system_run_pending:
  assumes "system_run sio passes tasks sy = Inr (ps, tasks', sy')" and "robot_ok (sy_robot sy)"
  shows "exceptions sio passes tasks sy \<le> pending (sy_robot sy) + supplied (sio_robot sio) (log_events ps) (sy_robot sy)"
  using assms
proof (induction passes arbitrary: tasks sy ps)
  case (Cons pass passes)
  obtain now env where pass: "pass = (now, env)" by (cases pass)
  obtain p ps1 where p: "system_pass sio env now tasks sy = Inr p"
    "system_run sio passes (po_tasks p) (po_system p) = Inr (ps1, tasks', sy')" "ps = (now, po_events p) # ps1"
    using Cons.prems(1) by (auto simp: pass split: sum.splits prod.splits)
  note step = system_pass_pending[OF p(1) Cons.prems(2)]
  have "supplied (sio_robot sio) (log_events ps) (sy_robot sy) = supplied (sio_robot sio) (po_events p) (sy_robot sy)
      + supplied (sio_robot sio) (log_events ps1) (sy_robot (po_system p))"
    using step by (simp add: p(3))
  moreover have "exceptions sio ((now, env) # passes) tasks sy
      = (if po_alarm p = None then 1 else 0) + exceptions sio passes (po_tasks p) (po_system p)"
    by (simp add: p(1))
  ultimately show ?case using Cons.IH[OF p(2) conjunct1[OF step]] step unfolding pass by linarith
qed simp

text \<open>The state every task starts in is consistent, so what ends a task by an exception is known.\<close>

lemma loop_starts_ok:
  assumes "(name, sy1) \<in> set (loop_starts sio env now tasks sy)" and "robot_ok (sy_robot sy)"
  shows "robot_ok (sy_robot sy1)"
  using assms
proof (induction tasks arbitrary: sy)
  case (Cons t ts)
  let ?sy = "run_calls sio (pe_calls env (st_name t)) sy"
  have ok: "robot_ok (sy_robot ?sy)" using run_calls_pending[OF Cons.prems(2)] by blast
  obtain g sy2 where run: "run_task sio env (st_name t) ?sy = (g, sy2)" by fastforce
  have "robot_ok (sy_robot sy2)" if "g = None" using run_task_pending[OF run ok] that by simp
  then show ?case
    using Cons.prems(1) Cons.IH[of ?sy] Cons.IH[of sy2] ok run
    by (auto simp: Let_def split: if_splits option.splits)
qed simp

lemma run_starts_ok:
  assumes "(env, name, sy1) \<in> set (run_starts sio passes tasks sy)" and "robot_ok (sy_robot sy)"
  shows "robot_ok (sy_robot sy1)"
  using assms
proof (induction passes arbitrary: tasks sy)
  case (Cons pass passes)
  obtain now env1 where pass: "pass = (now, env1)" by (cases pass)
  have "robot_ok (sy_robot (po_system p))" if "system_pass sio env1 now tasks sy = Inr p" for p
    using system_pass_pending[OF that Cons.prems(2)] by blast
  then show ?case
    using Cons.prems Cons.IH loop_starts_ok by (auto simp: pass split: sum.splits)
qed simp

text \<open>The example environment never stops the program.\<close>

lemma quiet_io_goes_on:
  assumes "calm resting_io (\<lambda>i. SINGLE) (sy_robot sy)"
  shows "\<exists>ps tasks' sy'. system_run quiet_io passes tasks sy = Inr (ps, tasks', sy')"
proof -
  have io: "sio_robot quiet_io = resting_io" by (simp add: quiet_io_def)
  have "report_bytes quiet_io env name sy = []" for env name and sy :: system
    by (simp add: report_bytes_def quiet_io_def Let_def split: sum.split)
  moreover have "\<not> changes_encoder resting_io s" for s
    by (simp add: changes_encoder_def resting_io_def changes_encoder_of_def getInt_def FEEDBACK_SENSOR_CAN_ID_FD_def
        ID_FD_def split: option.split)
  ultimately have "\<not> crashed quiet_io starts f" for starts f
    by (auto simp: crashed_def crash_cause_def io)
  then show ?thesis
    using system_run_calm[where sio = quiet_io and tasks = tasks and passes = passes
        and sy = sy and layout = "\<lambda>i. SINGLE"] assms resting_acceptable
    by (simp add: env_acceptable_def publishes_acceptable_def io)
qed

lemma quiet_io_runs:
  "\<exists>ps tasks' sy'. system_run quiet_io passes tasks (System_new pn task timer) = Inr (ps, tasks', sy')"
  using quiet_io_goes_on System_new_calm by blast

lemma System_new_pending: "pending (sy_robot (System_new pn task timer)) = 0" "robot_ok (sy_robot (System_new pn task timer))"
proof -
  show "robot_ok (sy_robot (System_new pn task timer))" by (simp add: System_new_def robot_ok_new)
  show "pending (sy_robot (System_new pn task timer)) = 0"
    by (simp add: pending_def System_new_def Robot_new_def waiting_def NetworkManager_new_def sm_get_def)
qed

text \<open>C8. Exceptions are rare. In a run that does not crash, only the solenoid task throws, and only with a
  solenoid message waiting, which is gone when it has thrown. So at most as many passes are cut short
  by an exception as times a solenoid message can have come: one for each pump of the receive task that
  takes a solenoid message, and one for each periodic call that finds the failover code in control.\<close>

theorem system_exceptions_bounded:
  assumes "system_run sio passes tasks (System_new pn task timer) = Inr (ps, tasks', sy')"
  shows "(\<forall>(env, name, sy) \<in> set (run_starts sio passes tasks (System_new pn task timer)).
      \<forall>x sy1. run_task sio env name sy = (Some (ThrownException x), sy1) \<longrightarrow> name = ''ApplySolenoidValuesTask''
        \<and> waiting (net (rb_comms (sy_robot sy))) ''solenoidcontrol'' \<noteq> None
        \<and> waiting (net (rb_comms (sy_robot sy1))) ''solenoidcontrol'' = None)
    \<and> exceptions sio passes tasks (System_new pn task timer)
      \<le> supplied (sio_robot sio) (log_events ps) (sy_robot (System_new pn task timer))"
proof
  show "\<forall>(env, name, sy) \<in> set (run_starts sio passes tasks (System_new pn task timer)).
      \<forall>x sy1. run_task sio env name sy = (Some (ThrownException x), sy1) \<longrightarrow> name = ''ApplySolenoidValuesTask''
        \<and> waiting (net (rb_comms (sy_robot sy))) ''solenoidcontrol'' \<noteq> None
        \<and> waiting (net (rb_comms (sy_robot sy1))) ''solenoidcontrol'' = None"
    using run_starts_ok[OF _ System_new_pending(2)] run_task_throws
    by (fastforce simp: pending_def split: if_splits)
  show "exceptions sio passes tasks (System_new pn task timer)
      \<le> supplied (sio_robot sio) (log_events ps) (sy_robot (System_new pn task timer))"
    using system_run_pending[OF assms System_new_pending(2)] by (simp add: System_new_pending(1))
qed

text \<open>The same format where no solenoid can be constructed: the first solenoid command throws.\<close>

definition throwing_system :: system_io where
  "throwing_system = coded_system\<lparr>sio_robot := coded_io\<lparr>io_fits := \<lambda>f. False\<rparr>\<rparr>"

definition throwing_tasks :: "sched_task list" where
  "throwing_tasks = [Task_new 10 ''ReceiveMessagesTask'', Task_new 10 ''ApplySolenoidValuesTask'']"

definition throwing_passes :: "(u64 \<times> pass_env) list" where
  "throwing_passes = [(10000, coding_env [DishMessage ''solenoidcontrol'' [0, 0, 1, 1]])]"

lemma solenoid_throws:
  assumes "recvMsgMap (net (rb_comms s)) = [(''solenoidcontrol'', [0, 0, 1, 1])]" and "rb_solenoids s = SolenoidManager_new"
    and "rb_solenoid_task s = example_task"
  shows "fst (robot_solenoids (coded_io\<lparr>io_fits := \<lambda>f. False\<rparr>) now s) = Some (ThrownException ''frc::Solenoid'')"
proof -
  have p: "io_parse_solenoids (coded_io\<lparr>io_fits := \<lambda>f. False\<rparr>) [0, 0, 1, 1]
      = (True, \<lparr>solenoids = [\<lparr>sm_module_type = CTREPCM, sm_id = 1, sm_solenoid_type = SINGLE, sm_output_value = SOL_ON\<rparr>],
          compressor_is_enabled_for_auto = False\<rparr>)"
    by (simp add: coded_io_def decode_solenoids_def)
  have "apply_solenoids (\<lambda>f. False) [\<lparr>sm_module_type = CTREPCM, sm_id = 1, sm_solenoid_type = SINGLE, sm_output_value = SOL_ON\<rparr>]
      SolenoidManager_new = (Some (ThrownException ''frc::Solenoid''), [], SolenoidManager_new)"
    by (simp add: registerSolenoid_def CKSolenoid_new_def solenoid_id_invalid_def getModuleId_def getSolenoidId_def
        SolenoidManager_new_def sm_count_def sm_get_def word_le_nat_alt)
  then show ?thesis
    using assms p by (auto simp: robot_solenoids_def solenoid_task_run_def map_defs example_task_def compressor_step_def
        split: prod.splits)
qed

theorem system_exceptions_bounded_witness:
  "\<exists>ps tasks' sy'. system_run throwing_system throwing_passes throwing_tasks
        (System_new example_names example_task (RTTimer_new 0)) = Inr (ps, tasks', sy')
    \<and> exceptions throwing_system throwing_passes throwing_tasks (System_new example_names example_task (RTTimer_new 0)) = 1
    \<and> 1 \<le> supplied (sio_robot throwing_system) (log_events ps) (sy_robot (System_new example_names example_task (RTTimer_new 0)))"
proof -
  let ?new = "System_new example_names example_task (RTTimer_new 0)" and ?env = "coding_env [DishMessage ''solenoidcontrol'' [0, 0, 1, 1]]"
  let ?s = "ReceiveMessagesTask_run [DishMessage ''solenoidcontrol'' [0, 0, 1, 1]] (sy_robot ?new)"
  have "recvMsgMap (net (rb_comms ?s)) = [(''solenoidcontrol'', [0, 0, 1, 1])]"
    by (simp add: receive_one System_new_def Robot_new_def NetworkManager_new_def)
  moreover have "rb_solenoids ?s = SolenoidManager_new" "rb_solenoid_task ?s = example_task"
    by (simp_all add: ReceiveMessagesTask_run_def System_new_def Robot_new_def)
  ultimately have "fst (robot_solenoids (coded_io\<lparr>io_fits := \<lambda>f. False\<rparr>) 0 ?s) = Some (ThrownException ''frc::Solenoid'')"
    by (rule solenoid_throws)
  then obtain s2 where s2: "robot_solenoids (coded_io\<lparr>io_fits := \<lambda>f. False\<rparr>) 0 ?s = (Some (ThrownException ''frc::Solenoid''), s2)"
    by (metis prod.collapse)
  have "\<exists>p. system_pass throwing_system ?env 10000 throwing_tasks ?new = Inr p \<and> po_alarm p = None"
    using s2
    by (simp add: system_pass_def throwing_tasks_def Task_new_def task_due_def coded_calls run_calls_def run_task_def
        task_event_def throwing_system_def coding_env_def quiet_env_def Let_def)
  then obtain p where p: "system_pass throwing_system ?env 10000 throwing_tasks ?new = Inr p" "po_alarm p = None" by blast
  then have run: "system_run throwing_system throwing_passes throwing_tasks ?new = Inr ([(10000, po_events p)], po_tasks p, po_system p)"
    and "exceptions throwing_system throwing_passes throwing_tasks ?new = 1"
    by (simp_all add: throwing_passes_def)
  then show ?thesis using conjunct2[OF system_exceptions_bounded[OF run]] by auto
qed

end
