(* ===== verification/System_Timing.thy ===== *)
theory System_Timing
  imports System_Safety
begin

text \<open>
  The whole program in real time: with the tasks as \<open>Robot::RobotInit\<close> schedules them and the messages,
  callbacks, reports and exceptions of \<open>Robot_System\<close>, the failover code takes over from a silent
  external controller within the bounds of \<open>Robot_Timing\<close> and finds the motors alive.
\<close>

section \<open>Where the events of a run come from\<close>

definition env_events :: "pass_env \<Rightarrow> robot_event set" where
  "env_events env = {e. \<exists>name. task_event env name = Some e}
     \<union> (\<Union>name. set (call_events (pe_calls env name))) \<union> set (call_events (pe_last_calls env))"

lemma pass_loop_events:
  assumes "pass_loop sio env now w tasks sy = (r, es, f, sy')" and "e \<in> set es"
  shows "e \<in> env_events env"
  using assms
proof (induction tasks arbitrary: w sy r es)
  case (Cons t ts)
  let ?calls = "pe_calls env (st_name t)"
  let ?sy = "run_calls sio ?calls sy" and ?tes = "case task_event env (st_name t) of Some e \<Rightarrow> [e] | None \<Rightarrow> []"
  obtain g sy2 where run: "run_task sio env (st_name t) ?sy = (g, sy2)" by fastforce
  have here: "set (call_events ?calls) \<subseteq> env_events env" "set ?tes \<subseteq> env_events env"
    by (auto simp: env_events_def split: option.split)
  from Cons.prems(1) consider (stop) "es = call_events ?calls @ ?tes"
    | (skip) w' r' es' where "pass_loop sio env now w' ts ?sy = (r', es', f, sy')" "es = call_events ?calls @ es'"
    | (go) w' r' es' where "pass_loop sio env now w' ts sy2 = (r', es', f, sy')" "es = call_events ?calls @ ?tes @ es'"
    using run by (auto simp: Let_def split: if_splits prod.splits option.splits)
  then show ?case
  proof cases
    case stop
    then show ?thesis using here Cons.prems(2) by auto
  next
    case skip
    then show ?thesis using here Cons.prems(2) Cons.IH[OF skip(1)] by auto
  next
    case go
    then show ?thesis using here Cons.prems(2) Cons.IH[OF go(1)] by auto
  qed
qed simp

lemma system_pass_events:
  assumes "system_pass sio env now tasks sy = Inr p" and "e \<in> set (po_events p)"
  shows "e \<in> env_events env"
proof -
  obtain r es f sy1 where l: "pass_loop sio env now (- 1) tasks sy = (r, es, f, sy1)" using prod_cases4 by blast
  have "po_events p = es @ call_events (pe_last_calls env)"
    using assms(1) l by (auto simp: system_pass_def split: option.splits if_splits)
  then show ?thesis using assms(2) pass_loop_events[OF l] by (auto simp: env_events_def)
qed

lemma system_run_events:
  assumes "system_run sio passes tasks sy = Inr (ps, tasks', sy')" and "e \<in> set (log_events ps)"
  shows "\<exists>(now, env) \<in> set passes. e \<in> env_events env"
  using assms
proof (induction passes arbitrary: tasks sy ps)
  case (Cons pass passes)
  obtain now env where pass: "pass = (now, env)" by (cases pass)
  obtain p ps1 where p: "system_pass sio env now tasks sy = Inr p"
    "system_run sio passes (po_tasks p) (po_system p) = Inr (ps1, tasks', sy')" "ps = (now, po_events p) # ps1"
    using Cons.prems(1) by (auto simp: pass split: sum.splits prod.splits)
  then show ?case
    using Cons.prems(2) Cons.IH[OF p(2)] system_pass_events[OF p(1)] by (auto simp: pass)
qed simp

text \<open>No message comes in a pass whose socket holds none.\<close>

definition env_silent :: "pass_env \<Rightarrow> bool" where
  "env_silent env \<longleftrightarrow> taken (pe_queue env) = []"

lemma call_event_shape: "e \<in> set (call_events cs) \<Longrightarrow> \<exists>c \<in> set cs. call_event c = Some e"
  by (auto simp: call_events_def split: option.splits)

lemma env_silent_events:
  assumes "env_silent env" and "e \<in> env_events env"
  shows "\<not> speaks e"
proof -
  have calls: "\<not> speaks e" if "e \<in> set (call_events cs)" for cs
    using call_event_shape[OF that] by (auto simp: speaks_def elim!: call_event.elims)
  have "\<not> speaks e" if "task_event env name = Some e" for name
    using that assms(1) by (auto simp: task_event_def env_silent_def speaks_def split: if_splits)
  then show ?thesis using assms(2) calls by (auto simp: env_events_def)
qed

section \<open>The hand-over of the program\<close>

lemma RobotInit_names: "distinct (map st_name RobotInit_tasks)"
  by (rule RobotInit_tasks_named(1))

text \<open>C1. The hand-over, for the program as a whole. Run the twelve tasks of \<open>RobotInit\<close> from the start,
  with any messages, devices, callbacks and exceptions that do not end the program, up to the clock
  \<open>T0\<close>, where the heartbeat task is at most one of its periods of 20 ms behind, and then with no message
  from the external controller up to the clock \<open>now\<close>. When \<open>now\<close> is more than 1 s after \<open>T0\<close> and the
  heartbeat task is not overdue then, the next periodic call of the main loop makes the failover code
  active and puts its commands into the mailbox; and until 4.96 s after \<open>T0\<close> every motor that had just
  been commanded at \<open>T0\<close> is still the same device when it does. The clock stays below \<open>2 ^ 63\<close>
  microseconds, and the fourteen motor commands of the failover code, with whatever values, serialize
  into at most the 16 KiB of its buffer.\<close>

theorem system_failover_real_time:
  fixes attached :: bool and position :: "u16 \<Rightarrow> real"
  assumes "system_run sio before RobotInit_tasks (System_new pn task timer) = Inr (ps0, tasks, sy)"
    and "system_run sio idle tasks sy = Inr (ps, tasks', sy')"
    and "\<And>c env. (c, env) \<in> set before \<Longrightarrow> unat c \<le> T0"
    and "\<And>c env. (c, env) \<in> set idle \<Longrightarrow> unat c \<le> now \<and> env_silent env"
    and "T0 < 2 ^ 63" and "now < 2 ^ 63"
    and "hb \<in> set tasks" and "st_name hb = ''ProcessHeartbeatTask''" and "T0 \<le> unat (timeNextUpdateuS hb) + 20000"
    and "hb' \<in> set tasks'" and "st_name hb' = ''ProcessHeartbeatTask''"
    and "failover_fits (io_serializers (sio_robot sio))"
  defines "s \<equiv> sy_robot (run_call sio (CallRobotPeriodic attached position) sy')"
  shows "(T0 + 1000000 < now \<and> now \<le> unat (timeNextUpdateuS hb') \<longrightarrow> failoverActive s
        \<and> waiting (net (rb_comms s)) ''motorcontrol'' =
            Some (sr_motorControl (io_serializers (sio_robot sio)) (fm_motorControl (rf_msgs (robotFailover s)))))
    \<and> (now < T0 + 4960000 \<longrightarrow> (\<forall>i dev. getMotor i (rb_motors (sy_robot sy)) = Some dev
        \<and> motor_ticks i (rb_motors (sy_robot sy)) = 250 \<longrightarrow> getMotor i (rb_motors s) = Some dev))"
proof -
  let ?io = "sio_robot sio"
  note r0 = system_run_refines[OF assms(1) RobotInit_names]
  have p0: "program_runs ?io (Robot_new pn task timer) RobotInit_tasks ps0 (sy_robot sy) tasks"
    and c0: "pass_clocks ps0 = map fst before"
    and start: "robot_runs ?io (Robot_new pn task timer) (log_events ps0) (sy_robot sy)"
    using r0 by (simp_all add: System_new_def)
  have "map st_name tasks = map st_name RobotInit_tasks"
    using program_heartbeats[OF p0 RobotInit_tasks_named] by (simp add: Task_new_def)
  then have d: "distinct (map st_name tasks)" using RobotInit_names by simp
  note r1 = system_run_refines[OF assms(2) d]
  have p1: "program_runs ?io (sy_robot sy) tasks ps (sy_robot sy') tasks'" and c1: "pass_clocks ps = map fst idle"
    and run: "robot_runs ?io (sy_robot sy) (log_events ps) (sy_robot sy')"
    using r1 by simp_all
  have clocks: "\<forall>c \<in> set (pass_clocks ps0). unat c \<le> T0" "\<forall>c \<in> set (pass_clocks ps). unat c \<le> now"
    unfolding c0 c1 using assms(3,4) by fastforce+
  have quiet: "\<not> list_ex speaks (log_events ps)"
  proof
    assume "list_ex speaks (log_events ps)"
    then obtain e where e: "e \<in> set (log_events ps)" "speaks e" by (auto simp: list_ex_iff)
    then obtain c env where "(c, env) \<in> set idle" "e \<in> env_events env" using system_run_events[OF assms(2)] by blast
    then show False using env_silent_events assms(4) e(2) by blast
  qed
  note beats = heartbeats_real_time[OF RobotInit_tasks_named p0 p1 clocks assms(5-11)]
  have ok: "robot_ok (sy_robot sy)" "motor_configured (rb_motors (sy_robot sy))"
    using robot_ok_runs[OF start robot_ok_new] motors_configured[OF start] by simp_all
  have s: "s = RobotPeriodic ?io attached position (sy_robot sy')" by (simp add: s_def run_call_def)
  have "getMotor i (rb_motors s) = Some dev"
    if "now < T0 + 4960000" "getMotor i (rb_motors (sy_robot sy)) = Some dev"
      "motor_ticks i (rb_motors (sy_robot sy)) = 250" for i dev
    using motor_survives[OF run ok that(2)] beats(1)[of 248] that(1,3) by (simp add: s RobotPeriodic_frame)
  moreover have "failoverActive s \<and> waiting (net (rb_comms s)) ''motorcontrol'' =
      Some (sr_motorControl (io_serializers ?io) (fm_motorControl (rf_msgs (robotFailover s))))"
    if "T0 + 1000000 < now" "now \<le> unat (timeNextUpdateuS hb')"
  proof -
    have "0 \<le> link (sy_robot sy)" "link (sy_robot sy) \<le> 50" using ok(1) by (simp_all add: robot_ok_def external_ok_def)
    with link_silent[OF run quiet] beats(2)[of 50] that have n: "\<not> isExternalControl (sy_robot sy')"
      by (simp add: isExternalControl_link)
    show ?thesis
      using periodic_publishes[OF robot_ok_runs[OF run ok(1)] n assms(12), where attached = attached]
        RobotPeriodic_failover(2)[OF n]
      by (simp add: s)
  qed
  ultimately show ?thesis by blast
qed

section \<open>A run without exceptions\<close>

lemma system_run_tasks:
  assumes "system_run sio passes tasks sy = Inr (ps, tasks', sy')" and "exceptions sio passes tasks sy = 0"
    and "distinct (map st_name tasks)"
  shows "tasks' = map (fold after_pass (map fst passes)) tasks"
  using assms
proof (induction passes arbitrary: tasks sy ps)
  case (Cons pass passes)
  obtain now env where pass: "pass = (now, env)" by (cases pass)
  obtain p ps1 where p: "system_pass sio env now tasks sy = Inr p"
    "system_run sio passes (po_tasks p) (po_system p) = Inr (ps1, tasks', sy')"
    using Cons.prems(1) by (auto simp: pass split: sum.splits prod.splits)
  have e: "po_alarm p \<noteq> None" "exceptions sio passes (po_tasks p) (po_system p) = 0"
    using Cons.prems(2) p(1) by (auto simp: pass split: if_splits)
  note step = system_pass_refines[OF p(1) Cons.prems(3)]
  obtain throws where throws: "scheduler_pass throws now tasks = (po_tasks p, po_runs p, po_alarm p)" using step(1) by blast
  obtain before rest where loop: "tasks = before @ rest"
    "pr_tasks (scheduler_loop throws now (- 1) tasks) = map (after_pass now) before @ rest"
    "pr_aborted (scheduler_loop throws now (- 1) tasks) \<longleftrightarrow> rest \<noteq> []"
    by (rule scheduler_loop_cases[of tasks now throws "- 1"]) blast
  have "rest = []" "po_tasks p = map (after_pass now) before @ rest"
    using throws e(1) loop(2,3) by (auto simp: scheduler_pass_def Let_def split: if_splits)
  then have "po_tasks p = map (after_pass now) tasks" using loop(1) by simp
  moreover have "distinct (map st_name (po_tasks p))" using Cons.prems(3) by (simp only: step(4))
  ultimately show ?case using Cons.IH[OF p(2) e(2)] by (simp add: pass)
qed simp

definition idle_env :: pass_env where
  "idle_env = (quiet_env [])\<lparr>pe_last_calls := []\<rparr>"

lemma idle_env_events: "e \<in> env_events idle_env \<Longrightarrow> supplies e s = 0"
  by (auto simp: env_events_def idle_env_def quiet_env_def call_events_def task_event_def supplies_def split: if_splits)

lemma supplied_zero: "(\<And>e s. e \<in> set es \<Longrightarrow> supplies e s = 0) \<Longrightarrow> supplied io es s = 0"
  by (induction es arbitrary: s) simp_all

text \<open>The heartbeat task in the example, which runs in every pass.\<close>

definition example_heartbeat :: "nat \<Rightarrow> sched_task" where
  "example_heartbeat n = \<lparr>st_name = ''ProcessHeartbeatTask'', mTaskRateMs = 20,
     timeNextUpdateuS = of_nat (20000 * n), timeLastUpdateuS = of_nat (20000 * (n - 1))\<rparr>"

lemma example_heartbeat_next: "n < 100 \<Longrightarrow> unat (timeNextUpdateuS (example_heartbeat n)) = 20000 * n"
  unfolding example_heartbeat_def sched_task.select_convs by (simp only: unat_of_nat) simp

lemma example_heartbeat_pass:
  assumes "n < 100" shows "after_pass (example_clock n) (example_heartbeat n) = example_heartbeat (n + 1)"
proof -
  have "task_due (example_clock n) (example_heartbeat n)"
    using example_heartbeat_next[OF assms] unat_example_clock[OF assms]
    by (simp add: task_due_def word_less_nat_alt example_heartbeat_def)
  moreover have "of_nat (20000 * (n + 1)) = of_nat (20000 * n) + (20000 :: u64)" by simp
  ultimately show ?thesis
    by (simp add: after_pass_def advance_task_def period_us_def example_heartbeat_def del: of_nat_mult of_nat_add)
qed

lemma example_heartbeat_passes:
  "n \<le> 100 \<Longrightarrow> fold after_pass (map example_clock [0..<n]) (example_heartbeat 0) = example_heartbeat n"
  by (induction n) (simp_all add: example_heartbeat_pass)

theorem system_failover_real_time_witness:
  "\<exists>ps tasks' sy'. system_run quiet_io (map (\<lambda>k. (example_clock k, idle_env)) [0..<52]) RobotInit_tasks
      (System_new example_names example_task (RTTimer_new 0)) = Inr (ps, tasks', sy')
    \<and> failoverActive (sy_robot (run_call quiet_io (CallRobotPeriodic True (\<lambda>i. 0)) sy'))"
proof -
  let ?passes = "map (\<lambda>k. (example_clock k, idle_env)) [0..<52]" and ?new = "System_new example_names example_task (RTTimer_new 0)"
  obtain ps tasks' sy' where run: "system_run quiet_io ?passes RobotInit_tasks ?new = Inr (ps, tasks', sy')"
    using quiet_io_runs by blast
  have "supplied (sio_robot quiet_io) (log_events ps) (sy_robot ?new) = 0"
    using system_run_events[OF run] idle_env_events by (intro supplied_zero) fastforce
  then have "exceptions quiet_io ?passes RobotInit_tasks ?new = 0"
    using system_run_pending[OF run System_new_pending(2)] by (simp add: System_new_pending(1))
  note tasks = system_run_tasks[OF run this RobotInit_names]
  have clocks: "map fst ?passes = map example_clock [0..<52]" by (simp add: comp_def)
  have new: "example_heartbeat 0 \<in> set RobotInit_tasks"
    using RobotInit_tasks_named(2) by (simp add: example_heartbeat_def Task_new_def)
  have "example_heartbeat 52 = fold after_pass (map fst ?passes) (example_heartbeat 0)"
    using example_heartbeat_passes[of 52] by (simp only: clocks)
  then have hb': "example_heartbeat 52 \<in> set tasks'" unfolding tasks set_map using new by (rule image_eqI)
  have name: "st_name (example_heartbeat n) = ''ProcessHeartbeatTask''" for n by (simp add: example_heartbeat_def)
  have "\<And>c env. (c, env) \<in> set ?passes \<Longrightarrow> unat c \<le> 1020001 \<and> env_silent env"
    using example_clocks(3)[of 52] by (auto simp: env_silent_def idle_env_def quiet_env_def unat_example_clock)
  from system_failover_real_time[OF _ run _ this _ _ new name _ hb' name, of "[]" example_names example_task "RTTimer_new 0" "[]" 0
      True "\<lambda>i. 0"] run
  show ?thesis
    using resting_fits example_heartbeat_next[of 52] by (auto simp: quiet_io_def)
qed

end
