(* ===== verification/System_Sensors.thy ===== *)
theory System_Sensors
  imports System_Safety
begin

text \<open>
  The IMUs of the whole program: the registry stays consistent in every state the program reaches, and
  an IMU that was registered is never removed, since no task calls
  \<open>CKIMUManager::processHeartbeat\<close>.
\<close>

section \<open>What the tasks do to the IMUs\<close>

lemma onIMU_keeps:
  assumes "imu_ok s" and "\<And>dev ty. fst (func i dev ty w) = dev"
  shows "imu_ok (fst (onIMU i func (s, w)))"
    and "sm_get (mRegisteredIMUList (fst (onIMU i func (s, w)))) k = sm_get (mRegisteredIMUList s) k"
proof -
  note maps = imu_ok_maps[OF assms(1)]
  show "sm_get (mRegisteredIMUList (fst (onIMU i func (s, w)))) k = sm_get (mRegisteredIMUList s) k"
    using maps assms(2) by (simp add: onIMU_eq Let_def split: option.split)
  let ?s = "fst (onIMU i func (s, w))"
  have "case sm_get (mRegisteredIMUHeartbeatList ?s) j of
       None \<Rightarrow> sm_get (mRegisteredIMUList ?s) j = None \<and> sm_get (mRegisteredIMUTypeList ?s) j = None
     | Some n \<Rightarrow> 1 \<le> n \<and> n \<le> kMaxHeartbeatTicks \<and> sm_get (mRegisteredIMUTypeList ?s) j \<noteq> None" for j
    using imu_ok_entry[OF assms(1), of j] imu_ok_entry[OF assms(1), of i] maps assms(2)
    by (auto simp: onIMU_eq Let_def sm_get_at split: option.splits)
  moreover have "sm_ok (mRegisteredIMUList ?s) \<and> sm_ok (mRegisteredIMUTypeList ?s) \<and> sm_ok (mRegisteredIMUHeartbeatList ?s)"
    using maps by (auto simp: onIMU_eq Let_def split: option.splits)
  ultimately show "imu_ok ?s" unfolding imu_ok_def[of ?s] by blast
qed

lemma imu_report_keeps:
  assumes "imu_ok mgr"
  shows "imu_ok (fst (SendIMUDataTask_run ser quats rates radio mgr n))
    \<and> sm_get (mRegisteredIMUList (fst (SendIMUDataTask_run ser quats rates radio mgr n))) k = sm_get (mRegisteredIMUList mgr) k"
proof -
  let ?f = "\<lambda>i dev ty msg. (dev, msg @ [imu_status_of (quats i) (rates i) i])"
  have "imu_ok (fst (fold (\<lambda>i. onIMU i ?f) ks st))
      \<and> sm_get (mRegisteredIMUList (fst (fold (\<lambda>i. onIMU i ?f) ks st))) k = sm_get (mRegisteredIMUList (fst st)) k"
    if "imu_ok (fst st)" for ks st
    using that
  proof (induction ks arbitrary: st)
    case (Cons i ks)
    obtain s w where st: "st = (s, w)" by (cases st)
    have "imu_ok (fst (onIMU i ?f st))"
      "sm_get (mRegisteredIMUList (fst (onIMU i ?f st))) k = sm_get (mRegisteredIMUList (fst st)) k"
      using onIMU_keeps(1)[of s ?f i w] onIMU_keeps(2)[of s ?f i w k] Cons.prems by (simp_all add: st)
    with Cons.IH[of "onIMU i ?f st"] show ?case by simp
  qed simp
  then show ?thesis using assms by (simp add: SendIMUDataTask_run_def imu_forEach_def split_beta Let_def)
qed

lemma imu_config_keeps:
  assumes "imu_config_ok st" and "sm_get (mRegisteredIMUList (imu_mgr st)) k = Some dev"
  shows "imu_config_ok (snd (imu_config_run parse sch resp n st))
    \<and> sm_get (mRegisteredIMUList (imu_mgr (snd (imu_config_run parse sch resp n st)))) k = Some dev"
proof -
  have "imu_config_ok (fold (imu_config_step sch resp) ms st)
      \<and> sm_get (mRegisteredIMUList (imu_mgr (fold (imu_config_step sch resp) ms st))) k = Some dev" for ms
    using assms
  proof (induction ms arbitrary: st)
    case (Cons m ms)
    have ok: "imu_ok (imu_mgr st)" using Cons.prems(1) by (simp add: imu_config_ok_def)
    have "sm_get (mRegisteredIMUList (imu_mgr (imu_config_step sch resp m st))) k = Some dev"
      using Cons.prems(2) imu_step_result_mgr(2)[OF ok] registerIMU_device(1)[OF ok]
      by (auto simp: imu_config_step_eq Let_def imuExists_def sm_count_def)
    then show ?case using Cons.IH[of "imu_config_step sch resp m st"] imu_config.inv_apply[OF Cons.prems(1)] by simp
  qed simp
  then show ?thesis using assms by (auto simp: imu_config_run_def split: prod.split option.split)
qed

section \<open>Every run keeps them\<close>

abbreviation imu_of :: "system \<Rightarrow> u16 \<Rightarrow> ck_pigeon2 option" where
  "imu_of sy k \<equiv> sm_get (mRegisteredIMUList (imu_mgr (sy_imus sy))) k"

definition imu_kept :: "u16 \<Rightarrow> ck_pigeon2 \<Rightarrow> system \<Rightarrow> bool" where
  "imu_kept k dev sy \<longleftrightarrow> imu_config_ok (sy_imus sy) \<and> imu_of sy k = Some dev"

lemma run_task_imu_kept:
  assumes "imu_kept k dev sy" shows "imu_kept k dev (snd (run_task sio env name sy))"
proof -
  have ok: "imu_config_ok (sy_imus sy)" "imu_of sy k = Some dev" "imu_ok (imu_mgr (sy_imus sy))" "sm_ok (mPrevIMUMsg (sy_imus sy))"
    using assms by (simp_all add: imu_kept_def imu_config_ok_def)
  consider (imu) "name = ''ApplyIMUConfigTask''" | (report) "name \<in> set report_names"
    | (other) "name \<noteq> ''ApplyIMUConfigTask''" "name \<notin> set report_names"
    by blast
  then show ?thesis
  proof cases
    case imu
    show ?thesis
      unfolding imu run_task_imu imu_kept_def using imu_config_keeps[OF ok(1,2)] by (simp add: Let_def set_net_def)
  next
    case report
    then show ?thesis
      using assms imu_report_keeps[OF ok(3)] ok(2,4) unfolding report_names_def list.set
      by (elim insertE emptyE) (simp_all add: run_task_reports Let_def imu_kept_def imu_config_ok_def)
  next
    case other
    then show ?thesis
      using assms by (auto simp: run_task_other imu_kept_def split: option.split prod.split)
  qed
qed

lemma run_calls_imus [simp]: "sy_imus (run_calls sio cs sy) = sy_imus sy"
proof (induction cs arbitrary: sy)
  case (Cons c cs)
  have "sy_imus (run_call sio c sy) = sy_imus sy" by (cases c) (simp_all add: run_call_def split_beta)
  then show ?case using Cons by (simp add: run_calls_def)
qed (simp add: run_calls_def)

lemma pass_loop_imu_kept:
  assumes "pass_loop sio env now w tasks sy = (r, es, f, sy')" and "imu_kept k dev sy"
  shows "imu_kept k dev sy'"
  using assms
proof (induction tasks arbitrary: w sy r es)
  case (Cons t ts)
  let ?sy = "run_calls sio (pe_calls env (st_name t)) sy"
  have sy1: "imu_kept k dev ?sy" using Cons.prems(2) by (simp add: imu_kept_def)
  obtain g sy2 where run: "run_task sio env (st_name t) ?sy = (g, sy2)" by fastforce
  have sy2: "imu_kept k dev sy2" using run_task_imu_kept[OF sy1, of sio env "st_name t"] run by simp
  from Cons.prems(1) consider "sy' = sy2"
    | w' r' es' where "pass_loop sio env now w' ts ?sy = (r', es', f, sy')"
    | w' r' es' where "pass_loop sio env now w' ts sy2 = (r', es', f, sy')"
    using run by (auto simp: Let_def split: if_splits prod.splits option.splits)
  then show ?case by cases (use sy1 sy2 Cons.IH in blast)+
qed simp

lemma system_pass_imu_kept:
  assumes "system_pass sio env now tasks sy = Inr p" and "imu_kept k dev sy"
  shows "imu_kept k dev (po_system p)"
proof -
  obtain r es f sy1 where l: "pass_loop sio env now (- 1) tasks sy = (r, es, f, sy1)" using prod_cases4 by blast
  have "sy_imus (po_system p) = sy_imus sy1"
    using assms(1) l
    by (auto simp: system_pass_def report_fault_def split: option.splits if_splits fault.splits)
  then show ?thesis using pass_loop_imu_kept[OF l assms(2)] by (simp add: imu_kept_def)
qed

text \<open>C30. An IMU never expires. The registry gives an IMU 250 heartbeats like a motor, but the heartbeat
  task does not call it: in every run of the program, however many heartbeats it has and whatever
  messages come or stay away, an IMU that is registered stays the same device.\<close>

theorem imu_never_expires:
  assumes "system_run sio passes tasks sy = Inr (ps, tasks', sy')" and "imu_config_ok (sy_imus sy)"
    and "imu_of sy i = Some dev"
  shows "imu_of sy' i = Some dev \<and> imu_config_ok (sy_imus sy')"
proof -
  have "imu_kept i dev sy" using assms(2,3) by (simp add: imu_kept_def)
  with assms(1) have "imu_kept i dev sy'"
  proof (induction passes arbitrary: tasks sy ps)
    case (Cons pass passes)
    obtain now env where pass: "pass = (now, env)" by (cases pass)
    obtain p ps1 where p: "system_pass sio env now tasks sy = Inr p"
      "system_run sio passes (po_tasks p) (po_system p) = Inr (ps1, tasks', sy')"
      using Cons.prems(1) by (auto simp: pass split: sum.splits prod.splits)
    then show ?case using Cons.IH system_pass_imu_kept[OF p(1) Cons.prems(2)] by blast
  qed simp
  then show ?thesis by (simp add: imu_kept_def)
qed

theorem imu_never_expires_witness:
  "let mgr = fst (registerIMU (\<lambda>n. OK) [] 3 PIGEON2 RIO_CANIVORE CKIMUManager_new);
       sy = (System_new example_names example_task (RTTimer_new 0))\<lparr>sy_imus := \<lparr>imu_mgr = mgr, imu_calls = [], mPrevIMUMsg = []\<rparr>\<rparr>
   in \<exists>ps tasks' sy'. system_run quiet_io (replicate 1000 (5, quiet_env [])) RobotInit_tasks sy = Inr (ps, tasks', sy')
        \<and> imu_of sy' 3 \<noteq> None"
proof -
  let ?mgr = "fst (registerIMU (\<lambda>n. OK) [] 3 PIGEON2 RIO_CANIVORE CKIMUManager_new)"
  let ?sy = "(System_new example_names example_task (RTTimer_new 0))\<lparr>sy_imus := \<lparr>imu_mgr = ?mgr, imu_calls = [], mPrevIMUMsg = []\<rparr>\<rparr>"
  have "calm resting_io (\<lambda>i. SINGLE) (sy_robot ?sy)" using System_new_calm by simp
  then obtain ps tasks' sy' where run: "system_run quiet_io (replicate 1000 (5, quiet_env [])) RobotInit_tasks ?sy = Inr (ps, tasks', sy')"
    using quiet_io_goes_on by blast
  have "imu_config_ok (sy_imus ?sy)" using imu_ok_register[OF imu_ok_new] by (simp add: imu_config_ok_def)
  moreover obtain dev where dev: "imu_of ?sy 3 = Some dev"
    using registerIMU_device(1)[OF imu_ok_new, of "\<lambda>n. OK" "[]" 3 PIGEON2 RIO_CANIVORE 3]
    by (simp add: imuExists_def CKIMUManager_new_def sm_count_def)
  ultimately have "imu_of sy' 3 = Some dev" using imu_never_expires[OF run] by blast
  then show ?thesis using run unfolding Let_def by blast
qed

end
