(* ===== verification/Robot_Threads.thy ===== *)
theory Robot_Threads
  imports Robot_Handover
begin

text \<open>
  The two threads of the robot in finer steps. The main loop and the scheduler share the mailbox, the
  dead-man counter and the control mode; each access to one of them is a step of its own here, with
  what a thread does in between, on data no other thread touches, joined to it. So the
  scheduler can receive a message between the moment \<open>RobotPeriodic\<close> asks for the external
  controller and the moment it publishes, and the main loop can publish between the two halves of a
  received message. The heartbeat task is four steps, one per registry; a task that takes a message
  takes it first and works on it later.
\<close>

section \<open>Program counters\<close>

text \<open>The main loop within \<open>RobotPeriodic\<close>: about to ask for the external controller, or with
  messages left to publish.\<close>

datatype main_pc =
    MainIdle
  | MainCheck "u16 \<Rightarrow> real"
  | MainPublish "(string \<times> bytes) list" "u16 \<Rightarrow> real"

datatype beat_part = BeatMotors | BeatSolenoids | BeatExternal | BeatLEDs

text \<open>The scheduler within a task: at the next \<open>recv\<close>, between storing a message and telling the
  counter, with a message in hand (the mailbox as it was when it was taken), or within the
  heartbeat task.\<close>

datatype task_pc =
    TaskIdle
  | TaskReceive "dish_event list"
  | TaskSignal "dish_event list"
  | TaskWork robot_event network
  | TaskBeat "beat_part list"

record threads =
  th_robot :: robot
  th_main :: main_pc
  th_task :: task_pc

definition at_rest :: "robot \<Rightarrow> threads" where
  "at_rest s = \<lparr>th_robot = s, th_main = MainIdle, th_task = TaskIdle\<rparr>"

section \<open>The main loop\<close>

text \<open>The branches of \<open>RobotPeriodic\<close>: the external controller drives, or the failover code does, which
  is initialised when it was not active.\<close>

definition periodic_release :: "robot \<Rightarrow> robot" where
  "periodic_release s =
     (if failoverActive s then
        (let s1 = (if mDSAttached (rb_mode s) then ReportError ''[rosdiag] ROS Connection Resumed'' s else s)
         in s1\<lparr>robotFailover := RobotFailover_Reset (robotFailover s1), failoverActive := False\<rparr>)
      else if \<not> initialStartupROSCompleted s \<and> mDSAttached (rb_mode s) \<and> \<not> failoverActive s then
        (ReportError ''[rosdiag] ROS Connection Resumed'' s)\<lparr>initialStartupROSCompleted := True\<rparr>
      else s)"

definition periodic_entry :: "(u16 \<Rightarrow> real) \<Rightarrow> robot \<Rightarrow> robot" where
  "periodic_entry position s =
     (if \<not> failoverActive s then
        (let s' = (if mDSAttached (rb_mode s) then ReportError ''[rosdiag] Failover Control Activated'' s else s)
         in s'\<lparr>robotFailover := RobotFailoverInit position (rb_motors s') (robotFailover s'),
               failoverActive := True\<rparr>)
      else s)"

text \<open>What \<open>publishMessages\<close> places, in order, one locked access to the mailbox each.\<close>

definition publications :: "serializers \<Rightarrow> failover_messages \<Rightarrow> (string \<times> bytes) list" where
  "publications sr fm =
     [(''motorcontrol'', sr_motorControl sr (fm_motorControl fm)),
      (''solenoidcontrol'', sr_solenoidControl sr (fm_solenoidControl fm))]
     @ (if fm_loopCounter fm mod 25 = 0
        then [(''motorconfig'', sr_motorConfiguration sr (fm_motorConfiguration fm)),
              (''ledcontrol'', sr_ledControl sr (fm_ledControl fm))]
        else [])"

definition place :: "string \<times> bytes \<Rightarrow> robot \<Rightarrow> robot" where
  "place p s = s\<lparr>rb_comms := (rb_comms s)\<lparr>net := publish_bytes (fst p) (snd p) (net (rb_comms s))\<rparr>\<rparr>"

definition periodic_finish :: "(u16 \<Rightarrow> real) \<Rightarrow> robot \<Rightarrow> robot" where
  "periodic_finish position s =
     (let rf = robotFailover s; fm = rf_msgs rf
      in s\<lparr>robotFailover := rf\<lparr>rf_msgs := fm\<lparr>fm_loopCounter := fm_loopCounter fm + 1\<rparr>,
             rf_swerve := swerve_periodic position (rb_motors s) (rf_swerve rf)\<rparr>\<rparr>)"

lemma publish_as_list:
  "publishMessages sr fm n =
     (fm\<lparr>fm_loopCounter := fm_loopCounter fm + 1\<rparr>,
      fold (\<lambda>p. publish_bytes (fst p) (snd p)) (publications sr fm) n)"
  by (simp add: publishMessages_def publications_def Let_def)

section \<open>The tasks\<close>

definition with_net :: "network \<Rightarrow> robot \<Rightarrow> robot" where
  "with_net n s = s\<lparr>rb_comms := (rb_comms s)\<lparr>net := n\<rparr>\<rparr>"

fun beat :: "beat_part \<Rightarrow> robot \<Rightarrow> robot" where
  "beat BeatMotors s = s\<lparr>rb_motors := motor_processHeartbeat (rb_motors s)\<rparr>"
| "beat BeatSolenoids s = s\<lparr>rb_solenoids := solenoid_processHeartbeat (rb_solenoids s)\<rparr>"
| "beat BeatExternal s = s\<lparr>rb_comms := (rb_comms s)\<lparr>ext := external_processHeartbeat (ext (rb_comms s))\<rparr>\<rparr>"
| "beat BeatLEDs s = s\<lparr>rb_leds := (candle_processHeartbeat (fst (rb_leds s)), snd (rb_leds s))\<rparr>"

definition heartbeat_parts :: "beat_part list" where
  "heartbeat_parts = [BeatMotors, BeatSolenoids, BeatExternal, BeatLEDs]"

text \<open>The group of the message a task takes.\<close>

fun task_group :: "robot_event \<Rightarrow> string option" where
  "task_group (RunMotorValues l now) = Some ''motorcontrol''"
| "task_group (RunMotorConfig l) = Some ''motorconfig''"
| "task_group (RunSolenoids now) = Some ''solenoidcontrol''"
| "task_group (RunLEDs l) = Some ''ledcontrol''"
| "task_group RunIMUConfig = Some ''imuconfig''"
| "task_group _ = None"

text \<open>Where the pump stops: nothing queued, an error, or a message of as many bytes as \<open>EAGAIN\<close>.\<close>

fun pump_stops :: "dish_event list \<Rightarrow> bool" where
  "pump_stops [] = True"
| "pump_stops (DishError e # queue) = True"
| "pump_stops (DishMessage g b # queue) = (length b = EAGAIN)"

definition receive_store :: "string \<Rightarrow> bytes \<Rightarrow> robot \<Rightarrow> robot" where
  "receive_store g b s = with_net ((net (rb_comms s))\<lparr>recvMsgMap := sm_put g b (recvMsgMap (net (rb_comms s)))\<rparr>) s"

definition receive_signal :: "robot \<Rightarrow> robot" where
  "receive_signal s = s\<lparr>rb_comms := (rb_comms s)\<lparr>ext := externalControlMsgReceived (ext (rb_comms s))\<rparr>\<rparr>"

section \<open>Steps\<close>

datatype thread_label =
    StartPeriodic bool "u16 \<Rightarrow> real"
  | AskExternal
  | Place
  | EndPeriodic
  | ModeCall robot_event
  | StartTask robot_event
  | Receive
  | Signal
  | Work
  | Beat beat_part

inductive thread_step :: "robot_io \<Rightarrow> threads \<Rightarrow> thread_label \<Rightarrow> threads \<Rightarrow> bool" for io where
  start_periodic: "thread_step io \<lparr>th_robot = s, th_main = MainIdle, th_task = t\<rparr> (StartPeriodic attached position)
     \<lparr>th_robot = s\<lparr>rb_mode := setDSAttached attached (rb_mode s)\<rparr>, th_main = MainCheck position, th_task = t\<rparr>"
| ask_external: "isExternalControl s \<Longrightarrow>
     thread_step io \<lparr>th_robot = s, th_main = MainCheck position, th_task = t\<rparr> AskExternal
       \<lparr>th_robot = periodic_release s, th_main = MainIdle, th_task = t\<rparr>"
| ask_failover: "\<not> isExternalControl s \<Longrightarrow> s' = periodic_entry position s \<Longrightarrow>
     thread_step io \<lparr>th_robot = s, th_main = MainCheck position, th_task = t\<rparr> AskExternal
       \<lparr>th_robot = s',
        th_main = MainPublish (publications (io_serializers io) (rf_msgs (robotFailover s'))) position, th_task = t\<rparr>"
| place_one: "thread_step io \<lparr>th_robot = s, th_main = MainPublish (p # ps) position, th_task = t\<rparr> Place
     \<lparr>th_robot = place p s, th_main = MainPublish ps position, th_task = t\<rparr>"
| end_periodic: "thread_step io \<lparr>th_robot = s, th_main = MainPublish [] position, th_task = t\<rparr> EndPeriodic
     \<lparr>th_robot = periodic_finish position s, th_main = MainIdle, th_task = t\<rparr>"
| mode_call_init: "thread_step io \<lparr>th_robot = s, th_main = MainIdle, th_task = t\<rparr> (ModeCall (RunModeInit m))
     \<lparr>th_robot = mode_init m s, th_main = MainIdle, th_task = t\<rparr>"
| mode_call_periodic: "thread_step io \<lparr>th_robot = s, th_main = MainIdle, th_task = t\<rparr> (ModeCall (RunModePeriodic m js))
     \<lparr>th_robot = mode_periodic io js m s, th_main = MainIdle, th_task = t\<rparr>"
| start_receive: "thread_step io \<lparr>th_robot = s, th_main = pc, th_task = TaskIdle\<rparr> (StartTask (RunReceive queue))
     \<lparr>th_robot = s, th_main = pc, th_task = TaskReceive queue\<rparr>"
| receive_message: "length b \<noteq> EAGAIN \<Longrightarrow>
     thread_step io \<lparr>th_robot = s, th_main = pc, th_task = TaskReceive (DishMessage g b # queue)\<rparr> Receive
       \<lparr>th_robot = receive_store g b s, th_main = pc, th_task = TaskSignal queue\<rparr>"
| receive_end: "pump_stops queue \<Longrightarrow>
     thread_step io \<lparr>th_robot = s, th_main = pc, th_task = TaskReceive queue\<rparr> Receive
       \<lparr>th_robot = s, th_main = pc, th_task = TaskIdle\<rparr>"
| signal: "thread_step io \<lparr>th_robot = s, th_main = pc, th_task = TaskSignal queue\<rparr> Signal
     \<lparr>th_robot = receive_signal s, th_main = pc, th_task = TaskReceive queue\<rparr>"
| take_message: "task_group e = Some g \<Longrightarrow>
     thread_step io \<lparr>th_robot = s, th_main = pc, th_task = TaskIdle\<rparr> (StartTask e)
       \<lparr>th_robot = with_net (snd (getMessage g (net (rb_comms s)))) s, th_main = pc,
        th_task = TaskWork e (net (rb_comms s))\<rparr>"
| work: "robot_step io (with_net hand s) e s' \<Longrightarrow>
     thread_step io \<lparr>th_robot = s, th_main = pc, th_task = TaskWork e hand\<rparr> Work
       \<lparr>th_robot = with_net (net (rb_comms s)) s', th_main = pc, th_task = TaskIdle\<rparr>"
| start_heartbeat: "thread_step io \<lparr>th_robot = s, th_main = pc, th_task = TaskIdle\<rparr> (StartTask RunHeartbeat)
     \<lparr>th_robot = s, th_main = pc, th_task = TaskBeat heartbeat_parts\<rparr>"
| beat_one: "t' = (if ps = [] then TaskIdle else TaskBeat ps) \<Longrightarrow>
     thread_step io \<lparr>th_robot = s, th_main = pc, th_task = TaskBeat (p # ps)\<rparr> (Beat p)
       \<lparr>th_robot = beat p s, th_main = pc, th_task = t'\<rparr>"
| ds_status: "thread_step io \<lparr>th_robot = s, th_main = pc, th_task = TaskIdle\<rparr> (StartTask (RunDSStatus attached))
     \<lparr>th_robot = UpdateDSConnectionStatusTask_run attached s, th_main = pc, th_task = TaskIdle\<rparr>"

inductive thread_runs :: "robot_io \<Rightarrow> threads \<Rightarrow> thread_label list \<Rightarrow> threads \<Rightarrow> bool" for io where
  threads_nil: "thread_runs io th [] th"
| threads_cons: "thread_step io th l th' \<Longrightarrow> thread_runs io th' ls th'' \<Longrightarrow> thread_runs io th (l # ls) th''"

inductive_cases thread_step_cases: "thread_step io th l th'"
inductive_cases thread_runs_nil: "thread_runs io th [] th'"
inductive_cases thread_runs_cons: "thread_runs io th (l # ls) th'"

lemma threads_one: "thread_step io th l th' \<Longrightarrow> thread_runs io th [l] th'"
  by (rule threads_cons[OF _ threads_nil])

lemma threads_append:
  "thread_runs io th ls th' \<Longrightarrow> thread_runs io th' ls' th'' \<Longrightarrow> thread_runs io th (ls @ ls') th''"
  by (induction rule: thread_runs.induct) (auto intro: threads_cons)

section \<open>The steps of a callback or task, one after the other\<close>

text \<open>\<open>RobotPeriodic\<close> is its pieces in sequence.\<close>

lemma place_net: "fold place ps s = with_net (fold (\<lambda>p. publish_bytes (fst p) (snd p)) ps (net (rb_comms s))) s"
  by (induction ps arbitrary: s) (simp_all add: place_def with_net_def)

lemma RobotPeriodic_pieces:
  fixes s0 :: robot and attached :: bool
  defines "s \<equiv> s0\<lparr>rb_mode := setDSAttached attached (rb_mode s0)\<rparr>"
  shows "RobotPeriodic io attached position s0 =
    (if isExternalControl s then periodic_release s
     else periodic_finish position
            (fold place (publications (io_serializers io) (rf_msgs (robotFailover (periodic_entry position s))))
              (periodic_entry position s)))"
  unfolding s_def
  by (auto simp: RobotPeriodic_def periodic_release_def periodic_entry_def Let_def place_net with_net_def
      periodic_finish_def RobotFailoverPeriodic_def publish_as_list ReportError_def)

lemma place_all:
  "thread_runs io \<lparr>th_robot = s, th_main = MainPublish ps position, th_task = t\<rparr> (replicate (length ps) Place)
     \<lparr>th_robot = fold place ps s, th_main = MainPublish [] position, th_task = t\<rparr>"
  by (induction ps arbitrary: s) (auto intro: threads_nil threads_cons[OF place_one])

lemma failover_in_steps:
  assumes "\<not> isExternalControl (s\<lparr>rb_mode := setDSAttached attached (rb_mode s)\<rparr>)"
  shows "\<exists>n. thread_runs io \<lparr>th_robot = s, th_main = MainIdle, th_task = t\<rparr>
     (StartPeriodic attached position # AskExternal # Place # replicate n Place @ [EndPeriodic])
     \<lparr>th_robot = RobotPeriodic io attached position s, th_main = MainIdle, th_task = t\<rparr>"
proof -
  let ?s = "periodic_entry position (s\<lparr>rb_mode := setDSAttached attached (rb_mode s)\<rparr>)"
  let ?ps = "publications (io_serializers io) (rf_msgs (robotFailover ?s))"
  obtain p ps where ps: "?ps = p # ps" by (simp add: publications_def)
  have "replicate (length ?ps) Place = Place # replicate (length ps) Place" by (simp add: ps)
  moreover have "thread_runs io \<lparr>th_robot = s, th_main = MainIdle, th_task = t\<rparr>
      (StartPeriodic attached position # AskExternal # replicate (length ?ps) Place @ [EndPeriodic])
      \<lparr>th_robot = periodic_finish position (fold place ?ps ?s), th_main = MainIdle, th_task = t\<rparr>"
    by (rule threads_cons[OF start_periodic threads_cons[OF ask_failover[OF assms refl]
            threads_append[OF place_all threads_one[OF end_periodic]]]])
  ultimately show ?thesis using assms by (auto simp: RobotPeriodic_pieces)
qed

lemma periodic_in_steps:
  "\<exists>ls. thread_runs io \<lparr>th_robot = s0, th_main = MainIdle, th_task = t\<rparr> ls
     \<lparr>th_robot = RobotPeriodic io attached position s0, th_main = MainIdle, th_task = t\<rparr>"
proof -
  let ?s = "s0\<lparr>rb_mode := setDSAttached attached (rb_mode s0)\<rparr>"
  note started = start_periodic[of io s0 t attached position]
  show ?thesis
  proof (cases "isExternalControl ?s")
    case True
    then show ?thesis
      using threads_cons[OF started threads_one[OF ask_external[OF True]]] by (auto simp: RobotPeriodic_pieces)
  next
    case False
    then show ?thesis using failover_in_steps by blast
  qed
qed

lemma pump_in_steps:
  "\<exists>ls. thread_runs io \<lparr>th_robot = s, th_main = pc, th_task = TaskReceive queue\<rparr> ls
     \<lparr>th_robot = s\<lparr>rb_comms := snd (snd (pump_loop queue (rb_comms s)))\<rparr>, th_main = pc, th_task = TaskIdle\<rparr>"
proof (induction queue arbitrary: s)
  case Nil
  then show ?case using threads_one[OF receive_end[of "[]"]] by (auto simp: exI)
next
  case (Cons m queue)
  show ?case
  proof (cases m)
    case (DishMessage g b)
    show ?thesis
    proof (cases "length b = EAGAIN")
      case True
      then show ?thesis using threads_one[OF receive_end[of "m # queue"]] by (auto simp: DishMessage)
    next
      case False
      have "receive_signal (receive_store g b s) = s\<lparr>rb_comms := store_received g b (rb_comms s)\<rparr>"
        by (simp add: receive_signal_def receive_store_def with_net_def store_received_def)
      then obtain ls where "thread_runs io \<lparr>th_robot = receive_signal (receive_store g b s), th_main = pc, th_task = TaskReceive queue\<rparr>
          ls \<lparr>th_robot = s\<lparr>rb_comms := snd (snd (pump_loop (m # queue) (rb_comms s)))\<rparr>, th_main = pc, th_task = TaskIdle\<rparr>"
        using Cons.IH[of "receive_signal (receive_store g b s)"] False by (auto simp: DishMessage)
      with threads_cons[OF receive_message[OF False] threads_cons[OF signal]] show ?thesis
        unfolding DishMessage by blast
    qed
  next
    case (DishError e)
    then show ?thesis using threads_one[OF receive_end[of "m # queue"]] by (auto simp: DishError)
  qed
qed

text \<open>A task that takes a message changes the mailbox by nothing else.\<close>

lemma with_net_simps [simp]:
  "with_net (net (rb_comms s)) s = s" "with_net n (with_net n' s) = with_net n s"
  "net (rb_comms (with_net n s)) = n" "ext (rb_comms (with_net n s)) = ext (rb_comms s)"
  "robotFailover (with_net n s) = robotFailover s" "failoverActive (with_net n s) = failoverActive s"
  "rb_motors (with_net n s) = rb_motors s" "rb_solenoids (with_net n s) = rb_solenoids s"
  "rb_leds (with_net n s) = rb_leds s" "rb_mode (with_net n s) = rb_mode s"
  by (simp_all add: with_net_def)

lemma task_takes:
  assumes "robot_step io s e s'" and "task_group e = Some g" and "robot_ok s"
  shows "net (rb_comms s') = snd (getMessage g (net (rb_comms s)))"
  using assms(1)
proof cases
  case (step_motor_values l now r)
  then show ?thesis
    using assms(2)
    by (auto simp: robot_motor_values_def motor_values_run_def Let_def split: prod.splits option.splits if_splits)
next
  case (step_motor_config l r)
  then show ?thesis
    using assms(2) motor_config_task_network[of "io_parse_config io" l "io_modeOf io" "io_motor_resp io"
        CKEncoderManager_new "net (rb_comms s)" "rb_motors s" "rb_motor_calls s"]
    by (auto simp: robot_motor_config_def split: prod.splits)
next
  case (step_solenoids now r)
  then show ?thesis
    using assms(2,3) solenoid_task_ok(2)
    by (fastforce simp: robot_solenoids_def robot_ok_def split: prod.splits)
next
  case (step_leds l)
  then show ?thesis
    using assms(2) led_task_network[of "io_parse_led io" l "io_led_schema io" "io_led_resp io" "net (rb_comms s)" "rb_leds s"]
    by (auto simp: robot_leds_def split: prod.splits)
qed (use assms(2) in auto)

lemma work_in_steps:
  assumes "robot_step io s e s'" and "task_group e = Some g" and "robot_ok s"
  shows "thread_runs io \<lparr>th_robot = s, th_main = pc, th_task = TaskIdle\<rparr> [StartTask e, Work]
     \<lparr>th_robot = s', th_main = pc, th_task = TaskIdle\<rparr>"
proof -
  let ?n = "snd (getMessage g (net (rb_comms s)))"
  have "robot_step io (with_net (net (rb_comms s)) (with_net ?n s)) e s'" using assms(1) by simp
  from work[OF this, of pc] have
    "thread_step io \<lparr>th_robot = with_net ?n s, th_main = pc, th_task = TaskWork e (net (rb_comms s))\<rparr> Work
       \<lparr>th_robot = s', th_main = pc, th_task = TaskIdle\<rparr>"
    using with_net_simps(1)[of s'] by (simp add: task_takes[OF assms])
  then show ?thesis by (rule threads_cons[OF take_message[OF assms(2)] threads_one])
qed

lemma worked:
  "robot_step io s e s' \<Longrightarrow> task_group e = Some g \<Longrightarrow> robot_ok s \<Longrightarrow>
   \<exists>ls. thread_runs io \<lparr>th_robot = s, th_main = pc, th_task = TaskIdle\<rparr> ls
     \<lparr>th_robot = s', th_main = pc, th_task = TaskIdle\<rparr>"
  by (blast intro: work_in_steps)

lemma heartbeat_in_steps:
  "thread_runs io \<lparr>th_robot = s, th_main = pc, th_task = TaskIdle\<rparr> (StartTask RunHeartbeat # map Beat heartbeat_parts)
     \<lparr>th_robot = ProcessHeartbeatTask_run s, th_main = pc, th_task = TaskIdle\<rparr>"
proof -
  have e: "ProcessHeartbeatTask_run s = fold beat heartbeat_parts s"
    by (simp add: ProcessHeartbeatTask_run_def heartbeat_parts_def)
  have "thread_runs io \<lparr>th_robot = s, th_main = pc, th_task = TaskBeat ps\<rparr> (map Beat ps)
      \<lparr>th_robot = fold beat ps s, th_main = pc, th_task = TaskIdle\<rparr>" if "ps \<noteq> []" for ps
    using that
  proof (induction ps arbitrary: s)
    case (Cons p ps)
    note step = beat_one[OF refl, of io s pc p ps]
    show ?case
    proof (cases "ps = []")
      case True
      with threads_one[OF step] show ?thesis by simp
    next
      case False
      with step have "thread_step io \<lparr>th_robot = s, th_main = pc, th_task = TaskBeat (p # ps)\<rparr> (Beat p)
          \<lparr>th_robot = beat p s, th_main = pc, th_task = TaskBeat ps\<rparr>" by simp
      from threads_cons[OF this Cons.IH[OF False]] show ?thesis by simp
    qed
  qed simp
  note this[of heartbeat_parts]
  then show ?thesis unfolding e using threads_cons[OF start_heartbeat] by (force simp: heartbeat_parts_def)
qed

text \<open>The finer steps refine nothing away: every step of the robot, a callback or a whole task, is a run of
  the two threads in which the other one stands still. So whatever the robot can do when its
  callbacks and tasks follow each other, its threads can do.\<close>

theorem steps_of_threads:
  assumes "robot_step io s e s'" and "robot_ok s"
  shows "\<exists>ls. thread_runs io (at_rest s) ls (at_rest s')"
  using assms(1)
proof cases
  case (step_mode_init m)
  then show ?thesis unfolding at_rest_def using threads_one[OF mode_call_init] by blast
next
  case (step_mode_periodic m js)
  then show ?thesis unfolding at_rest_def using threads_one[OF mode_call_periodic] by blast
next
  case (step_periodic attached position)
  then show ?thesis unfolding at_rest_def using periodic_in_steps by blast
next
  case (step_receive queue)
  obtain ls where "thread_runs io \<lparr>th_robot = s, th_main = MainIdle, th_task = TaskReceive queue\<rparr> ls
      \<lparr>th_robot = s', th_main = MainIdle, th_task = TaskIdle\<rparr>"
    using pump_in_steps[of io s MainIdle queue] step_receive
    by (auto simp: ReceiveMessagesTask_run_def receiveMessagePump_def split_beta)
  then show ?thesis unfolding at_rest_def step_receive(1) using threads_cons[OF start_receive] by blast
next
  case step_heartbeat
  then show ?thesis unfolding at_rest_def using heartbeat_in_steps by blast
next
  case (step_ds_status attached)
  then show ?thesis unfolding at_rest_def using threads_one[OF ds_status] by blast
qed (use worked[OF assms(1) _ assms(2)] in \<open>simp add: at_rest_def\<close>)+

theorem steps_of_threads_witness:
  "\<exists>ls. thread_runs example_io (at_rest example_robot) ls (at_rest (ProcessHeartbeatTask_run example_robot))"
  using steps_of_threads[OF step_heartbeat robot_ok_new] by blast

section \<open>What every reachable state keeps\<close>

abbreviation pending_places :: "threads \<Rightarrow> (string \<times> bytes) list" where
  "pending_places th \<equiv> (case th_main th of MainPublish ps position \<Rightarrow> ps | _ \<Rightarrow> [])"

definition threads_ok :: "threads \<Rightarrow> bool" where
  "threads_ok th \<longleftrightarrow> robot_ok (th_robot th)
     \<and> (case th_main th of MainPublish ps position \<Rightarrow> failoverActive (th_robot th) \<and> length ps \<le> 4 | _ \<Rightarrow> True)
     \<and> (case th_task th of TaskWork e hand \<Rightarrow> network_ok hand \<and> task_group e \<noteq> None | _ \<Rightarrow> True)"

lemma robot_ok_with_net: "robot_ok s \<Longrightarrow> network_ok n \<Longrightarrow> robot_ok (with_net n s)"
  by (simp add: robot_ok_def)

lemma robot_ok_network: "robot_ok s \<Longrightarrow> network_ok (net (rb_comms s))"
  by (simp add: robot_ok_def)

lemma periodic_release_call:
  assumes "isExternalControl s"
  shows "periodic_release s = RobotPeriodic io (mDSAttached (rb_mode s)) position s"
proof -
  have "s\<lparr>rb_mode := setDSAttached (mDSAttached (rb_mode s)) (rb_mode s)\<rparr> = s" by (simp add: setDSAttached_def)
  with assms show ?thesis by (simp add: RobotPeriodic_pieces)
qed

lemma robot_ok_entry:
  assumes "robot_ok s" shows "robot_ok (periodic_entry position s)" "failoverActive (periodic_entry position s)"
  using assms failover_init_ok
  by (auto simp: robot_ok_def periodic_entry_def ReportError_def Let_def)

lemma robot_ok_place: "robot_ok s \<Longrightarrow> robot_ok (place p s)"
  by (simp add: robot_ok_def place_def)

lemma robot_ok_finish:
  assumes "robot_ok s" and "failoverActive s"
  shows "robot_ok (periodic_finish position s)" "failoverActive (periodic_finish position s)"
proof -
  let ?sr = "io_serializers example_io" and ?rf = "robotFailover s"
  obtain rf' n' where r: "RobotFailoverPeriodic ?sr position (rb_motors s) (?rf, net (rb_comms s)) = (rf', n')" by fastforce
  then have rf': "robotFailover (periodic_finish position s) = rf'"
    by (auto simp: periodic_finish_def RobotFailoverPeriodic_def publish_as_list Let_def)
  have "failover_ok rf'" using failover_periodic_ok[OF _ r] assms(1) by (simp add: robot_ok_def)
  moreover have "sw_mJoystick (rf_swerve rf') = sw_mJoystick (rf_swerve ?rf)"
    using joystick_flags(3)[of ?sr position "rb_motors s" ?rf "net (rb_comms s)"] r by simp
  ultimately show "robot_ok (periodic_finish position s)" "failoverActive (periodic_finish position s)"
    using assms rf' by (simp_all add: robot_ok_def periodic_finish_def Let_def)
qed

lemma robot_ok_beat: "robot_ok s \<Longrightarrow> robot_ok (beat p s)"
  by (cases p) (simp_all add: robot_ok_def motor_ok_beat solenoid_ok_beat external_ok_heartbeat candle_ok_beat)

lemma robot_ok_receive_parts:
  assumes "robot_ok s" shows "robot_ok (receive_store g b s)" "robot_ok (receive_signal s)"
proof -
  show "robot_ok (receive_store g b s)"
    unfolding receive_store_def using robot_ok_network[OF assms]
    by (intro robot_ok_with_net[OF assms]) (simp add: network_ok_def)
  show "robot_ok (receive_signal s)"
    using assms by (simp add: robot_ok_def receive_signal_def external_ok_def externalControlMsgReceived_def)
qed

text \<open>A task at work leaves the failover code and the counter alone.\<close>

lemma work_frame:
  assumes "robot_step io s e s'" and "task_group e \<noteq> None"
  shows "robotFailover s' = robotFailover s" "failoverActive s' = failoverActive s" "ext (rb_comms s') = ext (rb_comms s)"
  using assms by (cases; auto simp: robot_task_frames dest!: robot_task_frames(1-3))+

lemma beat_frame [simp]:
  "robotFailover (beat p s) = robotFailover s" "failoverActive (beat p s) = failoverActive s"
  by (cases p; simp)+

lemma part_frames [simp]:
  "failoverActive (place p s) = failoverActive s" "ext (rb_comms (place p s)) = ext (rb_comms s)"
  "failoverActive (receive_store g b s) = failoverActive s" "ext (rb_comms (receive_store g b s)) = ext (rb_comms s)"
  "failoverActive (receive_signal s) = failoverActive s"
  "failoverActive (UpdateDSConnectionStatusTask_run attached s) = failoverActive s"
  "ext (rb_comms (UpdateDSConnectionStatusTask_run attached s)) = ext (rb_comms s)"
  "failoverActive (periodic_finish position s) = failoverActive s"
  "ext (rb_comms (periodic_finish position s)) = ext (rb_comms s)"
  "ext (rb_comms (periodic_entry position s)) = ext (rb_comms s)"
  "ext (rb_comms (periodic_release s)) = ext (rb_comms s)"
  "\<not> failoverActive (periodic_release s)"
  by (simp_all add: place_def receive_store_def receive_signal_def UpdateDSConnectionStatusTask_run_def
      periodic_finish_def periodic_entry_def periodic_release_def ReportError_def Let_def)

lemma mode_periodic_active [simp]: "failoverActive (mode_periodic io js m s) = failoverActive s"
  by (cases "m = kTeleop") (simp add: mode_periodic_def TeleopPeriodic_def, simp add: mode_periodic_frame)

lemma threads_ok_step:
  assumes "thread_step io th l th'" and "threads_ok th" shows "threads_ok th'"
  using assms
proof cases
  case (start_periodic s t attached position)
  then show ?thesis using assms(2) by (auto simp: threads_ok_def intro: robot_ok_cong split: task_pc.splits)
next
  case (ask_external s position t)
  then show ?thesis
    using assms(2) robot_ok_periodic[of s example_io "mDSAttached (rb_mode s)" position]
      periodic_release_call[OF ask_external(4), of example_io position]
    by (auto simp: threads_ok_def split: task_pc.splits)
next
  case (ask_failover s s' position t)
  then show ?thesis
    using assms(2) robot_ok_entry[of s position] by (auto simp: threads_ok_def publications_def split: task_pc.splits)
next
  case (work hand s e s' pc)
  then have "robot_ok s'" using assms(2) robot_ok_step[OF work(4)] robot_ok_with_net by (auto simp: threads_ok_def)
  moreover have "failoverActive s' = failoverActive s"
    using work_frame(2)[OF work(4)] assms(2) work(1) by (auto simp: threads_ok_def)
  ultimately show ?thesis
    using work assms(2) robot_ok_network[of s] robot_ok_with_net by (auto simp: threads_ok_def split: main_pc.splits)
next
  case (take_message e g s pc)
  then show ?thesis
    using assms(2) robot_ok_network[of s] robot_ok_with_net by (auto simp: threads_ok_def split: main_pc.splits)
next
  case (mode_call_init s t m)
  then show ?thesis using assms(2) robot_ok_step[OF step_mode_init[of example_io s m]] by (auto simp: threads_ok_def)
next
  case (mode_call_periodic s t m js)
  then show ?thesis using assms(2) robot_ok_step[OF step_mode_periodic[of io s m js]] by (auto simp: threads_ok_def)
next
  case (ds_status s pc attached)
  then show ?thesis
    using assms(2) robot_ok_step[OF step_ds_status[of io s attached]] by (auto simp: threads_ok_def split: main_pc.splits)
qed (use assms(2) in \<open>auto simp: threads_ok_def robot_ok_place robot_ok_finish robot_ok_receive_parts robot_ok_beat
      split: main_pc.splits task_pc.splits\<close>)

lemma threads_ok_runs: "thread_runs io th ls th' \<Longrightarrow> threads_ok th \<Longrightarrow> threads_ok th'"
  by (induction rule: thread_runs.induct) (auto intro: threads_ok_step)

lemma threads_ok_rest: "threads_ok (at_rest s) \<longleftrightarrow> robot_ok s"
  by (simp add: threads_ok_def at_rest_def)

text \<open>C10. However the threads interleave within callbacks and tasks, and wherever each of them is, the
  registries of motors, solenoids and CANdles stay consistent, the mailbox stays a map, the counter
  stays between 0 and 50 and the failover code keeps its invariant: its joystick exists exactly
  while it is active, its drive commands are zero while it is not, and while messages are left to
  publish, at most four, it is active.\<close>

theorem thread_state_invariant:
  assumes "thread_runs io (at_rest (Robot_new pn task timer)) ls th"
  defines "s \<equiv> th_robot th"
  shows "motor_ok (rb_motors s) \<and> solenoid_ok (rb_solenoids s) \<and> candle_ok (fst (rb_leds s))
    \<and> network_ok (net (rb_comms s)) \<and> external_ok (ext (rb_comms s)) \<and> failover_ok (robotFailover s)
    \<and> (sw_mJoystick (rf_swerve (robotFailover s)) \<longleftrightarrow> failoverActive s)
    \<and> (\<not> failoverActive s \<longrightarrow> drive_stopped (rf_msgs (robotFailover s)))
    \<and> (pending_places th \<noteq> [] \<longrightarrow> failoverActive s \<and> length (pending_places th) \<le> 4)"
proof -
  have "threads_ok th" using threads_ok_runs[OF assms(1)] by (simp add: threads_ok_rest robot_ok_new)
  then show ?thesis by (auto simp: threads_ok_def robot_ok_def s_def split: main_pc.splits)
qed

lemma threads_of_runs:
  assumes "robot_runs io s es s'" and "robot_ok s"
  shows "\<exists>ls. thread_runs io (at_rest s) ls (at_rest s')"
  using assms
proof (induction rule: robot_runs.induct)
  case (runs_cons s e s' es s'')
  then show ?case
    using steps_of_threads[OF runs_cons.hyps(1)] robot_ok_step[OF runs_cons.hyps(1)] threads_append by blast
qed (blast intro: threads_nil)

section \<open>The hand-over between the threads\<close>

definition counter_beats :: "thread_label list \<Rightarrow> nat" where
  "counter_beats ls = count_list ls (Beat BeatExternal)"

lemma thread_link_step:
  assumes "thread_step io th l th'" and "threads_ok th"
  shows "link (th_robot th') = (if l = Signal then 50
    else if l = Beat BeatExternal \<and> link (th_robot th) > 0 then link (th_robot th) - 1 else link (th_robot th))"
  using assms(1)
proof cases
  case (work hand s e s' pc)
  then show ?thesis using work_frame(3)[OF work(4)] assms(2) by (simp add: threads_ok_def)
next
  case (beat_one t' ps s pc p)
  then show ?thesis by (cases p) (simp_all add: external_processHeartbeat_def)
qed (simp_all add: receive_signal_def externalControlMsgReceived_def link_mode_periodic)

lemma thread_link:
  assumes "thread_runs io th ls th'" and "threads_ok th"
  shows "link (th_robot th) - int (counter_beats ls) \<le> link (th_robot th')"
    and "Signal \<notin> set ls \<Longrightarrow> link (th_robot th') = max 0 (link (th_robot th) - int (counter_beats ls))"
  using assms
proof (induction rule: thread_runs.induct)
  case (threads_nil th)
  { case 1 then show ?case by (simp add: counter_beats_def) }
  { case 2 then show ?case by (simp add: counter_beats_def threads_ok_def robot_ok_def external_ok_def) }
next
  case (threads_cons th l th' ls th'')
  note ok = threads_ok_step[OF threads_cons.hyps(1)]
  have range: "0 \<le> link (th_robot th) \<and> link (th_robot th) \<le> 50" if "threads_ok th"
    using that by (simp add: threads_ok_def robot_ok_def external_ok_def)
  { case 1
    then show ?case
      using threads_cons.IH(1) ok thread_link_step[OF threads_cons.hyps(1)] range
      by (auto simp: counter_beats_def split: if_splits) }
  { case 2
    then show ?case
      using threads_cons.IH(2) ok thread_link_step[OF threads_cons.hyps(1)] range
      by (auto simp: counter_beats_def split: if_splits) }
qed

text \<open>C5. The take-over does not need the callbacks to be whole. After fifty beats of the counter without a
  received message being told to it, the next time the main loop asks for the external controller,
  wherever the scheduler then is, the failover code becomes active and its messages, starting with
  the motor commands, are the ones the main loop goes on to publish.\<close>

theorem threads_take_over:
  assumes "thread_runs io (at_rest (Robot_new pn task timer)) before th"
    and "thread_runs io th ls th'" and "Signal \<notin> set ls" and "50 \<le> counter_beats ls"
    and "thread_step io th' AskExternal th''"
  shows "failoverActive (th_robot th'')
    \<and> pending_places th'' = publications (io_serializers io) (rf_msgs (robotFailover (th_robot th'')))"
proof -
  have ok: "threads_ok th" using threads_ok_runs[OF assms(1)] by (simp add: threads_ok_rest robot_ok_new)
  then have "link (th_robot th) \<le> 50" by (simp add: threads_ok_def robot_ok_def external_ok_def)
  then have "link (th_robot th') = 0" using thread_link(2)[OF assms(2) ok assms(3)] assms(4) by simp
  then have n: "\<not> isExternalControl (th_robot th')" by (simp add: isExternalControl_link)
  have "robot_ok (th_robot th')" using threads_ok_runs[OF assms(2) ok] by (simp add: threads_ok_def)
  with assms(5) n show ?thesis by cases (use robot_ok_entry(2) in auto)
qed

lemma released_step:
  assumes "thread_step io th l th'" and "threads_ok th" and "0 < link (th_robot th)"
  shows "count_list [l] Place + length (pending_places th') \<le> length (pending_places th)"
    and "l = AskExternal \<or> \<not> failoverActive (th_robot th) \<Longrightarrow> \<not> failoverActive (th_robot th')"
proof -
  show "count_list [l] Place + length (pending_places th') \<le> length (pending_places th)"
    using assms(1,3) by cases (simp_all add: isExternalControl_link)
  show "\<not> failoverActive (th_robot th')" if "l = AskExternal \<or> \<not> failoverActive (th_robot th)"
    using assms(1)
  proof cases
    case (work hand s e s' pc)
    then show ?thesis using that work_frame(2)[OF work(4)] assms(2) by (simp add: threads_ok_def)
  qed (use that assms(3) in \<open>auto simp: isExternalControl_link\<close>)
qed

text \<open>C4. The release, for every interleaving. Once the counter is loaded, and while it has not run out, the
  failover code places no more than the messages it was about to place, at most four; and from the
  first time the main loop asks for the external controller the failover code is inactive, has
  nothing left to publish, and commands its drive motors to stand still.\<close>

theorem threads_release:
  assumes "thread_runs io (at_rest (Robot_new pn task timer)) before th"
    and "thread_runs io th ls th'" and "int (counter_beats ls) < link (th_robot th)"
  shows "count_list ls Place + length (pending_places th') \<le> length (pending_places th)
    \<and> length (pending_places th) \<le> 4
    \<and> (AskExternal \<in> set ls \<longrightarrow> \<not> failoverActive (th_robot th') \<and> pending_places th' = []
         \<and> drive_stopped (rf_msgs (robotFailover (th_robot th'))))"
proof -
  have ok: "threads_ok th" using threads_ok_runs[OF assms(1)] by (simp add: threads_ok_rest robot_ok_new)
  have "count_list ls Place + length (pending_places th') \<le> length (pending_places th)
      \<and> (AskExternal \<in> set ls \<or> \<not> failoverActive (th_robot th) \<longrightarrow> \<not> failoverActive (th_robot th'))"
    using assms(2,3) ok
  proof (induction rule: thread_runs.induct)
    case (threads_cons th l th' ls th'')
    have "0 < link (th_robot th)" using threads_cons.prems(1) by simp
    note step = released_step[OF threads_cons.hyps(1) threads_cons.prems(2) this]
    have "0 \<le> link (th_robot th) \<and> link (th_robot th) \<le> 50"
      using threads_cons.prems(2) by (simp add: threads_ok_def robot_ok_def external_ok_def)
    then have "int (counter_beats ls) < link (th_robot th')"
      using threads_cons.prems(1) thread_link_step[OF threads_cons.hyps(1) threads_cons.prems(2)]
      by (auto simp: counter_beats_def split: if_splits)
    note IH = threads_cons.IH[OF this threads_ok_step[OF threads_cons.hyps(1) threads_cons.prems(2)]]
    show ?case using step IH by auto
  qed simp
  moreover have "length (pending_places th) \<le> 4" using ok by (auto simp: threads_ok_def split: main_pc.splits)
  moreover have "pending_places th' = [] \<and> drive_stopped (rf_msgs (robotFailover (th_robot th')))"
    if "\<not> failoverActive (th_robot th')"
    using threads_ok_runs[OF assms(2) ok] that by (auto simp: threads_ok_def robot_ok_def split: main_pc.splits)
  ultimately show ?thesis by blast
qed

text \<open>A message that arrives while the main loop is about to publish.\<close>

definition attach :: "robot \<Rightarrow> robot" where
  "attach s = s\<lparr>rb_mode := setDSAttached True (rb_mode s)\<rparr>"

definition overtaken :: "bytes \<Rightarrow> robot \<Rightarrow> robot" where
  "overtaken b s = receive_signal (receive_store ''motorcontrol'' b (periodic_entry (\<lambda>i. 0) (attach s)))"

lemma overtaking_run:
  assumes "\<not> isExternalControl s" and "length b \<noteq> 11"
  shows "thread_runs io (at_rest s)
      [StartPeriodic True (\<lambda>i. 0), AskExternal, StartTask (RunReceive [DishMessage ''motorcontrol'' b]), Receive, Signal]
      \<lparr>th_robot = overtaken b s,
       th_main = MainPublish (publications (io_serializers io) (rf_msgs (robotFailover (overtaken b s)))) (\<lambda>i. 0),
       th_task = TaskReceive []\<rparr>"
proof -
  have n: "\<not> isExternalControl (attach s)" using assms(1) by (simp add: isExternalControl_link attach_def)
  have b: "length b \<noteq> EAGAIN" using assms(2) by (simp add: EAGAIN_def)
  let ?e = "periodic_entry (\<lambda>i. 0) (attach s)"
  have e: "robotFailover (overtaken b s) = robotFailover ?e"
    by (simp add: overtaken_def receive_signal_def receive_store_def)
  have "thread_step io \<lparr>th_robot = s, th_main = MainIdle, th_task = TaskIdle\<rparr> (StartPeriodic True (\<lambda>i. 0))
      \<lparr>th_robot = attach s, th_main = MainCheck (\<lambda>i. 0), th_task = TaskIdle\<rparr>"
    unfolding attach_def by (rule start_periodic)
  note started = threads_cons[OF this threads_cons[OF ask_failover[OF n refl]]]
  have "thread_runs io \<lparr>th_robot = ?e, th_main = pc, th_task = TaskIdle\<rparr>
      [StartTask (RunReceive [DishMessage ''motorcontrol'' b]), Receive, Signal]
      \<lparr>th_robot = overtaken b s, th_main = pc, th_task = TaskReceive []\<rparr>" for pc
    unfolding overtaken_def
    by (rule threads_cons[OF start_receive threads_cons[OF receive_message[OF b] threads_one[OF signal]]])
  then show ?thesis unfolding at_rest_def e by (rule started)
qed

lemma overtaken_ok:
  assumes "robot_ok s" shows "robot_ok (overtaken b s)" "link (overtaken b s) = 50"
proof -
  have "robot_ok (attach s)" by (rule robot_ok_cong[OF assms]) (simp_all add: attach_def)
  then show "robot_ok (overtaken b s)" unfolding overtaken_def using robot_ok_entry robot_ok_receive_parts by blast
  show "link (overtaken b s) = 50" by (simp add: overtaken_def receive_signal_def externalControlMsgReceived_def)
qed

text \<open>C19. The first command after a silence can be lost. \<open>RobotPeriodic\<close> asks for the external controller once
  and publishes afterwards: when the coprocessor's first motor command arrives in between, it is
  stored and told to the counter, and then the commands of the failover code replace it in the
  mailbox although the external controller is connected. Whenever the failover code is in control at the
  start of a periodic call, such a run exists for every first command but one of eleven bytes, which is
  not received, when the fourteen motor commands of the failover code fit into its 16 KiB buffer.\<close>

theorem first_command_overwritten:
  assumes "thread_runs io (at_rest (Robot_new pn task timer)) before (at_rest s)" and "\<not> isExternalControl s"
    and "length b \<noteq> 11" and "failover_fits (io_serializers io)"
  shows "\<exists>ls th. thread_runs io (at_rest s) ls th
    \<and> StartTask (RunReceive [DishMessage ''motorcontrol'' b]) \<in> set ls \<and> last ls = Place
    \<and> th_task th = TaskReceive [] \<and> isExternalControl (th_robot th)
    \<and> waiting (net (rb_comms (th_robot th))) ''motorcontrol'' =
        Some (sr_motorControl (io_serializers io) (fm_motorControl (rf_msgs (robotFailover (th_robot th)))))"
proof -
  let ?p = "(''motorcontrol'', sr_motorControl (io_serializers io) (fm_motorControl (rf_msgs (robotFailover (overtaken b s)))))"
  obtain ps where ps: "publications (io_serializers io) (rf_msgs (robotFailover (overtaken b s))) = ?p # ps"
    by (simp add: publications_def)
  have "robot_ok s" using threads_ok_runs[OF assms(1)] by (simp add: threads_ok_rest robot_ok_new)
  note ok = overtaken_ok[OF this, of b]
  have "layout_ok (rf_msgs (robotFailover (overtaken b s)))" using ok(1) by (simp add: robot_ok_def failover_ok_def)
  note room = failover_fits_layout[OF assms(4) this]
  note run = threads_append[OF overtaking_run[OF assms(2,3), of io, unfolded ps] threads_one[OF place_one]]
  show ?thesis
    by (rule exI, rule exI, rule conjI, rule run)
      (use robot_ok_network[OF ok(1)] ok(2) room in \<open>simp add: place_def waiting_publish_bytes isExternalControl_link\<close>)
qed

section \<open>Concrete runs\<close>

theorem first_command_overwritten_witness:
  "\<exists>ls th. thread_runs example_io (at_rest example_robot) ls th \<and> isExternalControl (th_robot th)
    \<and> waiting (net (rb_comms (th_robot th))) ''motorcontrol'' \<noteq> Some [9, 9]"
proof -
  have "\<not> isExternalControl example_robot"
    by (simp add: isExternalControl_link Robot_new_def ExternalControlManager_init_def)
  then obtain ls th where run: "thread_runs example_io (at_rest example_robot) ls th" "isExternalControl (th_robot th)"
    "waiting (net (rb_comms (th_robot th))) ''motorcontrol'' =
       Some (sr_motorControl (io_serializers example_io) (fm_motorControl (rf_msgs (robotFailover (th_robot th)))))"
    using first_command_overwritten[OF threads_nil _ _ example_fits, of example_names example_task "RTTimer_new 0" "[9, 9]"]
    by auto
  have "robot_ok (th_robot th)"
    using threads_ok_runs[OF run(1)] unfolding threads_ok_rest by (simp add: robot_ok_new threads_ok_def)
  then have "layout_ok (rf_msgs (robotFailover (th_robot th)))" by (simp add: robot_ok_def failover_ok_def)
  then obtain ds ss where l: "length ds = 4" "length ss = 4"
    "fm_motorControl (rf_msgs (robotFailover (th_robot th))) = failover_controls ds ss" by (rule layout_controls)
  then have "length (sr_motorControl (io_serializers example_io) (fm_motorControl (rf_msgs (robotFailover (th_robot th))))) = 14"
    unfolding l(3) by (simp add: example_io_def)
  then have "sr_motorControl (io_serializers example_io) (fm_motorControl (rf_msgs (robotFailover (th_robot th)))) \<noteq> [9, 9]"
    by auto
  then show ?thesis using run by fastforce
qed

theorem thread_state_invariant_witness:
  "\<exists>th. thread_runs example_io (at_rest example_robot) [StartPeriodic True (\<lambda>i. 0), AskExternal] th
     \<and> pending_places th \<noteq> [] \<and> failoverActive (th_robot th)"
proof -
  let ?s = "example_robot\<lparr>rb_mode := setDSAttached True (rb_mode example_robot)\<rparr>"
  have "\<not> isExternalControl ?s"
    by (simp add: isExternalControl_link Robot_new_def ExternalControlManager_init_def)
  note ask = ask_failover[OF this refl, of example_io "\<lambda>i. 0" TaskIdle]
  have run: "thread_runs example_io (at_rest example_robot) [StartPeriodic True (\<lambda>i. 0), AskExternal]
      \<lparr>th_robot = periodic_entry (\<lambda>i. 0) ?s,
       th_main = MainPublish (publications (io_serializers example_io) (rf_msgs (robotFailover (periodic_entry (\<lambda>i. 0) ?s)))) (\<lambda>i. 0),
       th_task = TaskIdle\<rparr>"
    unfolding at_rest_def by (rule threads_cons[OF start_periodic threads_one[OF ask]])
  from thread_state_invariant[OF this] this show ?thesis by (force simp: publications_def)
qed

text \<open>Fifty heartbeats of the task, step by step.\<close>

lemma heartbeats_in_steps:
  "thread_runs io (at_rest s) (concat (replicate n (StartTask RunHeartbeat # map Beat heartbeat_parts)))
     (at_rest ((ProcessHeartbeatTask_run ^^ n) s))"
proof (induction n arbitrary: s)
  case (Suc n)
  then show ?case
    using threads_append[OF heartbeat_in_steps Suc.IH[of "ProcessHeartbeatTask_run s", unfolded at_rest_def]]
    by (simp add: at_rest_def funpow_swap1)
qed (simp add: threads_nil)

lemma beats_of_heartbeats:
  "counter_beats (concat (replicate n (StartTask RunHeartbeat # map Beat heartbeat_parts)) @ [StartPeriodic attached position]) = n"
  by (induction n) (simp_all add: counter_beats_def heartbeat_parts_def)

theorem threads_take_over_witness:
  "\<exists>ls th. thread_runs example_io (at_rest example_robot) ls th \<and> counter_beats ls = 50
     \<and> failoverActive (th_robot th) \<and> pending_places th \<noteq> []"
proof -
  let ?beats = "concat (replicate 50 (StartTask RunHeartbeat # map Beat heartbeat_parts))"
  let ?s = "(ProcessHeartbeatTask_run ^^ 50) example_robot" and ?pos = "\<lambda>i. 0 :: real"
  let ?s1 = "?s\<lparr>rb_mode := setDSAttached True (rb_mode ?s)\<rparr>"
  note start = start_periodic[of example_io ?s TaskIdle True ?pos]
  have run: "thread_runs example_io (at_rest example_robot) (?beats @ [StartPeriodic True ?pos])
      \<lparr>th_robot = ?s1, th_main = MainCheck ?pos, th_task = TaskIdle\<rparr>"
    by (rule threads_append[OF heartbeats_in_steps]) (use threads_one[OF start] in \<open>simp add: at_rest_def\<close>)
  have c: "counter_beats (?beats @ [StartPeriodic True ?pos]) = 50" by (simp only: beats_of_heartbeats)
  have q: "Signal \<notin> set (?beats @ [StartPeriodic True ?pos])" by (auto simp: heartbeat_parts_def)
  have "link ?s1 = 0"
    using thread_link(2)[OF run _ q] c threads_ok_rest[of example_robot] robot_ok_new
    by (simp add: at_rest_def Robot_new_def ExternalControlManager_init_def)
  then have n: "\<not> isExternalControl ?s1" by (simp add: isExternalControl_link)
  note ask = ask_failover[OF n refl, of example_io ?pos TaskIdle]
  have "failoverActive (periodic_entry ?pos ?s1)"
    using threads_take_over[OF threads_nil run q _ ask] c by simp
  moreover have "counter_beats ((?beats @ [StartPeriodic True ?pos]) @ [AskExternal]) = 50"
    using c by (simp add: counter_beats_def)
  moreover note threads_append[OF run threads_one[OF ask]]
  ultimately show ?thesis by (intro exI conjI) (assumption, auto simp: publications_def)
qed

theorem threads_release_witness:
  "\<exists>th n th'. thread_runs example_io (at_rest example_robot)
       [StartPeriodic True (\<lambda>i. 0), AskExternal, StartTask (RunReceive [DishMessage ''motorcontrol'' [9, 9]]), Receive, Signal] th
     \<and> pending_places th \<noteq> []
     \<and> thread_runs example_io th (replicate n Place @ [EndPeriodic, StartPeriodic True (\<lambda>i. 0), AskExternal]) th' \<and> n \<le> 4
     \<and> \<not> failoverActive (th_robot th') \<and> drive_stopped (rf_msgs (robotFailover (th_robot th')))"
proof -
  let ?s = "overtaken [9, 9] example_robot" and ?pos = "\<lambda>i. 0 :: real"
  let ?ps = "publications (io_serializers example_io) (rf_msgs (robotFailover ?s))"
  let ?th = "\<lparr>th_robot = ?s, th_main = MainPublish ?ps ?pos, th_task = TaskReceive []\<rparr>"
  let ?s1 = "periodic_finish ?pos (fold place ?ps ?s)"
  let ?ls = "replicate (length ?ps) Place @ [EndPeriodic, StartPeriodic True ?pos, AskExternal]"
  have "\<not> isExternalControl example_robot"
    by (simp add: isExternalControl_link Robot_new_def ExternalControlManager_init_def)
  note run = overtaking_run[OF this, of "[9, 9]" example_io, simplified]
  have l: "link ?s = 50" using overtaken_ok(2)[OF robot_ok_new] by blast
  have "link (?s1\<lparr>rb_mode := setDSAttached True (rb_mode ?s1)\<rparr>) = 50" using l by (simp add: place_net)
  then have e: "isExternalControl (?s1\<lparr>rb_mode := setDSAttached True (rb_mode ?s1)\<rparr>)" by (simp add: isExternalControl_link)
  define th' where "th' = \<lparr>th_robot = periodic_release (?s1\<lparr>rb_mode := setDSAttached True (rb_mode ?s1)\<rparr>),
    th_main = MainIdle, th_task = TaskReceive []\<rparr>"
  have run': "thread_runs example_io ?th ?ls th'"
    unfolding th'_def
    by (rule threads_append[OF place_all threads_cons[OF end_periodic threads_cons[OF start_periodic
            threads_one[OF ask_external[OF e]]]]])
  have "Beat BeatExternal \<notin> set ?ls" by simp
  then have "counter_beats ?ls = 0" unfolding counter_beats_def by (rule count_notin)
  then have "int (counter_beats ?ls) < link (th_robot ?th)" by (simp only: l threads.simps)
  from threads_release[OF run run' this]
  have "length ?ps \<le> 4 \<and> \<not> failoverActive (th_robot th') \<and> drive_stopped (rf_msgs (robotFailover (th_robot th')))"
    by simp
  moreover have "?ps \<noteq> []" by (simp add: publications_def)
  ultimately show ?thesis using run run' by fastforce
qed

end
