(* ===== verification/Motor_Threads.thy ===== *)
theory Motor_Threads
  imports Robot_Threads Motor_Handover
begin

text \<open>
  The motors across the hand-over when callbacks and tasks interleave step by step: the claim of
  \<open>Motor_Handover\<close> for the threads of \<open>Robot_Threads\<close>. The main loop may publish while the motor task
  holds an older message, the heartbeat task may count a motor down between the two, and a message
  may arrive whose second half never comes.
\<close>

section \<open>The motors in a step of a thread\<close>

definition motor_beats :: "thread_label list \<Rightarrow> nat" where
  "motor_beats ls = count_list ls (Beat BeatMotors)"

lemma motor_beats_simps [simp]:
  "motor_beats [] = 0" "motor_beats (l # ls) = (if l = Beat BeatMotors then 1 else 0) + motor_beats ls"
  "motor_beats (ls @ ls') = motor_beats ls + motor_beats ls'"
  by (simp_all add: motor_beats_def)

lemma part_motors [simp]:
  "rb_motors (place p s) = rb_motors s" "rb_motors (receive_store g b s) = rb_motors s"
  "rb_motors (receive_signal s) = rb_motors s" "rb_motors (periodic_finish position s) = rb_motors s"
  "rb_motors (periodic_entry position s) = rb_motors s" "rb_motors (periodic_release s) = rb_motors s"
  "rb_motors (UpdateDSConnectionStatusTask_run attached s) = rb_motors s"
  by (simp_all add: place_def receive_store_def receive_signal_def UpdateDSConnectionStatusTask_run_def
      periodic_finish_def periodic_entry_def periodic_release_def ReportError_def Let_def)

lemma mode_motors [simp]: "rb_motors (mode_periodic io js m s) = rb_motors s"
  by (cases "m = kTeleop") (simp add: mode_periodic_def TeleopPeriodic_def, simp add: mode_periodic_frame)

lemma beat_net [simp]: "net (rb_comms (beat p s)) = net (rb_comms s)"
  by (cases p) simp_all

lemma motors_thread_step:
  assumes "thread_step io th l th'" and "threads_ok th" and "motor_configured (rb_motors (th_robot th))"
  shows "motor_configured (rb_motors (th_robot th'))"
    and "l \<noteq> Beat BeatMotors \<Longrightarrow> motor_kept (rb_motors (th_robot th)) (rb_motors (th_robot th'))"
    and "l = Beat BeatMotors \<Longrightarrow> rb_motors (th_robot th') = motor_processHeartbeat (rb_motors (th_robot th))"
proof -
  have "motor_configured (rb_motors (th_robot th'))
      \<and> (l \<noteq> Beat BeatMotors \<longrightarrow> motor_kept (rb_motors (th_robot th)) (rb_motors (th_robot th')))
      \<and> (l = Beat BeatMotors \<longrightarrow> rb_motors (th_robot th') = motor_processHeartbeat (rb_motors (th_robot th)))"
    using assms(1)
  proof cases
    case (work hand s e s' pc)
    have ok: "robot_ok (with_net hand s)" and e: "e \<noteq> RunHeartbeat"
      using work(1) assms(2) by (auto simp: threads_ok_def robot_ok_with_net)
    note step = motors_step[OF work(4) ok]
    show ?thesis using work step assms(3) e by simp
  next
    case (beat_one t' ps s pc p)
    have ok: "motor_ok (rb_motors s)" using beat_one(1) assms(2) by (simp add: threads_ok_def robot_ok_def)
    show ?thesis using beat_one assms(3) motor_beat_kept(3)[OF ok] by (cases p) auto
  qed (use assms(3) in auto)
  then show "motor_configured (rb_motors (th_robot th'))"
    "l \<noteq> Beat BeatMotors \<Longrightarrow> motor_kept (rb_motors (th_robot th)) (rb_motors (th_robot th'))"
    "l = Beat BeatMotors \<Longrightarrow> rb_motors (th_robot th') = motor_processHeartbeat (rb_motors (th_robot th))"
    by blast+
qed

section \<open>What a silent run keeps\<close>

definition failover_bytes :: "robot_io \<Rightarrow> bytes \<Rightarrow> bool" where
  "failover_bytes io b \<longleftrightarrow> (\<exists>ds ss. length ds = 4 \<and> length ss = 4
     \<and> b = sr_motorControl (io_serializers io) (failover_controls ds ss))"

lemma waits_bytes:
  "failover_message_waits io s \<longleftrightarrow> (\<exists>b. failover_bytes io b \<and> waiting (net (rb_comms s)) ''motorcontrol'' = Some b)"
  by (auto simp: failover_message_waits_def failover_bytes_def)

text \<open>The motor commands left to publish are the failover code's.\<close>

definition places_commands :: "robot_io \<Rightarrow> threads \<Rightarrow> bool" where
  "places_commands io th \<longleftrightarrow> (\<forall>p \<in> set (pending_places th). fst p = ''motorcontrol'' \<longrightarrow> failover_bytes io (snd p))"

lemma failover_publications:
  assumes "robot_ok s"
  shows "p \<in> set (publications (io_serializers io) (rf_msgs (robotFailover s))) \<Longrightarrow> fst p = ''motorcontrol'' \<Longrightarrow> failover_bytes io (snd p)"
    and "\<exists>b ps. publications (io_serializers io) (rf_msgs (robotFailover s)) = (''motorcontrol'', b) # ps \<and> failover_bytes io b"
proof -
  have "layout_ok (rf_msgs (robotFailover s))" using assms by (simp add: robot_ok_def failover_ok_def)
  then obtain ds ss where "length ds = 4" "length ss = 4" "drive_commands s = failover_controls ds ss"
    by (rule layout_controls)
  then have b: "failover_bytes io (sr_motorControl (io_serializers io) (drive_commands s))"
    unfolding failover_bytes_def by metis
  show "p \<in> set (publications (io_serializers io) (rf_msgs (robotFailover s))) \<Longrightarrow> fst p = ''motorcontrol'' \<Longrightarrow> failover_bytes io (snd p)"
    using b by (auto simp: publications_def split: if_splits)
  show "\<exists>b ps. publications (io_serializers io) (rf_msgs (robotFailover s)) = (''motorcontrol'', b) # ps \<and> failover_bytes io b"
    using b by (simp add: publications_def)
qed

lemma places_commands_step:
  assumes "thread_step io th l th'" and "threads_ok th" and "places_commands io th"
  shows "places_commands io th'"
  using assms(1)
proof cases
  case (ask_failover s s' position t)
  have "robot_ok s'" using assms(2) ask_failover robot_ok_entry(1) by (simp add: threads_ok_def)
  then show ?thesis using ask_failover(3) failover_publications(1) by (simp add: places_commands_def)
qed (use assms(3) in \<open>auto simp: places_commands_def\<close>)

definition takes_motors :: "thread_label \<Rightarrow> bool" where
  "takes_motors l = (case l of StartTask (RunMotorValues b now) \<Rightarrow> True | _ \<Rightarrow> False)"

definition message_safe :: "robot_io \<Rightarrow> threads \<Rightarrow> bool" where
  "message_safe io th \<longleftrightarrow> failover_message_waits io (th_robot th) \<or> (\<exists>queue. th_task th = TaskSignal queue)"

lemma message_safe_step:
  assumes "thread_step io th l th'" and "threads_ok th" and "places_commands io th" and "message_safe io th"
    and "l \<noteq> Signal" and "\<not> takes_motors l" and "failover_fits (io_serializers io)"
  shows "message_safe io th'"
  using assms(1)
proof cases
  case (place_one s p ps position t)
  have n: "network_ok (net (rb_comms s))" using assms(2) place_one(1) robot_ok_network by (simp add: threads_ok_def)
  have "fst p = ''motorcontrol'' \<longrightarrow> failover_bytes io (snd p)" using assms(3) place_one(1) by (simp add: places_commands_def)
  then show ?thesis
    using assms(4,7) place_one n
    by (auto simp: message_safe_def waits_bytes place_def waiting_publish_bytes failover_bytes_def failover_fits_def)
next
  case (take_message e g s pc)
  then have "g \<noteq> ''motorcontrol''" using assms(6) by (cases e) (auto simp: takes_motors_def)
  then show ?thesis using take_message assms(4) by (auto simp: message_safe_def waits_bytes)
next
  case (mode_call_periodic s t m js)
  have "net (rb_comms (mode_periodic io js m s)) = net (rb_comms s)"
    by (cases "m = kTeleop") (simp add: mode_periodic_def TeleopPeriodic_def, simp add: mode_periodic_frame)
  then show ?thesis using mode_call_periodic assms(4) by (simp add: message_safe_def failover_message_waits_def)
qed (use assms(4,5) in \<open>auto simp: message_safe_def failover_message_waits_def periodic_release_def periodic_entry_def
      periodic_finish_def UpdateDSConnectionStatusTask_run_def ReportError_def Let_def\<close>)

section \<open>Runs\<close>

lemma thread_runs_split:
  "thread_runs io th (ls @ ls') th'' \<longleftrightarrow> (\<exists>th'. thread_runs io th ls th' \<and> thread_runs io th' ls' th'')"
proof
  show "thread_runs io th (ls @ ls') th'' \<Longrightarrow> \<exists>th'. thread_runs io th ls th' \<and> thread_runs io th' ls' th''"
  proof (induction ls arbitrary: th)
    case (Cons l ls)
    from Cons.prems obtain th1 where "thread_step io th l th1" "thread_runs io th1 (ls @ ls') th''"
      by (auto elim: thread_runs_cons)
    with Cons.IH show ?case by (blast intro: threads_cons)
  qed (auto intro: threads_nil)
qed (auto intro: threads_append)

lemma thread_runs_one: "thread_runs io th [l] th' \<longleftrightarrow> thread_step io th l th'"
  by (auto elim!: thread_runs_cons thread_runs_nil intro: threads_one)

text \<open>A motor with a counter above the number of its beats lives on.\<close>

definition kept_threads :: "robot_io \<Rightarrow> u16 \<Rightarrow> talon \<Rightarrow> int \<Rightarrow> threads \<Rightarrow> bool" where
  "kept_threads io i dev n th \<longleftrightarrow> threads_ok th \<and> places_commands io th \<and> motor_configured (rb_motors (th_robot th))
     \<and> link (th_robot th) = 0 \<and> getMotor i (rb_motors (th_robot th)) = Some dev
     \<and> kMaxHeartbeatTicks - n \<le> motor_ticks i (rb_motors (th_robot th))"

lemma motor_counted_step:
  assumes "thread_step io th l th'" and "threads_ok th" and "motor_configured (rb_motors (th_robot th))"
    and "getMotor i (rb_motors (th_robot th)) = Some dev" and "l = Beat BeatMotors \<longrightarrow> 1 < motor_ticks i (rb_motors (th_robot th))"
  shows "getMotor i (rb_motors (th_robot th')) = Some dev"
    and "motor_ticks i (rb_motors (th_robot th)) - (if l = Beat BeatMotors then 1 else 0) \<le> motor_ticks i (rb_motors (th_robot th'))"
proof -
  have ok: "motor_ok (rb_motors (th_robot th))" using assms(2) by (simp add: threads_ok_def robot_ok_def)
  note step = motors_thread_step[OF assms(1-3)]
  show "getMotor i (rb_motors (th_robot th')) = Some dev"
    using step(2,3) assms(4,5) motor_beat_kept(1)[OF ok, of i dev] by (cases "l = Beat BeatMotors") (auto simp: motor_kept_def)
  show "motor_ticks i (rb_motors (th_robot th)) - (if l = Beat BeatMotors then 1 else 0) \<le> motor_ticks i (rb_motors (th_robot th'))"
    using step(2,3) motor_beat_kept(2)[OF ok, of i] by (auto simp: motor_kept_def)
qed

lemma motor_counted:
  assumes "thread_runs io th ls th'" and "threads_ok th" and "motor_configured (rb_motors (th_robot th))"
    and "getMotor i (rb_motors (th_robot th)) = Some dev" and "int (motor_beats ls) < motor_ticks i (rb_motors (th_robot th))"
  shows "getMotor i (rb_motors (th_robot th')) = Some dev \<and> motor_configured (rb_motors (th_robot th'))
    \<and> motor_ticks i (rb_motors (th_robot th)) - int (motor_beats ls) \<le> motor_ticks i (rb_motors (th_robot th'))"
  using assms
proof (induction rule: thread_runs.induct)
  case (threads_cons th l th' ls th'')
  have b: "l = Beat BeatMotors \<longrightarrow> 1 < motor_ticks i (rb_motors (th_robot th))" using threads_cons.prems(4) by auto
  note step = motor_counted_step[OF threads_cons.hyps(1) threads_cons.prems(1-3) b]
  have "int (motor_beats ls) < motor_ticks i (rb_motors (th_robot th'))"
    using step(2) threads_cons.prems(4) by (auto split: if_splits)
  note IH = threads_cons.IH[OF threads_ok_step[OF threads_cons.hyps(1) threads_cons.prems(1)]
      motors_thread_step(1)[OF threads_cons.hyps(1) threads_cons.prems(1,2)] step(1) this]
  show ?case using IH step(2) by (auto split: if_splits)
qed simp

lemma places_commands_runs:
  "thread_runs io th ls th' \<Longrightarrow> threads_ok th \<Longrightarrow> places_commands io th \<Longrightarrow> places_commands io th'"
  by (induction rule: thread_runs.induct) (auto intro: threads_ok_step places_commands_step)

lemma kept_threads_runs:
  assumes "thread_runs io th ls th'" and "Signal \<notin> set ls" and "kept_threads io i dev n th"
    and "n + int (motor_beats ls) < kMaxHeartbeatTicks"
  shows "kept_threads io i dev (n + int (motor_beats ls)) th'"
proof -
  have k: "threads_ok th" "places_commands io th" "motor_configured (rb_motors (th_robot th))" "link (th_robot th) = 0"
    "getMotor i (rb_motors (th_robot th)) = Some dev" "kMaxHeartbeatTicks - n \<le> motor_ticks i (rb_motors (th_robot th))"
    using assms(3) by (simp_all add: kept_threads_def)
  have "int (motor_beats ls) < motor_ticks i (rb_motors (th_robot th))" using k(6) assms(4) by simp
  from motor_counted[OF assms(1) k(1,3,5) this] show ?thesis
    using thread_link(2)[OF assms(1) k(1) assms(2)] threads_ok_runs[OF assms(1) k(1)] places_commands_runs[OF assms(1) k(1,2)] k(4,6)
    by (simp add: kept_threads_def)
qed

text \<open>Once active in the silence, the failover code stays active.\<close>

lemma active_step:
  assumes "thread_step io th l th'" and "threads_ok th" and "link (th_robot th) = 0" and "failoverActive (th_robot th)"
  shows "failoverActive (th_robot th')"
  using assms(1)
proof cases
  case (work hand s e s' pc)
  then show ?thesis using work_frame(2)[OF work(4)] assms(2,4) by (auto simp: threads_ok_def)
qed (use assms(3,4) in \<open>auto simp: isExternalControl_link periodic_entry_def Let_def ReportError_def\<close>)

lemma active_runs:
  assumes "thread_runs io th ls th'" and "threads_ok th" and "link (th_robot th) = 0" and "Signal \<notin> set ls"
    and "failoverActive (th_robot th)"
  shows "failoverActive (th_robot th')"
  using assms
proof (induction rule: thread_runs.induct)
  case (threads_cons th l th' ls th'')
  have "link (th_robot th') = 0"
    using thread_link_step[OF threads_cons.hyps(1) threads_cons.prems(1)] threads_cons.prems(2,3) by auto
  then show ?case
    using threads_cons.IH threads_ok_step[OF threads_cons.hyps(1) threads_cons.prems(1)]
      active_step[OF threads_cons.hyps(1) threads_cons.prems(1,2,4)] threads_cons.prems(3) by simp
qed simp

lemma message_safe_runs:
  assumes "thread_runs io th ls th'" and "threads_ok th" and "places_commands io th" and "message_safe io th"
    and "Signal \<notin> set ls" and "\<not> list_ex takes_motors ls" and "failover_fits (io_serializers io)"
  shows "message_safe io th'"
  using assms(1-6)
proof (induction rule: thread_runs.induct)
  case (threads_cons th l th' ls th'')
  then show ?case
    using message_safe_step[OF threads_cons.hyps(1)] threads_ok_step places_commands_step assms(7) by auto
qed simp

section \<open>A pass of the main loop and the motor task\<close>

text \<open>While messages are left to publish, the main loop does nothing but publish them.\<close>

lemma pending_step:
  "thread_step io th l th' \<Longrightarrow> th_main th = MainPublish (p # ps) position \<Longrightarrow> l \<noteq> Place \<Longrightarrow> th_main th' = th_main th"
  by (cases rule: thread_step.cases) auto

lemma pending_runs:
  assumes "thread_runs io th ls th'" and "th_main th = MainPublish (p # ps) position" and "Place \<notin> set ls"
  shows "th_main th' = th_main th"
  using assms
proof (induction rule: thread_runs.induct)
  case (threads_cons th l th' ls th'')
  then show ?case using pending_step[OF threads_cons.hyps(1)] by auto
qed simp

text \<open>A message in hand stays in hand until the task works on it.\<close>

lemma work_pending_runs:
  assumes "thread_runs io th ls th'" and "th_task th = TaskWork e hand" and "Work \<notin> set ls"
  shows "th_task th' = TaskWork e hand"
  using assms
proof (induction rule: thread_runs.induct)
  case (threads_cons th l th' ls th'')
  have "th_task th' = TaskWork e hand"
    using threads_cons.hyps(1) threads_cons.prems by cases auto
  then show ?case using threads_cons.IH threads_cons.prems(2) by simp
qed simp

text \<open>The main loop asks for the external controller and publishes its motor commands; the motor task takes
  a message after that and, some steps later, has worked on it. Anything may fall between.\<close>

definition thread_pass :: "thread_label list \<Rightarrow> bool" where
  "thread_pass ls \<longleftrightarrow> (\<exists>before mid1 mid2 mid3 now.
     ls = before @ [AskExternal] @ mid1 @ [Place] @ mid2 @ [StartTask (RunMotorValues True now)] @ mid3 @ [Work]
     \<and> Place \<notin> set mid1 \<and> \<not> list_ex takes_motors mid2 \<and> Work \<notin> set mid3)"

lemma asked_publishes:
  assumes "thread_step io th AskExternal th'" and "threads_ok th" and "link (th_robot th) = 0"
  obtains b ps position where "th_main th' = MainPublish ((''motorcontrol'', b) # ps) position" "failover_bytes io b"
    "failoverActive (th_robot th')"
  using assms(1)
proof cases
  case (ask_failover s s' position t)
  have "robot_ok s'" "failoverActive s'" using assms(2) ask_failover robot_ok_entry by (simp_all add: threads_ok_def)
  moreover obtain b ps where "publications (io_serializers io) (rf_msgs (robotFailover s')) = (''motorcontrol'', b) # ps"
    "failover_bytes io b"
    using failover_publications(2)[OF \<open>robot_ok s'\<close>, of io] by blast
  ultimately show ?thesis using that[of b ps position] ask_failover by simp
qed (use assms(3) in \<open>simp add: isExternalControl_link\<close>)

lemma placed_waits:
  assumes "thread_step io th Place th'" and "th_main th = MainPublish ((''motorcontrol'', b) # ps) position"
    and "failover_bytes io b" and "threads_ok th" and "failover_fits (io_serializers io)"
  shows "failover_message_waits io (th_robot th')"
  using assms(1)
proof cases
  case (place_one s p ps' position' t)
  have "network_ok (net (rb_comms s))" using assms(4) place_one(1) robot_ok_network by (simp add: threads_ok_def)
  moreover have "length b \<le> BUF_SIZE" using assms(3,5) by (auto simp: failover_bytes_def failover_fits_def)
  ultimately show ?thesis
    using place_one assms(2,3) by (auto simp: waits_bytes place_def waiting_publish_bytes)
qed

text \<open>A task that starts does not find itself in the middle of a message.\<close>

lemma taken_waits:
  assumes "thread_step io th (StartTask (RunMotorValues True now)) th'" and "message_safe io th"
  obtains hand where "th_task th' = TaskWork (RunMotorValues True now) hand"
    "\<And>s. failover_message_waits io (with_net hand s)"
  using assms(1)
proof cases
  case (take_message g s pc)
  have "failover_message_waits io s" using assms(2) take_message(1) by (simp add: message_safe_def)
  then have "failover_message_waits io (with_net (net (rb_comms s)) s')" for s' by (simp add: failover_message_waits_def)
  then show ?thesis using that take_message by simp
qed

lemma worked_reloads:
  assumes "thread_step io th Work th'" and "th_task th = TaskWork (RunMotorValues True now) hand"
    and "\<And>s. failover_message_waits io (with_net hand s)" and "threads_ok th" and "reads_back io" and "i \<in> set MASTER_IDS"
    and "sm_count (mMotorMsgs (motorConfigs (rb_motors (th_robot th)))) i"
  shows "motor_ticks i (rb_motors (th_robot th')) = kMaxHeartbeatTicks"
  using assms(1)
proof cases
  case (work hand' s e s' pc)
  have e: "e = RunMotorValues True now" "hand' = hand" using work(1) assms(2) by simp_all
  have ok: "robot_ok (with_net hand s)" using assms(2,4) work(1) robot_ok_with_net by (auto simp: threads_ok_def)
  obtain r where "robot_motor_values io True now (with_net hand s) = (r, s')"
    using work(3) unfolding e by cases auto
  from motor_values_reloads[OF this ok assms(3,5,6)] show ?thesis using work(1,2) assms(7) by simp
qed

lemma thread_pass_reloads:
  assumes "thread_runs io th ls th'" and "thread_pass ls" and "Signal \<notin> set ls" and "kept_threads io i dev n th"
    and "n + int (motor_beats ls) < kMaxHeartbeatTicks" and "i \<in> set MASTER_IDS" and "reads_back io"
    and fits: "failover_fits (io_serializers io)"
  shows "kept_threads io i dev 0 th' \<and> failoverActive (th_robot th')"
proof -
  obtain before mid1 mid2 mid3 now where ls: "ls = before @ [AskExternal] @ mid1 @ [Place] @ mid2
      @ [StartTask (RunMotorValues True now)] @ mid3 @ [Work]"
    and mid: "Place \<notin> set mid1" "\<not> list_ex takes_motors mid2" "Work \<notin> set mid3"
    using assms(2) by (auto simp: thread_pass_def)
  obtain t1 t2 t3 t4 t5 t6 t7 where r: "thread_runs io th before t1" "thread_step io t1 AskExternal t2"
    "thread_runs io t2 mid1 t3" "thread_step io t3 Place t4" "thread_runs io t4 mid2 t5"
    "thread_step io t5 (StartTask (RunMotorValues True now)) t6" "thread_runs io t6 mid3 t7" "thread_step io t7 Work th'"
    using assms(1) unfolding ls thread_runs_split thread_runs_one by blast
  have silent: "Signal \<notin> set before" "Signal \<notin> set mid1" "Signal \<notin> set mid2" "Signal \<notin> set mid3"
    using assms(3) by (auto simp: ls)
  let ?b = "\<lambda>ls. int (motor_beats ls)"
  have beats: "?b ls = ?b before + ?b mid1 + ?b mid2 + ?b mid3" by (simp add: ls)
  have k1: "kept_threads io i dev (n + ?b before) t1"
    by (rule kept_threads_runs[OF r(1) silent(1) assms(4)]) (use assms(5) beats in simp)
  have k2: "kept_threads io i dev (n + ?b before) t2"
    using kept_threads_runs[OF threads_one[OF r(2)] _ k1] assms(5) beats by simp
  have k3: "kept_threads io i dev (n + ?b before + ?b mid1) t3"
    by (rule kept_threads_runs[OF r(3) silent(2) k2]) (use assms(5) beats in simp)
  have k4: "kept_threads io i dev (n + ?b before + ?b mid1) t4"
    using kept_threads_runs[OF threads_one[OF r(4)] _ k3] assms(5) beats by simp
  have k5: "kept_threads io i dev (n + ?b before + ?b mid1 + ?b mid2) t5"
    by (rule kept_threads_runs[OF r(5) silent(3) k4]) (use assms(5) beats in simp)
  have k6: "kept_threads io i dev (n + ?b before + ?b mid1 + ?b mid2) t6"
    using kept_threads_runs[OF threads_one[OF r(6)] _ k5] assms(5) beats by simp
  have k7: "kept_threads io i dev (n + ?b ls) t7"
    using kept_threads_runs[OF r(7) silent(4) k6] assms(5) beats by (simp add: add.assoc)
  have k8: "kept_threads io i dev (n + ?b ls) th'"
    using kept_threads_runs[OF threads_one[OF r(8)] _ k7] assms(5) by simp
  have ok: "threads_ok t1" "link (th_robot t1) = 0" "threads_ok t2" "link (th_robot t2) = 0" "threads_ok t3"
    "threads_ok t4" "places_commands io t4" "threads_ok t7" "motor_configured (rb_motors (th_robot t7))"
    "getMotor i (rb_motors (th_robot t7)) = Some dev"
    using k1 k2 k3 k4 k7 by (simp_all add: kept_threads_def)
  obtain b ps position where p: "th_main t2 = MainPublish ((''motorcontrol'', b) # ps) position" "failover_bytes io b"
    and active: "failoverActive (th_robot t2)"
    by (rule asked_publishes[OF r(2) ok(1,2)])
  have "th_main t3 = MainPublish ((''motorcontrol'', b) # ps) position" using pending_runs[OF r(3) p(1) mid(1)] p(1) by simp
  from placed_waits[OF r(4) this p(2) ok(5) fits] have "message_safe io t4" by (simp add: message_safe_def)
  from message_safe_runs[OF r(5) ok(6,7) this silent(3) mid(2) fits] have "message_safe io t5" .
  from taken_waits[OF r(6) this] obtain hand where hand: "th_task t6 = TaskWork (RunMotorValues True now) hand"
    "\<And>s. failover_message_waits io (with_net hand s)" by blast
  have "sm_count (mMotorMsgs (motorConfigs (rb_motors (th_robot t7)))) i"
    using ok(9,10) by (simp add: motor_configured_def motorExists_getMotor)
  from worked_reloads[OF r(8) work_pending_runs[OF r(7) hand(1) mid(3)] hand(2) ok(8) assms(7,6) this]
  have "motor_ticks i (rb_motors (th_robot th')) = kMaxHeartbeatTicks" .
  moreover have "thread_runs io t2 (mid1 @ [Place] @ mid2 @ [StartTask (RunMotorValues True now)] @ mid3 @ [Work]) th'"
    using r(3-8) unfolding thread_runs_split thread_runs_one by blast
  from active_runs[OF this ok(3,4) _ active] have "failoverActive (th_robot th')" using silent by simp
  ultimately show ?thesis using k8 by (simp add: kept_threads_def)
qed

lemma thread_passes_reload:
  assumes "thread_runs io th (concat passes) th'" and "Signal \<notin> set (concat passes)" and "kept_threads io i dev n th"
    and "0 \<le> n" and "\<And>ls. ls \<in> set passes \<Longrightarrow> thread_pass ls \<and> n + int (motor_beats ls) < kMaxHeartbeatTicks"
    and "i \<in> set MASTER_IDS" and "reads_back io"
    and fits: "failover_fits (io_serializers io)"
  shows "kept_threads io i dev n th' \<and> (passes \<noteq> [] \<longrightarrow> kept_threads io i dev 0 th' \<and> failoverActive (th_robot th'))"
  using assms(1-3,5)
proof (induction passes arbitrary: th)
  case Nil
  then show ?case by (auto elim: thread_runs_nil)
next
  case (Cons ls passes)
  obtain th1 where r: "thread_runs io th ls th1" "thread_runs io th1 (concat passes) th'"
    using Cons.prems(1) by (auto simp: thread_runs_split)
  have p: "thread_pass ls" "n + int (motor_beats ls) < kMaxHeartbeatTicks" using Cons.prems(4)[of ls] by simp_all
  have silent: "Signal \<notin> set ls" "Signal \<notin> set (concat passes)" using Cons.prems(2) by simp_all
  have k: "kept_threads io i dev 0 th1" "failoverActive (th_robot th1)"
    using thread_pass_reloads[OF r(1) p(1) silent(1) Cons.prems(3) p(2) assms(6,7) fits] by blast+
  then have "kept_threads io i dev n th1" using assms(4) by (simp add: kept_threads_def)
  from Cons.IH[OF r(2) silent(2) this] Cons.prems(4)
  have "kept_threads io i dev n th' \<and> (passes \<noteq> [] \<longrightarrow> kept_threads io i dev 0 th' \<and> failoverActive (th_robot th'))" by simp
  then show ?case using k r(2) by (cases "passes = []") (auto elim: thread_runs_nil)
qed

section \<open>The claim\<close>

lemma thread_motors_configured:
  assumes "thread_runs io (at_rest (Robot_new pn task timer)) ls th"
  shows "threads_ok th" "places_commands io th" "motor_configured (rb_motors (th_robot th))"
proof -
  let ?th = "at_rest (Robot_new pn task timer)"
  have new: "threads_ok ?th" "places_commands io ?th" "motor_configured (rb_motors (th_robot ?th))"
    by (simp_all add: threads_ok_rest robot_ok_new)
      (simp_all add: at_rest_def places_commands_def motor_configured_def Robot_new_def MotorManager_new_def motorExists_def)
  have "motor_configured (rb_motors (th_robot th'))"
    if "thread_runs io th ls th'" "threads_ok th" "motor_configured (rb_motors (th_robot th))" for th th'
    using that by (induction rule: thread_runs.induct) (auto intro: threads_ok_step motors_thread_step(1))
  then show "motor_configured (rb_motors (th_robot th))" using assms new(1,3) by blast
  show "threads_ok th" "places_commands io th"
    using threads_ok_runs[OF assms new(1)] places_commands_runs[OF assms new(1,2)] by simp_all
qed

text \<open>C3. No motor is lost in the hand-over, however the two threads interleave within their callbacks and
  tasks. Take a master motor that has just been commanded, at any moment of either thread, and let no
  received message be told to the counter any more. When the counter has been counted down fifty
  times, and from then on the main loop asks and publishes and the motor task takes a message and
  works on it, in this order, over and over and with anything else in between, the beats before the
  first of these passes and within any one pass together less than 250, as those before the first and
  after the last, then the motor is the same device at the end, neither deleted nor constructed anew,
  and after at least one pass the failover code is in control. The fourteen motor commands of the
  failover code are assumed to serialize into at most the 16 KiB of its buffer, and the parser to read
  the ids, controller types and control modes of each such message back.\<close>

theorem threads_keep_motors:
  assumes "thread_runs io (at_rest (Robot_new pn task timer)) before th" and "i \<in> set MASTER_IDS"
    and "getMotor i (rb_motors (th_robot th)) = Some dev" and "motor_ticks i (rb_motors (th_robot th)) = 250"
    and "thread_runs io th (quiet @ concat passes @ rest) th'" and "Signal \<notin> set (quiet @ concat passes @ rest)"
    and "50 \<le> counter_beats quiet" and "motor_beats quiet + motor_beats rest < 250"
    and "\<And>ls. ls \<in> set passes \<Longrightarrow> thread_pass ls \<and> motor_beats quiet + motor_beats ls < 250"
    and "reads_back io" and "failover_fits (io_serializers io)"
  shows "getMotor i (rb_motors (th_robot th')) = Some dev \<and> (passes \<noteq> [] \<longrightarrow> failoverActive (th_robot th'))"
proof -
  let ?n = "int (motor_beats quiet)"
  obtain t1 t2 where r: "thread_runs io th quiet t1" "thread_runs io t1 (concat passes) t2" "thread_runs io t2 rest th'"
    using assms(5) by (auto simp: thread_runs_split)
  have silent: "Signal \<notin> set quiet" "Signal \<notin> set (concat passes)" "Signal \<notin> set rest" using assms(6) by simp_all
  note new = thread_motors_configured[OF assms(1)]
  have "link (th_robot th) \<le> 50" using new(1) by (simp add: threads_ok_def robot_ok_def external_ok_def)
  then have l: "link (th_robot t1) = 0" using thread_link(2)[OF r(1) new(1) silent(1)] assms(7) by simp
  have "int (motor_beats quiet) < motor_ticks i (rb_motors (th_robot th))" using assms(4,8) by simp
  from motor_counted[OF r(1) new(1,3) assms(3) this] l assms(4)
  have k1: "kept_threads io i dev ?n t1"
    using threads_ok_runs[OF r(1) new(1)] places_commands_runs[OF r(1) new(1,2)]
    by (simp add: kept_threads_def kMaxHeartbeatTicks_def)
  have k2: "kept_threads io i dev ?n t2 \<and> (passes \<noteq> [] \<longrightarrow> kept_threads io i dev 0 t2 \<and> failoverActive (th_robot t2))"
    by (rule thread_passes_reload[OF r(2) silent(2) k1 _ _ assms(2,10,11)])
      (use assms(9) in \<open>force simp: kMaxHeartbeatTicks_def\<close>)+
  then have "kept_threads io i dev ?n t2" by blast
  from kept_threads_runs[OF r(3) silent(3) this] assms(8)
  have "getMotor i (rb_motors (th_robot th')) = Some dev" by (simp add: kept_threads_def kMaxHeartbeatTicks_def)
  moreover have "failoverActive (th_robot th')" if "passes \<noteq> []"
    using active_runs[OF r(3) _ _ silent(3)] k2 that by (simp add: kept_threads_def)
  ultimately show ?thesis by blast
qed

text \<open>A pass of the robot driven by the failover code: the callback, then the motor task.\<close>

lemma driven_threads:
  assumes "robot_ok s" and "link s = 0" and "sm_count (mMotorMsgs (motorConfigs (rb_motors s))) i" and "i \<in> set MASTER_IDS"
  shows "\<exists>n. thread_runs resting_io (at_rest s)
     ([StartPeriodic True (\<lambda>i. 0), AskExternal] @ [Place] @ (replicate n Place @ [EndPeriodic])
        @ [StartTask (RunMotorValues True 0), Work]) (at_rest (driven s))"
proof -
  let ?s = "RobotPeriodic resting_io True (\<lambda>i. 0) s"
  have "\<not> isExternalControl (s\<lparr>rb_mode := setDSAttached True (rb_mode s)\<rparr>)" using assms(2) by (simp add: isExternalControl_link)
  then obtain n where p: "thread_runs resting_io (at_rest s)
      (StartPeriodic True (\<lambda>i. 0) # AskExternal # Place # replicate n Place @ [EndPeriodic]) (at_rest ?s)"
    using failover_in_steps unfolding at_rest_def by blast
  have "robot_step resting_io ?s (RunMotorValues True 0) (driven s)"
    using driven_runs(1)[OF assms] by (auto elim!: robot_runs_cons robot_runs_nil elim: robot_step.cases)
  from threads_append[OF p work_in_steps[OF this _ robot_ok_periodic[OF assms(1)], of _ MainIdle, folded at_rest_def]]
  show ?thesis by auto
qed

lemma motor_beats_of_heartbeats:
  "motor_beats (concat (replicate n (StartTask RunHeartbeat # map Beat heartbeat_parts))) = n"
  by (induction n) (simp_all add: heartbeat_parts_def)

lemma driven_is_pass:
  "thread_pass ([StartPeriodic True position, AskExternal] @ [Place] @ (replicate n Place @ [EndPeriodic])
     @ [StartTask (RunMotorValues True 0), Work])"
  unfolding thread_pass_def
  by (rule exI[of _ "[StartPeriodic True position]"], rule exI[of _ "[]"],
      rule exI[of _ "replicate n Place @ [EndPeriodic]"], rule exI[of _ "[]"], rule exI[of _ 0])
    (simp add: list_ex_iff takes_motors_def)

theorem threads_keep_motors_witness:
  "let s = driven (configured resting_io example_robot); s1 = driven ((ProcessHeartbeatTask_run ^^ 50) s)
   in (\<exists>dev. getMotor 3 (rb_motors s) = Some dev \<and> getMotor 3 (rb_motors ((ProcessHeartbeatTask_run ^^ 199) s1)) = Some dev)
      \<and> failoverActive ((ProcessHeartbeatTask_run ^^ 199) s1)"
proof -
  let ?s = "driven (configured resting_io example_robot)"
  let ?s1 = "(ProcessHeartbeatTask_run ^^ 50) ?s" and ?s2 = "(ProcessHeartbeatTask_run ^^ 199) (driven ((ProcessHeartbeatTask_run ^^ 50) ?s))"
  let ?beats = "\<lambda>n. concat (replicate n (StartTask RunHeartbeat # map Beat heartbeat_parts))"
  obtain es where es: "robot_runs resting_io example_robot es ?s" using resting_robot(1) by blast
  obtain ls where run: "thread_runs resting_io (at_rest example_robot) ls (at_rest ?s)"
    using threads_of_runs[OF es robot_ok_new] by blast
  obtain dev where dev: "getMotor 3 (rb_motors ?s) = Some dev"
    using resting_robot(2) by (auto simp: motorExists_getMotor)
  have robot [simp]: "th_robot (at_rest s) = s" for s by (simp add: at_rest_def)
  note new = thread_motors_configured[OF run]
  note quiet = heartbeats_in_steps[of resting_io ?s 50]
  have silent: "Signal \<notin> set (?beats n)" for n by (auto simp: heartbeat_parts_def)
  have cb: "counter_beats (?beats n) = n" for n
    by (induction n) (simp_all add: counter_beats_def heartbeat_parts_def)
  have at: "getMotor 3 (rb_motors (th_robot (at_rest ?s))) = Some dev" "motor_ticks 3 (rb_motors (th_robot (at_rest ?s))) = 250"
    unfolding robot by (fact dev, fact resting_robot(3))
  have "int (motor_beats (?beats 50)) < motor_ticks 3 (rb_motors (th_robot (at_rest ?s)))"
    by (simp only: motor_beats_of_heartbeats at(2))
  from motor_counted[OF quiet new(1,3) at(1) this]
  have m: "getMotor 3 (rb_motors ?s1) = Some dev" "motor_configured (rb_motors ?s1)" by simp_all
  have l: "link ?s1 = 0"
    using thread_link(2)[OF quiet new(1) silent] new(1) unfolding cb
    by (simp add: threads_ok_rest robot_ok_def external_ok_def)
  have "robot_ok ?s1" using threads_ok_runs[OF quiet new(1)] by (simp add: threads_ok_rest)
  moreover have "sm_count (mMotorMsgs (motorConfigs (rb_motors ?s1))) 3"
    using m by (simp add: motor_configured_def motorExists_getMotor)
  moreover have three: "3 \<in> set MASTER_IDS" by (simp add: MASTER_IDS_def)
  ultimately obtain n where pass: "thread_runs resting_io (at_rest ?s1)
      ([StartPeriodic True (\<lambda>i. 0), AskExternal] @ [Place] @ (replicate n Place @ [EndPeriodic])
        @ [StartTask (RunMotorValues True 0), Work]) (at_rest (driven ?s1))" (is "thread_runs _ _ ?pass _")
    using driven_threads[OF _ l, of 3] by blast
  have "thread_runs resting_io (at_rest ?s) (?beats 50 @ concat [?pass] @ ?beats 199) (at_rest ?s2)"
    using threads_append[OF quiet threads_append[OF pass heartbeats_in_steps[of _ _ 199]]] by simp
  note keeps = threads_keep_motors[OF run three at this _ _ _ _ resting_reads_back resting_fits, unfolded robot]
  have "motor_beats ?pass = 0" by (simp add: motor_beats_def count_list_0_iff)
  then have p: "\<And>ls. ls \<in> set [?pass] \<Longrightarrow> thread_pass ls \<and> motor_beats (?beats 50) + motor_beats ls < 250"
    using driven_is_pass[of "\<lambda>i. 0" n] by (simp add: motor_beats_of_heartbeats)
  have "Signal \<notin> set (?beats 50 @ concat [?pass] @ ?beats 199)"
    using silent[of 50] silent[of 199] unfolding set_append by simp
  moreover have "50 \<le> counter_beats (?beats 50)" unfolding cb by simp
  moreover have "motor_beats (?beats 50) + motor_beats (?beats 199) < 250" unfolding motor_beats_of_heartbeats by simp
  ultimately have "getMotor 3 (rb_motors ?s2) = Some dev \<and> ([?pass] \<noteq> [] \<longrightarrow> failoverActive ?s2)"
    using p by (rule keeps)
  then show ?thesis using dev by (simp add: Let_def)
qed

end
