(* ===== verification/System_Helper.thy ===== *)
theory System_Helper
  imports CK_Prelude
begin

text \<open>
  \<open>utils/SystemHelper\<close>: the shell command whose output is read in pieces, the number parsed out of
  it, and the priorities set with it. The operating system is a parameter: what the command prints
  and what the scheduler of the kernel answers.
\<close>

section \<open>Reading a command\<close>

definition NEWLINE :: char where
  "NEWLINE = CHR 0x0A"

definition NUL :: char where
  "NUL = CHR 0x00"

text \<open>\<open>fgets\<close> with room for \<open>n\<close> characters: up to and including the first newline.\<close>

fun fgets_line :: "nat \<Rightarrow> string \<Rightarrow> string" where
  "fgets_line 0 s = []"
| "fgets_line (Suc n) [] = []"
| "fgets_line (Suc n) (c # cs) = c # (if c = NEWLINE then [] else fgets_line n cs)"

lemma fgets_line_prefix: "fgets_line n s = take (length (fgets_line n s)) s"
  by (induction n s rule: fgets_line.induct) simp_all

lemma fgets_line_progress: "s \<noteq> [] \<Longrightarrow> 0 < length (fgets_line (Suc n) s)"
  by (cases s) simp_all

definition PIPE_BUFFER :: nat where
  "PIPE_BUFFER = 128"

text \<open>A C string ends at its first NUL.\<close>

definition c_string :: "string \<Rightarrow> string" where
  "c_string s = takeWhile (\<lambda>c. c \<noteq> NUL) s"

function read_pipe :: "string \<Rightarrow> string" where
  "read_pipe out =
     (if out = [] then []
      else (let line = fgets_line (PIPE_BUFFER - 1) out
            in c_string line @ read_pipe (drop (length line) out)))"
  by pat_completeness auto
termination
proof (relation "measure length")
  fix out line :: string
  assume "out \<noteq> []" "line = fgets_line (PIPE_BUFFER - 1) out"
  then show "(drop (length line) out, out) \<in> measure length"
    using fgets_line_progress[of out 126] by (simp add: PIPE_BUFFER_def)
qed simp

declare read_pipe.simps [simp del]

definition s_exec :: "string option \<Rightarrow> fault + string" where
  "s_exec pipe =
     (case pipe of None \<Rightarrow> Inl (ThrownException ''popen() failed!'') | Some out \<Rightarrow> Inr (read_pipe out))"

text \<open>However the output falls into lines and pieces of 127 characters, what is read is the output;
  only a NUL character loses the rest of its piece.\<close>

lemma c_string_id: "NUL \<notin> set s \<Longrightarrow> c_string s = s"
  by (simp add: c_string_def takeWhile_eq_all_conv) blast

theorem s_exec_reads_all:
  assumes "NUL \<notin> set out"
  shows "s_exec (Some out) = Inr out"
proof -
  have "read_pipe out = out"
    using assms
  proof (induction out rule: read_pipe.induct)
    case (1 out)
    let ?line = "fgets_line (PIPE_BUFFER - 1) out"
    have split: "?line @ drop (length ?line) out = out"
      by (subst fgets_line_prefix) (simp add: append_take_drop_id)
    have "NUL \<notin> set ?line"
      using "1.prems" fgets_line_prefix[of "PIPE_BUFFER - 1" out] by (metis in_set_takeD)
    moreover have "NUL \<notin> set (drop (length ?line) out)" using "1.prems" by (meson in_set_dropD)
    ultimately show ?case
      using "1.IH" split by (cases "out = []") (simp_all add: read_pipe.simps[of out] read_pipe.simps[of "[]"] c_string_id Let_def)
  qed
  then show ?thesis by (simp add: s_exec_def)
qed

theorem s_exec_reads_all_witness:
  "s_exec (Some (replicate 300 CHR ''7'' @ [NEWLINE])) = Inr (replicate 300 CHR ''7'' @ [NEWLINE])"
  by (rule s_exec_reads_all) (simp add: NUL_def NEWLINE_def)

section \<open>Parsing the process id\<close>

definition digit_value :: "char \<Rightarrow> int option" where
  "digit_value c = (if 48 \<le> (of_char c :: int) \<and> of_char c \<le> (57 :: int) then Some (of_char c - 48) else None)"

fun digits_value :: "int \<Rightarrow> string \<Rightarrow> int" where
  "digits_value acc [] = acc"
| "digits_value acc (c # cs) =
     (case digit_value c of None \<Rightarrow> acc | Some d \<Rightarrow> digits_value (10 * acc + d) cs)"

text \<open>\<open>std::stoi\<close>: blanks, a sign, digits; what follows them is ignored.\<close>

definition is_blank :: "char \<Rightarrow> bool" where
  "is_blank c \<longleftrightarrow> c \<in> {CHR '' '', CHR 0x09, NEWLINE, CHR 0x0B, CHR 0x0C, CHR 0x0D}"

definition stoi :: "string \<Rightarrow> fault + int" where
  "stoi s =
     (let t = dropWhile is_blank s;
          negative = (t \<noteq> [] \<and> hd t = CHR ''-'');
          ds = (if t \<noteq> [] \<and> (hd t = CHR ''-'' \<or> hd t = CHR ''+'') then tl t else t)
      in if ds = [] \<or> digit_value (hd ds) = None then Inl (ThrownException ''stoi'')
         else (let n = (if negative then - digits_value 0 ds else digits_value 0 ds)
               in if - 2147483648 \<le> n \<and> n \<le> 2147483647 then Inr n
                  else Inl (ThrownException ''stoi'')))"

section \<open>Priorities\<close>

text \<open>The kernel: what the pipeline that looks for the process \<open>FRC_Net\<close> prints, whether
  \<open>sched_setscheduler\<close> succeeds, and then the policy of a process and its priority, which
  \<open>sched_getparam\<close> may fail to read; \<open>os_unset\<close> is what the variable for it holds before it is set.\<close>

record os =
  os_pipe :: "string option"
  os_setscheduler :: "int \<Rightarrow> int \<Rightarrow> bool"
  os_policy :: "int \<Rightarrow> int"
  os_param :: "int \<Rightarrow> int option"
  os_unset :: int
  os_thread :: "int \<Rightarrow> bool"
  os_system :: "string \<Rightarrow> int"

datatype os_call = SetScheduler int int | SetThreadPriority int | RunCommand string

definition SCHED_FIFO :: int where
  "SCHED_FIFO = 1"

definition policy_name :: "int \<Rightarrow> string" where
  "policy_name policy =
     (if policy = 0 then ''SCHED_OTHER'' else if policy = 2 then ''SCHED_RR''
      else if policy = SCHED_FIFO then ''SCHED_FIFO'' else ''Unknown...'')"

datatype console_line = ConsoleText string | ConsoleNumber string int

text \<open>Neither result is looked at: a priority that could not be read is compared and printed all the same,
  as whatever the variable, which is not initialised, happens to hold.\<close>

definition configureSystemPriority :: "os \<Rightarrow> (fault + bool) \<times> os_call list \<times> console_line list" where
  "configureSystemPriority k =
     (case s_exec (os_pipe k) of
        Inl f \<Rightarrow> (Inl f, [], [])
      | Inr netstrPID \<Rightarrow>
          (case stoi (c_string netstrPID) of
             Inl f \<Rightarrow> (Inl f, [], [])
           | Inr netPID \<Rightarrow>
               (let calls = [SetScheduler netPID 99];
                    policy = os_policy k netPID;
                    priority = (case os_param k netPID of None \<Rightarrow> os_unset k | Some p \<Rightarrow> p)
                in if priority \<noteq> 99 \<or> policy \<noteq> SCHED_FIFO
                   then (Inr False, calls,
                         [ConsoleText ''Error setting FRCNetComm priority'',
                          ConsoleNumber ''rtprio: '' priority, ConsoleText (policy_name policy)])
                   else (Inr True, calls, []))))"

definition configureThreadPriority :: "os \<Rightarrow> int \<Rightarrow> bool \<times> os_call list \<times> console_line list" where
  "configureThreadPriority k priority =
     (if os_thread k priority then (True, [SetThreadPriority priority], [])
      else (False, [SetThreadPriority priority], [ConsoleText ''Error setting main thread priority!'']))"

definition resetCANivore :: "os \<Rightarrow> bool \<times> os_call list" where
  "resetCANivore k = (os_system k ''caniv --any --reset'' = 0, [RunCommand ''caniv --any --reset''])"

section \<open>The process that is not found\<close>

text \<open>The pipeline prints the id of the process, or nothing when it does not run.\<close>

lemma stoi_empty: "stoi [] = Inl (ThrownException ''stoi'')"
  by (simp add: stoi_def)

text \<open>When the process does not run, the exception of \<open>stoi\<close> leaves \<open>configureSystemPriority\<close>.\<close>

theorem priority_process_missing:
  "configureSystemPriority (k\<lparr>os_pipe := Some []\<rparr>) = (Inl (ThrownException ''stoi''), [], [])"
  by (simp add: configureSystemPriority_def s_exec_def read_pipe.simps c_string_def stoi_empty)

end
