(* ===== verification/Crash_Memory.thy ===== *)
theory Crash_Memory
  imports System_Helper "HOL-Library.Monad_Syntax" "HOL-Library.Signed_Division"
begin

text \<open>
  The static memory of the crash handler (\<open>utils/death_handler.cpp\<close>) and the C string functions it works
  on it with. An address is an offset into \<open>memory_\<close>; a read or write past its end, and a
  \<open>strcat\<close> whose source and destination overlap, are undefined behaviour, \<open>None\<close>.
\<close>

type_synonym memory = "nat \<Rightarrow> char"

definition kNeededMemory :: nat where
  "kNeededMemory = 65536"

section \<open>C strings in memory\<close>

definition c_text :: "memory \<Rightarrow> nat \<Rightarrow> string" where
  "c_text m p = takeWhile (\<lambda>c. c \<noteq> NUL) (map m [p..<kNeededMemory])"

definition c_strlen :: "memory \<Rightarrow> nat \<Rightarrow> nat option" where
  "c_strlen m p = (let n = length (c_text m p) in if p + n < kNeededMemory then Some n else None)"

definition poke :: "memory \<Rightarrow> nat \<Rightarrow> string \<Rightarrow> memory" where
  "poke m p s = (\<lambda>a. if p \<le> a \<and> a < p + length s then s ! (a - p) else m a)"

definition c_write :: "memory \<Rightarrow> nat \<Rightarrow> string \<Rightarrow> memory option" where
  "c_write m p s = (if p + length s \<le> kNeededMemory then Some (poke m p s) else None)"

text \<open>\<open>strcpy\<close> and \<open>strcat\<close> of a literal, and \<open>strcat\<close> of a string in the same memory.\<close>

definition strcpy_text :: "memory \<Rightarrow> nat \<Rightarrow> string \<Rightarrow> memory option" where
  "strcpy_text m d s = c_write m d (s @ [NUL])"

definition strcat_text :: "memory \<Rightarrow> nat \<Rightarrow> string \<Rightarrow> memory option" where
  "strcat_text m d s = do { n \<leftarrow> c_strlen m d; c_write m (d + n) (s @ [NUL]) }"

definition strcat_from :: "memory \<Rightarrow> nat \<Rightarrow> nat \<Rightarrow> memory option" where
  "strcat_from m d src =
     do { n \<leftarrow> c_strlen m d;
          k \<leftarrow> c_strlen m src;
          if d + n + k < src \<or> src + k < d then c_write m (d + n) (c_text m src @ [NUL]) else None }"

text \<open>The memory holds a string at an address.\<close>

definition holds :: "memory \<Rightarrow> nat \<Rightarrow> string \<Rightarrow> bool" where
  "holds m p s \<longleftrightarrow> p + length s < kNeededMemory \<and> NUL \<notin> set s
     \<and> (\<forall>i < length s. m (p + i) = s ! i) \<and> m (p + length s) = NUL"

lemma holds_text:
  assumes "holds m p s" shows "c_text m p = s" "c_strlen m p = Some (length s)"
proof -
  have "map m [p..<p + length s] = s" using assms by (intro nth_equalityI) (simp_all add: holds_def)
  moreover have "[p..<kNeededMemory] = [p..<p + length s] @ (p + length s) # [Suc (p + length s)..<kNeededMemory]"
    using assms upt_add_eq_append[of p "p + length s" "kNeededMemory - (p + length s)"]
    by (simp add: holds_def upt_conv_Cons)
  ultimately have "map m [p..<kNeededMemory] = s @ NUL # map m [Suc (p + length s)..<kNeededMemory]"
    using assms by (simp add: holds_def)
  moreover have "\<forall>c \<in> set s. c \<noteq> NUL" using assms by (auto simp: holds_def)
  ultimately show "c_text m p = s" by (simp add: c_text_def)
  then show "c_strlen m p = Some (length s)" using assms by (simp add: c_strlen_def holds_def)
qed

lemma holds_poke:
  assumes "holds m d s" and "NUL \<notin> set t" and "d + length s + length t < kNeededMemory"
  shows "holds (poke m (d + length s) (t @ [NUL])) d (s @ t)"
  using assms by (auto simp: holds_def poke_def nth_append)

lemma poke_frame: "a < p \<or> p + length s \<le> a \<Longrightarrow> poke m p s a = m a"
  by (auto simp: poke_def)

lemma holds_frame: "holds m p s \<Longrightarrow> \<forall>a. p \<le> a \<and> a \<le> p + length s \<longrightarrow> m' a = m a \<Longrightarrow> holds m' p s"
  by (simp add: holds_def)

text \<open>What an appended text leaves alone: everything but the place it went to.\<close>

definition only_changes :: "nat \<Rightarrow> nat \<Rightarrow> memory \<Rightarrow> memory \<Rightarrow> bool" where
  "only_changes lo hi m m' \<longleftrightarrow> (\<forall>a. a < lo \<or> hi < a \<longrightarrow> m' a = m a)"

lemma only_changes_trans:
  "only_changes lo hi m m' \<Longrightarrow> only_changes lo' hi' m' m'' \<Longrightarrow> lo'' \<le> lo \<Longrightarrow> lo'' \<le> lo' \<Longrightarrow> hi \<le> hi'' \<Longrightarrow> hi' \<le> hi''
   \<Longrightarrow> only_changes lo'' hi'' m m''"
  by (auto simp: only_changes_def)

lemma strcpy_holds:
  assumes "NUL \<notin> set s" and "d + length s < kNeededMemory"
  obtains m' where "strcpy_text m d s = Some m'" "holds m' d s" "only_changes d (d + length s) m m'"
proof
  show "strcpy_text m d s = Some (poke m d (s @ [NUL]))" using assms by (simp add: strcpy_text_def c_write_def)
  show "holds (poke m d (s @ [NUL])) d s" using assms by (auto simp: holds_def poke_def nth_append)
  show "only_changes d (d + length s) m (poke m d (s @ [NUL]))" by (auto simp: only_changes_def poke_def)
qed

lemma strcat_holds:
  assumes "holds m d s" and "NUL \<notin> set t" and "d + length s + length t < kNeededMemory"
  obtains m' where "strcat_text m d t = Some m'" "holds m' d (s @ t)" "only_changes d (d + length s + length t) m m'"
proof
  show "strcat_text m d t = Some (poke m (d + length s) (t @ [NUL]))"
    using assms by (simp add: strcat_text_def c_write_def holds_text)
  show "holds (poke m (d + length s) (t @ [NUL])) d (s @ t)" by (rule holds_poke[OF assms])
  show "only_changes d (d + length s + length t) m (poke m (d + length s) (t @ [NUL]))"
    by (auto simp: only_changes_def poke_def)
qed

lemma strcat_from_holds:
  assumes "holds m d s" and "holds m src t" and "d + length s + length t < src"
  obtains m' where "strcat_from m d src = Some m'" "holds m' d (s @ t)" "only_changes d (d + length s + length t) m m'"
proof
  have l: "src + length t < kNeededMemory" "NUL \<notin> set t" using assms(2) by (simp_all add: holds_def)
  show "strcat_from m d src = Some (poke m (d + length s) (t @ [NUL]))"
    using assms l by (simp add: strcat_from_def c_write_def holds_text)
  show "holds (poke m (d + length s) (t @ [NUL])) d (s @ t)" using holds_poke[OF assms(1) l(2)] assms(3) l(1) by simp
  show "only_changes d (d + length s + length t) m (poke m (d + length s) (t @ [NUL]))"
    by (auto simp: only_changes_def poke_def)
qed

section \<open>Numbers\<close>

definition HEX_LOWER :: string where
  "HEX_LOWER = ''0123456789abcdef''"

definition HEX_UPPER :: string where
  "HEX_UPPER = ''0123456789ABCDEF''"

text \<open>The digits go into the buffer from its end, as far as its second character.\<close>

fun utoa_loop :: "string \<Rightarrow> nat \<Rightarrow> nat \<Rightarrow> nat \<Rightarrow> nat \<Rightarrow> memory \<Rightarrow> memory \<times> nat" where
  "utoa_loop ds base res 0 v m = (m, 0)"
| "utoa_loop ds base res (Suc i) v m =
     (if v = 0 then (m, Suc i)
      else utoa_loop ds base res i (v div base) (m(res + Suc i := ds ! (v mod base))))"

definition utoa :: "u64 \<Rightarrow> nat \<Rightarrow> nat \<Rightarrow> memory \<Rightarrow> (memory \<times> nat) option" where
  "utoa v base res m =
     (if res + 31 < kNeededMemory then
        (if v = 0 then Some (poke m res [CHR ''0'', NUL], res)
         else (case utoa_loop HEX_LOWER base res 30 (unat v) (m(res + 31 := NUL)) of (m', i) \<Rightarrow> Some (m', res + i + 1)))
      else None)"

text \<open>\<open>itoa\<close> takes the remainder of a negative number too, which is negative and then an index before the
  first digit.\<close>

fun itoa_loop :: "int \<Rightarrow> nat \<Rightarrow> nat \<Rightarrow> int \<Rightarrow> memory \<Rightarrow> (memory \<times> nat) option" where
  "itoa_loop base res 0 v m = Some (m, 0)"
| "itoa_loop base res (Suc i) v m =
     (if v = 0 then Some (m, Suc i)
      else if v smod base < 0 then None
      else itoa_loop base res i (v sdiv base) (m(res + Suc i := HEX_UPPER ! nat (v smod base))))"

definition itoa :: "int \<Rightarrow> int \<Rightarrow> nat \<Rightarrow> memory \<Rightarrow> (memory \<times> nat) option" where
  "itoa v base res m =
     (if res + 31 < kNeededMemory then
        (if v = 0 then Some (poke m res [CHR ''0'', NUL], res)
         else do { (m', i) \<leftarrow> itoa_loop base res 30 v (m(res + 31 := NUL));
                   if v < 0 then Some (m'(res + i := CHR ''-''), res + i) else Some (m', res + i + 1) })
      else None)"

definition ptoa :: "u64 \<Rightarrow> nat \<Rightarrow> memory \<Rightarrow> (memory \<times> nat) option" where
  "ptoa v res m =
     do { (m1, buf) \<leftarrow> utoa v 16 (res + 32) m;
          k \<leftarrow> c_strlen m1 buf;
          m2 \<leftarrow> c_write m1 (res + 2) (c_text m1 buf @ [NUL]);
          Some (m2(res := CHR ''0'', res + 1 := CHR ''x''), res) }"

text \<open>The text of a number.\<close>

function digits :: "string \<Rightarrow> nat \<Rightarrow> nat \<Rightarrow> string" where
  "digits ds base n = (if n = 0 \<or> base < 2 then [] else digits ds base (n div base) @ [ds ! (n mod base)])"
  by pat_completeness auto
termination by (relation "measure (\<lambda>(ds, base, n). n)") auto

declare digits.simps [simp del]

definition number_text :: "string \<Rightarrow> nat \<Rightarrow> nat \<Rightarrow> string" where
  "number_text ds base n = (if n = 0 then ''0'' else digits ds base n)"

lemma hex_digits:
  assumes "n < 16" shows "HEX_LOWER ! n \<noteq> NUL" "HEX_UPPER ! n \<noteq> NUL"
proof -
  have "\<forall>i \<in> {..<16}. HEX_LOWER ! i \<noteq> NUL \<and> HEX_UPPER ! i \<noteq> NUL" by code_simp
  then show "HEX_LOWER ! n \<noteq> NUL" "HEX_UPPER ! n \<noteq> NUL" using assms by simp_all
qed

lemma utoa_loop_holds:
  assumes "2 \<le> base" and "\<And>n. n < base \<Longrightarrow> ds ! n \<noteq> NUL" and "v < base ^ i" and "holds m (res + i + 1) s"
    and "utoa_loop ds base res i v m = (m', j)"
  shows "holds m' (res + j + 1) (digits ds base v @ s) \<and> j + length (digits ds base v) = i
    \<and> only_changes (res + j + 1) (res + i) m m'"
  using assms(3-5)
proof (induction i arbitrary: v m s)
  case 0
  then show ?case by (simp add: digits.simps only_changes_def)
next
  case (Suc i)
  show ?case
  proof (cases "v = 0")
    case True
    then show ?thesis using Suc.prems by (auto simp: digits.simps only_changes_def)
  next
    case False
    let ?d = "ds ! (v mod base)" and ?m = "m(res + Suc i := ds ! (v mod base))"
    have d: "?d \<noteq> NUL" using assms(1,2) by simp
    have run: "utoa_loop ds base res i (v div base) ?m = (m', j)" using Suc.prems(3) False by simp
    have "v div base < base ^ i" using Suc.prems(1) assms(1) by (simp add: less_mult_imp_div_less mult.commute)
    moreover have "holds ?m (res + i + 1) (?d # s)"
      using Suc.prems(2) d by (auto simp: holds_def nth_Cons split: nat.split)
    ultimately have IH: "holds m' (res + j + 1) (digits ds base (v div base) @ ?d # s)"
      "j + length (digits ds base (v div base)) = i" "only_changes (res + j + 1) (res + i) ?m m'"
      using Suc.IH run by blast+
    have "digits ds base v = digits ds base (v div base) @ [?d]"
      using False assms(1) by (subst digits.simps) simp
    then show ?thesis using IH by (auto simp: only_changes_def)
  qed
qed

lemma itoa_loop_nonnegative:
  assumes "0 \<le> v" and "0 < base"
  shows "itoa_loop base res i v m = Some (utoa_loop HEX_UPPER (nat base) res i (nat v) m)"
  using assms(1)
proof (induction i arbitrary: v m)
  case (Suc i)
  have "v smod base = v mod base" "v sdiv base = v div base"
    using Suc.prems assms(2) by (auto simp: signed_divide_int_def signed_modulo_int_def sgn_if minus_mult_div_eq_mod
        mult.commute)
  moreover have nn: "\<not> v mod base < 0" using assms(2) pos_mod_sign[of base v] by linarith
  moreover have "0 \<le> v div base" using Suc.prems assms(2) by (simp add: pos_imp_zdiv_nonneg_iff)
  ultimately show ?case
    using Suc assms(2) by (simp add: nat_mod_distrib nat_div_distrib fun_upd_def nn)
qed simp

text \<open>A negative number never gets its digits: sooner or later a remainder is negative.\<close>

lemma itoa_loop_negative:
  assumes "v < 0" and "2 \<le> base" and "- v < base ^ i"
  shows "itoa_loop base res i v m = None"
  using assms(1,3)
proof (induction i arbitrary: v m)
  case (Suc i)
  have q: "v sdiv base = - ((- v) div base)" using Suc.prems assms(2) by (simp add: signed_divide_int_def sgn_if)
  show ?case
  proof (cases "v smod base < 0")
    case False
    have "v smod base = - ((- v) mod base)"
      using Suc.prems(1) assms(2) by (simp add: signed_modulo_int_def sgn_if)
    then have z: "(- v) mod base = 0" using False assms(2) pos_mod_sign[of base "- v"] by linarith
    then have "(- v) div base \<noteq> 0" using Suc.prems(1) div_mult_mod_eq[of "- v" base] by auto
    moreover have "0 \<le> (- v) div base" using Suc.prems(1) assms(2) by (simp add: pos_imp_zdiv_nonneg_iff)
    moreover have "(- v) div base < base ^ i"
    proof -
      have "(- v) div base * base \<le> - v" using div_mult_mod_eq[of "- v" base] pos_mod_sign[of base "- v"] assms(2) by linarith
      also have "- v < base ^ i * base" using Suc.prems(2) by (simp add: mult.commute)
      finally show ?thesis using assms(2) by (simp add: mult_less_cancel_right_pos)
    qed
    ultimately have "v sdiv base < 0" "- (v sdiv base) < base ^ i" using q by simp_all
    from Suc.IH[OF this] show ?thesis using False Suc.prems(1) by simp
  qed (use Suc.prems in simp)
qed simp

section \<open>What the conversions give\<close>

definition char_value :: "string \<Rightarrow> char \<Rightarrow> nat" where
  "char_value ds c = length (takeWhile (\<lambda>d. d \<noteq> c) ds)"

definition text_value :: "string \<Rightarrow> nat \<Rightarrow> string \<Rightarrow> nat" where
  "text_value ds base s = foldl (\<lambda>n c. n * base + char_value ds c) 0 s"

lemma char_value_nth:
  assumes "distinct ds" and "n < length ds" shows "char_value ds (ds ! n) = n"
proof -
  have "takeWhile (\<lambda>d. d \<noteq> ds ! n) ds = take n ds"
    by (rule takeWhile_eq_take_P_nth) (use assms nth_eq_iff_index_eq in fastforce)+
  then show ?thesis using assms by (simp add: char_value_def)
qed

lemma text_value_digits:
  assumes "distinct ds" and "base \<le> length ds" and "2 \<le> base"
  shows "text_value ds base (digits ds base n) = n"
proof (induction n rule: less_induct)
  case (less n)
  show ?case
  proof (cases "n = 0")
    case False
    then have "text_value ds base (digits ds base (n div base)) = n div base" using less assms(3) by simp
    moreover have "n mod base < length ds" using assms(2,3) by (meson less_le_trans mod_less_divisor zero_less_numeral le_trans)
    ultimately show ?thesis
      using False assms(3) char_value_nth[OF assms(1)] by (subst digits.simps) (simp add: text_value_def)
  qed (simp add: digits.simps text_value_def)
qed

lemma alphabets: "distinct HEX_LOWER \<and> length HEX_LOWER = 16" "distinct HEX_UPPER \<and> length HEX_UPPER = 16"
  by code_simp+

lemma text_value_number:
  assumes "distinct ds" and "base \<le> length ds" and "2 \<le> base" and "ds ! 0 = CHR ''0''"
  shows "text_value ds base (number_text ds base n) = n"
proof (cases "n = 0")
  case True
  have "0 < length ds" using assms(2,3) by linarith
  then have "char_value ds (CHR ''0'') = 0" using char_value_nth[OF assms(1), of 0] assms(4) by simp
  then show ?thesis by (simp add: True number_text_def text_value_def)
qed (simp add: number_text_def text_value_digits[OF assms(1-3)])

text \<open>What a conversion leaves in the memory: a string at the pointer it returns, inside its 32 characters.\<close>

definition converted :: "nat \<Rightarrow> string \<Rightarrow> memory \<Rightarrow> (memory \<times> nat) option \<Rightarrow> bool" where
  "converted res t m r \<longleftrightarrow> (\<exists>m' p. r = Some (m', p) \<and> holds m' p t \<and> res \<le> p \<and> p + length t \<le> res + 31
     \<and> only_changes res (res + 31) m m')"

lemma zero_converted:
  assumes "res + 31 < kNeededMemory" shows "converted res ''0'' m (Some (poke m res [CHR ''0'', NUL], res))"
  using assms by (auto simp: converted_def holds_def poke_def only_changes_def NUL_def)

lemma loop_converted:
  assumes "2 \<le> base" and "base \<le> 16" and "ds \<in> {HEX_LOWER, HEX_UPPER}" and "0 < v" and "v < base ^ 30"
    and "res + 31 < kNeededMemory" and "utoa_loop ds base res 30 v (m(res + 31 := NUL)) = (m', i)"
  shows "converted res (number_text ds base v) m (Some (m', res + i + 1))"
proof -
  have d: "ds ! n \<noteq> NUL" if "n < base" for n using assms(2,3) that hex_digits[of n] by auto
  have "holds (m(res + 31 := NUL)) (res + 30 + 1) []" using assms(6) by (simp add: holds_def)
  from utoa_loop_holds[OF assms(1) d assms(5) this assms(7)]
  have "holds m' (res + i + 1) (digits ds base v)" "i + length (digits ds base v) = 30"
    "only_changes (res + i + 1) (res + 30) (m(res + 31 := NUL)) m'" by simp_all
  then show ?thesis using assms(4) by (auto simp: converted_def number_text_def only_changes_def)
qed

text \<open>A number other than zero touches the memory from its first digit on only, and ends at the end of the
  buffer.\<close>

lemma itoa_exact:
  assumes "2 \<le> base" and "base \<le> 16" and "0 < v" and "nat v < nat base ^ 30" and "res + 31 < kNeededMemory"
  obtains m' p where "itoa v base res m = Some (m', p)" "holds m' p (number_text HEX_UPPER (nat base) (nat v))"
    "res < p" "p + length (number_text HEX_UPPER (nat base) (nat v)) = res + 31" "only_changes p (res + 31) m m'"
proof -
  obtain m' i where r: "utoa_loop HEX_UPPER (nat base) res 30 (nat v) (m(res + 31 := NUL)) = (m', i)" by fastforce
  have d: "HEX_UPPER ! n \<noteq> NUL" if "n < nat base" for n using assms(2) that hex_digits[of n] by auto
  have b: "2 \<le> nat base" using assms(1) by simp
  have e: "holds (m(res + 31 := NUL)) (res + 30 + 1) []" using assms(5) by (simp add: holds_def)
  from utoa_loop_holds[OF b d assms(4) e r] have h: "holds m' (res + i + 1) (digits HEX_UPPER (nat base) (nat v))"
    "i + length (digits HEX_UPPER (nat base) (nat v)) = 30" "only_changes (res + i + 1) (res + 30) (m(res + 31 := NUL)) m'"
    by simp_all
  have "itoa v base res m = Some (m', res + i + 1)"
    using assms r by (simp add: itoa_def itoa_loop_nonnegative)
  moreover have "only_changes (res + i + 1) (res + 31) m m'" using h(2,3) by (auto simp: only_changes_def)
  ultimately show ?thesis using that[of m' "res + i + 1"] h(1,2) assms(3) by (simp add: number_text_def)
qed

theorem utoa_text:
  assumes "2 \<le> base" and "base \<le> 16" and "unat v < base ^ 30" and "res + 31 < kNeededMemory"
  shows "converted res (number_text HEX_LOWER base (unat v)) m (utoa v base res m)"
proof (cases "v = 0")
  case True
  then show ?thesis using zero_converted[OF assms(4)] assms(4) by (simp add: utoa_def number_text_def)
next
  case False
  obtain m' i where r: "utoa_loop HEX_LOWER base res 30 (unat v) (m(res + 31 := NUL)) = (m', i)" by fastforce
  have "0 < unat v" using False by (simp add: unat_gt_0)
  from loop_converted[OF assms(1,2) _ this assms(3,4) r] show ?thesis using False assms(4) r by (simp add: utoa_def)
qed

theorem itoa_text:
  assumes "2 \<le> base" and "base \<le> 16" and "0 \<le> v" and "nat v < nat base ^ 30" and "res + 31 < kNeededMemory"
  shows "converted res (number_text HEX_UPPER (nat base) (nat v)) m (itoa v base res m)"
proof (cases "v = 0")
  case True
  then show ?thesis using zero_converted[OF assms(5)] assms(5) by (simp add: itoa_def number_text_def)
next
  case False
  obtain m' i where r: "utoa_loop HEX_UPPER (nat base) res 30 (nat v) (m(res + 31 := NUL)) = (m', i)" by fastforce
  have "2 \<le> nat base" "nat base \<le> 16" "0 < nat v" using assms False by simp_all
  from loop_converted[OF this(1,2) _ this(3) assms(4,5) r] show ?thesis
    using False assms r by (simp add: itoa_def itoa_loop_nonnegative)
qed

text \<open>C39. The numbers of the crash report are read back. For every 64-bit word, in base 8, 10 or 16, and
  wherever the 32 characters it converts in lie within its 64 KiB of memory, \<open>Safe::utoa\<close> returns, and
  reading the characters from where it points up to the terminator as a number of that base gives the
  word.\<close>

theorem utoa_roundtrip:
  assumes "base \<in> {8, 10, 16}" and "res + 31 < kNeededMemory"
  shows "\<exists>m' p. utoa v base res m = Some (m', p) \<and> text_value HEX_LOWER base (c_text m' p) = unat v"
proof -
  have "unat v < 2 ^ 64" using unsigned_less[of v] by simp
  then have "unat v < base ^ 30" using assms(1) by (elim insertE emptyE) simp_all
  then have "converted res (number_text HEX_LOWER base (unat v)) m (utoa v base res m)"
    using utoa_text[of base v res m] assms by auto
  then obtain m' p where r: "utoa v base res m = Some (m', p)" "holds m' p (number_text HEX_LOWER base (unat v))"
    by (auto simp: converted_def)
  have "HEX_LOWER ! 0 = CHR ''0''" by (simp add: HEX_LOWER_def)
  then have "text_value HEX_LOWER base (number_text HEX_LOWER base (unat v)) = unat v"
    using text_value_number[of HEX_LOWER base] alphabets(1) assms(1) by auto
  then show ?thesis using r holds_text(1)[OF r(2)] by auto
qed

theorem utoa_roundtrip_witness:
  "\<exists>m' p. utoa 18446744073709551615 10 128 (\<lambda>a. NUL) = Some (m', p) \<and> text_value HEX_LOWER 10 (c_text m' p) = 18446744073709551615"
  using utoa_roundtrip[of 10 128 18446744073709551615 "\<lambda>a. NUL"] by (simp add: kNeededMemory_def)

lemma itoa_negative:
  assumes "v < 0" and "2 \<le> base" and "- v < base ^ 30" shows "itoa v base res m = None"
  using assms by (simp add: itoa_def itoa_loop_negative)

end
