(* ===== verification/Death_Handler.thy ===== *)
theory Death_Handler
  imports Crash_Memory "HOL-Library.Sublist"
begin

text \<open>
  The crash handler (\<open>utils/death_handler.cpp\<close>): its settings, what becomes of the process, the
  allocations it traps, the first line it prints and the shortening of the paths in the stack
  trace. The line is put together in the static memory of \<open>Crash_Memory\<close>, with the numbers converted 128
  characters further on.
\<close>

section \<open>Settings\<close>

record death_handler =
  dh_generate_core_dump :: bool
  dh_cleanup :: bool
  dh_quick_exit :: bool
  dh_frames_count :: int
  dh_cut_common_path_root :: bool
  dh_cut_relative_paths :: bool
  dh_append_pid :: bool
  dh_color_output :: bool
  dh_thread_safe :: bool

definition DeathHandler_defaults :: death_handler where
  "DeathHandler_defaults = \<lparr>dh_generate_core_dump = True, dh_cleanup = True, dh_quick_exit = False,
     dh_frames_count = 16, dh_cut_common_path_root = True, dh_cut_relative_paths = True,
     dh_append_pid = False, dh_color_output = True, dh_thread_safe = True\<rparr>"

text \<open>The assertion of \<open>set_frames_count\<close>: aborting is \<open>None\<close>.\<close>

definition set_frames_count :: "int \<Rightarrow> death_handler \<Rightarrow> death_handler option" where
  "set_frames_count n dh = (if 0 < n \<and> n \<le> 100 then Some (dh\<lparr>dh_frames_count := n\<rparr>) else None)"

definition set_generate_core_dump :: "bool \<Rightarrow> death_handler \<Rightarrow> death_handler" where
  "set_generate_core_dump v dh = dh\<lparr>dh_generate_core_dump := v\<rparr>"

definition set_cleanup :: "bool \<Rightarrow> death_handler \<Rightarrow> death_handler" where
  "set_cleanup v dh = dh\<lparr>dh_cleanup := v\<rparr>"

definition set_quick_exit :: "bool \<Rightarrow> death_handler \<Rightarrow> death_handler" where
  "set_quick_exit v dh = dh\<lparr>dh_quick_exit := v\<rparr>"

definition set_cut_common_path_root :: "bool \<Rightarrow> death_handler \<Rightarrow> death_handler" where
  "set_cut_common_path_root v dh = dh\<lparr>dh_cut_common_path_root := v\<rparr>"

definition set_cut_relative_paths :: "bool \<Rightarrow> death_handler \<Rightarrow> death_handler" where
  "set_cut_relative_paths v dh = dh\<lparr>dh_cut_relative_paths := v\<rparr>"

definition set_append_pid :: "bool \<Rightarrow> death_handler \<Rightarrow> death_handler" where
  "set_append_pid v dh = dh\<lparr>dh_append_pid := v\<rparr>"

definition set_color_output :: "bool \<Rightarrow> death_handler \<Rightarrow> death_handler" where
  "set_color_output v dh = dh\<lparr>dh_color_output := v\<rparr>"

definition set_thread_safe :: "bool \<Rightarrow> death_handler \<Rightarrow> death_handler" where
  "set_thread_safe v dh = dh\<lparr>dh_thread_safe := v\<rparr>"

lemmas setter_defs = set_generate_core_dump_def set_cleanup_def set_quick_exit_def set_cut_common_path_root_def
  set_cut_relative_paths_def set_append_pid_def set_color_output_def set_thread_safe_def

section \<open>The signals\<close>

text \<open>What the process does on a signal: its default action, or the handler, on the alternative stack or not. A
  failed \<open>sigaction\<close> of the constructor is only reported.\<close>

datatype disposition = Default | Handled bool

definition crash_signals :: "int list" where
  "crash_signals = [11, 6, 8]"

definition DeathHandler_new :: "bool \<Rightarrow> (int \<Rightarrow> bool) \<Rightarrow> (int \<Rightarrow> disposition) \<Rightarrow> int \<Rightarrow> disposition" where
  "DeathHandler_new altstack installs d =
     fold (\<lambda>sig d. if installs sig then d(sig := Handled altstack) else d) crash_signals d"

definition DeathHandler_delete :: "(int \<Rightarrow> disposition) \<Rightarrow> int \<Rightarrow> disposition" where
  "DeathHandler_delete d = fold (\<lambda>sig d. d(sig := Default)) crash_signals d"

text \<open>Both ways to end by \<open>abort\<close> put the default action of \<open>SIGABRT\<close> back first.\<close>

definition before_abort :: "(int \<Rightarrow> disposition) \<Rightarrow> int \<Rightarrow> disposition" where
  "before_abort d = d(6 := Default)"

lemma DeathHandler_signals:
  "(\<forall>sig. installs sig) \<Longrightarrow> DeathHandler_new altstack installs d sig = (if sig \<in> set crash_signals then Handled altstack else d sig)"
  "DeathHandler_delete d sig = (if sig \<in> set crash_signals then Default else d sig)"
  "before_abort (DeathHandler_new altstack installs d) 6 = Default"
  by (simp_all add: DeathHandler_new_def DeathHandler_delete_def before_abort_def crash_signals_def)

section \<open>The end of the process\<close>

datatype process_end = QuickExit | AbortWithCore | ExitWithCleanup | ExitAtOnce

definition parent_end :: "death_handler \<Rightarrow> process_end" where
  "parent_end dh =
     (if dh_quick_exit dh then QuickExit
      else if dh_generate_core_dump dh then AbortWithCore
      else if dh_cleanup dh then ExitWithCleanup
      else ExitAtOnce)"

section \<open>Allocation while the handler runs\<close>

text \<open>Every trapped allocation gets the same 512 bytes at the end of the memory; a larger one ends the
  process, \<open>None\<close>. Freeing does nothing.\<close>

definition malloc_impl :: "nat \<Rightarrow> nat option" where
  "malloc_impl n = (if n > 512 then None else Some (kNeededMemory - 512))"

definition handler_malloc :: "bool \<Rightarrow> (nat \<Rightarrow> nat option) \<Rightarrow> nat \<Rightarrow> nat option" where
  "handler_malloc heap_trap_active libc_malloc n =
     (if \<not> heap_trap_active then libc_malloc n else malloc_impl n)"

lemma trapped_allocations_alias:
  "handler_malloc True libc a = Some p \<Longrightarrow> handler_malloc True libc b = Some q \<Longrightarrow> p = q \<and> p + b \<le> kNeededMemory"
  by (auto simp: handler_malloc_def malloc_impl_def kNeededMemory_def split: if_splits)

section \<open>The first line\<close>

definition ESC :: char where
  "ESC = CHR 0x1B"

definition RED :: string where
  "RED = ESC # ''[31;1m''"

definition YELLOW :: string where
  "YELLOW = ESC # ''[33;1m''"

definition PLAIN :: string where
  "PLAIN = ESC # ''[0m''"

definition msg_max_length :: nat where
  "msg_max_length = 128"

definition strcat_if :: "bool \<Rightarrow> memory \<Rightarrow> nat \<Rightarrow> string \<Rightarrow> memory option" where
  "strcat_if b m d s = (if b then strcat_text m d s else Some m)"

definition strcat_number :: "memory \<Rightarrow> nat \<Rightarrow> (memory \<times> nat) option \<Rightarrow> memory option" where
  "strcat_number m d r = do { (m', p) \<leftarrow> r; strcat_from m' d p }"

text \<open>The name of the signal: \<open>SIGABRT\<close> is 6, \<open>SIGFPE\<close> 8 and \<open>SIGSEGV\<close> 11.\<close>

definition strcat_signal :: "int \<Rightarrow> memory \<Rightarrow> memory option" where
  "strcat_signal sig m =
     (if sig = 11 then strcat_text m 0 ''Segmentation fault''
      else if sig = 6 then strcat_text m 0 ''Aborted''
      else if sig = 8 then strcat_text m 0 ''Floating point exception''
      else do { m1 \<leftarrow> strcat_text m 0 ''Caught signal ''; strcat_number m1 0 (itoa sig 10 msg_max_length m1) })"

definition crash_header :: "death_handler \<Rightarrow> int \<Rightarrow> u64 \<Rightarrow> int \<Rightarrow> memory \<Rightarrow> memory option" where
  "crash_header dh sig thread ppid m0 =
     (let color = dh_color_output dh
      in do { m1 \<leftarrow> strcpy_text m0 0 (if color then RED else []);
              m2 \<leftarrow> strcat_signal sig m1;
              m3 \<leftarrow> strcat_if color m2 0 PLAIN;
              m4 \<leftarrow> strcat_text m3 0 '' (thread '';
              m5 \<leftarrow> strcat_if color m4 0 YELLOW;
              m6 \<leftarrow> strcat_number m5 0 (utoa thread 10 msg_max_length m5);
              m7 \<leftarrow> strcat_if color m6 0 PLAIN;
              m8 \<leftarrow> strcat_text m7 0 '', pid '';
              m9 \<leftarrow> strcat_if color m8 0 YELLOW;
              m10 \<leftarrow> strcat_number m9 0 (itoa ppid 10 msg_max_length m9);
              m11 \<leftarrow> strcat_if color m10 0 PLAIN;
              strcat_text m11 0 '')'' })"

text \<open>What it should print.\<close>

definition signal_text :: "int \<Rightarrow> string" where
  "signal_text sig = (if sig = 11 then ''Segmentation fault'' else if sig = 6 then ''Aborted''
     else if sig = 8 then ''Floating point exception'' else ''Caught signal '' @ number_text HEX_UPPER 10 (nat sig))"

definition header_text :: "bool \<Rightarrow> int \<Rightarrow> u64 \<Rightarrow> int \<Rightarrow> string" where
  "header_text color sig thread ppid =
     (let paint = (\<lambda>code s. if color then code @ s @ PLAIN else s)
      in paint RED (signal_text sig) @ '' (thread '' @ paint YELLOW (number_text HEX_LOWER 10 (unat thread))
         @ '', pid '' @ paint YELLOW (number_text HEX_UPPER 10 (nat ppid)) @ '')'')"

text \<open>A buffer of 128 characters holds every prefix of the line, so that the numbers converted behind it are
  intact when they are appended.\<close>

lemma digits_length:
  "2 \<le> base \<Longrightarrow> n < base ^ k \<Longrightarrow> length (digits ds base n) \<le> k"
proof (induction k arbitrary: n)
  case (Suc k)
  then have "n div base < base ^ k" by (simp add: less_mult_imp_div_less mult.commute)
  then show ?case using Suc.IH[of "n div base"] Suc.prems(1) by (subst digits.simps) simp
qed (simp add: digits.simps)

lemma number_length: "2 \<le> base \<Longrightarrow> 0 < k \<Longrightarrow> n < base ^ k \<Longrightarrow> length (number_text ds base n) \<le> k"
  using digits_length[of base n k ds] by (simp add: number_text_def)

lemma strcat_number_holds:
  assumes "holds m 0 s" and "converted msg_max_length t m r" and "length s + length t < msg_max_length"
  obtains m' where "strcat_number m 0 r = Some m'" "holds m' 0 (s @ t)"
proof -
  obtain m1 p where r: "r = Some (m1, p)" "holds m1 p t" "msg_max_length \<le> p" "only_changes msg_max_length (msg_max_length + 31) m m1"
    using assms(2) by (auto simp: converted_def)
  have "holds m1 0 s" by (rule holds_frame[OF assms(1)]) (use r(4) assms(3) in \<open>auto simp: only_changes_def\<close>)
  from strcat_from_holds[OF this r(2)] show ?thesis
    using that r(1,3) assms(3) by (auto simp: strcat_number_def)
qed

lemma strcat_if_holds:
  assumes "holds m 0 s" and "NUL \<notin> set t" and "length s + length t < kNeededMemory"
  obtains m' where "strcat_if b m 0 t = Some m'" "holds m' 0 (s @ (if b then t else []))"
  using assms strcat_holds[of m 0 s t] by (cases b) (auto simp: strcat_if_def)

lemma no_nul: "NUL \<notin> set RED" "NUL \<notin> set YELLOW" "NUL \<notin> set PLAIN"
  by (simp_all add: RED_def YELLOW_def PLAIN_def ESC_def NUL_def)

lemma paint_lengths: "length RED = 7" "length YELLOW = 7" "length PLAIN = 4"
  by (simp_all add: RED_def YELLOW_def PLAIN_def)

lemma buffer_room: "msg_max_length + 31 < kNeededMemory"
  by (simp add: msg_max_length_def kNeededMemory_def)

lemma int_text:
  assumes "0 \<le> v" and "v < 2147483648"
  shows "converted msg_max_length (number_text HEX_UPPER 10 (nat v)) m (itoa v 10 msg_max_length m)"
    and "length (number_text HEX_UPPER 10 (nat v)) \<le> 10"
proof -
  have "nat v < 10 ^ 10" using assms by simp
  then show "length (number_text HEX_UPPER 10 (nat v)) \<le> 10" by (intro number_length) simp_all
  have "nat v < nat 10 ^ 30" using assms by simp
  from itoa_text[OF _ _ assms(1) this buffer_room]
  show "converted msg_max_length (number_text HEX_UPPER 10 (nat v)) m (itoa v 10 msg_max_length m)" by simp
qed

lemma thread_text:
  "converted msg_max_length (number_text HEX_LOWER 10 (unat v)) m (utoa v 10 msg_max_length m)"
  "length (number_text HEX_LOWER 10 (unat v)) \<le> 20"
proof -
  have v: "unat v < 2 ^ 64" using unsigned_less[of v] by simp
  then have "unat v < 10 ^ 20" by simp
  then show "length (number_text HEX_LOWER 10 (unat v)) \<le> 20" by (intro number_length) simp_all
  have "unat v < 10 ^ 30" using v by simp
  from utoa_text[OF _ _ this buffer_room]
  show "converted msg_max_length (number_text HEX_LOWER 10 (unat v)) m (utoa v 10 msg_max_length m)" by simp
qed

lemma signal_holds:
  assumes "holds m 0 s" and "length s \<le> 7" and "0 \<le> sig" and "sig < 2147483648"
  obtains m' where "strcat_signal sig m = Some m'" "holds m' 0 (s @ signal_text sig)" "length (signal_text sig) \<le> 24"
proof -
  have lit: "\<exists>m'. strcat_text m 0 t = Some m' \<and> holds m' 0 (s @ t)" if "NUL \<notin> set t" "length t \<le> 24" for t
  proof -
    have "0 + length s + length t < kNeededMemory" using that(2) assms(2) by (simp add: kNeededMemory_def)
    from strcat_holds[OF assms(1) that(1) this] show ?thesis by blast
  qed
  consider (segv) "sig = 11" | (abrt) "sig = 6" | (fpe) "sig = 8" | (other) "sig \<notin> {6, 8, 11}" by blast
  then show ?thesis
  proof cases
    case segv
    then show ?thesis using that lit[of "''Segmentation fault''"] by (auto simp: strcat_signal_def signal_text_def NUL_def)
  next
    case abrt
    then show ?thesis using that lit[of "''Aborted''"] by (auto simp: strcat_signal_def signal_text_def NUL_def)
  next
    case fpe
    then show ?thesis using that lit[of "''Floating point exception''"] by (auto simp: strcat_signal_def signal_text_def NUL_def)
  next
    case other
    let ?t = "''Caught signal ''"
    obtain m1 where m1: "strcat_text m 0 ?t = Some m1" "holds m1 0 (s @ ?t)"
      using lit[of ?t] by (auto simp: NUL_def)
    obtain m2 where "strcat_number m1 0 (itoa sig 10 msg_max_length m1) = Some m2"
      "holds m2 0 ((s @ ?t) @ number_text HEX_UPPER 10 (nat sig))"
      by (rule strcat_number_holds[OF m1(2) int_text(1)[OF assms(3,4)]])
        (use int_text(2)[OF assms(3,4)] assms(2) in \<open>simp_all add: msg_max_length_def\<close>)
    then show ?thesis using that m1 other int_text(2)[OF assms(3,4)] by (auto simp: strcat_signal_def signal_text_def)
  qed
qed

lemma crash_header_holds:
  assumes "0 \<le> sig" and "sig < 2147483648" and "0 \<le> ppid" and "ppid < 2147483648"
  shows "\<exists>m'. crash_header dh sig thread ppid m = Some m' \<and> holds m' 0 (header_text (dh_color_output dh) sig thread ppid)"
proof -
  let ?c = "dh_color_output dh" and ?n = "\<lambda>s. if dh_color_output dh then s else []"
  obtain m1 where m1: "strcpy_text m 0 (?n RED) = Some m1" "holds m1 0 (?n RED)"
  proof (rule strcpy_holds[of "?n RED" 0 m])
    show "NUL \<notin> set (?n RED)" using no_nul by simp
    show "0 + length (?n RED) < kNeededMemory" using paint_lengths by (simp add: kNeededMemory_def)
  qed
  obtain m2 where m2: "strcat_signal sig m1 = Some m2" "holds m2 0 (?n RED @ signal_text sig)" "length (signal_text sig) \<le> 24"
    by (rule signal_holds[OF m1(2) _ assms(1,2)]) (simp add: paint_lengths)
  obtain m3 where m3: "strcat_if ?c m2 0 PLAIN = Some m3" "holds m3 0 ((?n RED @ signal_text sig) @ ?n PLAIN)"
    by (rule strcat_if_holds[OF m2(2), where t = PLAIN and b = ?c])
      (use no_nul m2(3) paint_lengths in \<open>auto simp: kNeededMemory_def split: if_splits\<close>)
  let ?s3 = "(?n RED @ signal_text sig) @ ?n PLAIN"
  have l3: "length ?s3 \<le> 35" using m2(3) paint_lengths by auto
  obtain m4 where m4: "strcat_text m3 0 '' (thread '' = Some m4" "holds m4 0 (?s3 @ '' (thread '')"
    by (rule strcat_holds[OF m3(2), where t = "'' (thread ''"]) (use l3 in \<open>auto simp: NUL_def kNeededMemory_def\<close>)
  obtain m5 where m5: "strcat_if ?c m4 0 YELLOW = Some m5" "holds m5 0 ((?s3 @ '' (thread '') @ ?n YELLOW)"
    by (rule strcat_if_holds[OF m4(2), where t = YELLOW and b = ?c]) (use no_nul l3 paint_lengths in \<open>auto simp: kNeededMemory_def\<close>)
  let ?t = "number_text HEX_LOWER 10 (unat thread)" and ?s5 = "(?s3 @ '' (thread '') @ ?n YELLOW"
  have l5: "length ?s5 \<le> 51" using l3 paint_lengths by auto
  obtain m6 where m6: "strcat_number m5 0 (utoa thread 10 msg_max_length m5) = Some m6" "holds m6 0 (?s5 @ ?t)"
    by (rule strcat_number_holds[OF m5(2) thread_text(1)]) (use l5 thread_text(2)[of thread] in \<open>auto simp: msg_max_length_def\<close>)
  have l6: "length (?s5 @ ?t) \<le> 71" using l5 thread_text(2)[of thread] by simp
  obtain m7 where m7: "strcat_if ?c m6 0 PLAIN = Some m7" "holds m7 0 ((?s5 @ ?t) @ ?n PLAIN)"
    by (rule strcat_if_holds[OF m6(2), where t = PLAIN and b = ?c]) (use no_nul l6 paint_lengths in \<open>auto simp: kNeededMemory_def\<close>)
  let ?s7 = "(?s5 @ ?t) @ ?n PLAIN"
  have l7: "length ?s7 \<le> 75" using l6 paint_lengths by auto
  obtain m8 where m8: "strcat_text m7 0 '', pid '' = Some m8" "holds m8 0 (?s7 @ '', pid '')"
    by (rule strcat_holds[OF m7(2), where t = "'', pid ''"]) (use l7 in \<open>auto simp: NUL_def kNeededMemory_def\<close>)
  obtain m9 where m9: "strcat_if ?c m8 0 YELLOW = Some m9" "holds m9 0 ((?s7 @ '', pid '') @ ?n YELLOW)"
    by (rule strcat_if_holds[OF m8(2), where t = YELLOW and b = ?c]) (use no_nul l7 paint_lengths in \<open>auto simp: kNeededMemory_def\<close>)
  let ?p = "number_text HEX_UPPER 10 (nat ppid)" and ?s9 = "(?s7 @ '', pid '') @ ?n YELLOW"
  have l9: "length ?s9 \<le> 88" using l7 paint_lengths by auto
  obtain m10 where m10: "strcat_number m9 0 (itoa ppid 10 msg_max_length m9) = Some m10" "holds m10 0 (?s9 @ ?p)"
    by (rule strcat_number_holds[OF m9(2) int_text(1)[OF assms(3,4)]]) (use l9 int_text(2)[OF assms(3,4)] in \<open>auto simp: msg_max_length_def\<close>)
  have l10: "length (?s9 @ ?p) \<le> 98" using l9 int_text(2)[OF assms(3,4)] by simp
  obtain m11 where m11: "strcat_if ?c m10 0 PLAIN = Some m11" "holds m11 0 ((?s9 @ ?p) @ ?n PLAIN)"
    by (rule strcat_if_holds[OF m10(2), where t = PLAIN and b = ?c]) (use no_nul l10 paint_lengths in \<open>auto simp: kNeededMemory_def\<close>)
  obtain m12 where m12: "strcat_text m11 0 '')'' = Some m12" "holds m12 0 (((?s9 @ ?p) @ ?n PLAIN) @ '')'')"
    by (rule strcat_holds[OF m11(2), where t = "'')''"]) (use l10 paint_lengths in \<open>auto simp: NUL_def kNeededMemory_def\<close>)
  have "crash_header dh sig thread ppid m = Some m12"
    by (simp add: crash_header_def Let_def m1(1) m2(1) m3(1) m4(1) m5(1) m6(1) m7(1) m8(1) m9(1) m10(1) m11(1) m12(1))
  moreover have "((?s9 @ ?p) @ ?n PLAIN) @ '')'' = header_text ?c sig thread ppid" by (simp add: header_text_def)
  ultimately show ?thesis using m12(2) by auto
qed

text \<open>The first line of a crash is right: for every signal, thread and process the buffer arithmetic of the
  handler reads and writes inside its memory, never appends a string to itself, and leaves exactly
  the line with the name of the signal, the thread and the process, coloured or not.\<close>

theorem crash_header_correct:
  assumes "0 \<le> sig" and "sig < 2147483648" and "0 \<le> ppid" and "ppid < 2147483648"
  shows "\<exists>m'. crash_header dh sig thread ppid m = Some m' \<and> c_text m' 0 = header_text (dh_color_output dh) sig thread ppid"
  using crash_header_holds[OF assms] holds_text(1) by blast

theorem crash_header_correct_witness:
  "\<exists>m'. crash_header (DeathHandler_defaults\<lparr>dh_color_output := False\<rparr>) 11 7 412 (\<lambda>a. NUL) = Some m'
     \<and> c_text m' 0 = ''Segmentation fault (thread 7, pid 412)''"
proof -
  have "header_text False 11 7 412 = ''Segmentation fault (thread 7, pid 412)''" by code_simp
  then show ?thesis
    using crash_header_correct[of 11 412 "DeathHandler_defaults\<lparr>dh_color_output := False\<rparr>" 7 "\<lambda>a. NUL"] by simp
qed

section \<open>Shortening the paths\<close>

abbreviation SLASH :: char where
  "SLASH \<equiv> CHR ''/''"

text \<open>How far the current directory and the line agree; reading past the memory is \<open>None\<close>.\<close>

function common_length :: "memory \<Rightarrow> nat \<Rightarrow> nat \<Rightarrow> nat \<Rightarrow> nat option" where
  "common_length m cwd line cpi =
     (if line + cpi < kNeededMemory then
        (if m (cwd + cpi) = m (line + cpi) then common_length m cwd line (cpi + 1) else Some cpi)
      else None)"
  by pat_completeness auto
termination by (relation "measure (\<lambda>(m, cwd, line, cpi). kNeededMemory - (line + cpi))") auto

declare common_length.simps [simp del]

text \<open>Back to the last slash. The search may leave the line: what lies before it is the name of the function
  and the current directory, which ends with a slash.\<close>

fun back_to_slash :: "memory \<Rightarrow> nat \<Rightarrow> nat option" where
  "back_to_slash m 0 = (if m 0 = SLASH then Some 0 else None)"
| "back_to_slash m (Suc a) = (if m (Suc a) = SLASH then Some (Suc a) else back_to_slash m a)"

definition cut_common :: "memory \<Rightarrow> nat \<Rightarrow> nat \<Rightarrow> nat option" where
  "cut_common m cwd line =
     do { cpi \<leftarrow> common_length m cwd line 0;
          a \<leftarrow> (if line + cpi = 0 then None else back_to_slash m (line + cpi - 1));
          Some (if line < a then a + 1 else line) }"

fun find_up :: "string \<Rightarrow> string option" where
  "find_up s = (if take 3 s = ''../'' then Some s else case s of [] \<Rightarrow> None | c # cs \<Rightarrow> find_up cs)"

function skip_up :: "string \<Rightarrow> string" where
  "skip_up s = (if take 3 s = ''../'' then skip_up (drop 3 s) else s)"
  by pat_completeness auto
termination
proof (relation "measure length")
  fix s :: string assume "take 3 s = ''../''"
  then have "s \<noteq> []" by auto
  then show "(drop 3 s, s) \<in> measure length" by (cases s) auto
qed simp

declare find_up.simps [simp del] skip_up.simps [simp del]

definition cut_relative :: "memory \<Rightarrow> nat \<Rightarrow> nat" where
  "cut_relative m line =
     (let t = c_text m line
      in case find_up t of None \<Rightarrow> line | Some s \<Rightarrow> line + (length t - length (skip_up (drop 3 s))))"

definition shorten_path :: "death_handler \<Rightarrow> memory \<Rightarrow> nat \<Rightarrow> nat \<Rightarrow> nat option" where
  "shorten_path dh m cwd line =
     do { line1 \<leftarrow> (if dh_cut_common_path_root dh then cut_common m cwd line else Some line);
          Some (if dh_cut_relative_paths dh then cut_relative m line1 else line1) }"

text \<open>What it should do: drop the directories the line shares with the current directory, then everything up
  to the first run of steps upwards.\<close>

definition common_cut :: "string \<Rightarrow> string \<Rightarrow> string" where
  "common_cut w p = (let r = dropWhile (\<lambda>c. c \<noteq> SLASH) (rev (longest_common_prefix w p))
     in if 1 < length r then drop (length r) p else p)"

definition relative_cut :: "string \<Rightarrow> string" where
  "relative_cut p = (case find_up p of None \<Rightarrow> p | Some s \<Rightarrow> skip_up (drop 3 s))"

lemma holds_nth: "holds m p s \<Longrightarrow> i \<le> length s \<Longrightarrow> m (p + i) = (s @ [NUL]) ! i"
  by (auto simp: holds_def nth_append)

lemma holds_drop: "holds m p s \<Longrightarrow> k \<le> length s \<Longrightarrow> holds m (p + k) (drop k s)"
  by (auto simp: holds_def add.assoc dest: in_set_dropD)

lemma common_prefix_ends:
  assumes "NUL \<notin> set w" and "NUL \<notin> set p" and "w \<noteq> p"
  defines "k \<equiv> length (longest_common_prefix w p)"
  shows "k \<le> length w" "k \<le> length p" "\<And>i. i < k \<Longrightarrow> w ! i = p ! i" "(w @ [NUL]) ! k \<noteq> (p @ [NUL]) ! k"
proof -
  let ?q = "longest_common_prefix w p"
  obtain w' p' where w: "w = ?q @ w'" and p: "p = ?q @ p'"
    using longest_common_prefix_prefix1[of w p] longest_common_prefix_prefix2[of w p] by (auto simp: prefix_def)
  show "k \<le> length w" "k \<le> length p" by (simp_all add: k_def arg_cong[OF w, of length] arg_cong[OF p, of length])
  show "w ! i = p ! i" if "i < k" for i
    using that arg_cong[OF w, of "\<lambda>x. x ! i"] arg_cong[OF p, of "\<lambda>x. x ! i"] by (simp add: k_def nth_append)
  show "(w @ [NUL]) ! k \<noteq> (p @ [NUL]) ! k"
  proof
    assume eq: "(w @ [NUL]) ! k = (p @ [NUL]) ! k"
    have "(w @ [NUL]) ! k = hd (w' @ [NUL])" "(p @ [NUL]) ! k = hd (p' @ [NUL])"
      by (subst w, simp add: k_def nth_append hd_conv_nth, subst p, simp add: k_def nth_append hd_conv_nth)
    then have hd: "hd (w' @ [NUL]) = hd (p' @ [NUL])" using eq by simp
    show False
    proof (cases w')
      case Nil
      then have "hd (p' @ [NUL]) = NUL" using hd by simp
      then have "p' = []" using assms(2) p by (cases p') (metis hd_append2 in_set_conv_decomp list.sel(1) list.distinct(1))+
      then show False using Nil w p assms(3) by simp
    next
      case (Cons c ws)
      have "c \<noteq> NUL" using assms(1) w Cons by (metis in_set_conv_decomp)
      then obtain ps where "p' = c # ps" using hd Cons by (cases p') auto
      then have "prefix (?q @ [c]) w" "prefix (?q @ [c]) p" using w p Cons by (metis append.assoc append_Cons append_Nil prefixI)+
      then have "prefix (?q @ [c]) ?q" by (rule longest_common_prefix_max_prefix)
      then show False by (auto simp: prefix_def)
    qed
  qed
qed

lemma common_length_holds:
  assumes "holds m cwd w" and "holds m line p" and "w \<noteq> p"
  shows "common_length m cwd line 0 = Some (length (longest_common_prefix w p))"
proof -
  let ?k = "length (longest_common_prefix w p)"
  have nul: "NUL \<notin> set w" "NUL \<notin> set p" using assms(1,2) by (simp_all add: holds_def)
  note ends = common_prefix_ends[OF nul assms(3)]
  have room: "line + length p < kNeededMemory" using assms(2) by (simp add: holds_def)
  have "common_length m cwd line i = Some ?k" if "i \<le> ?k" for i
    using that
  proof (induction "?k - i" arbitrary: i)
    case 0
    then have "i = ?k" by simp
    then show ?case
      using holds_nth[OF assms(1) ends(1)] holds_nth[OF assms(2) ends(2)] ends(2,4) room
      by (subst common_length.simps) simp
  next
    case (Suc d)
    then have i: "i < ?k" by simp
    then have "m (cwd + i) = m (line + i)"
      using ends(1-3) holds_nth[OF assms(1), of i] holds_nth[OF assms(2), of i] by (simp add: nth_append)
    then show ?case using Suc i ends(2) room by (subst common_length.simps) simp
  qed
  then show ?thesis by simp
qed

lemma back_to_slash_found:
  assumes "m a = SLASH" and "a \<le> b"
  obtains a' where "back_to_slash m b = Some a'" "a \<le> a'" "a' \<le> b" "m a' = SLASH" "\<And>x. a' < x \<Longrightarrow> x \<le> b \<Longrightarrow> m x \<noteq> SLASH"
proof -
  have "\<exists>a'. back_to_slash m b = Some a' \<and> a \<le> a' \<and> a' \<le> b \<and> m a' = SLASH \<and> (\<forall>x. a' < x \<and> x \<le> b \<longrightarrow> m x \<noteq> SLASH)"
    using assms(2)
  proof (induction b)
    case (Suc b)
    show ?case
    proof (cases "m (Suc b) = SLASH")
      case False
      then have "a \<le> b" using assms(1) Suc.prems by (metis le_SucE)
      then show ?thesis using Suc.IH False by (auto simp: le_Suc_eq)
    qed (use Suc.prems in auto)
  qed (use assms(1) in auto)
  then show ?thesis using that by blast
qed

text \<open>The line shares a string with the directory; its last slash decides.\<close>

lemma last_slash:
  fixes q :: string
  defines "r \<equiv> dropWhile (\<lambda>c. c \<noteq> SLASH) (rev q)"
  shows "length r \<le> length q" "r \<noteq> [] \<Longrightarrow> q ! (length r - 1) = SLASH"
    "\<And>i. length r \<le> i \<Longrightarrow> i < length q \<Longrightarrow> q ! i \<noteq> SLASH"
proof -
  let ?t = "takeWhile (\<lambda>c. c \<noteq> SLASH) (rev q)"
  have q: "q = rev r @ rev ?t" unfolding r_def by (metis rev_append rev_rev_ident takeWhile_dropWhile_id)
  show "length r \<le> length q" by (subst q) simp
  show "q ! (length r - 1) = SLASH" if "r \<noteq> []"
  proof -
    have "hd r = SLASH" using that hd_dropWhile[of "\<lambda>c. c \<noteq> SLASH" "rev q"] by (auto simp: r_def)
    then have "last (rev r) = SLASH" using that by (simp add: last_rev)
    then show ?thesis using that by (subst q) (simp add: nth_append last_conv_nth)
  qed
  show "q ! i \<noteq> SLASH" if "length r \<le> i" "i < length q" for i
  proof -
    have "q ! i = rev ?t ! (i - length r)" using that(1) by (subst q) (simp add: nth_append)
    moreover have "length q = length r + length ?t" using arg_cong[OF q, of length] by simp
    then have "i - length r < length (rev ?t)" using that by simp
    ultimately have "q ! i \<in> set ?t" by (metis nth_mem set_rev)
    then show ?thesis using set_takeWhileD by fastforce
  qed
qed

lemma cut_common_holds:
  assumes "holds m cwd (w @ ''/'')" and "holds m line p" and "cwd + length w < line" and "p \<noteq> w @ ''/''"
  shows "\<exists>l. cut_common m cwd line = Some l \<and> holds m l (common_cut (w @ ''/'') p)"
proof -
  let ?w = "w @ ''/''"
  let ?q = "longest_common_prefix ?w p"
  let ?r = "dropWhile (\<lambda>c. c \<noteq> SLASH) (rev ?q)"
  have len: "common_length m cwd line 0 = Some (length ?q)"
    by (rule common_length_holds[OF assms(1,2)]) (use assms(4) in simp)
  have nul: "NUL \<notin> set ?w" "NUL \<notin> set p" using assms(1,2) unfolding holds_def by blast+
  note ends = common_prefix_ends[OF nul assms(4)[symmetric]]
  have q: "?q = take (length ?q) p"
    using longest_common_prefix_prefix2[of ?w p] unfolding prefix_def by (metis append_eq_conv_conj)
  have in_line: "m (line + i) = ?q ! i" if "i < length ?q" for i
    using holds_nth[OF assms(2), of i] that ends(2) arg_cong[OF q, of "\<lambda>x. x ! i"] by (simp add: nth_append)
  have "m (cwd + length w) = SLASH" using holds_nth[OF assms(1), of "length w"] by (simp add: nth_append)
  moreover have "cwd + length w \<le> line + length ?q - 1" using assms(3) by simp
  ultimately obtain a where a0: "cwd + length w \<le> a"
    and a: "back_to_slash m (line + length ?q - 1) = Some a" "a \<le> line + length ?q - 1" "m a = SLASH" "\<And>x. a < x \<Longrightarrow> x \<le> line + length ?q - 1 \<Longrightarrow> m x \<noteq> SLASH"
    by (rule back_to_slash_found) blast
  note slash = last_slash[of ?q]
  have cut: "cut_common m cwd line = Some (if line < a then a + 1 else line)"
    using len a(1) assms(3) by (simp add: cut_common_def)
  show ?thesis
  proof (cases "?r = []")
    case True
    have "a < line"
    proof (rule ccontr)
      assume "\<not> a < line"
      then have "a - line < length ?q" "m a = ?q ! (a - line)" using a(2) assms(3) in_line[of "a - line"] by auto
      then show False using slash(3)[of "a - line"] True a(3) by simp
    qed
    moreover have "common_cut ?w p = p" unfolding common_cut_def Let_def True by simp
    ultimately show ?thesis using cut assms(2) by simp
  next
    case False
    let ?j = "length ?r - 1"
    have "0 < length ?r" using False by blast
    then have j: "?j < length ?q" using slash(1) by linarith
    have at: "m (line + ?j) = SLASH" using in_line[OF j] slash(2)[OF False] by simp
    have "line + ?j \<le> line + length ?q - 1" using j by linarith
    then have "\<not> a < line + ?j" using a(4)[of "line + ?j"] at by blast
    then have "line + ?j \<le> a" by (simp only: not_less)
    moreover have "a \<le> line + ?j"
    proof (rule ccontr)
      assume "\<not> a \<le> line + ?j"
      then have "a - line < length ?q" "m a = ?q ! (a - line)" "length ?r \<le> a - line"
        using a(2) assms(3) in_line[of "a - line"] False by auto
      then show False using slash(3)[of "a - line"] a(3) by simp
    qed
    ultimately have "a = line + ?j" by simp
    then have l: "(if line < a then a + 1 else line) = line + (if 1 < length ?r then length ?r else 0)"
      using False by (cases ?r) auto
    have "length ?r \<le> length p" using slash(1) ends(2) by (rule order.trans)
    then have "holds m (line + (if 1 < length ?r then length ?r else 0)) (common_cut ?w p)"
      using holds_drop[OF assms(2)] assms(2) by (simp add: common_cut_def Let_def)
    then show ?thesis using cut l by simp
  qed
qed

lemma find_up_suffix: "find_up s = Some t \<Longrightarrow> suffix t s \<and> take 3 t = ''../''"
proof (induction s rule: find_up.induct)
  case (1 s)
  have "find_up s = (if take 3 s = ''../'' then Some s else case s of [] \<Rightarrow> None | c # cs \<Rightarrow> find_up cs)"
    by (rule find_up.simps)
  with 1 show ?case by (auto split: if_splits list.splits intro: suffix_ConsI)
qed

lemma skip_up_suffix: "suffix (skip_up s) s"
proof (induction s rule: skip_up.induct)
  case (1 s)
  show ?case
    using 1 suffix_drop[of 3 s] by (subst skip_up.simps) (auto intro: suffix_order.trans)
qed

lemma relative_cut_suffix: "suffix (relative_cut p) p"
  using find_up_suffix[of p] suffix_order.trans[OF skip_up_suffix suffix_order.trans[OF suffix_drop]]
  by (auto simp: relative_cut_def split: option.split)

lemma holds_suffix: "holds m p s \<Longrightarrow> suffix t s \<Longrightarrow> holds m (p + (length s - length t)) t"
  using holds_drop[of m p s "length s - length t"] by (auto simp: suffix_def)

lemma cut_relative_holds:
  assumes "holds m line p" shows "holds m (cut_relative m line) (relative_cut p)"
  using holds_suffix[OF assms relative_cut_suffix] assms
  by (auto simp: cut_relative_def relative_cut_def holds_text Let_def split: option.splits)

text \<open>The paths of the stack trace, with the settings \<open>Robot\<close> makes: however the search for a slash runs back over
  the line, it ends, and what is printed is the line without the directories it shares with the current
  one and without what precedes its first run of steps upwards.\<close>

theorem shorten_path_correct:
  assumes "holds m cwd (w @ ''/'')" and "holds m line p" and "cwd + length w < line" and "p \<noteq> w @ ''/''"
    and "dh_cut_common_path_root dh" and "dh_cut_relative_paths dh"
  shows "\<exists>l. shorten_path dh m cwd line = Some l \<and> c_text m l = relative_cut (common_cut (w @ ''/'') p)
    \<and> suffix (c_text m l) p"
proof -
  obtain l where l: "cut_common m cwd line = Some l" "holds m l (common_cut (w @ ''/'') p)"
    using cut_common_holds[OF assms(1-4)] by blast
  have "suffix (common_cut (w @ ''/'') p) p" by (simp add: common_cut_def Let_def suffix_drop)
  then have "suffix (relative_cut (common_cut (w @ ''/'') p)) p" using relative_cut_suffix suffix_order.trans by blast
  then show ?thesis
    using l assms(5,6) holds_text(1)[OF cut_relative_holds[OF l(2)]] by (simp add: shorten_path_def)
qed

end
