(* ===== verification/Crash_Report.thy ===== *)
theory Crash_Report
  imports Crash_Trace
begin

text \<open>
  What the stack trace of \<open>Crash_Trace\<close> comes to: the handler's work in its memory realises functions on
  strings. The proofs run over the sequences of \<open>strcat\<close> with rules of total correctness,
  one for each kind of step.
\<close>

section \<open>Total correctness of a sequence of steps\<close>

definition yields :: "'a option \<Rightarrow> ('a \<Rightarrow> bool) \<Rightarrow> bool" where
  "yields r P \<longleftrightarrow> (\<exists>x. r = Some x \<and> P x)"

definition gives :: "'a crash_run \<Rightarrow> crash_output list \<Rightarrow> ('a \<Rightarrow> bool) \<Rightarrow> bool" where
  "gives r out P \<longleftrightarrow> (\<exists>x. r = (out, Inr x) \<and> P x)"

lemma yields_Some: "P x \<Longrightarrow> yields (Some x) P"
  by (simp add: yields_def)

lemma yields_bind: "yields r Q \<Longrightarrow> (\<And>x. Q x \<Longrightarrow> yields (f x) P) \<Longrightarrow> yields (r \<bind> f) P"
  by (auto simp: yields_def)

lemma yields_mono: "yields r Q \<Longrightarrow> (\<And>x. Q x \<Longrightarrow> P x) \<Longrightarrow> yields r P"
  by (auto simp: yields_def)

lemma gives_return: "P x \<Longrightarrow> gives (crash_return x) [] P"
  by (simp add: gives_def crash_return_def)

lemma gives_then:
  "gives r out Q \<Longrightarrow> (\<And>x. Q x \<Longrightarrow> gives (f x) out' P) \<Longrightarrow> gives (crash_then r f) (out @ out') P"
  by (fastforce simp: gives_def crash_then_def)

lemma gives_lift: "yields r P \<Longrightarrow> gives (crash_lift r) [] P"
  by (auto simp: yields_def gives_def crash_lift_def crash_return_def)

lemma then_lift: "yields r Q \<Longrightarrow> (\<And>x. Q x \<Longrightarrow> gives (f x) out P) \<Longrightarrow> gives (crash_then (crash_lift r) f) out P"
  using gives_then[OF gives_lift] by fastforce

lemma then_known [simp]:
  "crash_then (crash_return x) f = f x" "crash_then (crash_lift (Some x)) f = f x" "crash_then (crash_halt c) f = crash_halt c"
  "crash_then (crash_lift None) f = crash_halt Undefined"
  by (simp_all add: crash_then_def crash_return_def crash_lift_def crash_halt_def case_prod_beta)

text \<open>The line being put together at an address, in an area where nothing else is touched.\<close>

definition line_at :: "nat \<Rightarrow> nat \<Rightarrow> string \<Rightarrow> memory \<Rightarrow> memory \<Rightarrow> bool" where
  "line_at d hi s m0 m \<longleftrightarrow> holds m d s \<and> only_changes d hi m0 m"

lemma line_at_start: "holds m d s \<Longrightarrow> line_at d hi s m m"
  by (simp add: line_at_def only_changes_def)

lemma line_at_holds: "line_at d hi s m0 m \<Longrightarrow> holds m d s"
  and line_at_changes: "line_at d hi s m0 m \<Longrightarrow> only_changes d hi m0 m"
  by (simp_all add: line_at_def)

lemma holds_outside:
  "holds m p s \<Longrightarrow> only_changes d hi m m' \<Longrightarrow> p + length s < d \<or> hi < p \<Longrightarrow> holds m' p s"
  by (rule holds_frame) (auto simp: only_changes_def)

lemma strcpy_line:
  assumes "NUL \<notin> set s" and "d + length s \<le> hi" and "hi < kNeededMemory"
  shows "yields (strcpy_text m d s) (line_at d hi s m)"
proof -
  have "d + length s < kNeededMemory" using assms(2,3) by linarith
  from strcpy_holds[OF assms(1) this, of m] obtain m' where m': "strcpy_text m d s = Some m'" "holds m' d s" "only_changes d (d + length s) m m'" .
  have "only_changes d hi m m'" using m'(3) assms(2) by (auto simp: only_changes_def)
  then show ?thesis using m' by (simp add: yields_def line_at_def)
qed

lemma only_changes_widen:
  "only_changes d hi m0 m \<Longrightarrow> only_changes lo' hi' m m' \<Longrightarrow> d \<le> lo' \<Longrightarrow> hi' \<le> hi \<Longrightarrow> only_changes d hi m0 m'"
  by (auto simp: only_changes_def)

lemma strcat_line:
  assumes "line_at d hi s m0 m" and "NUL \<notin> set t" and "d + length s + length t \<le> hi" and "hi < kNeededMemory"
  shows "yields (strcat_text m d t) (line_at d hi (s @ t) m0)"
proof -
  have h: "holds m d s" "only_changes d hi m0 m" and b: "d + length s + length t < kNeededMemory"
    using assms by (simp_all add: line_at_def)
  from strcat_holds[OF h(1) assms(2) b] obtain m' where
    m': "strcat_text m d t = Some m'" "holds m' d (s @ t)" "only_changes d (d + length s + length t) m m'" .
  have "only_changes d hi m0 m'" by (rule only_changes_widen[OF h(2) m'(3)]) (use assms(3) in simp_all)
  then show ?thesis using m' by (simp add: yields_def line_at_def)
qed

lemma strcat_if_line:
  assumes "line_at d hi s m0 m" and "NUL \<notin> set t" and "d + length s + length t \<le> hi" and "hi < kNeededMemory"
  shows "yields (strcat_if b m d t) (line_at d hi (s @ (if b then t else [])) m0)"
  using strcat_line[OF assms] assms(1) by (cases b) (simp_all add: strcat_if_def yields_Some)

text \<open>A string elsewhere in the memory, in front of the area or behind it.\<close>

lemma strcat_from_line:
  assumes "line_at d hi s m0 m" and "holds m src t" and "src + length t < d \<or> d + length s + length t < src"
    and "d + length s + length t \<le> hi" and "hi < kNeededMemory"
  shows "yields (strcat_from m d src) (line_at d hi (s @ t) m0)"
proof -
  have h: "holds m d s" and nul: "NUL \<notin> set t" using assms(1,2) by (simp_all add: line_at_def holds_def)
  have "strcat_from m d src = strcat_text m d t"
    using assms(3) holds_text[OF h] holds_text[OF assms(2)] by (auto simp: strcat_from_def strcat_text_def)
  then show ?thesis using strcat_line[OF assms(1) nul assms(4,5)] by simp
qed

lemma strcat_kept_line:
  assumes "line_at d hi s m0 m" and "holds m0 src t" and "src + length t < d \<or> hi < src"
    and "d + length s + length t \<le> hi" and "hi < kNeededMemory"
  shows "yields (strcat_from m d src) (line_at d hi (s @ t) m0)"
proof -
  have "holds m src t" by (rule holds_outside[OF assms(2) _ assms(3)]) (use assms(1) in \<open>simp add: line_at_def\<close>)
  from strcat_from_line[OF assms(1) this _ assms(4,5)] show ?thesis using assms(3,4) by linarith
qed

lemma line_at_widen: "line_at d hi s m1 m \<Longrightarrow> only_changes lo' hi' m0 m1 \<Longrightarrow> d \<le> lo' \<Longrightarrow> hi \<le> hi' \<Longrightarrow> line_at d hi' s m0 m"
  by (auto simp: line_at_def only_changes_def)

lemma strcat_number_line:
  assumes "line_at d hi s m0 m" and "converted res t m r" and "d + length s + length t < res" and "res + 31 \<le> hi"
    and "hi < kNeededMemory"
  shows "yields (strcat_number m d r) (line_at d hi (s @ t) m0)"
proof -
  obtain m1 p where r: "r = Some (m1, p)" "holds m1 p t" "res \<le> p" "only_changes res (res + 31) m m1"
    using assms(2) by (auto simp: converted_def)
  have h: "holds m d s" "only_changes d hi m0 m" using assms(1) by (simp_all add: line_at_def)
  have "line_at d hi s m0 m1"
    unfolding line_at_def
  proof
    show "holds m1 d s" by (rule holds_outside[OF h(1) r(4)]) (use assms(3) in simp)
    show "only_changes d hi m0 m1" by (rule only_changes_widen[OF h(2) r(4)]) (use assms(3,4) in simp_all)
  qed
  from strcat_from_line[OF this r(2) _ _ assms(5)] show ?thesis
    using assms(3,4) r(1,3) by (simp add: strcat_number_def)
qed

text \<open>The same for a step with more to come; what is left to show of each step is arithmetic.\<close>

lemmas then_strcpy = yields_bind[OF strcpy_line]
  and then_strcat = yields_bind[OF strcat_line]
  and then_strcat_if = yields_bind[OF strcat_if_line]
  and then_strcat_from = yields_bind[OF strcat_from_line]
  and then_strcat_kept = yields_bind[OF strcat_kept_line]
  and then_strcat_number = yields_bind[OF strcat_number_line]

section \<open>Numbers and characters\<close>

definition address_text :: "u64 \<Rightarrow> string" where
  "address_text a = ''0x'' @ number_text HEX_LOWER 16 (unat a)"

definition pid_text :: "int \<Rightarrow> string" where
  "pid_text v = number_text HEX_UPPER 10 (nat v)"

lemma pid_converted:
  assumes "0 \<le> v" and "v < 2147483648" and "res + 31 < kNeededMemory"
  shows "converted res (pid_text v) m (itoa v 10 res m)"
proof -
  have "nat v < nat 10 ^ 30" using assms by simp
  from itoa_text[OF _ _ assms(1) this assms(3)] show ?thesis by (simp add: pid_text_def)
qed

lemma pid_length: "0 \<le> v \<Longrightarrow> v < 2147483648 \<Longrightarrow> length (pid_text v) \<le> 10"
  unfolding pid_text_def by (rule number_length) simp_all

lemma address_length: "length (address_text a) \<le> 18"
proof -
  have "unat a < 16 ^ 16" using unsigned_less[of a] by simp
  then have "length (number_text HEX_LOWER 16 (unat a)) \<le> 16" by (intro number_length) simp_all
  then show ?thesis by (simp add: address_text_def)
qed

lemma ptoa_holds:
  assumes "res + 63 < kNeededMemory"
  shows "yields (ptoa a res m) (\<lambda>(m', p). p = res \<and> holds m' res (address_text a) \<and> only_changes res (res + 63) m m')"
proof -
  let ?t = "number_text HEX_LOWER 16 (unat a)"
  have a: "unat a < 16 ^ 16" using unsigned_less[of a] by simp
  have len: "length ?t \<le> 16" using a by (intro number_length) simp_all
  have "converted (res + 32) ?t m (utoa a 16 (res + 32) m)"
    by (rule utoa_text) (use a assms in simp_all)
  then obtain m1 p where m1: "utoa a 16 (res + 32) m = Some (m1, p)" "holds m1 p ?t" "only_changes (res + 32) (res + 32 + 31) m m1"
    unfolding converted_def by blast
  have nul: "NUL \<notin> set ?t" using m1(2) by (simp add: holds_def)
  have room: "res + 2 + length ?t < kNeededMemory" using len assms by linarith
  from strcpy_holds[OF nul room, of m1] obtain m2 where
    m2: "c_write m1 (res + 2) (?t @ [NUL]) = Some m2" "holds m2 (res + 2) ?t" "only_changes (res + 2) (res + 2 + length ?t) m1 m2"
    by (auto simp: strcpy_text_def)
  let ?m = "m2(res := CHR ''0'', res + 1 := CHR ''x'')"
  have "ptoa a res m = Some (?m, res)" using m2(1) by (simp add: ptoa_def m1(1) holds_text[OF m1(2)])
  moreover have "holds ?m res (address_text a)"
    using m2(2) nul by (auto simp: holds_def address_text_def nth_Cons NUL_def split: nat.split)
  moreover have "only_changes res (res + 63) m ?m" using m1(3) m2(3) len by (auto simp: only_changes_def)
  ultimately show ?thesis by (simp add: yields_def)
qed

definition split_at :: "char \<Rightarrow> string \<Rightarrow> (string \<times> string) option" where
  "split_at c s = (if c \<in> set s then Some (takeWhile (\<lambda>d. d \<noteq> c) s, tl (dropWhile (\<lambda>d. d \<noteq> c) s)) else None)"

lemma split_at_Some:
  assumes "split_at c s = Some (f, l)" shows "s = f @ c # l" "c \<notin> set f"
proof -
  let ?d = "dropWhile (\<lambda>d. d \<noteq> c) s"
  have c: "c \<in> set s" and f: "f = takeWhile (\<lambda>d. d \<noteq> c) s" and l: "l = tl ?d"
    using assms by (simp_all add: split_at_def split: if_splits)
  have d: "?d \<noteq> []" using c by (simp add: dropWhile_eq_Nil_conv)
  then have "hd ?d = c" using hd_dropWhile by blast
  then have "?d = c # l" using d l by (metis list.collapse)
  then show "s = f @ c # l" using takeWhile_dropWhile_id[of "\<lambda>d. d \<noteq> c" s] f by simp
  show "c \<notin> set f" using f set_takeWhileD by fastforce
qed

lemma strchr_holds:
  assumes "holds m p s"
  shows "c_strchr m p c = Some (case split_at c s of None \<Rightarrow> None | Some (f, l) \<Rightarrow> Some (p + length f))"
proof (cases "c \<in> set s")
  case True
  then have "0 < length (dropWhile (\<lambda>d. d \<noteq> c) s)" by (simp add: dropWhile_eq_Nil_conv)
  then have "length (takeWhile (\<lambda>d. d \<noteq> c) s) < length s"
    using arg_cong[OF takeWhile_dropWhile_id[of "\<lambda>d. d \<noteq> c" s], of length, unfolded length_append] by linarith
  then show ?thesis using True holds_text[OF assms] by (simp add: c_strchr_def split_at_def)
next
  case False
  then have "takeWhile (\<lambda>d. d \<noteq> c) s = s" by (auto simp: takeWhile_eq_all_conv)
  then have "\<not> length (takeWhile (\<lambda>d. d \<noteq> c) s) < length s" by (simp only: less_irrefl not_False_eq_True)
  then show ?thesis using False holds_text[OF assms] by (simp only: c_strchr_def split_at_def Let_def) simp
qed

lemma holds_append: "holds m p (s @ t) \<Longrightarrow> holds m (p + length s) t"
  using holds_drop[of m p "s @ t" "length s"] by simp

lemma holds_join:
  assumes "holds m (p + length s) t" and "NUL \<notin> set s" and "\<And>i. i < length s \<Longrightarrow> m (p + i) = s ! i"
  shows "holds m p (s @ t)"
proof -
  have "m (p + i) = (s @ t) ! i" if "i < length (s @ t)" for i
  proof (cases "i < length s")
    case False
    then obtain j where j: "i = length s + j" using le_Suc_ex not_less by blast
    then show ?thesis using assms(1) that by (simp add: holds_def nth_append add.assoc)
  qed (use assms(3) in \<open>simp add: nth_append\<close>)
  then show ?thesis using assms(1,2) by (simp add: holds_def add.assoc)
qed

lemma holds_cut: "holds m p (s @ c # t) \<Longrightarrow> holds (m(p + length s := NUL)) p s \<and> holds (m(p + length s := NUL)) (p + length s + 1) t"
  using holds_append[of m p "s @ [c]" t] by (auto simp: holds_def nth_append)

lemma cut_last_holds:
  assumes "holds m p s" and "0 < p"
  shows "yields (cut_last m p) (\<lambda>m'. holds m' p (butlast s) \<and> only_changes (p + length s - 1) (p + length s - 1) m m')"
proof -
  let ?m = "m(p + length s - 1 := NUL)"
  have "cut_last m p = Some ?m" using assms holds_text(2)[OF assms(1)] by (simp add: cut_last_def)
  moreover have "holds ?m p (butlast s)"
  proof (cases s rule: rev_cases)
    case Nil
    then show ?thesis using assms by (auto simp: holds_def)
  next
    case (snoc t c)
    then show ?thesis using holds_cut[of m p t c "[]"] assms(1) by simp
  qed
  ultimately show ?thesis by (simp add: yields_def only_changes_def)
qed

text \<open>A new end for a line.\<close>

lemma strcpy_tail:
  assumes "holds m d (f @ l)" and "NUL \<notin> set t" and "d + length f + length t \<le> hi" and "hi < kNeededMemory"
  shows "yields (strcpy_text m (d + length f) t) (line_at d hi (f @ t) m)"
  using strcpy_line[OF assms(2-4), of m]
proof (rule yields_mono)
  fix m' assume m': "line_at (d + length f) hi t m m'"
  have "m (d + i) = f ! i" if "i < length f" for i using that holds_nth[OF assms(1), of i] by (simp add: nth_append)
  then have "holds m' d (f @ t)"
    using m' assms(1) by (intro holds_join) (auto simp: line_at_def only_changes_def holds_def)
  then show "line_at d hi (f @ t) m m'" using m' by (auto simp: line_at_def only_changes_def)
qed

section \<open>What addr2line leaves\<close>

definition resolved_text :: "bool \<Rightarrow> string \<Rightarrow> u64 \<Rightarrow> string \<Rightarrow> string" where
  "resolved_text color img a s =
     (if take 1 s = ''?''
      then (if color then GREEN else s) @ address_text a @ (if color then PLAIN else []) @ '' at '' @ img @ '' ''
      else case split_at NL s of
             None \<Rightarrow> s
           | Some (f, l) \<Rightarrow> if take 1 l = ''?'' then f @ [NL] @ img @ '':'' @ address_text a @ [NL] else s)"

lemma painted: "NUL \<notin> set RED" "NUL \<notin> set YELLOW" "NUL \<notin> set PLAIN" "NUL \<notin> set GREEN" "NUL \<notin> set BLUE"
  "length RED = 7" "length YELLOW = 7" "length PLAIN = 4" "length GREEN = 7" "length BLUE = 7" "NUL \<noteq> NL" "NL \<noteq> NUL"
  by (simp_all add: RED_def YELLOW_def PLAIN_def GREEN_def BLUE_def ESC_def NUL_def NL_def)

lemma unresolved_address_holds:
  assumes "holds m line s" and "NUL \<notin> set img" and "line + length s + length img + 50 \<le> memory" and "memory + 63 < kNeededMemory"
  shows "yields (unresolved_address color img a m line memory)
     (line_at line (memory + 63) ((if color then GREEN else s) @ address_text a @ (if color then PLAIN else []) @ '' at '' @ img @ '' '') m)"
proof -
  let ?s = "if color then GREEN else s" and ?hi = "memory + 63"
  have "yields ((if color then strcpy_text m1 line GREEN else Some m1)) (\<lambda>m2. line_at line ?hi ?s m m2 \<and> holds m2 memory (address_text a))"
    if m1: "holds m1 memory (address_text a)" "only_changes memory ?hi m m1" for m1
  proof (cases color)
    case True
    have "line + length GREEN \<le> line + 7" "line + 7 < kNeededMemory" using assms(3,4) by (simp_all add: painted)
    from strcpy_line[OF painted(4) this, of m1] show ?thesis
    proof (simp only: True if_True, rule yields_mono, intro conjI)
      fix m2 assume m2: "line_at line (line + 7) GREEN m1 m2"
      show "line_at line ?hi GREEN m m2" using m1(2) m2 assms(3) by (auto simp: line_at_def only_changes_def)
      show "holds m2 memory (address_text a)"
        by (rule holds_outside[OF m1(1)]) (use m2 assms(3) in \<open>auto simp: line_at_def\<close>)
    qed
  next
    case False
    have "holds m1 line s" by (rule holds_outside[OF assms(1) m1(2)]) (use assms(3) in simp)
    then show ?thesis using m1 False assms(3) by (auto simp: line_at_def only_changes_def yields_Some)
  qed
  moreover have "length ?s \<le> length s + 7" by (simp add: painted)
  ultimately show ?thesis
    using assms address_length[of a]
    unfolding unresolved_address_def
    apply -
    apply (rule yields_bind[OF ptoa_holds], simp)
    apply (clarsimp simp only: prod.case)
    apply (rule yields_bind, assumption)
    apply (erule conjE)
    apply (rule then_strcat_from, assumption, assumption, simp, simp, simp)
    apply (rule then_strcat_if, assumption, simp add: painted, simp add: painted, simp)
    apply (rule then_strcat, assumption, simp add: NUL_def, simp add: painted, simp)
    apply (rule then_strcat, assumption, simp, simp add: painted, simp)
    apply (rule yields_mono[OF strcat_line], assumption, simp add: NUL_def, simp add: painted, simp)
    apply simp
    done
qed

lemma unresolved_line_holds:
  assumes "holds m line (f @ NL # l)" and "NUL \<notin> set img" and "line + length f + length l + length img + 60 \<le> memory"
    and "memory + 63 < kNeededMemory"
  shows "yields (unresolved_line img a m line memory (line + length f))
     (line_at line (memory + 63) (f @ [NL] @ img @ '':'' @ address_text a @ [NL]) m)"
proof -
  let ?hi = "memory - 1"
  have copy: "yields (strcpy_text m1 (line + length f + 1) img) (line_at line ?hi ((f @ [NL]) @ img) m1)"
    if m1: "only_changes memory (memory + 63) m m1" for m1
  proof -
    have "holds m1 line ((f @ [NL]) @ l)" using holds_outside[OF assms(1) m1] assms(3) by simp
    from strcpy_tail[OF this assms(2), of ?hi] show ?thesis using assms(3,4) by (simp add: add.assoc)
  qed
  show ?thesis
    using assms address_length[of a]
    unfolding unresolved_line_def
    apply -
    apply (rule yields_bind[OF ptoa_holds], simp)
    apply (clarsimp simp only: prod.case)
    apply (rule yields_bind[OF copy], assumption)
    apply (rule then_strcat, assumption, simp add: NUL_def, simp, simp)
    apply (rule then_strcat_kept, assumption, assumption, simp, simp, simp)
    apply (rule yields_mono[OF strcat_line], assumption, simp add: painted, simp, simp)
    apply (simp only: append_assoc, rule line_at_widen, assumption, assumption, simp, simp)
    done
qed

lemma take_1: "take 1 s = [c] \<longleftrightarrow> (\<exists>t. s = c # t)"
  by (cases s) auto

lemma holds_head:
  assumes "holds m p s" and "c \<noteq> NUL" shows "m p = c \<longleftrightarrow> take 1 s = [c]"
  using holds_nth[OF assms(1), of 0] assms(2) by (cases s) auto

definition answer_fits :: "string \<Rightarrow> string \<Rightarrow> bool" where
  "answer_fits img s \<longleftrightarrow> NUL \<notin> set s \<and> NUL \<notin> set img \<and> s \<noteq> [] \<and> length s + length img + 100 \<le> line_max_length
     \<and> (take 1 s = ''?'' \<or> NL \<in> set s)"

lemma resolve_holds:
  assumes "holds m line s" and "answer_fits img s" and "line + line_max_length + 63 < kNeededMemory"
  shows "yields (resolve color img a m line (line + line_max_length))
     (line_at line (line + line_max_length + 63) (resolved_text color img a s) m)"
proof (cases "take 1 s = ''?''")
  case True
  have "m line = CHR ''?''" using holds_head[OF assms(1), of "CHR ''?''"] True by (simp add: NUL_def)
  then show ?thesis
    using unresolved_address_holds[OF assms(1)] assms(2,3) True by (simp add: resolve_def resolved_text_def answer_fits_def)
next
  case False
  have "m line \<noteq> CHR ''?''" using holds_head[OF assms(1), of "CHR ''?''"] False by (simp add: NUL_def)
  moreover obtain f l where fl: "split_at NL s = Some (f, l)" using False assms(2) by (auto simp: answer_fits_def split_at_def)
  note s = split_at_Some[OF fl]
  have h: "holds m (line + length f + 1) l" using holds_append[of m line "f @ [NL]" l] assms(1) s(1) by simp
  have "m (line + length f + 1) = CHR ''?'' \<longleftrightarrow> take 1 l = ''?''"
    using holds_head[OF h, of "CHR ''?''"] by (simp add: NUL_def)
  moreover have "yields (unresolved_line img a m line (line + line_max_length) (line + length f))
     (line_at line (line + line_max_length + 63) (f @ [NL] @ img @ '':'' @ address_text a @ [NL]) m)"
    by (rule unresolved_line_holds) (use assms s(1) in \<open>auto simp: answer_fits_def\<close>)
  ultimately show ?thesis
    using False fl strchr_holds[OF assms(1), of NL] line_at_start[OF assms(1)]
    by (auto simp: resolve_def resolved_text_def yields_Some)
qed

lemma addr2line_holds:
  assumes "ce_addr2line e img (address_text a) = Read_Bytes s True" and "answer_fits img s"
    and "line + line_max_length + 63 < kNeededMemory"
  shows "gives (addr2line e color img a m line) []
     (line_at line (line + line_max_length + 63) (resolved_text color img a s) m)"
proof -
  have s: "take line_max_length s = s" "s \<noteq> []" "NUL \<notin> set s" "line + length s < kNeededMemory"
    using assms(2,3) by (simp_all add: answer_fits_def)
  let ?m1 = "poke m line s" and ?m2 = "(poke m line s)(line + length s := NUL)"
  have m2: "holds ?m2 line s" using s(3,4) by (auto simp: holds_def poke_def)
  have w: "c_write m line s = Some ?m1" "terminate_line (int (length s)) ?m1 line = Some ?m2"
    using s(4) by (simp_all add: c_write_def terminate_line_def nat_plus_as_int)
  have ch: "only_changes line (line + line_max_length + 63) m ?m2"
    using assms(2) by (auto simp: only_changes_def poke_def answer_fits_def)
  have "yields (resolve color img a ?m2 line (line + line_max_length))
     (line_at line (line + line_max_length + 63) (resolved_text color img a s) m)"
    using resolve_holds[OF m2 assms(2,3), of color a]
    by (rule yields_mono) (use ch in \<open>auto simp: line_at_def only_changes_def\<close>)
  then have run: "gives (addr2line_read color img a (int (length s)) True ?m1 line) []
     (line_at line (line + line_max_length + 63) (resolved_text color img a s) m)"
    using s(2) w(2) by (simp add: addr2line_read_def then_lift[OF yields_Some] gives_lift)
  have p: "yields (ptoa a line m) (\<lambda>(m', p). c_text m' p = address_text a)"
    by (rule yields_mono[OF ptoa_holds]) (use assms(3) holds_text(1) in \<open>auto simp: line_max_length_def\<close>)
  show ?thesis
    unfolding addr2line_def
    by (rule then_lift[OF p]) (use run s(1) w(1) assms(1) in \<open>auto simp: then_lift[OF yields_Some]\<close>)
qed

section \<open>The line of a function\<close>

abbreviation paint :: "death_handler \<Rightarrow> string \<Rightarrow> string" where
  "paint dh code \<equiv> (if dh_color_output dh then code else [])"

definition name_text :: "death_handler \<Rightarrow> int \<Rightarrow> string \<Rightarrow> string" where
  "name_text dh ppid f =
     paint dh BLUE @ ''['' @ f @ '']'' @ (if dh_append_pid dh then paint dh (PLAIN @ YELLOW) @ '' ('' @ pid_text ppid @ '')'' else [])
     @ paint dh PLAIN @ [NL]"

lemma name_line_holds:
  assumes "holds m line f" and "line + length f < msg" and "msg + length f + 600 < kNeededMemory"
    and "0 \<le> ppid" and "ppid < 2147483648" and "dh_append_pid dh \<Longrightarrow> length f < 480"
  shows "yields (name_line dh ppid m msg line) (line_at msg (msg + length f + 600) (name_text dh ppid f) m)"
proof -
  let ?hi = "msg + length f + 600"
  have len: "length (paint dh BLUE) \<le> 7" "length (paint dh (PLAIN @ YELLOW)) \<le> 11" "length (paint dh PLAIN) \<le> 4" by (simp_all add: painted)
  have pid: "length (pid_text ppid) \<le> 10" "converted (msg + name_max_length) (pid_text ppid) m' (itoa ppid 10 (msg + name_max_length) m')" for m'
    using pid_length[OF assms(4,5)] pid_converted[OF assms(4,5)] assms(3) by (simp_all add: name_max_length_def)
  show ?thesis
    using assms(1-3) len pid(1) assms(6)
    unfolding name_line_def Let_def
    apply -
    apply (rule then_strcpy[where hi = ?hi], simp add: painted, simp, assumption)
    apply (rule then_strcat, assumption, simp add: NUL_def, simp, assumption)
    apply (rule then_strcat_kept, assumption, assumption, simp, simp, assumption)
    apply (rule then_strcat, assumption, simp add: NUL_def, simp, assumption)
    apply (cases "dh_append_pid dh")
     apply (simp only: if_True)
     apply (rule then_strcat_if, assumption, simp add: painted, simp add: painted, assumption)
     apply (rule then_strcat, assumption, simp add: NUL_def, simp add: painted, assumption)
     apply (rule then_strcat_number, assumption, rule pid, simp add: name_max_length_def, simp add: name_max_length_def, assumption)
     apply (rule then_strcat, assumption, simp add: NUL_def, simp, assumption)
     apply (rule then_strcat_if, assumption, simp add: painted, simp add: painted, assumption)
     apply (rule yields_mono[OF strcat_line], assumption, simp add: painted, simp add: painted, assumption)
     apply (simp add: name_text_def Let_def)
    apply (simp only: if_False)
    apply (rule then_strcat_if, assumption, simp add: painted, simp add: painted, assumption)
    apply (rule yields_mono[OF strcat_line], assumption, simp add: painted, simp add: painted, assumption)
    apply (simp add: name_text_def Let_def)
    done
qed

section \<open>The line of a place\<close>

definition mark_text :: "string \<Rightarrow> string" where
  "mark_text p = (case split_at (CHR '':'') p of None \<Rightarrow> p
     | Some (f, n) \<Rightarrow> f @ GREEN @ butlast (CHR '':'' # n) @ PLAIN @ [NL])"

lemma mark_number_holds:
  assumes "holds m line p" and "line + length p + 20 \<le> memory" and "memory + length p < kNeededMemory"
  shows "yields (mark_number m line memory) (line_at line (memory + length p) (mark_text p) m)"
proof (cases "split_at (CHR '':'') p")
  case None
  then show ?thesis
    using strchr_holds[OF assms(1)] line_at_start[OF assms(1)] by (simp add: mark_number_def mark_text_def yields_Some)
next
  case (Some fn)
  then obtain f n where fn: "split_at (CHR '':'') p = Some (f, n)" by (cases fn) auto
  note p = split_at_Some(1)[OF fn]
  let ?n = "CHR '':'' # n" and ?hi = "memory + length p"
  have n: "holds m (line + length f) ?n" using holds_append[of m line f ?n] assms(1) p by simp
  have nul: "NUL \<notin> set ?n" and len: "length p = length f + length ?n" using n p by (simp_all add: holds_def)
  have "strcpy_from m memory (line + length f) = strcpy_text m memory ?n"
    using holds_text[OF n] assms(2) len by (simp add: strcpy_from_def strcpy_text_def)
  moreover have "yields (strcpy_text m memory ?n) (line_at memory ?hi ?n m)"
    by (rule strcpy_line[OF nul]) (use assms(3) len in simp_all)
  ultimately have c1: "yields (strcpy_from m memory (line + length f)) (line_at memory ?hi ?n m)" by simp
  have c2: "yields (cut_last m1 memory) (line_at memory ?hi (butlast ?n) m)" if "line_at memory ?hi ?n m m1" for m1
    by (rule yields_mono[OF cut_last_holds])
      (use that assms(2) len in \<open>auto simp: line_at_def only_changes_def\<close>)
  have c3: "yields (strcpy_text m2 (line + length f) GREEN)
      (line_at line (memory - 1) (f @ GREEN) m2)" if "line_at memory ?hi (butlast ?n) m m2" for m2
  proof (rule strcpy_tail[where l = ?n])
    show "holds m2 line (f @ ?n)"
      by (rule holds_outside[of m line _ memory ?hi]) (use that assms(1,2) p len in \<open>auto simp: line_at_def\<close>)
  qed (use assms(2,3) len in \<open>simp_all add: painted\<close>)
  define c where "c = butlast ?n"
  have "length c + 1 = length ?n" by (simp add: c_def)
  then have room: "line + length (f @ GREEN) + length c + length (PLAIN @ [NL]) \<le> memory - 1" "memory - 1 < kNeededMemory"
    "memory - 1 < memory" "memory - 1 \<le> ?hi"
    using assms(2,3) len by (simp_all add: painted)
  have run: "yields (mark_number m line memory) (line_at line ?hi (f @ GREEN @ c @ PLAIN @ [NL]) m)"
    unfolding mark_number_def strchr_holds[OF assms(1)] fn
    using room
    apply (simp only: option.case prod.case bind.bind_lunit)
    apply (rule yields_bind[OF c1])
    apply (rule yields_bind[OF c2[folded c_def]], assumption)
    apply (rule yields_bind[OF c3[folded c_def]], assumption)
    apply (rule then_strcat_kept, assumption, erule line_at_holds, rule disjI2, assumption, simp, assumption)
    apply (rule yields_mono[OF strcat_line], assumption, simp add: painted, simp, assumption)
    apply (simp only: append_assoc, rule line_at_widen, assumption, erule line_at_changes, simp, assumption)
    done
  then show ?thesis using fn by (simp add: mark_text_def c_def)
qed

definition end_text :: "death_handler \<Rightarrow> int \<Rightarrow> string \<Rightarrow> string" where
  "end_text dh ppid p =
     butlast p @ (if dh_append_pid dh then '' '' @ paint dh YELLOW @ ''('' @ pid_text ppid @ '')'' @ paint dh PLAIN else []) @ [NL]"

lemma append_pid_line:
  assumes "line_at line (memory + 31) b m m" and "line + length b + 40 \<le> memory" and "memory + 31 < kNeededMemory"
    and "0 \<le> ppid" and "ppid < 2147483648"
  shows "yields (append_pid dh ppid m line memory) (line_at line (memory + 31)
     (b @ (if dh_append_pid dh then '' '' @ paint dh YELLOW @ ''('' @ pid_text ppid @ '')'' @ paint dh PLAIN else [])) m)"
proof -
  have len: "length (paint dh YELLOW) \<le> 7" "length (paint dh PLAIN) \<le> 4" by (simp_all add: painted)
  have pid: "length (pid_text ppid) \<le> 10" "converted memory (pid_text ppid) m' (itoa ppid 10 memory m')" for m'
    using pid_length[OF assms(4,5)] pid_converted[OF assms(4,5)] assms(3) by simp_all
  show ?thesis
    using assms(1-3) len pid(1)
    unfolding append_pid_def
    apply -
    apply (cases "dh_append_pid dh")
     apply (simp only: if_True)
     apply (rule then_strcat, assumption, simp add: NUL_def, simp, assumption)
     apply (rule then_strcat_if, assumption, simp add: painted, simp add: painted, assumption)
     apply (rule then_strcat, assumption, simp add: NUL_def, simp, assumption)
     apply (rule then_strcat_number, assumption, rule pid, simp, simp, assumption)
     apply (rule then_strcat, assumption, simp add: NUL_def, simp, assumption)
     apply (rule yields_mono[OF strcat_if_line], assumption, simp add: painted, simp add: painted, assumption)
     apply (simp only: append_assoc if_True)
    apply (simp add: yields_Some)
    done
qed

lemma end_line_holds:
  assumes "holds m line p" and "0 < line" and "line + length p + 40 \<le> memory" and "memory + 31 < kNeededMemory"
    and "0 \<le> ppid" and "ppid < 2147483648"
  shows "yields (end_line dh ppid m line memory)
    (\<lambda>m'. holds m' line (end_text dh ppid p) \<and> only_changes (min line (line + length p - 1)) (memory + 31) m m')"
  unfolding end_line_def
proof (rule yields_bind[OF cut_last_holds[OF assms(1,2)]], elim conjE)
  fix m1 assume m1: "holds m1 line (butlast p)" "only_changes (line + length p - 1) (line + length p - 1) m m1"
  let ?t = "butlast p @ (if dh_append_pid dh then '' '' @ paint dh YELLOW @ ''('' @ pid_text ppid @ '')'' @ paint dh PLAIN else [])"
  have len: "length (pid_text ppid) \<le> 10" using pid_length[OF assms(5,6)] .
  have "yields (append_pid dh ppid m1 line memory) (line_at line (memory + 31) ?t m1)"
    by (rule append_pid_line[OF line_at_start[OF m1(1)] _ assms(4-6)]) (use assms(3) in simp)
  then show "yields (append_pid dh ppid m1 line memory \<bind> (\<lambda>m2. strcat_text m2 line [NL]))
      (\<lambda>m'. holds m' line (end_text dh ppid p) \<and> only_changes (min line (line + length p - 1)) (memory + 31) m m')"
  proof (rule yields_bind)
    fix m2 assume "line_at line (memory + 31) ?t m1 m2"
    then have "yields (strcat_text m2 line [NL]) (line_at line (memory + 31) (?t @ [NL]) m1)"
      by (rule strcat_line) (use assms(3,4) len in \<open>auto simp: painted\<close>)
    then show "yields (strcat_text m2 line [NL])
        (\<lambda>m'. holds m' line (end_text dh ppid p) \<and> only_changes (min line (line + length p - 1)) (memory + 31) m m')"
      by (rule yields_mono) (use m1(2) assms(3) in \<open>auto simp: line_at_def end_text_def Let_def only_changes_def\<close>)
  qed
qed

section \<open>The place, shortened and marked\<close>

definition shorten_text :: "death_handler \<Rightarrow> string \<Rightarrow> string \<Rightarrow> string" where
  "shorten_text dh w p =
     (let q = if dh_cut_common_path_root dh then common_cut (w @ ''/'') p else p
      in if dh_cut_relative_paths dh then relative_cut q else q)"

definition location_text :: "death_handler \<Rightarrow> string \<Rightarrow> string \<Rightarrow> string" where
  "location_text dh w p = (let q = shorten_text dh w p in if dh_color_output dh then mark_text q else q)"

text \<open>Two strings that overlap end together.\<close>

lemma holds_same_end:
  assumes "holds m a s" and "holds m b t" and "a \<le> b" and "b \<le> a + length s"
  shows "b + length t = a + length s"
proof -
  have "holds m b (drop (b - a) s)" using holds_drop[OF assms(1), of "b - a"] assms(3,4) by simp
  then have "t = drop (b - a) s" using holds_text(1)[OF assms(2)] holds_text(1) by simp
  then show ?thesis using assms(3,4) by simp
qed

lemma back_to_slash_le: "back_to_slash m b = Some a \<Longrightarrow> a \<le> b"
  by (induction b) (auto split: if_splits)

lemma cut_common_range:
  assumes "cut_common m cwd line = Some l" and "common_length m cwd line 0 = Some k"
  shows "line \<le> l" "l \<le> line + k"
  using assms back_to_slash_le[of m "line + k - 1"]
  by (auto simp: cut_common_def bind_eq_Some_conv split: if_splits dest!: back_to_slash_le)

lemma cut_relative_range: "holds m line p \<Longrightarrow> line \<le> cut_relative m line \<and> cut_relative m line \<le> line + length p"
  by (auto simp: cut_relative_def holds_text Let_def split: option.split)

lemma shorten_holds:
  assumes "holds m cwd (w @ ''/'')" and "holds m line p" and "cwd + length w < line" and "p \<noteq> w @ ''/''"
  shows "yields (shorten_path dh m cwd line)
    (\<lambda>l. holds m l (shorten_text dh w p) \<and> line \<le> l \<and> l + length (shorten_text dh w p) = line + length p)"
proof -
  have "\<exists>l. (if dh_cut_common_path_root dh then cut_common m cwd line else Some line) = Some l
      \<and> holds m l (if dh_cut_common_path_root dh then common_cut (w @ ''/'') p else p) \<and> line \<le> l \<and> l \<le> line + length p"
  proof (cases "dh_cut_common_path_root dh")
    case True
    obtain l where l: "cut_common m cwd line = Some l" "holds m l (common_cut (w @ ''/'') p)"
      using cut_common_holds[OF assms] by blast
    have k: "common_length m cwd line 0 = Some (length (longest_common_prefix (w @ ''/'') p))"
      by (rule common_length_holds[OF assms(1,2)]) (use assms(4) in simp)
    have "length (longest_common_prefix (w @ ''/'') p) \<le> length p"
      using longest_common_prefix_prefix2 by (rule prefix_length_le)
    then show ?thesis using True l cut_common_range[OF l(1) k] by simp
  qed (use assms(2) in simp)
  then obtain l where l: "(if dh_cut_common_path_root dh then cut_common m cwd line else Some line) = Some l"
    "holds m l (if dh_cut_common_path_root dh then common_cut (w @ ''/'') p else p)" "line \<le> l" "l \<le> line + length p" by blast
  let ?l = "if dh_cut_relative_paths dh then cut_relative m l else l"
  note e = holds_same_end[OF assms(2) l(2-4)]
  have h: "holds m ?l (shorten_text dh w p)"
    using l(2) cut_relative_holds[OF l(2)] by (simp add: shorten_text_def Let_def)
  have r: "line \<le> ?l" "?l \<le> line + length p" using cut_relative_range[OF l(2)] l(3) e by auto
  show ?thesis using l(1) h r holds_same_end[OF assms(2) h r] by (simp add: shorten_path_def yields_Some)
qed

lemma mark_length: "length (mark_text p) \<le> length p + 11"
proof (cases "split_at (CHR '':'') p")
  case (Some fn)
  then obtain f n where fn: "split_at (CHR '':'') p = Some (f, n)" by (cases fn) auto
  show ?thesis unfolding mark_text_def using fn split_at_Some(1)[OF fn] by (simp add: painted)
qed (simp add: mark_text_def)

lemma location_holds:
  assumes "holds m cwd (w @ ''/'')" and "holds m line p" and "cwd + length w < line" and "p \<noteq> w @ ''/''"
    and "line + length p + 20 \<le> memory" and "memory + length p < kNeededMemory"
  shows "yields (frame_location dh m cwd line memory) (\<lambda>(m', l). holds m' l (location_text dh w p) \<and> line \<le> l
     \<and> l + length (location_text dh w p) \<le> line + length p + 11 \<and> only_changes line (memory + length p) m m')"
  unfolding frame_location_def
proof (rule yields_bind[OF shorten_holds[OF assms(1-4)]], elim conjE)
  fix l let ?q = "shorten_text dh w p"
  assume l: "holds m l ?q" "line \<le> l" "l + length ?q = line + length p"
  have "yields (if dh_color_output dh then mark_number m l memory else Some m)
      (\<lambda>m'. holds m' l (location_text dh w p) \<and> only_changes line (memory + length p) m m')"
  proof (cases "dh_color_output dh")
    case True
    have "yields (mark_number m l memory) (line_at l (memory + length ?q) (mark_text ?q) m)"
      by (rule mark_number_holds[OF l(1)]) (use l(2,3) assms(5,6) in simp_all)
    then show ?thesis
      using True l(2,3) by (auto simp: yields_def line_at_def location_text_def Let_def only_changes_def)
  next
    case False
    then show ?thesis using l(1) by (simp add: yields_Some location_text_def Let_def only_changes_def)
  qed
  moreover have "l + length (location_text dh w p) \<le> line + length p + 11"
    using l(3) mark_length[of ?q] by (simp add: location_text_def Let_def)
  ultimately show "yields ((if dh_color_output dh then mark_number m l memory else Some m) \<bind> (\<lambda>m1. Some (m1, l)))
      (\<lambda>(m', l). holds m' l (location_text dh w p) \<and> line \<le> l \<and> l + length (location_text dh w p) \<le> line + length p + 11
        \<and> only_changes line (memory + length p) m m')"
    using l(2) by (auto simp: yields_def)
qed

section \<open>One frame\<close>

definition frame_texts :: "death_handler \<Rightarrow> int \<Rightarrow> string \<Rightarrow> string \<Rightarrow> string list" where
  "frame_texts dh ppid w s =
     (case split_at NL s of
        None \<Rightarrow> [end_text dh ppid s]
      | Some (f, l) \<Rightarrow> [name_text dh ppid f, end_text dh ppid (location_text dh w l)])"

text \<open>An output callback that writes what it is given.\<close>

definition callback_writes :: "crash_env \<Rightarrow> bool" where
  "callback_writes e \<longleftrightarrow> (\<forall>s. s \<noteq> [] \<longrightarrow> 0 < ce_callback e s)"

lemma print_gives: "callback_writes e \<Longrightarrow> s \<noteq> [] \<Longrightarrow> gives (print e s) [Printed s] (\<lambda>_. True)"
  by (auto simp: gives_def print_def callback_writes_def not_le)

lemma print_at_gives:
  assumes "holds m p s" and "callback_writes e" and "s \<noteq> []"
  shows "gives (print_at e m p) [Printed s] (\<lambda>_. True)"
  unfolding print_at_def holds_text[OF assms(1)]
  by (rule then_lift[OF yields_Some, of "\<lambda>_. True"]) (use print_gives[OF assms(2,3)] in simp_all)

lemma texts_nonempty: "name_text dh ppid f \<noteq> []" "end_text dh ppid p \<noteq> []"
  by (simp_all add: name_text_def end_text_def)

lemma end_line_printed:
  assumes "holds m line p" and "lo < line \<or> lo \<le> line \<and> p \<noteq> []" and "0 < line" and "line + length p + 40 \<le> memory"
    and "memory + 31 < kNeededMemory" and "0 \<le> ce_ppid e" and "ce_ppid e < 2147483648" and "callback_writes e"
  shows "gives (print_line dh e m line memory) [Printed (end_text dh (ce_ppid e) p)] (only_changes lo (memory + 31) m)"
  unfolding print_line_def
proof (rule then_lift[OF end_line_holds[OF assms(1,3-7)]], elim conjE)
  fix m3 assume m3: "holds m3 line (end_text dh (ce_ppid e) p)" "only_changes (min line (line + length p - 1)) (memory + 31) m m3"
  have "lo \<le> min line (line + length p - 1)" using assms(2) by (cases p) auto
  then have c: "only_changes lo (memory + 31) m m3" using m3(2) by (auto simp: only_changes_def)
  show "gives (crash_then (print_at e m3 line) (\<lambda>_. crash_return m3)) [Printed (end_text dh (ce_ppid e) p)]
      (only_changes lo (memory + 31) m)"
    using gives_then[OF print_at_gives[OF m3(1) assms(8) texts_nonempty(2)] gives_return[of "only_changes lo (memory + 31) m" m3]] c
    by simp
qed

lemma frame_print_holds:
  assumes line: "holds m line s" "s \<noteq> []" and cwd: "holds m cwd (w @ ''/'')" "cwd + length w + 1 < line"
    and room: "line + length s + 60 \<le> memory" "memory + 5000 < kNeededMemory" "length s \<le> line_max_length"
    and pid: "0 \<le> ce_ppid e" "ce_ppid e < 2147483648" and e: "callback_writes e"
    and place: "\<And>f l. split_at NL s = Some (f, l) \<Longrightarrow> l \<noteq> w @ ''/'' \<and> (dh_append_pid dh \<longrightarrow> length f < 480)"
  shows "gives (frame_print dh e cwd m line memory) (map Printed (frame_texts dh (ce_ppid e) w s))
    (only_changes line (memory + 5000) m)"
proof (cases "split_at NL s")
  case None
  have "gives (print_line dh e m line memory)
     [Printed (end_text dh (ce_ppid e) s)] (only_changes line (memory + 31) m)"
    by (rule end_line_printed) (use line cwd room pid e in simp_all)
  then have "gives (print_line dh e m line memory)
     [Printed (end_text dh (ce_ppid e) s)] (only_changes line (memory + 5000) m)"
    by (auto simp: gives_def only_changes_def)
  then show ?thesis
    using None strchr_holds[OF line(1), of NL]
    by (simp add: frame_print_def frame_texts_def)
next
  case (Some fl)
  then obtain f l where fl: "split_at NL s = Some (f, l)" by (cases fl) auto
  note s = split_at_Some(1)[OF fl] and pl = place[OF fl]
  let ?stop = "line + length f" and ?hi = "memory + 5000"
  let ?m = "m(?stop := NUL)"
  have cut: "holds ?m line f" "holds ?m (?stop + 1) l" using holds_cut[of m line f NL l] line(1) s by simp_all
  have len: "length s = length f + length l + 1" using s by simp
  have nl: "c_strchr m line NL = Some (Some ?stop)" using strchr_holds[OF line(1), of NL] fl by simp
  have cwd': "holds ?m cwd (w @ ''/'')" using cwd by (auto simp: holds_def nth_append)
  have name: "yields (name_line dh (ce_ppid e) ?m memory line) (line_at memory (memory + length f + 600) (name_text dh (ce_ppid e) f) ?m)"
    by (rule name_line_holds[OF cut(1)]) (use room len pid pl in \<open>auto simp: line_max_length_def\<close>)
  have second: "gives (crash_then (print_at e m1 memory) (\<lambda>_. crash_lift (frame_location dh m1 cwd (?stop + 1) memory)))
      [Printed (name_text dh (ce_ppid e) f)]
      (\<lambda>(m2, l'). holds m2 l' (location_text dh w l) \<and> ?stop + 1 \<le> l'
         \<and> l' + length (location_text dh w l) \<le> ?stop + 1 + length l + 11 \<and> only_changes line ?hi m m2)"
    if m1: "line_at memory (memory + length f + 600) (name_text dh (ce_ppid e) f) ?m m1" for m1
  proof -
    note c1 = line_at_changes[OF m1]
    have h: "holds m1 cwd (w @ ''/'')" "holds m1 (?stop + 1) l"
      by (rule holds_outside[OF cwd' c1] holds_outside[OF cut(2) c1], use cwd(2) room(1) len in simp)+
    have loc: "yields (frame_location dh m1 cwd (?stop + 1) memory) (\<lambda>(m', l'). holds m' l' (location_text dh w l) \<and> ?stop + 1 \<le> l'
       \<and> l' + length (location_text dh w l) \<le> ?stop + 1 + length l + 11 \<and> only_changes (?stop + 1) (memory + length l) m1 m')"
      by (rule location_holds[OF h]) (use cwd(2) room pl len in \<open>auto simp: line_max_length_def\<close>)
    have g: "gives (crash_lift (frame_location dh m1 cwd (?stop + 1) memory)) []
      (\<lambda>(m2, l'). holds m2 l' (location_text dh w l) \<and> ?stop + 1 \<le> l'
         \<and> l' + length (location_text dh w l) \<le> ?stop + 1 + length l + 11 \<and> only_changes line ?hi m m2)"
      by (rule gives_lift, rule yields_mono[OF loc])
        (use c1 room len in \<open>auto simp: only_changes_def line_max_length_def\<close>)
    show ?thesis using gives_then[OF print_at_gives[OF line_at_holds[OF m1] e texts_nonempty(1)]] g by fastforce
  qed
  have third: "gives (print_line dh e m2 l' memory)
     [Printed (end_text dh (ce_ppid e) (location_text dh w l))] (only_changes line ?hi m)"
    if m2: "holds m2 l' (location_text dh w l)" "?stop + 1 \<le> l'" "l' + length (location_text dh w l) \<le> ?stop + 1 + length l + 11"
      "only_changes line ?hi m m2" for m2 l'
  proof -
    have "gives (print_line dh e m2 l' memory)
     [Printed (end_text dh (ce_ppid e) (location_text dh w l))] (only_changes line (memory + 31) m2)"
      by (rule end_line_printed[OF m2(1)]) (use m2(2,3) room len pid e in auto)
    then show ?thesis using m2(4) by (auto simp: gives_def only_changes_def)
  qed
  have "gives (crash_then
       (crash_then (crash_lift (name_line dh (ce_ppid e) ?m memory line)) (\<lambda>m1.
            crash_then (print_at e m1 memory) (\<lambda>_.
            crash_lift (frame_location dh m1 cwd (?stop + 1) memory)))) (\<lambda>(m2, line2). print_line dh e m2 line2 memory))
     ([Printed (name_text dh (ce_ppid e) f)] @ [Printed (end_text dh (ce_ppid e) (location_text dh w l))]) (only_changes line ?hi m)"
    by (rule gives_then[OF then_lift[OF name second]]) (use third in auto)
  then show ?thesis
    using nl fl by (simp add: frame_print_def frame_texts_def)
qed

section \<open>The frames\<close>

definition answered :: "death_handler \<Rightarrow> crash_env \<Rightarrow> string \<Rightarrow> string \<Rightarrow> u64 \<Rightarrow> string \<Rightarrow> bool" where
  "answered dh e exe w addr s =
     (case frame_image e exe addr of (img, a) \<Rightarrow>
        ce_addr2line e img (address_text a) = Read_Bytes s True \<and> answer_fits img s
        \<and> (case split_at NL (resolved_text (dh_color_output dh) img a s) of
             None \<Rightarrow> True
           | Some (f, l) \<Rightarrow> l \<noteq> w @ ''/'' \<and> (dh_append_pid dh \<longrightarrow> length f < 480)))"

definition frame_report :: "death_handler \<Rightarrow> crash_env \<Rightarrow> string \<Rightarrow> string \<Rightarrow> u64 \<Rightarrow> string \<Rightarrow> string list" where
  "frame_report dh e exe w addr s =
     (case frame_image e exe addr of (img, a) \<Rightarrow>
        frame_texts dh (ce_ppid e) w (resolved_text (dh_color_output dh) img a s))"

lemma resolved_length:
  assumes "answer_fits img s"
  shows "resolved_text color img a s \<noteq> []" "length (resolved_text color img a s) \<le> length s + length img + 34"
proof -
  have "length (resolved_text color img a s) \<le> length s + length img + 34 \<and> resolved_text color img a s \<noteq> []"
  proof (cases "split_at NL s")
    case None
    then show ?thesis using assms address_length[of a] by (auto simp: resolved_text_def answer_fits_def painted)
  next
    case (Some fl)
    then obtain f l where fl: "split_at NL s = Some (f, l)" by (cases fl) auto
    show ?thesis
      using assms address_length[of a] split_at_Some(1)[OF fl] fl by (auto simp: resolved_text_def answer_fits_def painted)
  qed
  then show "resolved_text color img a s \<noteq> []" "length (resolved_text color img a s) \<le> length s + length img + 34" by simp_all
qed

lemma frame_holds:
  assumes names: "holds m name_buf exe" "holds m cwd (w @ ''/'')" "name_buf + length exe < prev" "cwd + length w + 1 < prev"
    and room: "prev + line_max_length + 5000 < kNeededMemory" and pid: "0 \<le> ce_ppid e" "ce_ppid e < 2147483648"
    and e: "callback_writes e" and ans: "answered dh e exe w addr s"
  shows "gives (frame dh e name_buf cwd prev addr m) (map Printed (frame_report dh e exe w addr s))
    (only_changes prev (kNeededMemory - 1) m)"
proof -
  obtain img a where img: "frame_image e exe addr = (img, a)" by fastforce
  let ?t = "resolved_text (dh_color_output dh) img a s" and ?mem = "prev + line_max_length"
  have fits: "ce_addr2line e img (address_text a) = Read_Bytes s True" "answer_fits img s"
    and place: "\<And>f l. split_at NL ?t = Some (f, l) \<Longrightarrow> l \<noteq> w @ ''/'' \<and> (dh_append_pid dh \<longrightarrow> length f < 480)"
    using ans img by (auto simp: answered_def)
  have len: "length ?t + 60 \<le> line_max_length" using resolved_length(2)[OF fits(2), of "dh_color_output dh" a] fits(2)
    by (simp add: answer_fits_def)
  have first: "gives (addr2line e (dh_color_output dh) img a m prev) [] (line_at prev (?mem + 63) ?t m)"
    by (rule addr2line_holds[OF fits]) (use room in simp)
  have second: "gives (frame_print dh e cwd m1 prev ?mem) (map Printed (frame_texts dh (ce_ppid e) w ?t))
      (only_changes prev (kNeededMemory - 1) m)" if m1: "line_at prev (?mem + 63) ?t m m1" for m1
  proof -
    have cwd': "holds m1 cwd (w @ ''/'')" by (rule holds_outside[OF names(2) line_at_changes[OF m1]]) (use names(4) in simp)
    have "gives (frame_print dh e cwd m1 prev ?mem) (map Printed (frame_texts dh (ce_ppid e) w ?t)) (only_changes prev (?mem + 5000) m1)"
      by (rule frame_print_holds[OF line_at_holds[OF m1] resolved_length(1)[OF fits(2)] cwd' names(4) _ _ _ pid e place])
        (use len room in simp_all)
    then show ?thesis using line_at_changes[OF m1] room by (auto simp: gives_def only_changes_def)
  qed
  show ?thesis
    using gives_then[OF first second] by (simp add: frame_def frame_report_def img holds_text(1)[OF names(1)])
qed

lemma frames_hold:
  assumes names: "holds m name_buf exe" "holds m cwd (w @ ''/'')" "name_buf + length exe < prev" "cwd + length w + 1 < prev"
    and room: "prev + line_max_length + 5000 < kNeededMemory" and pid: "0 \<le> ce_ppid e" "ce_ppid e < 2147483648"
    and e: "callback_writes e" and ans: "\<And>a. a \<in> set trace \<Longrightarrow> answered dh e exe w a (ans a)"
  shows "gives (frames dh e name_buf cwd prev trace m) (map Printed (concat (map (\<lambda>a. frame_report dh e exe w a (ans a)) trace)))
    (\<lambda>_. True)"
  using names(1,2) ans
proof (induction trace arbitrary: m)
  case (Cons a trace)
  have "gives (frame dh e name_buf cwd prev a m) (map Printed (frame_report dh e exe w a (ans a)))
      (only_changes prev (kNeededMemory - 1) m)"
    by (rule frame_holds[OF Cons.prems(1,2) names(3,4) room pid e]) (use Cons.prems(3) in simp)
  then have "gives (crash_then (frame dh e name_buf cwd prev a m) (frames dh e name_buf cwd prev trace))
     (map Printed (frame_report dh e exe w a (ans a)) @ map Printed (concat (map (\<lambda>a. frame_report dh e exe w a (ans a)) trace))) (\<lambda>_. True)"
  proof (rule gives_then)
    fix m1 assume m1: "only_changes prev (kNeededMemory - 1) m m1"
    have "holds m1 name_buf exe" "holds m1 cwd (w @ ''/'')"
      by (rule holds_outside[OF Cons.prems(1) m1] holds_outside[OF Cons.prems(2) m1], use names(3,4) in simp)+
    then show "gives (frames dh e name_buf cwd prev trace m1)
       (map Printed (concat (map (\<lambda>a. frame_report dh e exe w a (ans a)) trace))) (\<lambda>_. True)"
      by (rule Cons.IH) (use Cons.prems(3) in simp)
  qed
  then show ?case by simp
qed (simp add: gives_return)

section \<open>The whole report\<close>

lemma read_names_holds:
  assumes "ce_readlink e = Some exe" and "exe \<noteq> []" and "length exe < path_max_length" and "NUL \<notin> set exe"
    and "ce_getcwd e = Some w" and "length w < path_max_length" and "NUL \<notin> set w"
    and "name_buf + length exe + length w + 10 < kNeededMemory"
  shows "gives (read_names e m name_buf) [] (\<lambda>(m', cwd, prev). holds m' name_buf exe \<and> holds m' cwd (w @ ''/'')
    \<and> cwd = name_buf + length exe + 1 \<and> prev = cwd + length w + 2)"
proof -
  let ?cwd = "name_buf + length exe + 1"
  have a: "yields (strcpy_text m name_buf exe) (line_at name_buf (?cwd - 1) exe m)"
    by (rule strcpy_line[OF assms(4)]) (use assms(8) in simp_all)
  have "gives (crash_then (crash_lift (strcpy_text m1 ?cwd w)) (\<lambda>m2.
                          crash_then (crash_lift (strcat_text m2 ?cwd ''/'')) (\<lambda>m3.
                          crash_then (crash_lift (c_strlen m3 ?cwd)) (\<lambda>n.
                          crash_return (m3, ?cwd, ?cwd + n + 1))))) []
       (\<lambda>(m', cwd, prev). holds m' name_buf exe \<and> holds m' cwd (w @ ''/'') \<and> cwd = ?cwd \<and> prev = cwd + length w + 2)"
    if m1: "line_at name_buf (?cwd - 1) exe m m1" for m1
  proof (rule then_lift[OF strcpy_line[where hi = "?cwd + length w + 1"]])
    fix m2 assume m2: "line_at ?cwd (?cwd + length w + 1) w m1 m2"
    have "yields (strcat_text m2 ?cwd ''/'') (line_at ?cwd (?cwd + length w + 1) (w @ ''/'') m1)"
      by (rule strcat_line[OF m2]) (use assms(8) in \<open>simp_all add: NUL_def\<close>)
    then show "gives (crash_then (crash_lift (strcat_text m2 ?cwd ''/'')) (\<lambda>m3.
        crash_then (crash_lift (c_strlen m3 ?cwd)) (\<lambda>n. crash_return (m3, ?cwd, ?cwd + n + 1)))) []
       (\<lambda>(m', cwd, prev). holds m' name_buf exe \<and> holds m' cwd (w @ ''/'') \<and> cwd = ?cwd \<and> prev = cwd + length w + 2)"
    proof (rule then_lift)
      fix m3 assume m3: "line_at ?cwd (?cwd + length w + 1) (w @ ''/'') m1 m3"
      have "holds m3 name_buf exe" by (rule holds_outside[OF line_at_holds[OF m1] line_at_changes[OF m3]]) simp
      then show "gives (crash_then (crash_lift (c_strlen m3 ?cwd)) (\<lambda>n. crash_return (m3, ?cwd, ?cwd + n + 1))) []
         (\<lambda>(m', cwd, prev). holds m' name_buf exe \<and> holds m' cwd (w @ ''/'') \<and> cwd = ?cwd \<and> prev = cwd + length w + 2)"
        using line_at_holds[OF m3] holds_text(2)[OF line_at_holds[OF m3]] by (simp add: gives_return)
    qed
  qed (use assms(7,8) in simp_all)
  from then_lift[OF a this] show ?thesis using assms(1-3,5,6) by (simp add: read_names_def Let_def)
qed

text \<open>What the trace shows, from the frame that crashed.\<close>

definition trace_shown :: "death_handler \<Rightarrow> crash_env \<Rightarrow> u64 list" where
  "trace_shown dh e =
     (let trace = (take (nat (dh_frames_count dh + 2)) (ce_backtrace e))[1 := ce_pc e]
      in drop (if trace ! 2 = trace ! 1 then 2 else 1) trace)"

text \<open>A system that works as far as the frames: its files and directories have names of the lengths POSIX allows.
  One that answers has \<open>addr2line\<close> answer for every frame as well.\<close>

definition system_up :: "death_handler \<Rightarrow> crash_env \<Rightarrow> string \<Rightarrow> string \<Rightarrow> bool" where
  "system_up dh e exe w \<longleftrightarrow>
     ce_pointer e \<le> 8 \<and> ce_fork e \<and> ce_dup2 e \<and> callback_writes e \<and> 0 \<le> ce_ppid e \<and> ce_ppid e < 2147483648
     \<and> ce_readlink e = Some exe \<and> exe \<noteq> [] \<and> length exe < path_max_length \<and> NUL \<notin> set exe
     \<and> ce_getcwd e = Some w \<and> length w < path_max_length \<and> NUL \<notin> set w
     \<and> 0 < dh_frames_count dh \<and> dh_frames_count dh \<le> 100 \<and> 2 < length (ce_backtrace e)"

definition system_answers :: "death_handler \<Rightarrow> crash_env \<Rightarrow> string \<Rightarrow> string \<Rightarrow> (u64 \<Rightarrow> string) \<Rightarrow> bool" where
  "system_answers dh e exe w ans \<longleftrightarrow>
     system_up dh e exe w \<and> list_all (\<lambda>a. answered dh e exe w a (ans a)) (trace_shown dh e)"

definition trace_report :: "death_handler \<Rightarrow> crash_env \<Rightarrow> string \<Rightarrow> string \<Rightarrow> (u64 \<Rightarrow> string) \<Rightarrow> string list" where
  "trace_report dh e exe w ans = concat (map (\<lambda>a. frame_report dh e exe w a (ans a)) (trace_shown dh e))"

text \<open>What is put out before the first frame.\<close>

definition report_head :: "death_handler \<Rightarrow> crash_env \<Rightarrow> int \<Rightarrow> crash_output list" where
  "report_head dh e sig =
     [Printed (header_text (dh_color_output dh) sig (ce_thread e) (ce_ppid e)), Printed (NL # ''Stack trace:'' @ [NL]),
      Stderr (ce_symbols e (take (nat (dh_frames_count dh + 2)) (ce_backtrace e)))]"

lemma pointer_bytes_length: "length (concat (map (pointer_bytes k) ws)) = k * length ws"
  by (induction ws) (simp_all add: pointer_bytes_def)

lemma header_nonempty: "header_text color sig thread ppid \<noteq> []"
  by (simp add: header_text_def Let_def)

lemma then_printed: "crash_then (out, Inr x) f = (out @ fst (f x), snd (f x))" "crash_then (out, Inl c) f = (out, Inl c)"
  by (simp_all add: crash_then_def split: prod.split)

lemma names_reached:
  assumes "system_up dh e exe w"
  defines "name_buf \<equiv> nat (dh_frames_count dh + 2) * ce_pointer e"
  obtains m1 cwd prev where
    "stack_trace dh e m = (let r = frames dh e name_buf cwd prev (trace_shown dh e) m1
       in (Stderr (ce_symbols e (take (nat (dh_frames_count dh + 2)) (ce_backtrace e))) # fst r, snd r))"
    "holds m1 name_buf exe" "holds m1 cwd (w @ ''/'')" "name_buf + length exe < prev" "cwd + length w + 1 < prev"
    "prev + line_max_length + 5000 < kNeededMemory"
proof -
  let ?n = "nat (dh_frames_count dh + 2)"
  let ?trace = "take ?n (ce_backtrace e)"
  let ?trace1 = "?trace[1 := ce_pc e]"
  let ?m = "poke m 0 (concat (map (pointer_bytes (ce_pointer e)) ?trace1))"
  have s: "ce_readlink e = Some exe" "exe \<noteq> []" "length exe < path_max_length" "NUL \<notin> set exe"
    "ce_getcwd e = Some w" "length w < path_max_length" "NUL \<notin> set w"
    and b: "2 < length (ce_backtrace e)" "0 < dh_frames_count dh" "dh_frames_count dh \<le> 100"
    using assms(1) by (simp_all add: system_up_def)
  have n: "3 \<le> ?n" "?n \<le> 102" using b(2,3) by linarith+
  have "ce_pointer e \<le> 8" using assms(1) by (simp add: system_up_def)
  then have "?n * ce_pointer e \<le> 102 * 8" using n(2) by (rule mult_le_mono[rotated])
  then have nb: "?n * ce_pointer e \<le> 816" by simp
  have written: "c_write m 0 (concat (map (pointer_bytes (ce_pointer e)) ?trace1)) = Some ?m"
  proof -
    have "ce_pointer e * min (length (ce_backtrace e)) ?n \<le> 816"
      by (rule order.trans[OF mult_le_mono2[OF min.cobounded2]]) (use nb in \<open>simp add: mult.commute\<close>)
    then show ?thesis
      by (simp only: c_write_def pointer_bytes_length length_list_update length_take) (simp add: kNeededMemory_def)
  qed
  have room: "name_buf + length exe + length w + 10 < kNeededMemory"
    using nb s(3,6) by (simp add: path_max_length_def kNeededMemory_def name_buf_def)
  obtain x where x: "case x of (m', cwd, prev) \<Rightarrow> holds m' name_buf exe \<and> holds m' cwd (w @ ''/'')
      \<and> cwd = name_buf + length exe + 1 \<and> prev = cwd + length w + 2"
    and run: "read_names e ?m name_buf = ([], Inr x)"
    using read_names_holds[OF s room] unfolding gives_def by blast
  obtain m1 cwd prev where xs: "x = (m1, cwd, prev)" by (cases x) auto
  have h: "holds m1 name_buf exe" "holds m1 cwd (w @ ''/'')" "cwd = name_buf + length exe + 1" "prev = cwd + length w + 2"
    using x unfolding xs prod.case by blast+
  have len: "\<not> length ?trace \<le> 2" using n(1) b(1) by simp
  have "stack_trace dh e m = crash_then ([Stderr (ce_symbols e ?trace)], Inr ()) (\<lambda>_. frames dh e name_buf cwd prev (trace_shown dh e) m1)"
    unfolding stack_trace_def Let_def trace_shown_def written if_not_P[OF len] then_known name_buf_def[symmetric] run xs
    by (simp add: crash_then_def)
  moreover have "prev + line_max_length + 5000 < kNeededMemory"
    using h(3,4) nb s(3,6) by (simp add: path_max_length_def kNeededMemory_def line_max_length_def name_buf_def)
  ultimately show ?thesis
    using that[of cwd prev m1] h by (simp add: crash_then_def split: prod.split)
qed

lemma frames_reached:
  assumes "system_up dh e exe w" and "0 \<le> sig" and "sig < 2147483648"
  obtains m1 name_buf cwd prev where
    "child dh e sig m = (case frames dh e name_buf cwd prev (trace_shown dh e) m1 of
        (out, Inl c) \<Rightarrow> (report_head dh e sig @ out, Inl c)
      | (out, Inr m2) \<Rightarrow> (report_head dh e sig @ out @ [Stderr [NUL]], Inr m2))"
    "holds m1 name_buf exe" "holds m1 cwd (w @ ''/'')" "name_buf + length exe < prev" "cwd + length w + 1 < prev"
    "prev + line_max_length + 5000 < kNeededMemory"
proof -
  let ?h = "header_text (dh_color_output dh) sig (ce_thread e) (ce_ppid e)"
  have s: "ce_dup2 e" "callback_writes e" "0 \<le> ce_ppid e" "ce_ppid e < 2147483648" using assms(1) by (simp_all add: system_up_def)
  obtain m0 where m0: "crash_header dh sig (ce_thread e) (ce_ppid e) m = Some m0" "holds m0 0 ?h"
    using crash_header_holds[OF assms(2,3) s(3,4)] by blast
  have p: "print_at e m0 0 = ([Printed ?h], Inr ())" "print e t = ([Printed t], Inr ())" if "t \<noteq> []" for t
    using print_at_gives[OF m0(2) s(2) header_nonempty] print_gives[OF s(2) that] by (auto simp: gives_def)
  obtain m1 cwd prev where st: "stack_trace dh e m0 = (let r = frames dh e (nat (dh_frames_count dh + 2) * ce_pointer e) cwd prev (trace_shown dh e) m1
       in (Stderr (ce_symbols e (take (nat (dh_frames_count dh + 2)) (ce_backtrace e))) # fst r, snd r))"
    and h: "holds m1 (nat (dh_frames_count dh + 2) * ce_pointer e) exe" "holds m1 cwd (w @ ''/'')"
    "nat (dh_frames_count dh + 2) * ce_pointer e + length exe < prev" "cwd + length w + 1 < prev"
    "prev + line_max_length + 5000 < kNeededMemory"
    by (rule names_reached[OF assms(1)])
  obtain out r where fr: "frames dh e (nat (dh_frames_count dh + 2) * ce_pointer e) cwd prev (trace_shown dh e) m1 = (out, r)" by fastforce
  have "child dh e sig m = (case (out, r) of
        (out, Inl c) \<Rightarrow> (report_head dh e sig @ out, Inl c)
      | (out, Inr m2) \<Rightarrow> (report_head dh e sig @ out @ [Stderr [NUL]], Inr m2))"
    using st by (cases r) (simp_all add: child_def s(1) m0(1) p[of "[NL]"] p(2) then_printed fr report_head_def)
  then show ?thesis using that[OF _ h] fr by simp
qed

lemma report_made:
  assumes "system_answers dh e exe w ans" and "0 \<le> sig" and "sig < 2147483648"
  shows "HandleSignal dh e sig m =
    (report_head dh e sig @ map Printed (trace_report dh e exe w ans) @ [Stderr [NUL]], Ended (parent_end dh))"
proof -
  have up: "system_up dh e exe w" and ans: "\<And>a. a \<in> set (trace_shown dh e) \<Longrightarrow> answered dh e exe w a (ans a)"
    using assms(1) by (simp_all add: system_answers_def list_all_iff)
  have s: "ce_fork e" "callback_writes e" "0 \<le> ce_ppid e" "ce_ppid e < 2147483648" using up by (simp_all add: system_up_def)
  obtain m1 name_buf cwd prev where c: "child dh e sig m = (case frames dh e name_buf cwd prev (trace_shown dh e) m1 of
        (out, Inl c) \<Rightarrow> (report_head dh e sig @ out, Inl c)
      | (out, Inr m2) \<Rightarrow> (report_head dh e sig @ out @ [Stderr [NUL]], Inr m2))"
    and h: "holds m1 name_buf exe" "holds m1 cwd (w @ ''/'')" "name_buf + length exe < prev" "cwd + length w + 1 < prev"
    "prev + line_max_length + 5000 < kNeededMemory"
    by (rule frames_reached[OF up assms(2,3)])
  have "gives (frames dh e name_buf cwd prev (trace_shown dh e) m1) (map Printed (trace_report dh e exe w ans)) (\<lambda>_. True)"
    unfolding trace_report_def by (rule frames_hold[OF h s(3,4,2) ans])
  then show ?thesis using c s(1) by (auto simp: HandleSignal_def gives_def child_resumes_def)
qed

text \<open>C17. When the system cooperates, the child of the crash handler stays inside its 64 KiB, never appends a
  string to itself, and puts out exactly the first line, the heading and for each frame the lines of
  \<open>frame_report\<close>, a function on strings; then the parent is resumed and ends as the settings say.
  Cooperating (\<open>system_answers\<close>): fork, dup2, readlink and getcwd succeed; the output callback reports
  progress on every nonempty string; signal and process id are not negative; pointers have at most 8
  bytes; the names of the executable, not empty, and of the directory are NUL-free and below the path
  limit; 1 to 100 frames are asked for and the backtrace has 3 or more; and for each frame shown
  addr2line ends its answer, NUL-free and not empty, leaves 100 bytes of the line buffer free beside
  the image's NUL-free name, and begins with a question mark or has a newline; the place it names is
  not the working directory; and with \<open>append_pid\<close> the function's name is below 480 characters.\<close>

theorem crash_report_correct:
  assumes "system_answers dh e exe w ans" and "0 \<le> sig" and "sig < 2147483648"
  shows "HandleSignal dh e sig m =
    (report_head dh e sig @ map Printed (trace_report dh e exe w ans) @ [Stderr [NUL]], Ended (parent_end dh))"
  by (rule report_made[OF assms])

text \<open>A crash of the robot program: a known place, a function without a place, and an address nothing is
  known of.\<close>

definition sample_answer :: "u64 \<Rightarrow> string" where
  "sample_answer a = (if a = 2 then ''Robot::RobotInit()'' @ [NL] @ ''/home/lvuser/src/Robot.cpp:42'' @ [NL]
     else if a = 3 then ''main'' @ [NL] @ ''??:0'' @ [NL]
     else ''??'' @ [NL] @ ''??:0'' @ [NL])"

definition sample_env :: crash_env where
  "sample_env = \<lparr>ce_pointer = 4, ce_fork = True, ce_dup2 = True, ce_callback = (\<lambda>s. int (length s)), ce_thread = 7, ce_ppid = 412,
     ce_backtrace = [9, 1, 3, 4], ce_symbols = (\<lambda>_. []), ce_pc = 2, ce_readlink = Some ''/frc/robot'',
     ce_getcwd = Some ''/home/lvuser'', ce_dladdr = (\<lambda>_. None),
     ce_addr2line = (\<lambda>img a. Read_Bytes (sample_answer (if a = ''0x2'' then 2 else if a = ''0x3'' then 3 else 4)) True)\<rparr>"

definition sample_handler :: death_handler where
  "sample_handler = DeathHandler_defaults\<lparr>dh_color_output := False, dh_frames_count := 10,
     dh_generate_core_dump := False, dh_cleanup := False\<rparr>"

theorem crash_report_correct_witness:
  "HandleSignal sample_handler sample_env 11 (\<lambda>a. NUL) =
    ([Printed ''Segmentation fault (thread 7, pid 412)'', Printed (NL # ''Stack trace:'' @ [NL]), Stderr [],
      Printed (''[Robot::RobotInit()]'' @ [NL]), Printed (''src/Robot.cpp:42'' @ [NL]),
      Printed (''[main]'' @ [NL]), Printed (''/frc/robot:0x3'' @ [NL]),
      Printed (''[??]'' @ [NL]), Printed (''??:0'' @ [NL] @ ''0x4 at /frc/robot'' @ [NL]),
      Stderr [NUL]], Ended ExitAtOnce)"
proof -
  have shown: "trace_shown sample_handler sample_env = [2, 3, 4]" by code_simp
  have ok: "answered sample_handler sample_env ''/frc/robot'' ''/home/lvuser'' 2 (sample_answer 2)"
    "answered sample_handler sample_env ''/frc/robot'' ''/home/lvuser'' 3 (sample_answer 3)"
    "answered sample_handler sample_env ''/frc/robot'' ''/home/lvuser'' 4 (sample_answer 4)" by code_simp+
  have "callback_writes sample_env" by (simp add: callback_writes_def sample_env_def)
  moreover have "dh_frames_count sample_handler = 10" by code_simp
  ultimately have "system_up sample_handler sample_env ''/frc/robot'' ''/home/lvuser''"
    by (simp add: system_up_def sample_env_def path_max_length_def NUL_def)
  then have "system_answers sample_handler sample_env ''/frc/robot'' ''/home/lvuser'' sample_answer"
    using ok by (simp add: system_answers_def shown)
  from crash_report_correct[OF this, of 11 "\<lambda>a. NUL"]
  have "HandleSignal sample_handler sample_env 11 (\<lambda>a. NUL) =
    (report_head sample_handler sample_env 11
      @ map Printed (trace_report sample_handler sample_env ''/frc/robot'' ''/home/lvuser'' sample_answer) @ [Stderr [NUL]],
     Ended (parent_end sample_handler))" by simp
  also have "report_head sample_handler sample_env 11 = [Printed ''Segmentation fault (thread 7, pid 412)'',
      Printed (NL # ''Stack trace:'' @ [NL]), Stderr []]" by code_simp
  also have "trace_report sample_handler sample_env ''/frc/robot'' ''/home/lvuser'' sample_answer =
     [''[Robot::RobotInit()]'' @ [NL], ''src/Robot.cpp:42'' @ [NL], ''[main]'' @ [NL], ''/frc/robot:0x3'' @ [NL],
      ''[??]'' @ [NL], ''??:0'' @ [NL] @ ''0x4 at /frc/robot'' @ [NL]]" by code_simp
  also have "parent_end sample_handler = ExitAtOnce" by code_simp
  finally show ?thesis by simp
qed

section \<open>What is not reported\<close>

text \<open>Without colours an unresolved address keeps the question marks: they are printed as the name of a function,
  and the address follows on a second line of the place.\<close>

lemma unresolved_without_colours:
  "split_at NL (resolved_text False img a (''??'' @ NL # l)) = Some (''??'', l @ address_text a @ '' at '' @ img @ '' '')"
  by (simp add: resolved_text_def split_at_def NL_def)

lemma unresolved_with_colours:
  "resolved_text True img a (''??'' @ l) = GREEN @ address_text a @ PLAIN @ '' at '' @ img @ '' ''"
  by (simp add: resolved_text_def)

text \<open>With the process appended, a long function name runs into the buffer of the number: the number ends the
  name, and is then appended to itself.\<close>

lemma long_name_undefined:
  assumes "holds m msg s" and "name_max_length + 31 < length s" and "0 < ppid" and "ppid < 2147483648"
  shows "strcat_number m msg (itoa ppid 10 (msg + name_max_length) m) = None"
proof -
  let ?res = "msg + name_max_length"
  have room: "?res + 31 < kNeededMemory" using assms(1,2) by (simp add: holds_def)
  have "nat ppid < nat 10 ^ 30" using assms(4) by simp
  then obtain m' p where r: "itoa ppid 10 ?res m = Some (m', p)" "holds m' p (pid_text ppid)" "?res < p"
    "p + length (pid_text ppid) = ?res + 31" "only_changes p (?res + 31) m m'"
    using itoa_exact[of 10 ppid ?res m] assms(3) room unfolding pid_text_def by auto
  let ?s = "take (p - msg) s"
  have len: "length ?s = p - msg" "msg < p" using r(3,4) assms(2) by simp_all
  have same: "m' (msg + i) = ?s ! i" if "i < length ?s" for i
  proof -
    have "msg + i < p" using that len by linarith
    moreover have "i < length s" using that by simp
    ultimately
    show ?thesis using that holds_nth[OF assms(1), of i] r(5) by (simp add: only_changes_def nth_append)
  qed
  have "NUL \<notin> set ?s" using assms(1) by (auto simp: holds_def dest: in_set_takeD)
  moreover have "holds m' (msg + length ?s) (pid_text ppid)" using r(2) len by simp
  ultimately have "holds m' msg (?s @ pid_text ppid)" using same by (intro holds_join)
  from holds_text(2)[OF this] holds_text(2)[OF r(2)] len show ?thesis
    by (simp add: strcat_number_def r(1) strcat_from_def)
qed

text \<open>A crash can leave the process stopped for good: a parent that makes its trace safely stops itself, and
  only the end of the child or its \<open>safe_abort\<close> lets it go on. It stays stopped exactly when the fork
  failed, or the child left by a failed output callback or ran into undefined behaviour.\<close>

theorem crash_leaves_frozen:
  "snd (HandleSignal dh e sig m) = Frozen \<longleftrightarrow>
     dh_thread_safe dh \<and> (\<not> ce_fork e \<or> snd (child dh e sig m) \<in> {Inl Exit_Failure, Inl Undefined})"
proof (cases "snd (child dh e sig m)")
  case (Inl c)
  then show ?thesis by (cases c) (auto simp: HandleSignal_def child_resumes_def Let_def split: prod.split)
next
  case (Inr m')
  then show ?thesis by (auto simp: HandleSignal_def child_resumes_def Let_def split: prod.split)
qed

lemma line_without_end:
  assumes "ce_addr2line e img (address_text a) = Read_Bytes s True" and "s \<noteq> []" and "NUL \<notin> set s"
    and "take 1 s \<noteq> ''?''" and "NL \<notin> set (take line_max_length s)" and "line + line_max_length + 63 < kNeededMemory"
  shows "addr2line e color img a m line = ([], Inl Undefined)"
proof -
  define b where "b = take line_max_length s"
  let ?m1 = "poke m line b" and ?m2 = "(poke m line b)(line + length b := NUL)"
  have len: "length b \<le> line_max_length" "b \<noteq> []" "NUL \<notin> set b" "take 1 b \<noteq> ''?''"
    using assms(2-4) by (auto simp: b_def line_max_length_def dest: in_set_takeD)
  then have room: "line + length b < kNeededMemory" using assms(6) by linarith
  have m2: "holds ?m2 line b" using room len(3) by (auto simp: holds_def poke_def)
  have w: "c_write m line b = Some ?m1" "terminate_line (int (length b)) ?m1 line = Some ?m2"
    using room by (simp_all only: c_write_def terminate_line_def) (simp_all add: nat_plus_as_int)
  have none: "split_at NL b = None" using assms(5) by (simp add: split_at_def b_def)
  have "?m2 line \<noteq> CHR ''?''" using holds_head[OF m2, of "CHR ''?''"] len(4) by (simp add: NUL_def)
  then have res: "resolve color img a ?m2 line (line + line_max_length) = None"
    using strchr_holds[OF m2, of NL] none by (simp add: resolve_def)
  have run: "addr2line_read color img a (int (length b)) True ?m1 line = crash_halt Undefined"
  proof -
    show ?thesis
      using len(2) by (simp add: addr2line_read_def w(2) res crash_lift_def)
  qed
  obtain ch where "ptoa a line m = Some (ch, line)" "holds ch line (address_text a)"
    using ptoa_holds[of line a m] assms(6) by (auto simp: yields_def line_max_length_def)
  then show ?thesis
    using run w(1) assms(1) holds_text(1) by (simp add: addr2line_def Let_def crash_halt_def b_def)
qed

text \<open>C37. A function name that fills the buffer of the trace stops the process for good: when \<open>addr2line\<close> answers
  for the first frame with 4096 bytes or more and no newline among the first 4096, the search for the
  newline fails, the handler's child reads through the null pointer, and the parent that has stopped
  itself is never resumed.\<close>

theorem long_answer_freezes:
  assumes "system_up dh e exe w" and "0 \<le> sig" and "sig < 2147483648" and "dh_thread_safe dh"
    and "trace_shown dh e = addr # rest" and "frame_image e exe addr = (img, a)"
    and "ce_addr2line e img (address_text a) = Read_Bytes s True"
    and "s \<noteq> []" and "NUL \<notin> set s" and "take 1 s \<noteq> ''?''" and "NL \<notin> set (take line_max_length s)"
  shows "HandleSignal dh e sig m = (report_head dh e sig, Frozen)"
proof -
  obtain m1 name_buf cwd prev where c: "child dh e sig m = (case frames dh e name_buf cwd prev (trace_shown dh e) m1 of
        (out, Inl c) \<Rightarrow> (report_head dh e sig @ out, Inl c)
      | (out, Inr m2) \<Rightarrow> (report_head dh e sig @ out @ [Stderr [NUL]], Inr m2))"
    and h: "holds m1 name_buf exe" "holds m1 cwd (w @ ''/'')" "name_buf + length exe < prev" "cwd + length w + 1 < prev"
    "prev + line_max_length + 5000 < kNeededMemory"
    by (rule frames_reached[OF assms(1-3)])
  have "c_text m1 name_buf = exe" using h(1) by (rule holds_text)
  then have "frame dh e name_buf cwd prev addr m1 = ([], Inl Undefined)"
    using assms(6) line_without_end[OF assms(7-11), of prev "dh_color_output dh" m1] h(5) by (simp add: frame_def crash_then_def)
  then show ?thesis
    using c assms(1,4,5) by (simp add: then_printed HandleSignal_def child_resumes_def system_up_def)
qed

theorem long_answer_freezes_witness:
  "HandleSignal sample_handler (sample_env\<lparr>ce_addr2line := \<lambda>_ _. Read_Bytes (replicate 5000 (CHR ''a'')) True\<rparr>) 11 (\<lambda>a. NUL) =
    ([Printed ''Segmentation fault (thread 7, pid 412)'', Printed (NL # ''Stack trace:'' @ [NL]), Stderr []], Frozen)"
proof -
  let ?e = "sample_env\<lparr>ce_addr2line := \<lambda>_ _. Read_Bytes (replicate 5000 (CHR ''a'')) True\<rparr>"
  have "callback_writes ?e" by (simp add: callback_writes_def sample_env_def)
  moreover have "dh_frames_count sample_handler = 10" by code_simp
  ultimately have up: "system_up sample_handler ?e ''/frc/robot'' ''/home/lvuser''"
    by (simp add: system_up_def sample_env_def path_max_length_def NUL_def)
  have shown: "trace_shown sample_handler ?e = 2 # [3, 4]" by code_simp
  have img: "frame_image ?e ''/frc/robot'' 2 = (''/frc/robot'', 2)" by code_simp
  have safe: "dh_thread_safe sample_handler" by code_simp
  have s: "replicate 5000 (CHR ''a'') \<noteq> []" "NUL \<notin> set (replicate 5000 (CHR ''a''))"
    "take 1 (replicate 5000 (CHR ''a'')) \<noteq> ''?''" "NL \<notin> set (take line_max_length (replicate 5000 (CHR ''a'')))"
    by (simp_all add: NUL_def NL_def line_max_length_def)
  have "ce_addr2line ?e ''/frc/robot'' (address_text 2) = Read_Bytes (replicate 5000 (CHR ''a'')) True" by simp
  from long_answer_freezes[OF up _ _ safe shown img this s, of 11 "\<lambda>a. NUL"]
  have "HandleSignal sample_handler ?e 11 (\<lambda>a. NUL) = (report_head sample_handler ?e 11, Frozen)" by simp
  also have "report_head sample_handler ?e 11 = [Printed ''Segmentation fault (thread 7, pid 412)'',
      Printed (NL # ''Stack trace:'' @ [NL]), Stderr []]" by code_simp
  finally show ?thesis .
qed

end
