(* ===== verification/Robot_Startup.thy ===== *)
theory Robot_Startup
  imports System_Safety Crash_Report
begin

text \<open>
  How the program comes up: the constructor of \<open>Robot\<close>, which resets the CAN bus and waits,
  \<open>RobotInit\<close>, which sets priorities, fills the task list and starts the scheduler, and the
  thread of \<open>TaskScheduler\<close>. What \<open>RobotInit\<close> leaves behind is where the runs of
  \<open>Robot_System\<close> start.
\<close>

section \<open>The thread of the scheduler\<close>

text \<open>\<open>ts_thread\<close>: the thread can be joined; \<open>ts_notifier\<close>: the HAL knows the notifier.\<close>

record task_scheduler =
  ts_taskList :: "sched_task list"
  ts_rtTimer :: rt_timer
  ts_threadActive :: bool
  ts_thread :: bool
  ts_notifier :: bool

definition TaskScheduler_new :: "u64 \<Rightarrow> task_scheduler" where
  "TaskScheduler_new now = \<lparr>ts_taskList = [], ts_rtTimer = RTTimer_new now, ts_threadActive = False,
     ts_thread = False, ts_notifier = True\<rparr>"

definition TaskScheduler_start :: "u64 \<Rightarrow> task_scheduler \<Rightarrow> task_scheduler" where
  "TaskScheduler_start now s =
     (if \<not> ts_thread s
      then s\<lparr>ts_threadActive := True, ts_rtTimer := RTTimer_start now (ts_rtTimer s), ts_thread := True\<rparr>
      else s)"

definition TaskScheduler_stop :: "task_scheduler \<Rightarrow> task_scheduler" where
  "TaskScheduler_stop s =
     (let s1 = s\<lparr>ts_notifier := False, ts_threadActive := False\<rparr>
      in if ts_thread s1 then s1\<lparr>ts_thread := False\<rparr> else s1)"

text \<open>The passes the thread makes: none once it has been told to stop.\<close>

definition TaskScheduler_run ::
  "system_io \<Rightarrow> (u64 \<times> pass_env) list \<Rightarrow> task_scheduler \<Rightarrow> system
     \<Rightarrow> fault + (pass_log \<times> task_scheduler \<times> system)" where
  "TaskScheduler_run sio passes ts sy =
     (if ts_threadActive ts then
        (case system_run sio passes (ts_taskList ts) sy of
           Inl f \<Rightarrow> Inl f
         | Inr (ps, tasks', sy') \<Rightarrow> Inr (ps, ts\<lparr>ts_taskList := tasks'\<rparr>, sy'))
      else Inr ([], ts, sy))"

section \<open>The constructor\<close>

record robot_made =
  rm_timed :: timed_robot
  rm_handler :: death_handler
  rm_calls :: "os_call list"
  rm_clock :: u64

text \<open>The settings of the crash handler: no clean-up, no core dump, no colours, short paths, ten frames.\<close>

definition robot_handler :: "death_handler option" where
  "robot_handler =
     set_frames_count 10 (set_cut_relative_paths True (set_cut_common_path_root True
       (set_color_output False (set_generate_core_dump False (set_cleanup False DeathHandler_defaults)))))"

text \<open>The clock readings: the start of \<open>TimedRobot\<close> and, when the CAN bus has been reset, \<open>now\<close>. The result
  of the reset is ignored.\<close>

definition Robot_constructor :: "os \<Rightarrow> (u64 \<Rightarrow> u64) \<Rightarrow> real \<Rightarrow> u64 \<Rightarrow> robot_made option" where
  "Robot_constructor k wait_for_alarm startTime now =
     (let timed = TimedRobot_new (1 / 50) startTime startTime;
          (canivore, calls) = resetCANivore k;
          trc = ThreadRateControl_start now (ThreadRateControl_new now)
      in case (doRateControl wait_for_alarm now 2000 trc, robot_handler) of
           (Some (wake, trc'), Some dh) \<Rightarrow>
             Some \<lparr>rm_timed = timed, rm_handler = dh, rm_calls = calls, rm_clock = wake\<rparr>
         | _ \<Rightarrow> None)"

section \<open>RobotInit\<close>

datatype library_call = SetBrownoutVoltage real | DisableAllTelemetry | LoadPhoenix

record startup =
  su_scheduler :: task_scheduler
  su_system :: system
  su_library :: "library_call list"
  su_calls :: "os_call list"
  su_console :: "console_line list"

definition Startup_new :: "proto_names \<Rightarrow> solenoid_task \<Rightarrow> rt_timer \<Rightarrow> u64 \<Rightarrow> startup" where
  "Startup_new pn task timer now = \<lparr>su_scheduler = TaskScheduler_new now, su_system = System_new pn task timer,
     su_library = [], su_calls = [], su_console = []\<rparr>"

definition su_log :: "os_call list \<Rightarrow> console_line list \<Rightarrow> startup \<Rightarrow> startup" where
  "su_log calls out su = su\<lparr>su_calls := su_calls su @ calls, su_console := su_console su @ out\<rparr>"

definition RobotInit :: "os \<Rightarrow> u64 \<Rightarrow> startup \<Rightarrow> fault option \<times> startup" where
  "RobotInit k now su0 =
     (let su1 = su0\<lparr>su_library := su_library su0 @ [SetBrownoutVoltage (9 / 2), DisableAllTelemetry, LoadPhoenix]\<rparr>;
          sy = su_system su1; s = sy_robot sy;
          su2 = su1\<lparr>su_system := sy\<lparr>sy_robot := s\<lparr>rb_mode := setControlMode DISABLED (rb_mode s)\<rparr>\<rparr>\<rparr>;
          (system_ok, calls, out) = configureSystemPriority k
      in case system_ok of
           Inl f \<Rightarrow> (Some f, su_log calls out su2)
         | Inr _ \<Rightarrow>
             (let (thread_ok, calls', out') = configureThreadPriority k 98;
                  su3 = su_log calls' out' (su_log calls out su2);
                  ts = su_scheduler su3;
                  su4 = su3\<lparr>su_scheduler := ts\<lparr>ts_taskList := fold scheduleTask RobotInit_tasks (ts_taskList ts)\<rparr>\<rparr>;
                  su5 = su_log [] [ConsoleText ''Starting Task Scheduler...''] su4;
                  su6 = su5\<lparr>su_scheduler := TaskScheduler_start now (su_scheduler su5)\<rparr>
              in (None, su_log [] [ConsoleText ''Task Scheduler started!'',
                                   ConsoleText ''Initialized successfully. Entering run...''] su6)))"

text \<open>\<open>StartCompetition\<close> calls \<open>RobotInit\<close> before anything else and does not catch: its exception ends the
  program, and the driver station is never told that it is ready.\<close>

definition StartCompetition :: "os \<Rightarrow> u64 \<Rightarrow> startup \<Rightarrow> fault + startup" where
  "StartCompetition k now su =
     (case RobotInit k now su of
        (Some f, su') \<Rightarrow> Inl f
      | (None, su') \<Rightarrow>
          Inr (su_log [] [ConsoleText ''********** Robot program startup complete **********''] su'))"

section \<open>Lemmas\<close>

lemma scheduler_start_stop:
  "TaskScheduler_start now (TaskScheduler_start now' s) = TaskScheduler_start now' s"
  "\<not> ts_threadActive (TaskScheduler_stop s) \<and> \<not> ts_thread (TaskScheduler_stop s)"
  "TaskScheduler_run sio passes (TaskScheduler_stop ts) sy = Inr ([], TaskScheduler_stop ts, sy)"
  by (simp_all add: TaskScheduler_start_def TaskScheduler_stop_def TaskScheduler_run_def Let_def)

lemma schedule_all: "fold scheduleTask ts list = list @ ts"
  by (induction ts arbitrary: list) (simp_all add: scheduleTask_def)

lemma mode_starts_disabled:
  "(System_new pn task timer)\<lparr>sy_robot := (sy_robot (System_new pn task timer))
      \<lparr>rb_mode := setControlMode DISABLED (rb_mode (sy_robot (System_new pn task timer)))\<rparr>\<rparr> = System_new pn task timer"
  by (simp add: System_new_def Robot_new_def setControlMode_def RobotControlModeHelper_new_def)

text \<open>The pipeline that looks for the process \<open>FRC_Net\<close> runs and prints its id.\<close>

definition network_process :: "os \<Rightarrow> int \<Rightarrow> bool" where
  "network_process k pid \<longleftrightarrow> (\<exists>out. os_pipe k = Some out \<and> stoi (c_string (read_pipe out)) = Inr pid)"

lemma system_priority_outcome:
  "case fst (configureSystemPriority k) of
     Inl f \<Rightarrow> \<nexists>pid. network_process k pid
   | Inr ok \<Rightarrow> \<exists>pid. network_process k pid
     \<and> (ok \<longleftrightarrow> (case os_param k pid of None \<Rightarrow> os_unset k | Some p \<Rightarrow> p) = 99 \<and> os_policy k pid = SCHED_FIFO)"
  by (auto simp: configureSystemPriority_def network_process_def s_exec_def Let_def
      split: option.splits sum.splits if_splits)

text \<open>C20. The program comes up whole or not at all. \<open>RobotInit\<close> completes exactly when the shell command
  that looks for the process of the network communication runs and its output begins with a 32-bit
  number, whether or not the priority of that process and of the thread could be set or even read;
  then the scheduler's thread is active, its list holds the twelve tasks with their times at zero,
  and the state is the initial one in disabled mode, so the runs of \<open>system_run\<close> start here. Otherwise
  an exception leaves \<open>StartCompetition\<close> before a single task is scheduled.\<close>

theorem robot_starts_whole:
  "((\<exists>su. StartCompetition k now (Startup_new pn task timer boot) = Inr su) \<longleftrightarrow> (\<exists>pid. network_process k pid))
   \<and> (\<forall>su. StartCompetition k now (Startup_new pn task timer boot) = Inr su \<longrightarrow>
        ts_threadActive (su_scheduler su) \<and> ts_taskList (su_scheduler su) = RobotInit_tasks
      \<and> su_system su = System_new pn task timer
      \<and> TaskScheduler_run sio passes (su_scheduler su) (su_system su) =
          (case system_run sio passes RobotInit_tasks (System_new pn task timer) of
             Inl f \<Rightarrow> Inl f
           | Inr (ps, tasks', sy') \<Rightarrow> Inr (ps, (su_scheduler su)\<lparr>ts_taskList := tasks'\<rparr>, sy')))
   \<and> (\<forall>f su. RobotInit k now (Startup_new pn task timer boot) = (Some f, su) \<longrightarrow>
        (\<exists>e. f = ThrownException e) \<and> \<not> ts_threadActive (su_scheduler su) \<and> ts_taskList (su_scheduler su) = [])"
proof -
  obtain r calls out where p: "configureSystemPriority k = (r, calls, out)" using prod_cases3 by blast
  obtain ok calls' out' where t: "configureThreadPriority k 98 = (ok, calls', out')" using prod_cases3 by blast
  note defs = StartCompetition_def RobotInit_def Let_def Startup_new_def su_log_def p t mode_starts_disabled
    TaskScheduler_new_def TaskScheduler_start_def schedule_all TaskScheduler_run_def
  have "(\<exists>su. StartCompetition k now (Startup_new pn task timer boot) = Inr su) \<longleftrightarrow> (\<exists>pid. network_process k pid)"
    using system_priority_outcome[of k] by (cases r) (auto simp: defs)
  moreover have "\<exists>e. f = ThrownException e" if "r = Inl f" for f
    using p that by (auto simp: configureSystemPriority_def s_exec_def stoi_def Let_def split: option.splits sum.splits if_splits)
  ultimately show ?thesis by (cases r) (auto simp: defs)
qed

definition example_os :: os where
  "example_os = \<lparr>os_pipe = Some (''412'' @ [NEWLINE]), os_setscheduler = \<lambda>pid priority. True, os_policy = \<lambda>pid. SCHED_FIFO,
     os_param = \<lambda>pid. None, os_unset = 7, os_thread = \<lambda>priority. True, os_system = \<lambda>cmd. 0\<rparr>"

theorem robot_starts_whole_witness:
  "(case StartCompetition example_os 2000000 (Startup_new example_names example_task (RTTimer_new 0) 0) of
     Inl f \<Rightarrow> False
   | Inr su \<Rightarrow> ts_threadActive (su_scheduler su) \<and> length (ts_taskList (su_scheduler su)) = 12)
   \<and> StartCompetition (example_os\<lparr>os_pipe := Some []\<rparr>) 2000000 (Startup_new example_names example_task (RTTimer_new 0) 0)
       = Inl (ThrownException ''stoi'')"
proof -
  have "stoi (c_string (read_pipe (''412'' @ [NEWLINE]))) = Inr 412" by code_simp
  then have "network_process example_os 412" by (simp add: network_process_def example_os_def)
  then obtain su where su: "StartCompetition example_os 2000000 (Startup_new example_names example_task (RTTimer_new 0) 0) = Inr su"
    using robot_starts_whole[of example_os 2000000 example_names example_task "RTTimer_new 0" 0] by blast
  then have "ts_threadActive (su_scheduler su)" "ts_taskList (su_scheduler su) = RobotInit_tasks"
    using robot_starts_whole[of example_os 2000000 example_names example_task "RTTimer_new 0" 0] by blast+
  moreover have "length RobotInit_tasks = 12" by code_simp
  ultimately show ?thesis
    using su by (simp add: StartCompetition_def RobotInit_def priority_process_missing Let_def)
qed

text \<open>The constructor holds the program back for two seconds, whatever the reset of the CAN bus says, and sets
  the crash handler to end the process at once, with a trace of ten frames.\<close>

lemma robot_handler_set: "robot_handler = Some dh \<Longrightarrow>
    parent_end dh = ExitAtOnce \<and> dh_frames_count dh = 10 \<and> dh_cut_common_path_root dh \<and> dh_cut_relative_paths dh
    \<and> \<not> dh_color_output dh"
  by (auto simp: robot_handler_def set_frames_count_def DeathHandler_defaults_def parent_end_def setter_defs)

text \<open>Whatever crashes the robot program, a report that can be made is made, and the program ends at once.\<close>

lemma robot_crash_ends:
  assumes "robot_handler = Some dh" and "system_answers dh e exe w ans" and "0 \<le> sig" and "sig < 2147483648"
  shows "snd (HandleSignal dh e sig m) = Ended ExitAtOnce"
  using report_made[OF assms(2-4)] robot_handler_set[OF assms(1)] by simp

lemma sample_handler_robot: "robot_handler = Some sample_handler"
  by (simp add: robot_handler_def sample_handler_def set_frames_count_def setter_defs DeathHandler_defaults_def)

theorem constructor_waits:
  assumes "\<And>a. a \<le> wait_for_alarm a" and "Robot_constructor k wait_for_alarm startTime now = Some r"
  shows "1999849 < real (unat (rm_clock r)) - real (unat now)
    \<and> parent_end (rm_handler r) = ExitAtOnce \<and> dh_frames_count (rm_handler r) = 10"
proof -
  let ?trc = "ThreadRateControl_start now (ThreadRateControl_new now)"
  obtain wake trc' where d: "doRateControl wait_for_alarm now 2000 ?trc = Some (wake, trc')"
    and r: "rm_clock r = wake" "robot_handler = Some (rm_handler r)"
    using assms(2) by (auto simp: Robot_constructor_def Let_def resetCANivore_def split: option.splits)
  have "tt_startTimeuS (rc_eTimer ?trc) = now"
    by (simp add: ThreadRateControl_start_def ThreadRateControl_new_def TaskTimer_start_def)
  then show ?thesis using rate_control_period[OF assms(1) _ d] r(1) robot_handler_set[OF r(2)] by simp
qed

end
