(* ===== verification/Spec2Isabelle.thy ===== *)
theory Spec2Isabelle
  imports CK_Prelude Std_Map External_Control CK_Math Value_Ramper Drive_Helper Timers Task_Scheduler
    Iterative_Robot Network_Manager Phoenix_Helper Device_Registry Motor_Manager Solenoid_Manager
    Sensor_Drivers Sensor_Managers Proto_Diff Motor_Config Motor_Values CANdle_Manager LED_Task
    Failover_Messages Failover_Subsystems Robot Robot_Handover
    CAN_Device LED_Controller Drivetrain_Failover Sensor_Config Send_Tasks Robot_Loop CK_Logger Robot_Timing
    Motor_Handover Robot_System System_Safety System_Timing System_Sensors
    Robot_Threads Motor_Threads System_Helper Crash_Memory Death_Handler Crash_Trace
    Crash_Report Robot_Startup
begin

text \<open>
  A verification development for CKRIOPassthru, the C++ program on the roboRIO of team 195's robot. The
  robot is normally controlled by a coprocessor; this program passes its messages to the hardware,
  reports the state of the hardware back, and drives the robot on its own when the coprocessor falls
  silent. File names are under \<open>src/src/main/\<close>.

  How the program works. A receiver puts the latest message of each group in a mailbox
  (\<open>NetworkManager\<close>) and loads a dead-man counter (\<open>ExternalControlManager\<close>). Tasks run by a
  scheduler (\<open>TaskScheduler\<close>) take messages from the mailbox: a configuration or control message that
  names a device registers it with its manager, which reloads the heartbeat of the device; a device no
  longer named is deleted when its heartbeat runs out. Other tasks report the devices to the coprocessor.
  The main loop (\<open>TimedRobot\<close>, \<open>IterativeRobotBase\<close>) calls the mode callbacks of \<open>Robot\<close>, which run
  the failover code (\<open>RobotFailover\<close> and its subsystems) when the counter is zero. The failover code
  fills in the same messages the coprocessor would send and publishes them to the same mailbox.

  Theories and sources.
  \<^item> Shared: \<open>CK_Prelude\<close> (machine integers, doubles with NaN and infinities, faults, list and word
    lemmas) and \<open>Std_Map\<close> (\<open>std::map\<close> in key order, interface \<open>kv_store\<close>).
  \<^item> Communication: \<open>External_Control\<close> (\<open>cpp/ExternalControlManager.cpp\<close>), \<open>Network_Manager\<close>
    (\<open>cpp/NetworkManager.cpp\<close>), \<open>Send_Tasks\<close> (\<open>cpp/tasks/Send*DataTask.cpp\<close>, \<open>cpp/RobotDataHelper.cpp\<close>;
    interface \<open>reporting_task\<close>), \<open>CAN_Device\<close> (\<open>cpp/CKCANServer.cpp\<close>, \<open>CKCANDevice.hpp\<close>),
    \<open>CK_Logger\<close> (\<open>cpp/utils/CKLogger.cpp\<close>).
  \<^item> Time: \<open>Timers\<close> (\<open>cpp/utils/*Timer.cpp\<close>, \<open>ThreadRateControl\<close>, \<open>CachedValue.hpp\<close>), \<open>Task_Scheduler\<close>
    (\<open>cpp/utils/TaskScheduler.cpp\<close>), \<open>Robot_Loop\<close> (\<open>cpp/utils/ckrobot/TimedRobot.cpp\<close> and the task list
    of \<open>cpp/Robot.cpp\<close>), \<open>Iterative_Robot\<close> (\<open>cpp/utils/ckrobot/IterativeRobotBase.cpp\<close>).
  \<^item> Devices: \<open>Device_Registry\<close> holds the heartbeat loop and the contract \<open>device_registry\<close>, extended by
    \<open>heartbeat_table\<close>; \<open>Motor_Manager\<close>, \<open>Solenoid_Manager\<close>, \<open>Sensor_Managers\<close> and \<open>CANdle_Manager\<close>
    interpret it on the five managers; \<open>Phoenix_Helper\<close>, \<open>Sensor_Drivers\<close>, \<open>LED_Controller\<close> and
    \<open>Solenoid_Manager\<close> hold the drivers.
  \<^item> Configuration and control: \<open>Proto_Diff\<close> (differential updates), \<open>Motor_Config\<close>, \<open>Motor_Values\<close>,
    \<open>Sensor_Config\<close> (interface \<open>config_step\<close>) and \<open>LED_Task\<close>, each the task of that name under
    \<open>cpp/tasks/\<close>; the solenoid task is in \<open>Solenoid_Manager\<close>.
  \<^item> Failover: \<open>Failover_Messages\<close>, \<open>Failover_Subsystems\<close>, \<open>Drivetrain_Failover\<close>, \<open>Drive_Helper\<close>,
    \<open>Value_Ramper\<close> (\<open>cpp/failover/\<close>) and \<open>CK_Math\<close> (\<open>include/utils/CKMath.hpp\<close>).
  \<^item> The robot: \<open>Robot\<close> (\<open>cpp/Robot.cpp\<close> and the small tasks, as a step relation \<open>robot_step\<close> in which
    callbacks and tasks interleave), \<open>Robot_Handover\<close> (what holds in every reachable state),
    \<open>Motor_Handover\<close> (the motors across the hand-over), \<open>Robot_Threads\<close> (the main loop and the scheduler
    in finer steps, one for each access to what they share), \<open>Motor_Threads\<close> (the motors in those steps) and \<open>Robot_Timing\<close> (passes of the scheduler
    that run the tasks of the robot, with their clocks).
  \<^item> The whole program: \<open>Robot_System\<close> (the twelve tasks of \<open>RobotInit\<close>, on the robot with its IMUs and
    match data, run by \<open>TaskScheduler::run\<close> with the exceptions they really throw, between the calls
    of the main loop and of \<open>RobotDataHelper\<close>), \<open>System_Safety\<close> (what can crash it and what an
    exception costs), \<open>System_Timing\<close> (the hand-over in real time), \<open>System_Sensors\<close> (the IMUs),
    \<open>System_Helper\<close> (\<open>cpp/utils/SystemHelper.cpp\<close>), \<open>Crash_Memory\<close>, \<open>Death_Handler\<close>,
    \<open>Crash_Trace\<close> and \<open>Crash_Report\<close> (\<open>cpp/utils/death_handler.cpp\<close>: its memory as a byte array, the settings and the
    first line, the stack trace with the child and the parent of \<open>HandleSignal\<close>, and what they put out) and \<open>Robot_Startup\<close> (the constructor, \<open>RobotInit\<close> and the
    thread of the scheduler, up to the state the runs start from).
    The encoder and solenoid report tasks are not in it, as \<open>RobotInit\<close> does not schedule them; the
    encoder registry therefore stays empty in every run, and the motor configuration is given an
    empty one.

  How the code is translated. An object is a record, a singleton the value that is threaded through; an
  enumeration is a datatype with a constructor for the values it does not name; integers are words of
  their width; \<open>double\<close> is real, or \<open>cdouble\<close> where the code tests for NaN and infinities, so rounding is
  not modelled. A pointer into a message is an index. Every operation returns its new state; an
  exception, a null dereference or undefined behaviour is the value \<open>Inl\<close> of a fault. A call on a
  device is an entry of a log, and what the n-th call answers is the parameter \<open>resp\<close>.
  What is not in the repository is a parameter: the parsers, serialisers and accessors protobuf
  generates, the CTRE, WPILib and HAL libraries, and the sockets. A mutex is not modelled where it makes
  each operation atomic; where its holder sleeps with it (\<open>CKCANServer\<close>) it is part of the state.

  What the lemmas show.
  \<^item> The whole program (C1, C2, C8, C20, C30): it comes up whole or not at all; in every run of the
    twelve tasks, with any messages, devices, exceptions and interleaved callbacks, the failover code
    takes over a second after the coprocessor falls silent and the motors outlive the change; as long as
    the follower and solenoid commands received are ones the tasks have no undefined behaviour on, only
    a report too large for its buffer and a configuration that changes the remote encoder of a motor can
    crash it; only the solenoid task throws, which costs at most one pass for each solenoid message that
    comes; an IMU, once registered, stays.
  \<^item> Threads (C3, C4, C5, C10, C19): the invariant, the take-over, the release and the motors that live
    through the change, for every interleaving within callbacks and tasks, and the race that costs the
    coprocessor its first command.
  \<^item> Hand-over (\<open>handover_keeps_motors\<close>, C6, C7, C12, C18, C31 to C33): the failover code takes over after the silence of
    the coprocessor (in real time, after 0.96 to 1 second), releases when it speaks, moves neither arm nor
    intake, keeps the motors alive over any number of its passes, and what it publishes in each mode;
    among it that old joystick commands stay published in autonomous mode.
  \<^item> Devices (C11, C13, and \<open>solenoid_lifetime\<close>): a device lives exactly as long as its heartbeat, from any sequence of
    registrations and beats.
  \<^item> Configuration (C14, C22, C25, C29, C34, C40): which calls a message leads to, that
    configuration settles, that differential updates agree with full ones, and where they do not.
  \<^item> Commands (C15, C35): only admissible commands reach motors.
  \<^item> Time and order (C9, C16, C23, C24, C38): each pass of the scheduler and of the main loop ends and runs
    what is due in order, and deadlines do not drift; the burst at start-up.
  \<^item> Communication (C21, C26, C27, C36, and \<open>status_buffer_overflow\<close>): the mailbox, the packets and the reports, with the input
    that breaks them.
  \<^item> Assumptions on protobuf, where a theorem has one, are named: \<open>failover_fits\<close> (the fourteen motor
    commands of the failover code fit its 16 KiB buffer), \<open>reads_back\<close> and \<open>reads_back_solenoids\<close> (the
    parsers read its commands back). \<open>System_Safety\<close> has a wire format that meets them and a run of the
    program that crashes in it.
  \<^item> Tank drivetrain (C28): bounds of the outputs over every run.
  \<^item> Crashes (C17, C37, C39): the report of a crash is a function on strings that the handler's arithmetic in its
    64 KiB realises, for every system that answers; and the answer that leaves the process stopped.

  Bounds and fuel. No definition carries fuel. Loops are structural recursions or functions with a
  measure (the retries count to a limit, a Morse message is cut at four packets, \<open>normalizeYaw\<close> by the
  distance to the interval); the inner loop of \<open>TimedRobot\<close> need not end and is a partial function
  to \<open>option\<close>, and C24 shows that it returns for positive periods. Words wrap; theorems that need a
  64-bit clock not to wrap say so.

  The layers of the composition. A run of the whole program (\<open>system_run\<close>) is a run of the robot's step
  relation under the schedule of \<open>Task_Scheduler\<close> (\<open>system_run_refines\<close>), so the invariants and the
  bounds proved of the relation hold of the program without a second proof. What the environment does
  in a pass (messages, locks, clocks, answers of devices, calls of other threads) is a \<open>pass_env\<close>; calls
  of other threads fall between tasks there. That they also fall within tasks is what \<open>Robot_Threads\<close>
  adds: every step of the relation is a run of the threads (\<open>steps_of_threads\<close>), which can do more, and
  the invariant and the hand-over are proved of them again. What a thread does between two accesses to
  the mailbox, the counter or the control mode is one step, as no other thread touches its data; the
  positions the failover code reads from the motors are a parameter.

  Not modelled: the branches of \<open>cpp/utils/death_handler.cpp\<close> for macOS, and the race in it between the parent that
  stops itself and the child that resumes it (the child is taken to be the slower), \<open>cpp/utils/drivers/LEDMorseController.cpp\<close> (commented out), the default callbacks of
  \<open>IterativeRobotBase\<close>, which \<open>Robot\<close> overrides, the timing reporter tasks (console output), \<open>DifferentialMotorConfigUpdateReporter\<close> (never
  instantiated) and \<open>TaskTimingManager\<close> (compiled out). The vendored
  headers (protobuf, ZeroMQ) are third-party; of them only the field comparison of \<open>MessageDifferencer\<close> is
  modelled, as the updates rest on it.
\<close>

end
